(* ===== verification/Beep_Prelude.thy ===== *)
theory Beep_Prelude
  imports "HOL-Library.Word"
begin

text \<open>
  Shared vocabulary of the development: the machine integer types of the C sources, the
  big-endian layout of 16 and 32 bit fields (the STM8 and the MIPS host are both big-endian),
  \<open>memcpy\<close> into and out of a byte buffer, the named collections the component proofs
  use, and the generic facts on lists, words and step relations they share.
\<close>

unbundle bit_operations_syntax

type_synonym u8 = "8 word"
type_synonym u16 = "16 word"
type_synonym u32 = "32 word"
type_synonym bytes = "8 word list"

named_theorems proto_defs \<open>numeric constants of the bootloader protocol\<close>
named_theorems layout_simps \<open>encoding and decoding of wire structures\<close>

section \<open>Big-endian fields\<close>

definition be16 :: "u16 \<Rightarrow> bytes" where
  "be16 w = [ucast (drop_bit 8 w), ucast w]"

definition be32 :: "u32 \<Rightarrow> bytes" where
  "be32 w = [ucast (drop_bit 24 w), ucast (drop_bit 16 w), ucast (drop_bit 8 w), ucast w]"

fun of_be16 :: "bytes \<Rightarrow> u16" where
  "of_be16 (a # b # _) = push_bit 8 (ucast a) OR ucast b"
| "of_be16 _ = 0"

fun of_be32 :: "bytes \<Rightarrow> u32" where
  "of_be32 (a # b # c # d # _) =
     push_bit 24 (ucast a) OR push_bit 16 (ucast b) OR push_bit 8 (ucast c) OR ucast d"
| "of_be32 _ = 0"

lemma length_be16 [simp]: "length (be16 w) = 2"
  by (simp add: be16_def)

lemma length_be32 [simp]: "length (be32 w) = 4"
  by (simp add: be32_def)

lemma of_be16_be16 [simp, layout_simps]: "of_be16 (be16 w @ xs) = w"
proof -
  have "push_bit 8 (ucast (ucast (drop_bit 8 w) :: u8)) OR ucast (ucast w :: u8) = w"
    by (rule bit_word_eqI) (auto simp: bit_simps)
  then show ?thesis by (simp add: be16_def)
qed

lemma of_be16_be16_exact [simp, layout_simps]: "of_be16 (be16 w) = w"
  using of_be16_be16 [of w "[]"] by simp

lemma of_be32_be32 [simp, layout_simps]: "of_be32 (be32 w @ xs) = w"
proof -
  let ?e = "push_bit 24 (ucast (ucast (drop_bit 24 w) :: u8)) OR push_bit 16 (ucast (ucast (drop_bit 16 w) :: u8))
      OR push_bit 8 (ucast (ucast (drop_bit 8 w) :: u8)) OR ucast (ucast w :: u8) :: u32"
  have "?e = w"
  proof (rule bit_word_eqI)
    fix n assume n: "n < LENGTH(32)"
    consider "n < 8" | "8 \<le> n" "n < 16" | "16 \<le> n" "n < 24" | "24 \<le> n" by linarith
    then show "bit ?e n = bit w n" using n by cases (simp_all add: bit_simps less_diff_conv2)
  qed
  then show ?thesis by (simp add: be32_def)
qed

lemma of_be32_be32_exact [simp, layout_simps]: "of_be32 (be32 w) = w"
  using of_be32_be32 [of w "[]"] by simp

section \<open>Copying into and out of a buffer\<close>

definition put_at :: "nat \<Rightarrow> 'a list \<Rightarrow> 'a list \<Rightarrow> 'a list" where
  "put_at n xs buf = take n buf @ xs @ drop (n + length xs) buf"

definition get_at :: "nat \<Rightarrow> nat \<Rightarrow> 'a list \<Rightarrow> 'a list" where
  "get_at n k buf = take k (drop n buf)"

lemma length_put_at [simp]: "n + length xs \<le> length buf \<Longrightarrow> length (put_at n xs buf) = length buf"
  by (simp add: put_at_def)

lemma put_at_nth:
  assumes "n + length xs \<le> length buf"
  shows "put_at n xs buf ! i = (if n \<le> i \<and> i < n + length xs then xs ! (i - n) else buf ! i)"
proof (cases "i < n")
  case True
  then show ?thesis using assms by (simp add: put_at_def nth_append)
next
  case False
  then show ?thesis using assms by (auto simp: put_at_def nth_append)
qed

lemma get_put_same [simp]:
  "n + length xs \<le> length buf \<Longrightarrow> k = length xs \<Longrightarrow> get_at n k (put_at n xs buf) = xs"
  by (simp add: put_at_def get_at_def)

lemma take_put_at_0 [simp]: "k = length xs \<Longrightarrow> take k (put_at 0 xs buf) = xs"
  by (simp add: put_at_def)

lemma get_put_before:
  "n + k \<le> m \<Longrightarrow> m + length xs \<le> length buf \<Longrightarrow> get_at n k (put_at m xs buf) = get_at n k buf"
  by (rule nth_equalityI) (auto simp: get_at_def put_at_nth)

lemma length_get_at [simp]: "n + k \<le> length buf \<Longrightarrow> length (get_at n k buf) = k"
  by (simp add: get_at_def)

lemma get_at_nth: "n + k \<le> length buf \<Longrightarrow> i < k \<Longrightarrow> get_at n k buf ! i = buf ! (n + i)"
  by (simp add: get_at_def)

section \<open>Words\<close>

lemma xor_word_eq_0_iff [simp]: "(a :: 'a :: len word) XOR b = 0 \<longleftrightarrow> a = b"
proof
  assume "a XOR b = 0"
  then have "(a XOR b) XOR b = b" by simp
  then show "a = b" by (simp add: xor.assoc)
qed simp

lemma word_xor_cancel_left [simp]: "(a :: 'a :: len word) XOR b = a XOR c \<longleftrightarrow> b = c"
  by (metis xor.assoc xor_self_eq xor.left_neutral)

lemma unat_less_256 [simp]: "unat (x :: u8) < 256"
  using unsigned_less [of x, where ?'a = nat] by simp

lemma word_and_exp: "(a :: 'a :: len word) AND 2 ^ n = (if bit a n then 2 ^ n else 0)"
  by (rule bit_word_eqI) (auto simp: bit_simps)

lemma ucast_add_of_nat:
  "LENGTH('b) \<le> LENGTH('a) \<Longrightarrow>
   (ucast (a + of_nat i :: 'a :: len word) :: 'b :: len word) = ucast a + of_nat i"
  by transfer (simp add: take_bit_eq_mod mod_mod_cancel le_imp_power_dvd mod_simps,
    metis mod_add_left_eq mod_mod_cancel le_imp_power_dvd)

section \<open>Sequences of guarded updates\<close>

lemma let_keeps: "P s \<Longrightarrow> (\<And>t. P t \<Longrightarrow> P (f t)) \<Longrightarrow> P (let t = s in f t)"
  by simp

lemma if_keeps: "P a \<Longrightarrow> P b \<Longrightarrow> P (if c then a else b)"
  by simp

section \<open>Runs of a step function\<close>

text \<open>
  A machine is a step function driven by inputs from outside; an invariant is established at
  the start and kept by every step, so it holds after every run.
\<close>

fun run :: "('i \<Rightarrow> 's \<Rightarrow> 's) \<Rightarrow> 'i list \<Rightarrow> 's \<Rightarrow> 's" where
  "run step [] s = s"
| "run step (i # is) s = run step is (step i s)"

lemma run_append: "run step (is @ js) s = run step js (run step is s)"
  by (induction "is" arbitrary: s) auto

locale machine_invariant =
  fixes step :: "'i \<Rightarrow> 's \<Rightarrow> 's"
    and inv :: "'s \<Rightarrow> bool"
  assumes step_inv: "inv s \<Longrightarrow> inv (step i s)"
begin

lemma run_inv: "inv s \<Longrightarrow> inv (run step is s)"
  by (induction "is" arbitrary: s) (auto intro: step_inv)

end

section \<open>Refinement of a specification\<close>

text \<open>
  A component is called through operations that return a result and a new state, or stop the
  program (\<open>None\<close>). It refines a specification when every call the specification allows goes on
  with the specified result.
\<close>

fun call_run :: "('op \<Rightarrow> 'c \<Rightarrow> ('r \<times> 'c) option) \<Rightarrow> 'op list \<Rightarrow> 'c \<Rightarrow> ('r list \<times> 'c) option" where
  "call_run call [] c = Some ([], c)"
| "call_run call (x # xs) c = (case call x c of None \<Rightarrow> None
     | Some (r, c') \<Rightarrow> map_option (\<lambda>(rs, c''). (r # rs, c'')) (call_run call xs c'))"

fun spec_run :: "('op \<Rightarrow> 'a \<Rightarrow> 'r \<times> 'a) \<Rightarrow> 'op list \<Rightarrow> 'a \<Rightarrow> 'r list \<times> 'a" where
  "spec_run spec [] a = ([], a)"
| "spec_run spec (x # xs) a = (let (r, a') = spec x a; (rs, a'') = spec_run spec xs a' in (r # rs, a''))"

fun spec_allows :: "('op \<Rightarrow> 'a \<Rightarrow> bool) \<Rightarrow> ('op \<Rightarrow> 'a \<Rightarrow> 'r \<times> 'a) \<Rightarrow> 'op list \<Rightarrow> 'a \<Rightarrow> bool" where
  "spec_allows pre spec [] a = True"
| "spec_allows pre spec (x # xs) a = (pre x a \<and> spec_allows pre spec xs (snd (spec x a)))"

locale call_refinement =
  fixes rel :: "'c \<Rightarrow> 'a \<Rightarrow> bool"
    and call :: "'op \<Rightarrow> 'c \<Rightarrow> ('r \<times> 'c) option"
    and spec :: "'op \<Rightarrow> 'a \<Rightarrow> 'r \<times> 'a"
    and pre :: "'op \<Rightarrow> 'a \<Rightarrow> bool"
  assumes call_refines: "rel c a \<Longrightarrow> pre x a \<Longrightarrow> \<exists>c'. call x c = Some (fst (spec x a), c') \<and> rel c' (snd (spec x a))"
begin

lemma run_refines:
  "rel c a \<Longrightarrow> spec_allows pre spec xs a \<Longrightarrow>
   \<exists>c'. call_run call xs c = Some (fst (spec_run spec xs a), c') \<and> rel c' (snd (spec_run spec xs a))"
proof (induction xs arbitrary: c a)
  case (Cons x xs)
  from call_refines [of c a x] Cons.prems obtain c' where
    c': "call x c = Some (fst (spec x a), c')" "rel c' (snd (spec x a))" by auto
  from Cons.IH [OF c'(2)] Cons.prems(2) obtain c'' where
    "call_run call xs c' = Some (fst (spec_run spec xs (snd (spec x a))), c'')" "rel c'' (snd (spec_run spec xs (snd (spec x a))))"
    by auto
  then show ?case using c'(1) by (auto simp: case_prod_unfold Let_def)
qed simp

end

end
