(* ===== verification/Iomcu_Checksum.thy ===== *)
theory Iomcu_Checksum
  imports Beep_Prelude
begin

text \<open>
  The checksums of \<open>iomcu/common/iomcu_checksum.c\<close>: CRC-8 (polynomial 0xd5) over every
  I2C message, CRC-16 (polynomial 0x8005) over the application image. Both are instances of one
  interface, a linear and invertible feedback register; error detection is proved once for it.
\<close>

definition IOMCU_CRC8_INIT :: u8 where "IOMCU_CRC8_INIT = 0xff"
definition IOMCU_CRC16_INIT :: u16 where "IOMCU_CRC16_INIT = 0x0000"

section \<open>The two registers\<close>

definition crc8_bit :: "u8 \<Rightarrow> u8" where
  "crc8_bit crc = (if crc AND 0x80 \<noteq> 0 then push_bit 1 crc XOR 0xd5 else push_bit 1 crc)"

definition crc8_byte :: "u8 \<Rightarrow> u8 \<Rightarrow> u8" where
  "crc8_byte crc b = (crc8_bit ^^ 8) (crc XOR b)"

fun crc8 :: "u8 \<Rightarrow> bytes \<Rightarrow> u8" where
  "crc8 crc [] = crc"
| "crc8 crc (b # bs) = crc8 (crc8_byte crc b) bs"

definition crc16_bit :: "u16 \<Rightarrow> u16" where
  "crc16_bit crc = (if crc AND 0x8000 \<noteq> 0 then push_bit 1 crc XOR 0x8005 else push_bit 1 crc)"

definition crc16_byte :: "u16 \<Rightarrow> u8 \<Rightarrow> u16" where
  "crc16_byte crc b = (crc16_bit ^^ 8) (crc XOR push_bit 8 (ucast b))"

fun crc16 :: "u16 \<Rightarrow> bytes \<Rightarrow> u16" where
  "crc16 crc [] = crc"
| "crc16 crc (b # bs) = crc16 (crc16_byte crc b) bs"

text \<open>The checksum byte of a message and its check; \<open>len\<close> of the C code is the list's length.\<close>

definition i2c_message_checksum :: "bytes \<Rightarrow> u8 \<Rightarrow> u8" where
  "i2c_message_checksum bs regaddr = crc8 (IOMCU_CRC8_INIT + regaddr) bs"

section \<open>Error detection of a linear feedback register\<close>

locale lfsr =
  fixes step :: "'a :: len word \<Rightarrow> 'a word"
    and inject :: "u8 \<Rightarrow> 'a word"
    and byte_step :: "'a word \<Rightarrow> u8 \<Rightarrow> 'a word"
  assumes step_linear: "step (a XOR b) = step a XOR step b"
    and step_kernel: "step a = 0 \<Longrightarrow> a = 0"
    and inject_linear: "inject (x XOR y) = inject x XOR inject y"
    and inject_kernel: "inject x = 0 \<Longrightarrow> x = 0"
    and byte_step: "byte_step a x = (step ^^ 8) (a XOR inject x)"
begin

lemma step_inj: "step a = step b \<longleftrightarrow> a = b"
proof
  assume "step a = step b"
  then have "step (a XOR b) = 0" by (simp add: step_linear)
  then show "a = b" using step_kernel [of "a XOR b"] by simp
qed simp

lemma inject_inj: "inject x = inject y \<longleftrightarrow> x = y"
proof
  assume "inject x = inject y"
  then have "inject (x XOR y) = 0" by (simp add: inject_linear)
  then show "x = y" using inject_kernel [of "x XOR y"] by simp
qed simp

lemma steps_inj: "(step ^^ n) a = (step ^^ n) b \<longleftrightarrow> a = b"
  by (induction n) (auto simp: step_inj)

lemma steps_linear: "(step ^^ n) (a XOR b) = (step ^^ n) a XOR (step ^^ n) b"
  by (induction n) (auto simp: step_linear)

lemma byte_step_inj: "byte_step c b = byte_step d b \<longleftrightarrow> c = d"
  by (simp add: byte_step steps_inj xor.commute [of _ "inject b"])

lemma byte_step_inj_byte: "byte_step c x = byte_step c y \<longleftrightarrow> x = y"
  by (simp add: byte_step steps_inj inject_inj)

lemma feed_inj: "foldl byte_step c bs = foldl byte_step d bs \<longleftrightarrow> c = d"
  by (induction bs arbitrary: c d) (auto simp: byte_step_inj)

lemma feed_detects_byte:
  "foldl byte_step c (xs @ x # ys) = foldl byte_step c (xs @ y # ys) \<longleftrightarrow> x = y"
  by (simp add: feed_inj byte_step_inj_byte)

lemma byte_step_linear: "byte_step (c XOR d) (x XOR y) = byte_step c x XOR byte_step d y"
proof -
  have "(c XOR d) XOR (inject x XOR inject y) = (c XOR inject x) XOR (d XOR inject y)"
    by (simp add: xor.assoc xor.left_commute)
  then show ?thesis by (simp add: byte_step inject_linear steps_linear)
qed

lemma feed_linear:
  "length xs = length ys \<Longrightarrow>
     foldl byte_step (c XOR d) (map2 (XOR) xs ys) = foldl byte_step c xs XOR foldl byte_step d ys"
  by (induction xs ys arbitrary: c d rule: list_induct2) (auto simp: byte_step_linear)

end

lemma crc8_foldl: "crc8 c bs = foldl crc8_byte c bs"
  by (induction bs arbitrary: c) auto

lemma crc16_foldl: "crc16 c bs = foldl crc16_byte c bs"
  by (induction bs arbitrary: c) auto

lemma crc8_append: "crc8 c (xs @ ys) = crc8 (crc8 c xs) ys"
  by (simp add: crc8_foldl)

lemma crc16_append: "crc16 c (xs @ ys) = crc16 (crc16 c xs) ys"
  by (simp add: crc16_foldl)

text \<open>The eight shifts of a byte written out, for evaluation on concrete messages.\<close>

lemma crc8_byte_unfold:
  "crc8_byte c b = crc8_bit (crc8_bit (crc8_bit (crc8_bit (crc8_bit (crc8_bit (crc8_bit (crc8_bit (c XOR b))))))))"
  by (simp add: crc8_byte_def numeral_eq_Suc)

lemma crc16_byte_unfold:
  "crc16_byte c b = crc16_bit (crc16_bit (crc16_bit (crc16_bit (crc16_bit (crc16_bit (crc16_bit (crc16_bit
     (c XOR push_bit 8 (ucast b)))))))))"
  by (simp add: crc16_byte_def numeral_eq_Suc)

lemma crc16_zeros [simp]: "crc16 0 (replicate n 0) = 0"
  by (induction n) (simp_all add: crc16_byte_unfold crc16_bit_def)

text \<open>One shift of a register with an odd polynomial, for any width.\<close>

lemma shift_kernel:
  fixes a p :: "'a :: len word"
  assumes "odd p" and z: "(if bit a (LENGTH('a) - 1) then push_bit 1 a XOR p else push_bit 1 a) = 0"
  shows "a = 0"
proof -
  have top: "\<not> bit a (LENGTH('a) - 1)"
  proof
    assume "bit a (LENGTH('a) - 1)"
    with z have "push_bit 1 a = p" by simp
    with \<open>odd p\<close> show False by auto
  qed
  with z have z: "push_bit 1 a = 0" by simp
  show "a = 0"
  proof (rule bit_word_eqI)
    fix n assume n: "n < LENGTH('a)"
    show "bit a n = bit 0 n"
    proof (cases "n = LENGTH('a) - 1")
      case True with top show ?thesis by simp
    next
      case False
      have "bit (push_bit 1 a) (Suc n) = bit (0 :: 'a word) (Suc n)" unfolding z ..
      with False n show ?thesis by (simp only: bit_push_bit_iff) simp
    qed
  qed
qed

lemma shift_linear:
  fixes a b p :: "'a :: len word"
  shows "(if bit (a XOR b) n then push_bit 1 (a XOR b) XOR p else push_bit 1 (a XOR b)) =
     (if bit a n then push_bit 1 a XOR p else push_bit 1 a) XOR
     (if bit b n then push_bit 1 b XOR p else push_bit 1 b)"
  by (auto simp: bit_xor_iff push_bit_xor ac_simps xor.left_commute)

lemma crc8_bit_alt: "crc8_bit c = (if bit c (LENGTH(8) - 1) then push_bit 1 c XOR 0xd5 else push_bit 1 c)"
  using and_exp_eq_0_iff_not_bit [of c 7] by (simp add: crc8_bit_def)

lemma crc16_bit_alt: "crc16_bit c = (if bit c (LENGTH(16) - 1) then push_bit 1 c XOR 0x8005 else push_bit 1 c)"
  using and_exp_eq_0_iff_not_bit [of c 15] by (simp add: crc16_bit_def)

interpretation crc8_lfsr: lfsr crc8_bit "\<lambda>b. b" crc8_byte
proof unfold_locales
  show "crc8_bit (a XOR b) = crc8_bit a XOR crc8_bit b" for a b
    unfolding crc8_bit_alt by (rule shift_linear)
  show "a = 0" if "crc8_bit a = 0" for a
    using that unfolding crc8_bit_alt by (rule shift_kernel [rotated]) simp
qed (simp_all add: crc8_byte_def)

interpretation crc16_lfsr: lfsr crc16_bit "\<lambda>b. push_bit 8 (ucast b)" crc16_byte
proof unfold_locales
  show "crc16_bit (a XOR b) = crc16_bit a XOR crc16_bit b" for a b
    unfolding crc16_bit_alt by (rule shift_linear)
  show "a = 0" if "crc16_bit a = 0" for a
    using that unfolding crc16_bit_alt by (rule shift_kernel [rotated]) simp
  show "x = 0" if "push_bit 8 (ucast x) = (0 :: u16)" for x :: u8
  proof (rule bit_word_eqI)
    fix n assume "n < LENGTH(8)"
    moreover have "bit (push_bit 8 (ucast x) :: u16) (n + 8) = False" using that by simp
    ultimately show "bit x n = bit 0 n" by (simp add: bit_simps)
  qed
  show "push_bit 8 (ucast (x XOR y)) = (push_bit 8 (ucast x) XOR push_bit 8 (ucast y) :: u16)" for x y :: u8
    by (simp add: unsigned_xor_eq push_bit_xor)
qed (simp add: crc16_byte_def)

end
