(* ===== verification/Btldr_State.thy ===== *)
theory Btldr_State
  imports Iomcu_Checksum
begin

text \<open>
  The bootloader of the STM8L input controller: the register map and constants of
  \<open>iomcu/common/bootloader_proto.h\<close>, \<open>iomcu_shared.h\<close> and \<open>bootloader.h\<close> (for the
  STM8L15X_MD parts both board configurations build for), its global variables as one record,
  and the flash routines of \<open>bootloader/flash.c\<close>.

  Memory is the 16 bit address space of the part (\<open>MemoryAddressCast\<close> is \<open>uint16_t\<close>):
  EEPROM from 0x1000, program flash from 0x8000. \<open>flash_cr2\<close> holds the mode bits the code
  sets, \<open>dr_out\<close> the bytes it stores to the I2C data register, oldest first.
\<close>

section \<open>Constants\<close>

abbreviation I2C_BTLDR_ADDR :: u8 where "I2C_BTLDR_ADDR \<equiv> 0x22"

abbreviation I2C_BTLDR_REG_RW_MASK :: u8 where "I2C_BTLDR_REG_RW_MASK \<equiv> 0x80"
abbreviation I2C_BTLDR_REG_READ :: u8 where "I2C_BTLDR_REG_READ \<equiv> 0x00"
abbreviation I2C_BTLDR_REG_WRITE :: u8 where "I2C_BTLDR_REG_WRITE \<equiv> 0x80"

abbreviation I2C_BTLDR_REG_BTLDR_INFO :: u8 where "I2C_BTLDR_REG_BTLDR_INFO \<equiv> 0x00"
abbreviation I2C_BTLDR_REG_STATUS :: u8 where "I2C_BTLDR_REG_STATUS \<equiv> 0x01"
abbreviation I2C_BTLDR_REG_DEV_INFO :: u8 where "I2C_BTLDR_REG_DEV_INFO \<equiv> 0x02"
abbreviation I2C_BTLDR_REG_FLASH_INFO :: u8 where "I2C_BTLDR_REG_FLASH_INFO \<equiv> 0x03"
abbreviation I2C_BTLDR_REG_APP_INFO :: u8 where "I2C_BTLDR_REG_APP_INFO \<equiv> 0x04"
abbreviation I2C_BTLDR_REG_EEPROM_READ :: u8 where "I2C_BTLDR_REG_EEPROM_READ \<equiv> 0x05"
abbreviation I2C_BTLDR_REG_DATA_READ :: u8 where "I2C_BTLDR_REG_DATA_READ \<equiv> 0x06"
abbreviation I2C_BTLDR_REG_RESV_2 :: u8 where "I2C_BTLDR_REG_RESV_2 \<equiv> 0x7f"
abbreviation I2C_BTLDR_REG_START :: u8 where "I2C_BTLDR_REG_START \<equiv> 0x80"
abbreviation I2C_BTLDR_REG_WAIT :: u8 where "I2C_BTLDR_REG_WAIT \<equiv> 0x82"
abbreviation I2C_BTLDR_REG_APP_INFO_SET :: u8 where "I2C_BTLDR_REG_APP_INFO_SET \<equiv> 0x84"
abbreviation I2C_BTLDR_REG_EEPROM_READ_ADDR :: u8 where "I2C_BTLDR_REG_EEPROM_READ_ADDR \<equiv> 0x85"
abbreviation I2C_BTLDR_REG_DATA_READ_ADDR :: u8 where "I2C_BTLDR_REG_DATA_READ_ADDR \<equiv> 0x86"
abbreviation I2C_BTLDR_REG_EEPROM_WRITE_ADDR :: u8 where "I2C_BTLDR_REG_EEPROM_WRITE_ADDR \<equiv> 0x87"
abbreviation I2C_BTLDR_REG_EEPROM_WRITE :: u8 where "I2C_BTLDR_REG_EEPROM_WRITE \<equiv> 0x88"
abbreviation I2C_BTLDR_REG_DATA_WRITE_ADDR :: u8 where "I2C_BTLDR_REG_DATA_WRITE_ADDR \<equiv> 0x89"
abbreviation I2C_BTLDR_REG_DATA_WRITE :: u8 where "I2C_BTLDR_REG_DATA_WRITE \<equiv> 0x8a"
abbreviation I2C_BTLDR_REG_RESV :: u8 where "I2C_BTLDR_REG_RESV \<equiv> 0xff"

abbreviation I2C_BTLDR_REG_BTLDR_INFO_SIZE :: u8 where "I2C_BTLDR_REG_BTLDR_INFO_SIZE \<equiv> 8"
abbreviation I2C_BTLDR_REG_STATUS_SIZE :: u8 where "I2C_BTLDR_REG_STATUS_SIZE \<equiv> 1"
abbreviation I2C_BTLDR_REG_DEV_INFO_SIZE :: u8 where "I2C_BTLDR_REG_DEV_INFO_SIZE \<equiv> 26"
abbreviation I2C_BTLDR_REG_FLASH_INFO_SIZE :: u8 where "I2C_BTLDR_REG_FLASH_INFO_SIZE \<equiv> 28"
abbreviation I2C_BTLDR_REG_APP_INFO_SIZE :: u8 where "I2C_BTLDR_REG_APP_INFO_SIZE \<equiv> 11"
abbreviation I2C_BTLDR_REG_START_SIZE :: u8 where "I2C_BTLDR_REG_START_SIZE \<equiv> 4"
abbreviation I2C_BTLDR_REG_APP_INFO_SET_SIZE :: u8 where "I2C_BTLDR_REG_APP_INFO_SET_SIZE \<equiv> 9"
abbreviation I2C_BTLDR_REG_FLASH_RW_ADDR_SIZE :: u8 where "I2C_BTLDR_REG_FLASH_RW_ADDR_SIZE \<equiv> 4"

abbreviation I2C_BTLDR_INFO_SLAVE_ENDIAN :: u32 where "I2C_BTLDR_INFO_SLAVE_ENDIAN \<equiv> 0x87654321"
abbreviation I2C_BTLDR_INFO_PROTO_VERSION :: u16 where "I2C_BTLDR_INFO_PROTO_VERSION \<equiv> 2"
abbreviation BTLDR_VERSION :: u16 where "BTLDR_VERSION \<equiv> 5"

abbreviation I2C_BTLDR_TIME_UNIT_MASK :: u16 where "I2C_BTLDR_TIME_UNIT_MASK \<equiv> 0x8000"
abbreviation I2C_BTLDR_TIME_UNIT_US :: u16 where "I2C_BTLDR_TIME_UNIT_US \<equiv> 0x0000"
abbreviation I2C_BTLDR_TIME_UNIT_MS :: u16 where "I2C_BTLDR_TIME_UNIT_MS \<equiv> 0x8000"
abbreviation I2C_BTLDR_TIME_NUM_MASK :: u16 where "I2C_BTLDR_TIME_NUM_MASK \<equiv> 0x7fff"

abbreviation APP_STATUS_READY_MASK :: u8 where "APP_STATUS_READY_MASK \<equiv> 0x7f"
abbreviation APP_STATUS_READY_NA :: u8 where "APP_STATUS_READY_NA \<equiv> 0x00"
abbreviation APP_STATUS_READY_READY :: u8 where "APP_STATUS_READY_READY \<equiv> 0x01"
abbreviation APP_STATUS_READY_CRC_FAILED :: u8 where "APP_STATUS_READY_CRC_FAILED \<equiv> 0x02"
abbreviation APP_STATUS_READY_NO_RESET :: u8 where "APP_STATUS_READY_NO_RESET \<equiv> 0x03"
abbreviation APP_STATUS_READY_RESV :: u8 where "APP_STATUS_READY_RESV \<equiv> 0x7f"
abbreviation APP_STATUS_AUTOBOOT_MASK :: u8 where "APP_STATUS_AUTOBOOT_MASK \<equiv> 0x80"
abbreviation APP_STATUS_AUTOBOOT_YES :: u8 where "APP_STATUS_AUTOBOOT_YES \<equiv> 0x80"

abbreviation I2C_BTLDR_START_KEY_0 :: u8 where "I2C_BTLDR_START_KEY_0 \<equiv> 0xa4"
abbreviation I2C_BTLDR_START_KEY_1 :: u8 where "I2C_BTLDR_START_KEY_1 \<equiv> 0xaa"
abbreviation I2C_BTLDR_START_KEY_2 :: u8 where "I2C_BTLDR_START_KEY_2 \<equiv> 0xaa"
abbreviation I2C_BTLDR_START_KEY_3 :: u8 where "I2C_BTLDR_START_KEY_3 \<equiv> 0xc0"

abbreviation I2C_BTLDR_STATE_OK :: u8 where "I2C_BTLDR_STATE_OK \<equiv> 0x00"
abbreviation I2C_BTLDR_STATE_OVERFLOW :: u8 where "I2C_BTLDR_STATE_OVERFLOW \<equiv> 0x01"
abbreviation I2C_BTLDR_STATE_UNDERFLOW :: u8 where "I2C_BTLDR_STATE_UNDERFLOW \<equiv> 0x02"
abbreviation I2C_BTLDR_STATE_INVALID_REG :: u8 where "I2C_BTLDR_STATE_INVALID_REG \<equiv> 0x03"
abbreviation I2C_BTLDR_STATE_INVALID_I2C_SIZE :: u8 where "I2C_BTLDR_STATE_INVALID_I2C_SIZE \<equiv> 0x04"
abbreviation I2C_BTLDR_STATE_BAD_KEY :: u8 where "I2C_BTLDR_STATE_BAD_KEY \<equiv> 0x05"
abbreviation I2C_BTLDR_STATE_INVALID_BLOCK_SIZE :: u8 where "I2C_BTLDR_STATE_INVALID_BLOCK_SIZE \<equiv> 0x06"
abbreviation I2C_BTLDR_STATE_INVALID_ADDR :: u8 where "I2C_BTLDR_STATE_INVALID_ADDR \<equiv> 0x07"
abbreviation I2C_BTLDR_STATE_ACCESS_DENIED :: u8 where "I2C_BTLDR_STATE_ACCESS_DENIED \<equiv> 0x08"
abbreviation I2C_BTLDR_STATE_BUSY :: u8 where "I2C_BTLDR_STATE_BUSY \<equiv> 0x09"
abbreviation I2C_BTLDR_STATE_FLASH_INTERRUPTED :: u8 where "I2C_BTLDR_STATE_FLASH_INTERRUPTED \<equiv> 0x0a"
abbreviation I2C_BTLDR_STATE_CHECKSUM_FAILED :: u8 where "I2C_BTLDR_STATE_CHECKSUM_FAILED \<equiv> 0x0b"
abbreviation I2C_BTLDR_STATE_DATA_NOT_READY :: u8 where "I2C_BTLDR_STATE_DATA_NOT_READY \<equiv> 0x0c"
abbreviation I2C_BTLDR_STATE_FLASH_NOT_READY :: u8 where "I2C_BTLDR_STATE_FLASH_NOT_READY \<equiv> 0x0d"
abbreviation I2C_BTLDR_STATE_APP_NOT_READY :: u8 where "I2C_BTLDR_STATE_APP_NOT_READY \<equiv> 0x0e"
abbreviation I2C_BTLDR_STATE_COMM_ERROR :: u8 where "I2C_BTLDR_STATE_COMM_ERROR \<equiv> 0xff"

text \<open>
  Flash geometry of the STM8L15X_MD parts (\<open>stm8l15x_flash.h\<close>: 256 program blocks from
  0x8000, 8 EEPROM blocks from 0x1000, 128 bytes each). The first 64 program blocks and the
  first EEPROM block belong to the bootloader.
\<close>

abbreviation FLASH_BLOCK_SIZE :: nat where "FLASH_BLOCK_SIZE \<equiv> 0x80"
abbreviation FLASH_PROGRAM_START :: u32 where "FLASH_PROGRAM_START \<equiv> 0x8000"
abbreviation FLASH_DATA_EEPROM_START :: u32 where "FLASH_DATA_EEPROM_START \<equiv> 0x1000"

definition BTLDR_STM8L15X_EEPROM_BASE :: u32 where [proto_defs]:
  "BTLDR_STM8L15X_EEPROM_BASE = FLASH_DATA_EEPROM_START + 1 * 0x80"
definition BTLDR_STM8L15X_EEPROM_SIZE :: u32 where [proto_defs]:
  "BTLDR_STM8L15X_EEPROM_SIZE = (8 - 1) * 0x80"
definition BTLDR_STM8L15X_DATA_BASE :: u32 where [proto_defs]:
  "BTLDR_STM8L15X_DATA_BASE = FLASH_PROGRAM_START + 64 * 0x80"
definition BTLDR_STM8L15X_DATA_SIZE :: u32 where [proto_defs]:
  "BTLDR_STM8L15X_DATA_SIZE = (0x100 - 64) * 0x80"
abbreviation BTLDR_STM8L15X_INVALID_ADDR_MASK :: u32 where "BTLDR_STM8L15X_INVALID_ADDR_MASK \<equiv> 0x7f"
abbreviation BTLDR_STM8L15X_INT_OPCODE :: u8 where "BTLDR_STM8L15X_INT_OPCODE \<equiv> 0x82"

abbreviation I2C_BUF_SIZE :: nat where "I2C_BUF_SIZE \<equiv> 192"

section \<open>State\<close>

datatype run_state = RUN_STATE_BTLDR_START | RUN_STATE_BTLDR_RUN | RUN_STATE_APP_START

datatype i2c_state = I2C_STATE_IDLE | I2C_STATE_REG_WAIT | I2C_STATE_DATA_IN
  | I2C_STATE_OUT_START_WAIT | I2C_STATE_DATA_OUT

datatype flash_state = FLASH_STATE_IDLE
  | FLASH_STATE_EEPROM_READ_ADDR_READY | FLASH_STATE_EEPROM_READ_RUN | FLASH_STATE_EEPROM_READ_DATA_READY
  | FLASH_STATE_EEPROM_WRITE_ADDR_READY | FLASH_STATE_EEPROM_WRITE_DATA_READY | FLASH_STATE_EEPROM_WRITE_RUN
  | FLASH_STATE_DATA_READ_ADDR_READY | FLASH_STATE_DATA_READ_RUN | FLASH_STATE_DATA_READ_DATA_READY
  | FLASH_STATE_DATA_WRITE_ADDR_READY | FLASH_STATE_DATA_WRITE_DATA_READY | FLASH_STATE_DATA_WRITE_RUN
  | FLASH_STATE_APP_INFO_WRITE_RUN

type_synonym flash_mem = "u16 \<Rightarrow> u8"

text \<open>The board the image is built for; its identifiers are those of \<open>bootloader_b3_main.h\<close>
  and \<open>bootloader_demo_board.h\<close>.\<close>

datatype btldr_board = BOARD_B3_MAIN | BOARD_DEMO

fun BTLDR_DEV_INFO_BRD_ID :: "btldr_board \<Rightarrow> u16" where
  "BTLDR_DEV_INFO_BRD_ID BOARD_B3_MAIN = 0x0002"
| "BTLDR_DEV_INFO_BRD_ID BOARD_DEMO = 0x0003"

fun BTLDR_DEV_INFO_BRD_REV :: "btldr_board \<Rightarrow> u16" where
  "BTLDR_DEV_INFO_BRD_REV BOARD_B3_MAIN = 4"
| "BTLDR_DEV_INFO_BRD_REV BOARD_DEMO = 1"

fun BTLDR_DEV_INFO_CHIP_ID :: "btldr_board \<Rightarrow> u16" where
  "BTLDR_DEV_INFO_CHIP_ID BOARD_B3_MAIN = 0x0003"
| "BTLDR_DEV_INFO_CHIP_ID BOARD_DEMO = 0x0001"

record btldr =
  board :: btldr_board
  run_state :: run_state
  btldr_state :: u8
  app_status :: u8
  i2c_state :: i2c_state
  i2c_buf :: bytes
  i2c_offset :: u8
  i2c_out_remaining :: u8
  i2c_reg :: u8
  flash_state :: flash_state
  flash_addr :: u32
  mem :: flash_mem
  flash_cr2 :: u8
  dr_out :: bytes
  status_led :: u8
  led_delay :: u16
  led_row_odr :: u8
  led_col_odr :: u8

section \<open>Flash access\<close>

datatype flash_memtype = FLASH_MemType_Program | FLASH_MemType_Data
datatype flash_progmode = FLASH_ProgramMode_Standard | FLASH_ProgramMode_Fast

definition FLASH_ReadByte :: "flash_mem \<Rightarrow> u32 \<Rightarrow> u8" where
  "FLASH_ReadByte m addr = m (ucast addr)"

definition flash_programblock_mem :: "u8 \<Rightarrow> u32 \<Rightarrow> bytes \<Rightarrow> btldr \<Rightarrow> btldr" where
  "flash_programblock_mem prog_mode_mask startaddress buf s =
     s\<lparr>flash_cr2 := flash_cr2 s OR prog_mode_mask,
       mem := fold (\<lambda>count m. m(ucast startaddress + of_nat count := buf ! count))
                [0..<FLASH_BLOCK_SIZE] (mem s)\<rparr>"

definition flash_programblock :: "u16 \<Rightarrow> flash_memtype \<Rightarrow> flash_progmode \<Rightarrow> bytes \<Rightarrow> btldr \<Rightarrow> btldr" where
  "flash_programblock block memtype prog_mode buf s =
     (let start = (if memtype = FLASH_MemType_Program then FLASH_PROGRAM_START else FLASH_DATA_EEPROM_START);
          startaddress = start + ucast block * 0x80;
          prog_mode_mask = (if prog_mode = FLASH_ProgramMode_Standard then 0x01 else 0x10)
      in flash_programblock_mem prog_mode_mask startaddress buf s)"

text \<open>The bytes of one block from a 16 bit address on, the copy loops of the bootloader.\<close>

definition read_block :: "flash_mem \<Rightarrow> u16 \<Rightarrow> bytes" where
  "read_block m p = map (\<lambda>i. m (p + of_nat i)) [0..<FLASH_BLOCK_SIZE]"

lemma length_read_block [simp]: "length (read_block m p) = FLASH_BLOCK_SIZE"
  by (simp add: read_block_def)

subsection \<open>What programming a block does to memory\<close>

definition in_block :: "u16 \<Rightarrow> u16 \<Rightarrow> bool" where
  "in_block start a \<longleftrightarrow> unat (a - start) < FLASH_BLOCK_SIZE"

lemma fold_program:
  "n \<le> FLASH_BLOCK_SIZE \<Longrightarrow>
   fold (\<lambda>count m. m(st + of_nat count := buf ! count)) [0..<n] m a =
     (if unat (a - st) < n then buf ! unat (a - st) else m a)" for st :: u16
proof (induction n)
  case (Suc n)
  have "a = st + of_nat n \<longleftrightarrow> unat (a - st) = n"
  proof
    assume "a = st + of_nat n"
    then have "unat (a - st) = unat (of_nat n :: u16)" by simp
    also have "\<dots> = n" using Suc.prems by (simp add: unat_of_nat)
    finally show "unat (a - st) = n" .
  next
    assume "unat (a - st) = n"
    then have "of_nat n = a - st" by auto
    then show "a = st + of_nat n" by simp
  qed
  then show ?case using Suc by auto
qed simp

lemma mem_programblock_mem:
  "mem (flash_programblock_mem k st buf s) =
     (\<lambda>a. if in_block (ucast st) a then buf ! unat (a - ucast st) else mem s a)"
  by (rule ext) (simp add: flash_programblock_mem_def in_block_def fold_program)

lemma flash_programblock_mem_frame [simp]:
  "i2c_buf (flash_programblock_mem k st buf s) = i2c_buf s" "run_state (flash_programblock_mem k st buf s) = run_state s"
  "i2c_state (flash_programblock_mem k st buf s) = i2c_state s" "i2c_offset (flash_programblock_mem k st buf s) = i2c_offset s"
  "i2c_out_remaining (flash_programblock_mem k st buf s) = i2c_out_remaining s"
  "i2c_reg (flash_programblock_mem k st buf s) = i2c_reg s" "app_status (flash_programblock_mem k st buf s) = app_status s"
  "flash_state (flash_programblock_mem k st buf s) = flash_state s" "flash_addr (flash_programblock_mem k st buf s) = flash_addr s"
  "btldr_state (flash_programblock_mem k st buf s) = btldr_state s" "dr_out (flash_programblock_mem k st buf s) = dr_out s"
  by (simp_all add: flash_programblock_mem_def)

text \<open>
  The block the code computes from an address and the start of its memory, and the address
  \<open>flash_programblock\<close> computes back: for a block address of the region they agree.
\<close>

definition block_addr :: "u32 \<Rightarrow> u32 \<Rightarrow> u32 \<Rightarrow> bool" where
  "block_addr base sz a \<longleftrightarrow> a AND BTLDR_STM8L15X_INVALID_ADDR_MASK = 0 \<and> base \<le> a \<and> a < base + sz"

lemma aligned_unat:
  assumes "(a :: u32) AND 0x7f = 0"
  shows "0x80 dvd unat a"
proof -
  have "take_bit 7 a = 0" using assms by (simp add: take_bit_eq_mask mask_eq_exp_minus_1)
  then have "take_bit 7 (unat a) = 0" by (metis unsigned_0 unsigned_take_bit_eq)
  then show ?thesis by (simp add: take_bit_eq_mod mod_eq_0_iff_dvd)
qed

lemma block_round_trip:
  fixes a start :: u32
  assumes "a AND 0x7f = 0" "start AND 0x7f = 0" "start \<le> a" "unat a < 0x10000"
  shows "start + ucast (ucast ((a - start) div 0x80) :: u16) * 0x80 = a"
proof -
  have d: "unat (a - start) = unat a - unat start" using assms(3) by (simp add: unat_sub)
  then have dvd: "0x80 dvd unat (a - start)" using aligned_unat [OF assms(1)] aligned_unat [OF assms(2)] by simp
  have lt: "unat ((a - start) div 0x80) < 0x10000" using assms(4) d by (simp add: unat_div)
  then have u: "unat (ucast (ucast ((a - start) div 0x80) :: u16) :: u32) = unat ((a - start) div 0x80)"
    by (simp add: unsigned_ucast_eq take_bit_eq_mod unat_mod)
  have "ucast (ucast ((a - start) div 0x80) :: u16) = (a - start) div 0x80"
    using u by (simp add: unsigned_word_eqI)
  moreover have "unat ((a - start) div 0x80 * 0x80) = unat (a - start)"
    using dvd assms(4) d by (simp add: unat_word_ariths unat_div)
  then have "(a - start) div 0x80 * 0x80 = a - start" by (rule unsigned_word_eqI)
  ultimately show ?thesis by simp
qed

lemma flash_programblock_at:
  assumes "a AND 0x7f = 0" "start \<le> a" "unat a < 0x10000"
    and "start = (if memtype = FLASH_MemType_Program then FLASH_PROGRAM_START else FLASH_DATA_EEPROM_START)"
  shows "flash_programblock (ucast ((a - start) div 0x80)) memtype FLASH_ProgramMode_Standard buf s
    = flash_programblock_mem 0x01 a buf s"
proof -
  have "start AND 0x7f = 0" using assms(4) by simp
  from block_round_trip [OF assms(1) this assms(2) assms(3)] show ?thesis
    by (simp add: flash_programblock_def assms(4))
qed

end
