(* ===== verification/Btldr_AppInfo.thy ===== *)
theory Btldr_AppInfo
  imports Btldr_State
begin

text \<open>
  The application bookkeeping of \<open>bootloader/main.c\<close>: the header in the first EEPROM block
  that describes the application image, the check of the image against it, and the deferred
  flash operations the main loop runs.
\<close>

section \<open>Structures\<close>

record BtldrAppInfo =
  ai_size :: u32
  ai_crc16 :: u16
  ai_app_ver :: u16
  ai_app_info_set_time :: u16
  ai_status :: u8

record BtldrAppInfoSet =
  as_size :: u32
  as_crc16 :: u16
  as_app_ver :: u16
  as_autoboot :: u8

record BtldrEEPROMData =
  ed_magic :: u32
  ed_app_size :: u32
  ed_app_crc16 :: u16
  ed_app_ver :: u16
  ed_autoboot :: u8
  ed_crc8 :: u8

abbreviation BTLDR_EEPROM_DATA_MAGIC :: u32 where "BTLDR_EEPROM_DATA_MAGIC \<equiv> 0x42454550"
abbreviation BTLDR_EEPROM_DATA_OFFSET :: u32 where "BTLDR_EEPROM_DATA_OFFSET \<equiv> FLASH_DATA_EEPROM_START"
abbreviation BTLDR_EEPROM_DATA_BLOCK :: u16 where "BTLDR_EEPROM_DATA_BLOCK \<equiv> 0"
definition BTLDR_APP_INFO_SET_TIME :: u16 where [proto_defs]:
  "BTLDR_APP_INFO_SET_TIME = I2C_BTLDR_TIME_UNIT_MS OR 2500"

text \<open>The byte images of the packed structures.\<close>

definition enc_app_info :: "BtldrAppInfo \<Rightarrow> bytes" where
  "enc_app_info p = be32 (ai_size p) @ be16 (ai_crc16 p) @ be16 (ai_app_ver p)
     @ be16 (ai_app_info_set_time p) @ [ai_status p]"

definition dec_app_info :: "bytes \<Rightarrow> BtldrAppInfo" where
  "dec_app_info bs = \<lparr>ai_size = of_be32 bs, ai_crc16 = of_be16 (drop 4 bs), ai_app_ver = of_be16 (drop 6 bs),
     ai_app_info_set_time = of_be16 (drop 8 bs), ai_status = bs ! 10\<rparr>"

definition enc_app_info_set :: "BtldrAppInfoSet \<Rightarrow> bytes" where
  "enc_app_info_set p = be32 (as_size p) @ be16 (as_crc16 p) @ be16 (as_app_ver p) @ [as_autoboot p]"

definition dec_app_info_set :: "bytes \<Rightarrow> BtldrAppInfoSet" where
  "dec_app_info_set bs = \<lparr>as_size = of_be32 bs, as_crc16 = of_be16 (drop 4 bs),
     as_app_ver = of_be16 (drop 6 bs), as_autoboot = bs ! 8\<rparr>"

definition enc_eeprom_data :: "BtldrEEPROMData \<Rightarrow> bytes" where
  "enc_eeprom_data d = be32 (ed_magic d) @ be32 (ed_app_size d) @ be16 (ed_app_crc16 d)
     @ be16 (ed_app_ver d) @ [ed_autoboot d, ed_crc8 d]"

definition dec_eeprom_data :: "bytes \<Rightarrow> BtldrEEPROMData" where
  "dec_eeprom_data bs = \<lparr>ed_magic = of_be32 bs, ed_app_size = of_be32 (drop 4 bs),
     ed_app_crc16 = of_be16 (drop 8 bs), ed_app_ver = of_be16 (drop 10 bs),
     ed_autoboot = bs ! 12, ed_crc8 = bs ! 13\<rparr>"

lemma length_enc_app_info [simp]: "length (enc_app_info p) = 11"
  by (simp add: enc_app_info_def)

lemma length_enc_app_info_set [simp]: "length (enc_app_info_set p) = 9"
  by (simp add: enc_app_info_set_def)

lemma length_enc_eeprom_data [simp]: "length (enc_eeprom_data d) = 14"
  by (simp add: enc_eeprom_data_def)

lemma dec_enc_app_info [layout_simps]: "dec_app_info (enc_app_info p @ xs) = p"
  by (simp add: dec_app_info_def enc_app_info_def nth_append)

lemma dec_enc_app_info_set [layout_simps]: "dec_app_info_set (enc_app_info_set p @ xs) = p"
  by (simp add: dec_app_info_set_def enc_app_info_set_def nth_append)

lemma dec_enc_eeprom_data [layout_simps]: "dec_eeprom_data (enc_eeprom_data d @ xs) = d"
  by (simp add: dec_eeprom_data_def enc_eeprom_data_def nth_append)

section \<open>Operations\<close>

definition read_app_info :: "btldr \<Rightarrow> BtldrAppInfo" where
  "read_app_info s =
     (let bytep = map (\<lambda>i. FLASH_ReadByte (mem s) (BTLDR_EEPROM_DATA_OFFSET + of_nat i)) [0..<14];
          data = dec_eeprom_data bytep;
          crc = crc8 IOMCU_CRC8_INIT (take 13 bytep)
      in if crc = ed_crc8 data \<and> ed_magic data = BTLDR_EEPROM_DATA_MAGIC
         then \<lparr>ai_size = ed_app_size data, ai_crc16 = ed_app_crc16 data, ai_app_ver = ed_app_ver data,
               ai_app_info_set_time = BTLDR_APP_INFO_SET_TIME,
               ai_status = app_status s OR ed_autoboot data\<rparr>
         else \<lparr>ai_size = 0, ai_crc16 = 0, ai_app_ver = 0,
               ai_app_info_set_time = BTLDR_APP_INFO_SET_TIME, ai_status = 0\<rparr>)"

fun app_crc_loop :: "nat \<Rightarrow> u16 \<Rightarrow> u16 \<Rightarrow> bytes \<Rightarrow> flash_mem \<Rightarrow> u16 \<times> bytes" where
  "app_crc_loop 0 flashp crc buf m = (crc, buf)"
| "app_crc_loop (Suc app_blocks) flashp crc buf m =
     (let buf' = put_at 0 (read_block m flashp) buf
      in app_crc_loop app_blocks (flashp + 0x80) (crc16 crc (take FLASH_BLOCK_SIZE buf')) buf' m)"

definition update_app_status :: "btldr \<Rightarrow> btldr" where
  "update_app_status s0 =
     (let app_info = read_app_info (s0\<lparr>app_status := APP_STATUS_READY_RESV\<rparr>);
          flashp = ucast BTLDR_STM8L15X_DATA_BASE :: u16;
          s = s0\<lparr>app_status := APP_STATUS_READY_NA\<rparr>
      in if ai_status app_info AND APP_STATUS_READY_MASK = APP_STATUS_READY_RESV then
           if ai_size app_info > BTLDR_STM8L15X_DATA_SIZE then s
           else
             let status = ai_status app_info AND APP_STATUS_AUTOBOOT_MASK in
             if mem s flashp \<noteq> BTLDR_STM8L15X_INT_OPCODE
             then s\<lparr>app_status := status OR APP_STATUS_READY_NO_RESET\<rparr>
             else
               let app_blocks = ucast (ai_size app_info div 0x80) :: u16;
                   (crc, buf) = app_crc_loop (unat app_blocks) flashp IOMCU_CRC16_INIT (i2c_buf s) (mem s)
               in if crc \<noteq> ai_crc16 app_info
                  then s\<lparr>i2c_buf := buf, app_status := status OR APP_STATUS_READY_CRC_FAILED\<rparr>
                  else s\<lparr>i2c_buf := buf, app_status := status OR APP_STATUS_READY_READY\<rparr>
         else s)"

definition write_app_info :: "BtldrAppInfoSet \<Rightarrow> btldr \<Rightarrow> btldr" where
  "write_app_info p s =
     (let zeroed = put_at 0 (replicate FLASH_BLOCK_SIZE 0) (i2c_buf s);
          data = \<lparr>ed_magic = BTLDR_EEPROM_DATA_MAGIC, ed_app_size = as_size p, ed_app_crc16 = as_crc16 p,
                  ed_app_ver = as_app_ver p, ed_autoboot = as_autoboot p AND APP_STATUS_AUTOBOOT_MASK,
                  ed_crc8 = 0\<rparr>;
          data' = data\<lparr>ed_crc8 := crc8 IOMCU_CRC8_INIT (take 13 (enc_eeprom_data data))\<rparr>;
          s1 = s\<lparr>i2c_buf := put_at 0 (enc_eeprom_data data') zeroed\<rparr>;
          s2 = flash_programblock BTLDR_EEPROM_DATA_BLOCK FLASH_MemType_Data FLASH_ProgramMode_Standard
                 (i2c_buf s1) s1
      in update_app_status s2)"

definition init_run_state :: "btldr \<Rightarrow> btldr" where
  "init_run_state s0 =
     (let s = update_app_status s0
      in if app_status s = APP_STATUS_READY_READY OR APP_STATUS_AUTOBOOT_YES
         then s\<lparr>run_state := RUN_STATE_BTLDR_START\<rparr>
         else s\<lparr>run_state := RUN_STATE_BTLDR_RUN\<rparr>)"

definition flash_rdwr_run :: "btldr \<Rightarrow> btldr" where
  "flash_rdwr_run s =
     (case flash_state s of
        FLASH_STATE_EEPROM_READ_RUN \<Rightarrow>
          s\<lparr>i2c_out_remaining := of_nat FLASH_BLOCK_SIZE,
            i2c_buf := put_at 0 (map (\<lambda>i. FLASH_ReadByte (mem s) (flash_addr s + of_nat i)) [0..<FLASH_BLOCK_SIZE]) (i2c_buf s),
            flash_state := FLASH_STATE_EEPROM_READ_DATA_READY\<rparr>
      | FLASH_STATE_DATA_READ_RUN \<Rightarrow>
          s\<lparr>i2c_out_remaining := of_nat FLASH_BLOCK_SIZE,
            i2c_buf := put_at 0 (map (\<lambda>i. FLASH_ReadByte (mem s) (flash_addr s + of_nat i)) [0..<FLASH_BLOCK_SIZE]) (i2c_buf s),
            flash_state := FLASH_STATE_DATA_READ_DATA_READY\<rparr>
      | FLASH_STATE_EEPROM_WRITE_RUN \<Rightarrow>
          let block = ucast ((flash_addr s - FLASH_DATA_EEPROM_START) div 0x80);
              s' = flash_programblock block FLASH_MemType_Data FLASH_ProgramMode_Standard (i2c_buf s) s
          in s'\<lparr>flash_state := FLASH_STATE_IDLE\<rparr>
      | FLASH_STATE_DATA_WRITE_RUN \<Rightarrow>
          let block = ucast ((flash_addr s - FLASH_PROGRAM_START) div 0x80);
              s' = flash_programblock block FLASH_MemType_Program FLASH_ProgramMode_Standard (i2c_buf s) s
          in s'\<lparr>app_status := (app_status s' AND NOT APP_STATUS_READY_MASK) OR APP_STATUS_READY_NA,
                flash_state := FLASH_STATE_IDLE\<rparr>
      | _ \<Rightarrow> s\<lparr>flash_state := FLASH_STATE_IDLE, btldr_state := I2C_BTLDR_STATE_FLASH_NOT_READY\<rparr>)"

definition write_app_info_run :: "btldr \<Rightarrow> btldr" where
  "write_app_info_run s =
     (let info = dec_app_info_set (i2c_buf s)
      in (write_app_info info s)\<lparr>flash_state := FLASH_STATE_IDLE\<rparr>)"

section \<open>What the header and the image say\<close>

text \<open>
  The specification side: the header bytes of a memory, when they are valid, the application
  image they describe (whole blocks from the application base on), and when that image checks.
\<close>

definition header_bytes :: "flash_mem \<Rightarrow> bytes" where
  "header_bytes m = map (\<lambda>i. m (0x1000 + of_nat i)) [0..<14]"

definition header_valid :: "flash_mem \<Rightarrow> bool" where
  "header_valid m \<longleftrightarrow> crc8 IOMCU_CRC8_INIT (take 13 (header_bytes m)) = ed_crc8 (dec_eeprom_data (header_bytes m))
     \<and> ed_magic (dec_eeprom_data (header_bytes m)) = BTLDR_EEPROM_DATA_MAGIC"

definition app_image :: "flash_mem \<Rightarrow> nat \<Rightarrow> bytes" where
  "app_image m n = map (\<lambda>i. m (0xa000 + of_nat i)) [0..<n]"

definition app_verified :: "flash_mem \<Rightarrow> bool" where
  "app_verified m \<longleftrightarrow> (let d = dec_eeprom_data (header_bytes m) in
     header_valid m \<and> unat (ed_app_size d) \<le> 0x6000 \<and> m 0xa000 = BTLDR_STM8L15X_INT_OPCODE
     \<and> crc16 IOMCU_CRC16_INIT (app_image m (unat (ed_app_size d) div 0x80 * 0x80)) = ed_app_crc16 d)"

definition app_ready :: "btldr \<Rightarrow> bool" where
  "app_ready s \<longleftrightarrow> app_status s AND APP_STATUS_READY_MASK = APP_STATUS_READY_READY"


section \<open>Reading the header\<close>

lemma FLASH_ReadByte_header: "i < 14 \<Longrightarrow> FLASH_ReadByte m (BTLDR_EEPROM_DATA_OFFSET + of_nat i) = m (0x1000 + of_nat i)"
  by (simp add: FLASH_ReadByte_def ucast_add_of_nat)

lemma read_app_info_bytes:
  "map (\<lambda>i. FLASH_ReadByte m (BTLDR_EEPROM_DATA_OFFSET + of_nat i)) [0..<14] = header_bytes m"
  unfolding header_bytes_def by (rule map_cong) (simp_all add: FLASH_ReadByte_header)

lemma read_app_info_eq:
  "read_app_info s = (let d = dec_eeprom_data (header_bytes (mem s)) in
     if header_valid (mem s)
     then \<lparr>ai_size = ed_app_size d, ai_crc16 = ed_app_crc16 d, ai_app_ver = ed_app_ver d,
           ai_app_info_set_time = BTLDR_APP_INFO_SET_TIME, ai_status = app_status s OR ed_autoboot d\<rparr>
     else \<lparr>ai_size = 0, ai_crc16 = 0, ai_app_ver = 0,
           ai_app_info_set_time = BTLDR_APP_INFO_SET_TIME, ai_status = 0\<rparr>)"
  unfolding read_app_info_def read_app_info_bytes header_valid_def Let_def ..

section \<open>The image check\<close>

lemma read_block_append:
  "read_block m p @ map (\<lambda>i. m (p + 0x80 + of_nat i)) [0..<n] = map (\<lambda>i. m (p + of_nat i)) [0..<0x80 + n]"
  by (rule nth_equalityI) (auto simp: read_block_def nth_append algebra_simps of_nat_diff)

lemma app_crc_loop_crc:
  "FLASH_BLOCK_SIZE \<le> length buf \<Longrightarrow>
   fst (app_crc_loop n p crc buf m) = crc16 crc (map (\<lambda>i. m (p + of_nat i)) [0..<n * FLASH_BLOCK_SIZE])"
proof (induction n arbitrary: p crc buf)
  case (Suc n)
  have "fst (app_crc_loop (Suc n) p crc buf m)
      = crc16 (crc16 crc (read_block m p)) (map (\<lambda>i. m (p + 0x80 + of_nat i)) [0..<n * FLASH_BLOCK_SIZE])"
    using Suc by (simp add: Let_def take_put_at_0)
  also have "\<dots> = crc16 crc (map (\<lambda>i. m (p + of_nat i)) [0..<Suc n * FLASH_BLOCK_SIZE])"
    unfolding crc16_append [symmetric] read_block_append mult_Suc ..
  finally show ?case .
qed simp

lemma app_crc_loop_buf [simp]:
  "FLASH_BLOCK_SIZE \<le> length buf \<Longrightarrow> length (snd (app_crc_loop n p crc buf m)) = length buf"
  by (induction n arbitrary: p crc buf) (simp_all add: Let_def)

lemma autoboot_ready_iff [simp]:
  "((x AND 0x80) OR y) AND 0x7f = (1::u8) \<longleftrightarrow> y AND 0x7f = 1"
  by (simp add: bit.conj_disj_distrib2 and.assoc)

lemma resv_status [simp]: "(0x7f OR x) AND 0x7f = (0x7f :: u8)"
  by (simp add: and.commute)

lemma update_app_status_ready:
  assumes "FLASH_BLOCK_SIZE \<le> length (i2c_buf s)"
  shows "app_ready (update_app_status s) \<longleftrightarrow> app_verified (mem s)"
proof -
  let ?d = "dec_eeprom_data (header_bytes (mem s))"
  have size: "BTLDR_STM8L15X_DATA_SIZE < ed_app_size ?d \<longleftrightarrow> \<not> unat (ed_app_size ?d) \<le> 0x6000"
    by (simp add: proto_defs word_less_nat_alt not_le)
  have blocks: "unat (ucast (ed_app_size ?d div 0x80) :: u16) = unat (ed_app_size ?d) div 0x80"
    if "unat (ed_app_size ?d) \<le> 0x6000"
    using that by (simp add: unsigned_ucast_eq take_bit_eq_mod unat_div)
  have base: "ucast BTLDR_STM8L15X_DATA_BASE = (0xa000 :: u16)" by (simp add: proto_defs)
  have crc: "fst (app_crc_loop (unat (ed_app_size ?d) div 0x80) 0xa000 IOMCU_CRC16_INIT (i2c_buf s) (mem s))
      = crc16 IOMCU_CRC16_INIT (app_image (mem s) (unat (ed_app_size ?d) div 0x80 * 0x80))"
    unfolding app_image_def by (rule app_crc_loop_crc) (rule assms)
  show ?thesis
  proof (cases "header_valid (mem s) \<and> unat (ed_app_size ?d) \<le> 0x6000")
    case True
    then show ?thesis
      by (simp add: app_ready_def update_app_status_def read_app_info_eq Let_def app_verified_def size base blocks
          crc case_prod_beta)
  next
    case False
    then show ?thesis
      by (auto simp: app_ready_def update_app_status_def read_app_info_eq Let_def app_verified_def size)
  qed
qed

lemma update_app_status_frame [simp]:
  "mem (update_app_status s) = mem s" "run_state (update_app_status s) = run_state s"
  "i2c_state (update_app_status s) = i2c_state s" "i2c_offset (update_app_status s) = i2c_offset s"
  "i2c_out_remaining (update_app_status s) = i2c_out_remaining s" "i2c_reg (update_app_status s) = i2c_reg s"
  "flash_state (update_app_status s) = flash_state s" "flash_addr (update_app_status s) = flash_addr s"
  "btldr_state (update_app_status s) = btldr_state s" "dr_out (update_app_status s) = dr_out s"
  by (simp_all add: update_app_status_def Let_def case_prod_beta)

lemma update_app_status_buf [simp]:
  "FLASH_BLOCK_SIZE \<le> length (i2c_buf s) \<Longrightarrow> length (i2c_buf (update_app_status s)) = length (i2c_buf s)"
  by (simp add: update_app_status_def Let_def case_prod_beta)

section \<open>Writing the header\<close>

text \<open>The header block \<open>write_app_info\<close> programs: the structure with its checksum, then zeros.\<close>

definition header_data :: "BtldrAppInfoSet \<Rightarrow> BtldrEEPROMData" where
  "header_data p = (let data = \<lparr>ed_magic = BTLDR_EEPROM_DATA_MAGIC, ed_app_size = as_size p,
       ed_app_crc16 = as_crc16 p, ed_app_ver = as_app_ver p,
       ed_autoboot = as_autoboot p AND APP_STATUS_AUTOBOOT_MASK, ed_crc8 = 0\<rparr>
     in data\<lparr>ed_crc8 := crc8 IOMCU_CRC8_INIT (take 13 (enc_eeprom_data data))\<rparr>)"

definition header_block :: "BtldrAppInfoSet \<Rightarrow> bytes" where
  "header_block p = enc_eeprom_data (header_data p) @ replicate (FLASH_BLOCK_SIZE - 14) 0"

lemma length_header_block [simp]: "length (header_block p) = FLASH_BLOCK_SIZE"
  by (simp add: header_block_def)

lemma in_block_iff: "in_block st a \<longleftrightarrow> (\<exists>i < FLASH_BLOCK_SIZE. a = st + of_nat i)"
proof
  assume "in_block st a"
  then have "unat (a - st) < FLASH_BLOCK_SIZE" "a = st + of_nat (unat (a - st))" by (auto simp: in_block_def)
  then show "\<exists>i < FLASH_BLOCK_SIZE. a = st + of_nat i" by blast
next
  assume "\<exists>i < FLASH_BLOCK_SIZE. a = st + of_nat i"
  then show "in_block st a" by (auto simp: in_block_def unat_of_nat)
qed

lemma write_app_info_eq:
  assumes "FLASH_BLOCK_SIZE \<le> length (i2c_buf s)"
  shows "\<exists>buf. length buf = length (i2c_buf s) \<and> take FLASH_BLOCK_SIZE buf = header_block p
    \<and> write_app_info p s = update_app_status (flash_programblock_mem 0x01 0x1000 buf (s\<lparr>i2c_buf := buf\<rparr>))"
proof -
  define buf where "buf = put_at 0 (enc_eeprom_data (header_data p)) (put_at 0 (replicate FLASH_BLOCK_SIZE 0) (i2c_buf s))"
  have "length buf = length (i2c_buf s)" using assms by (simp add: buf_def)
  moreover have "take FLASH_BLOCK_SIZE buf = header_block p"
    using assms by (simp add: buf_def header_block_def put_at_def)
  moreover have "write_app_info p s = update_app_status (flash_programblock_mem 0x01 0x1000 buf (s\<lparr>i2c_buf := buf\<rparr>))"
    by (simp add: write_app_info_def Let_def buf_def header_data_def flash_programblock_def)
  ultimately show ?thesis by blast
qed

lemma mem_write_app_info:
  assumes "FLASH_BLOCK_SIZE \<le> length (i2c_buf s)"
  shows "mem (write_app_info p s) = (\<lambda>a. if in_block 0x1000 a then header_block p ! unat (a - 0x1000) else mem s a)"
proof -
  from write_app_info_eq [OF assms, of p] obtain buf where
    buf: "length buf = length (i2c_buf s)" "take FLASH_BLOCK_SIZE buf = header_block p"
    and w: "write_app_info p s = update_app_status (flash_programblock_mem 0x01 0x1000 buf (s\<lparr>i2c_buf := buf\<rparr>))"
    by blast
  have "buf ! i = header_block p ! i" if "i < FLASH_BLOCK_SIZE" for i
    using that by (simp add: buf(2) [symmetric])
  then show ?thesis by (auto simp: w mem_programblock_mem in_block_def)
qed

lemma write_app_info_frame:
  assumes "FLASH_BLOCK_SIZE \<le> length (i2c_buf s)"
  shows "run_state (write_app_info p s) = run_state s" "i2c_state (write_app_info p s) = i2c_state s"
    "i2c_offset (write_app_info p s) = i2c_offset s" "i2c_reg (write_app_info p s) = i2c_reg s"
    "i2c_out_remaining (write_app_info p s) = i2c_out_remaining s" "btldr_state (write_app_info p s) = btldr_state s"
    "flash_state (write_app_info p s) = flash_state s" "flash_addr (write_app_info p s) = flash_addr s"
    "length (i2c_buf (write_app_info p s)) = length (i2c_buf s)" "dr_out (write_app_info p s) = dr_out s"
    "app_ready (write_app_info p s) \<longleftrightarrow> app_verified (mem (write_app_info p s))"
  using write_app_info_eq [OF assms, of p] assms by (auto simp: update_app_status_ready)

lemma header_bytes_write:
  assumes "FLASH_BLOCK_SIZE \<le> length (i2c_buf s)"
  shows "header_bytes (mem (write_app_info p s)) = enc_eeprom_data (header_data p)"
  by (rule nth_equalityI)
    (auto simp: header_bytes_def mem_write_app_info [OF assms] in_block_def unat_of_nat header_block_def nth_append)

lemma header_valid_write:
  assumes "FLASH_BLOCK_SIZE \<le> length (i2c_buf s)"
  shows "header_valid (mem (write_app_info p s))"
proof -
  have "crc8 IOMCU_CRC8_INIT (take 13 (enc_eeprom_data (header_data p))) = ed_crc8 (header_data p)"
    "ed_magic (header_data p) = BTLDR_EEPROM_DATA_MAGIC"
    by (simp_all add: header_data_def Let_def enc_eeprom_data_def)
  then show ?thesis
    using dec_enc_eeprom_data [of "header_data p" "[]"]
    by (simp add: header_valid_def header_bytes_write [OF assms])
qed

lemma read_write_app_info:
  assumes "FLASH_BLOCK_SIZE \<le> length (i2c_buf s)"
  shows "read_app_info (write_app_info p s) =
    \<lparr>ai_size = as_size p, ai_crc16 = as_crc16 p, ai_app_ver = as_app_ver p,
     ai_app_info_set_time = BTLDR_APP_INFO_SET_TIME,
     ai_status = app_status (write_app_info p s) OR (as_autoboot p AND APP_STATUS_AUTOBOOT_MASK)\<rparr>"
  using dec_enc_eeprom_data [of "header_data p" "[]"]
  by (simp add: read_app_info_eq header_valid_write [OF assms] header_bytes_write [OF assms])
    (simp add: header_data_def Let_def)

section \<open>The deferred flash operations\<close>

definition eeprom_addr :: "u32 \<Rightarrow> bool" where
  "eeprom_addr = block_addr BTLDR_STM8L15X_EEPROM_BASE BTLDR_STM8L15X_EEPROM_SIZE"

definition data_addr :: "u32 \<Rightarrow> bool" where
  "data_addr = block_addr BTLDR_STM8L15X_DATA_BASE BTLDR_STM8L15X_DATA_SIZE"

lemma eeprom_addr_unat: "eeprom_addr a \<Longrightarrow> 0x1080 \<le> unat a \<and> unat a + 0x80 \<le> 0x1400"
  using aligned_unat [of a]
  by (auto simp: eeprom_addr_def block_addr_def proto_defs word_le_nat_alt word_less_nat_alt)

lemma data_addr_unat: "data_addr a \<Longrightarrow> 0xa000 \<le> unat a \<and> unat a + 0x80 \<le> 0x10000"
  using aligned_unat [of a]
  by (auto simp: data_addr_def block_addr_def proto_defs word_le_nat_alt word_less_nat_alt)

lemma flash_rdwr_run_read:
  assumes "flash_state s = FLASH_STATE_EEPROM_READ_RUN \<or> flash_state s = FLASH_STATE_DATA_READ_RUN"
  shows "flash_rdwr_run s = s\<lparr>i2c_out_remaining := 0x80, i2c_buf := put_at 0 (read_block (mem s) (ucast (flash_addr s))) (i2c_buf s),
    flash_state := (if flash_state s = FLASH_STATE_EEPROM_READ_RUN then FLASH_STATE_EEPROM_READ_DATA_READY
                    else FLASH_STATE_DATA_READ_DATA_READY)\<rparr>"
  using assms by (auto simp: flash_rdwr_run_def read_block_def FLASH_ReadByte_def ucast_add_of_nat)

lemma flash_rdwr_run_eeprom:
  assumes "flash_state s = FLASH_STATE_EEPROM_WRITE_RUN" "eeprom_addr (flash_addr s)"
  shows "flash_rdwr_run s = (flash_programblock_mem 0x01 (flash_addr s) (i2c_buf s) s)\<lparr>flash_state := FLASH_STATE_IDLE\<rparr>"
  using assms eeprom_addr_unat [OF assms(2)]
  by (simp add: flash_rdwr_run_def flash_programblock_at eeprom_addr_def block_addr_def word_le_nat_alt)

lemma flash_rdwr_run_data:
  assumes "flash_state s = FLASH_STATE_DATA_WRITE_RUN" "data_addr (flash_addr s)"
  shows "flash_rdwr_run s = (flash_programblock_mem 0x01 (flash_addr s) (i2c_buf s) s)
    \<lparr>app_status := app_status s AND NOT APP_STATUS_READY_MASK, flash_state := FLASH_STATE_IDLE\<rparr>"
  using assms data_addr_unat [OF assms(2)]
  by (simp add: flash_rdwr_run_def flash_programblock_at data_addr_def block_addr_def word_le_nat_alt)

end
