(* ===== verification/Btldr_Commands.thy ===== *)
theory Btldr_Commands
  imports Btldr_AppInfo
begin

text \<open>
  The register commands of \<open>bootloader/commands.c\<close>: \<open>cmd_data_out\<close> answers a read of the
  master, \<open>cmd_data_in\<close> carries out a write.
\<close>

section \<open>Structures of the read registers\<close>

definition enc_btldr_info :: "u32 \<Rightarrow> u16 \<Rightarrow> u16 \<Rightarrow> bytes" where
  "enc_btldr_info endian proto_ver btldr_ver = be32 endian @ be16 proto_ver @ be16 btldr_ver"

record BtldrDeviceInfo =
  di_board_id :: u16
  di_board_rev :: u16
  di_chip_id :: u16
  di_chip_serial :: bytes
  di_option_bytes :: bytes

definition enc_device_info :: "BtldrDeviceInfo \<Rightarrow> bytes" where
  "enc_device_info d = be16 (di_board_id d) @ be16 (di_board_rev d) @ be16 (di_chip_id d)
     @ di_chip_serial d @ di_option_bytes d"

record BtldrFlashInfo =
  fi_eeprom_base :: u32
  fi_eeprom_size :: u32
  fi_data_base :: u32
  fi_data_size :: u32
  fi_eeprom_blocksize :: u16
  fi_data_blocksize :: u16
  fi_eeprom_read_time :: u16
  fi_eeprom_write_time :: u16
  fi_data_read_time :: u16
  fi_data_write_time :: u16

definition enc_flash_info :: "BtldrFlashInfo \<Rightarrow> bytes" where
  "enc_flash_info p = be32 (fi_eeprom_base p) @ be32 (fi_eeprom_size p) @ be32 (fi_data_base p)
     @ be32 (fi_data_size p) @ be16 (fi_eeprom_blocksize p) @ be16 (fi_data_blocksize p)
     @ be16 (fi_eeprom_read_time p) @ be16 (fi_eeprom_write_time p)
     @ be16 (fi_data_read_time p) @ be16 (fi_data_write_time p)"

definition dec_flash_info :: "bytes \<Rightarrow> BtldrFlashInfo" where
  "dec_flash_info bs = \<lparr>fi_eeprom_base = of_be32 bs, fi_eeprom_size = of_be32 (drop 4 bs),
     fi_data_base = of_be32 (drop 8 bs), fi_data_size = of_be32 (drop 12 bs),
     fi_eeprom_blocksize = of_be16 (drop 16 bs), fi_data_blocksize = of_be16 (drop 18 bs),
     fi_eeprom_read_time = of_be16 (drop 20 bs), fi_eeprom_write_time = of_be16 (drop 22 bs),
     fi_data_read_time = of_be16 (drop 24 bs), fi_data_write_time = of_be16 (drop 26 bs)\<rparr>"

abbreviation BTLDR_STM8L15X_UNIQUE_ID_BASE :: u32 where "BTLDR_STM8L15X_UNIQUE_ID_BASE \<equiv> 0x4926"
definition BTLDR_STM8L15X_OPTION_BYTES :: "u32 list" where
  "BTLDR_STM8L15X_OPTION_BYTES = [0x4800, 0x4802, 0x4807, 0x4808, 0x4809, 0x480A, 0x480B, 0x480C]"
definition BTLDR_STM8L15X_FLASH_WRITE_TIME :: u16 where [proto_defs]:
  "BTLDR_STM8L15X_FLASH_WRITE_TIME = I2C_BTLDR_TIME_UNIT_MS OR 8"
definition BTLDR_STM8L15X_FLASH_READ_TIME :: u16 where [proto_defs]:
  "BTLDR_STM8L15X_FLASH_READ_TIME = I2C_BTLDR_TIME_UNIT_US OR 10"

definition btldr_dev_info :: "btldr \<Rightarrow> BtldrDeviceInfo" where
  "btldr_dev_info s = \<lparr>di_board_id = BTLDR_DEV_INFO_BRD_ID (board s),
     di_board_rev = BTLDR_DEV_INFO_BRD_REV (board s), di_chip_id = BTLDR_DEV_INFO_CHIP_ID (board s),
     di_chip_serial = map (\<lambda>i. FLASH_ReadByte (mem s) (BTLDR_STM8L15X_UNIQUE_ID_BASE + of_nat i)) [0..<12],
     di_option_bytes = map (FLASH_ReadByte (mem s)) BTLDR_STM8L15X_OPTION_BYTES\<rparr>"

definition btldr_flash_info :: BtldrFlashInfo where
  "btldr_flash_info = \<lparr>fi_eeprom_base = BTLDR_STM8L15X_EEPROM_BASE, fi_eeprom_size = BTLDR_STM8L15X_EEPROM_SIZE,
     fi_data_base = BTLDR_STM8L15X_DATA_BASE, fi_data_size = BTLDR_STM8L15X_DATA_SIZE,
     fi_eeprom_blocksize = of_nat FLASH_BLOCK_SIZE, fi_data_blocksize = of_nat FLASH_BLOCK_SIZE,
     fi_eeprom_read_time = BTLDR_STM8L15X_FLASH_READ_TIME, fi_eeprom_write_time = BTLDR_STM8L15X_FLASH_WRITE_TIME,
     fi_data_read_time = BTLDR_STM8L15X_FLASH_READ_TIME, fi_data_write_time = BTLDR_STM8L15X_FLASH_WRITE_TIME\<rparr>"

section \<open>Reads by the master\<close>

text \<open>The flash state a status read moves to: it starts a prepared flash operation.\<close>

fun status_next_flash_state :: "flash_state \<Rightarrow> flash_state option" where
  "status_next_flash_state FLASH_STATE_EEPROM_READ_ADDR_READY = Some FLASH_STATE_EEPROM_READ_RUN"
| "status_next_flash_state FLASH_STATE_DATA_READ_ADDR_READY = Some FLASH_STATE_DATA_READ_RUN"
| "status_next_flash_state FLASH_STATE_EEPROM_WRITE_ADDR_READY = Some FLASH_STATE_EEPROM_WRITE_DATA_READY"
| "status_next_flash_state FLASH_STATE_DATA_WRITE_ADDR_READY = Some FLASH_STATE_DATA_WRITE_DATA_READY"
| "status_next_flash_state _ = None"

definition cmd_status_out :: "flash_state \<Rightarrow> u8 \<Rightarrow> btldr \<Rightarrow> btldr" where
  "cmd_status_out last_flash_state last_btldr_state s =
     (let s' = (if last_flash_state \<noteq> FLASH_STATE_IDLE \<and> last_btldr_state = I2C_BTLDR_STATE_OK
                then (case status_next_flash_state last_flash_state of
                        Some f \<Rightarrow> s\<lparr>flash_state := f\<rparr>
                      | None \<Rightarrow> s\<lparr>btldr_state := I2C_BTLDR_STATE_FLASH_INTERRUPTED\<rparr>)
                else s)
      in s'\<lparr>i2c_buf := put_at 0 [last_btldr_state] (i2c_buf s'), i2c_out_remaining := I2C_BTLDR_REG_STATUS_SIZE\<rparr>)"

text \<open>The \<open>default\<close> case, which the data registers fall into when no data is ready.\<close>

definition cmd_out_default :: "u8 \<Rightarrow> btldr \<Rightarrow> btldr" where
  "cmd_out_default error_btldr_state s =
     s\<lparr>i2c_buf := put_at 0 (replicate I2C_BUF_SIZE 0xff) (i2c_buf s), i2c_offset := 0,
       i2c_out_remaining := of_nat I2C_BUF_SIZE, btldr_state := error_btldr_state\<rparr>"

definition cmd_data_out :: "u8 \<Rightarrow> btldr \<Rightarrow> btldr" where
  "cmd_data_out cmd s0 =
     (let last_btldr_state = btldr_state s0;
          last_flash_state = flash_state s0;
          s = s0\<lparr>btldr_state := I2C_BTLDR_STATE_OK, i2c_offset := 0, flash_state := FLASH_STATE_IDLE\<rparr>
      in if cmd = I2C_BTLDR_REG_BTLDR_INFO then
           s\<lparr>i2c_buf := put_at 0 (enc_btldr_info I2C_BTLDR_INFO_SLAVE_ENDIAN I2C_BTLDR_INFO_PROTO_VERSION BTLDR_VERSION) (i2c_buf s),
             i2c_out_remaining := I2C_BTLDR_REG_BTLDR_INFO_SIZE\<rparr>
         else if cmd = I2C_BTLDR_REG_STATUS then cmd_status_out last_flash_state last_btldr_state s
         else if cmd = I2C_BTLDR_REG_DEV_INFO then
           s\<lparr>i2c_buf := put_at 0 (enc_device_info (btldr_dev_info s)) (i2c_buf s),
             i2c_out_remaining := I2C_BTLDR_REG_DEV_INFO_SIZE\<rparr>
         else if cmd = I2C_BTLDR_REG_FLASH_INFO then
           s\<lparr>i2c_buf := put_at 0 (enc_flash_info btldr_flash_info) (i2c_buf s),
             i2c_out_remaining := I2C_BTLDR_REG_FLASH_INFO_SIZE\<rparr>
         else if cmd = I2C_BTLDR_REG_APP_INFO then
           s\<lparr>i2c_buf := put_at 0 (enc_app_info (read_app_info s)) (i2c_buf s),
             i2c_out_remaining := I2C_BTLDR_REG_APP_INFO_SIZE\<rparr>
         else if cmd = I2C_BTLDR_REG_EEPROM_READ \<or> cmd = I2C_BTLDR_REG_DATA_READ then
           if i2c_out_remaining s = of_nat FLASH_BLOCK_SIZE
              \<and> (cmd = I2C_BTLDR_REG_EEPROM_READ \<and> last_flash_state = FLASH_STATE_EEPROM_READ_DATA_READY
                 \<or> cmd = I2C_BTLDR_REG_DATA_READ \<and> last_flash_state = FLASH_STATE_DATA_READ_DATA_READY)
           then s\<lparr>flash_state := FLASH_STATE_IDLE\<rparr>
           else cmd_out_default I2C_BTLDR_STATE_DATA_NOT_READY s
         else cmd_out_default I2C_BTLDR_STATE_INVALID_REG s)"

section \<open>Writes by the master\<close>

definition set_addr_ready_flash_state :: "u8 \<Rightarrow> btldr \<Rightarrow> btldr" where
  "set_addr_ready_flash_state cmd s =
     s\<lparr>flash_state :=
        (if cmd = I2C_BTLDR_REG_EEPROM_READ_ADDR then FLASH_STATE_EEPROM_READ_ADDR_READY
         else if cmd = I2C_BTLDR_REG_DATA_READ_ADDR then FLASH_STATE_DATA_READ_ADDR_READY
         else if cmd = I2C_BTLDR_REG_EEPROM_WRITE_ADDR then FLASH_STATE_EEPROM_WRITE_ADDR_READY
         else if cmd = I2C_BTLDR_REG_DATA_WRITE_ADDR then FLASH_STATE_DATA_WRITE_ADDR_READY
         else FLASH_STATE_IDLE)\<rparr>"

definition check_flash_addr :: "u8 \<Rightarrow> u32 \<Rightarrow> u8" where
  "check_flash_addr cmd addr =
     (if addr AND BTLDR_STM8L15X_INVALID_ADDR_MASK \<noteq> 0 then I2C_BTLDR_STATE_INVALID_ADDR
      else if cmd = I2C_BTLDR_REG_EEPROM_READ_ADDR \<or> cmd = I2C_BTLDR_REG_EEPROM_WRITE_ADDR then
        if addr < BTLDR_STM8L15X_EEPROM_BASE
           \<or> addr \<ge> BTLDR_STM8L15X_EEPROM_BASE + BTLDR_STM8L15X_EEPROM_SIZE
        then I2C_BTLDR_STATE_INVALID_ADDR else I2C_BTLDR_STATE_OK
      else if cmd = I2C_BTLDR_REG_DATA_READ_ADDR \<or> cmd = I2C_BTLDR_REG_DATA_WRITE_ADDR then
        if addr < BTLDR_STM8L15X_DATA_BASE
           \<or> addr \<ge> BTLDR_STM8L15X_DATA_BASE + BTLDR_STM8L15X_DATA_SIZE
        then I2C_BTLDR_STATE_INVALID_ADDR else I2C_BTLDR_STATE_OK
      else I2C_BTLDR_STATE_OK)"

definition start_key_ok :: "bytes \<Rightarrow> bool" where
  "start_key_ok buf \<longleftrightarrow> buf ! 0 = I2C_BTLDR_START_KEY_3 \<and> buf ! 1 = I2C_BTLDR_START_KEY_2
     \<and> buf ! 2 = I2C_BTLDR_START_KEY_1 \<and> buf ! 3 = I2C_BTLDR_START_KEY_0"

definition cmd_start :: "btldr \<Rightarrow> btldr" where
  "cmd_start s =
     (if i2c_offset s = I2C_BTLDR_REG_START_SIZE then
        if start_key_ok (i2c_buf s) then
          (case run_state s of
             RUN_STATE_BTLDR_START \<Rightarrow> s\<lparr>run_state := RUN_STATE_BTLDR_RUN\<rparr>
           | RUN_STATE_BTLDR_RUN \<Rightarrow>
               if app_status s AND APP_STATUS_READY_MASK = APP_STATUS_READY_READY
               then s\<lparr>run_state := RUN_STATE_APP_START\<rparr>
               else s\<lparr>btldr_state := I2C_BTLDR_STATE_APP_NOT_READY\<rparr>
           | RUN_STATE_APP_START \<Rightarrow> s\<lparr>btldr_state := I2C_BTLDR_STATE_BUSY\<rparr>)
        else s\<lparr>btldr_state := I2C_BTLDR_STATE_BAD_KEY\<rparr>
      else s\<lparr>btldr_state := I2C_BTLDR_STATE_INVALID_I2C_SIZE\<rparr>)"

definition cmd_wait :: "btldr \<Rightarrow> btldr" where
  "cmd_wait s =
     (if i2c_offset s = I2C_BTLDR_REG_START_SIZE then
        if start_key_ok (i2c_buf s) then
          (case run_state s of
             RUN_STATE_BTLDR_START \<Rightarrow> s\<lparr>run_state := RUN_STATE_BTLDR_RUN\<rparr>
           | RUN_STATE_BTLDR_RUN \<Rightarrow> s\<lparr>run_state := RUN_STATE_BTLDR_RUN\<rparr>
           | RUN_STATE_APP_START \<Rightarrow> s\<lparr>btldr_state := I2C_BTLDR_STATE_BUSY\<rparr>)
        else s\<lparr>btldr_state := I2C_BTLDR_STATE_BAD_KEY\<rparr>
      else s\<lparr>btldr_state := I2C_BTLDR_STATE_INVALID_I2C_SIZE\<rparr>)"

definition cmd_flash_addr :: "u8 \<Rightarrow> btldr \<Rightarrow> btldr" where
  "cmd_flash_addr cmd s =
     (let addr = of_be32 (i2c_buf s);
          s' = s\<lparr>btldr_state := check_flash_addr cmd addr\<rparr>
      in if btldr_state s' = I2C_BTLDR_STATE_OK
         then set_addr_ready_flash_state cmd (s'\<lparr>flash_addr := addr\<rparr>)
         else s')"

definition cmd_flash_write :: "u8 \<Rightarrow> flash_state \<Rightarrow> btldr \<Rightarrow> btldr" where
  "cmd_flash_write cmd last_flash_state s =
     (if i2c_offset s = of_nat FLASH_BLOCK_SIZE then
        if last_flash_state = FLASH_STATE_EEPROM_WRITE_DATA_READY \<and> cmd = I2C_BTLDR_REG_EEPROM_WRITE
        then s\<lparr>flash_state := FLASH_STATE_EEPROM_WRITE_RUN\<rparr>
        else if last_flash_state = FLASH_STATE_DATA_WRITE_DATA_READY \<and> cmd = I2C_BTLDR_REG_DATA_WRITE
        then s\<lparr>flash_state := FLASH_STATE_DATA_WRITE_RUN\<rparr>
        else s\<lparr>flash_state := FLASH_STATE_IDLE, btldr_state := I2C_BTLDR_STATE_FLASH_NOT_READY\<rparr>
      else s\<lparr>btldr_state := I2C_BTLDR_STATE_INVALID_BLOCK_SIZE\<rparr>)"

definition cmd_data_in :: "u8 \<Rightarrow> btldr \<Rightarrow> btldr" where
  "cmd_data_in cmd s0 =
     (let last_flash_state = flash_state s0;
          s = s0\<lparr>btldr_state := I2C_BTLDR_STATE_OK, flash_state := FLASH_STATE_IDLE\<rparr>
      in if cmd = I2C_BTLDR_REG_START then cmd_start s
         else if cmd = I2C_BTLDR_REG_WAIT then cmd_wait s
         else if cmd = I2C_BTLDR_REG_APP_INFO_SET then
           if i2c_offset s = I2C_BTLDR_REG_APP_INFO_SET_SIZE
           then s\<lparr>flash_state := FLASH_STATE_APP_INFO_WRITE_RUN\<rparr>
           else s\<lparr>btldr_state := I2C_BTLDR_STATE_INVALID_I2C_SIZE\<rparr>
         else if cmd = I2C_BTLDR_REG_EEPROM_READ_ADDR \<or> cmd = I2C_BTLDR_REG_DATA_READ_ADDR
              \<or> cmd = I2C_BTLDR_REG_EEPROM_WRITE_ADDR \<or> cmd = I2C_BTLDR_REG_DATA_WRITE_ADDR
         then cmd_flash_addr cmd s
         else if cmd = I2C_BTLDR_REG_EEPROM_WRITE \<or> cmd = I2C_BTLDR_REG_DATA_WRITE
         then cmd_flash_write cmd last_flash_state s
         else s\<lparr>btldr_state := I2C_BTLDR_STATE_INVALID_REG\<rparr>)"

section \<open>Lemmas\<close>

lemma length_enc_btldr_info [simp]: "length (enc_btldr_info e p v) = 8"
  by (simp add: enc_btldr_info_def)

lemma length_enc_device_info [simp]: "length (enc_device_info (btldr_dev_info s)) = 26"
  by (simp add: enc_device_info_def btldr_dev_info_def BTLDR_STM8L15X_OPTION_BYTES_def)

lemma length_enc_flash_info [simp]: "length (enc_flash_info p) = 28"
  by (simp add: enc_flash_info_def)

lemma dec_enc_flash_info [layout_simps]: "dec_flash_info (enc_flash_info p @ xs) = p"
  by (simp add: dec_flash_info_def enc_flash_info_def)

subsection \<open>Address checks\<close>

lemma check_flash_addr_ok:
  "check_flash_addr cmd a = I2C_BTLDR_STATE_OK \<longleftrightarrow>
     a AND BTLDR_STM8L15X_INVALID_ADDR_MASK = 0
     \<and> (cmd = I2C_BTLDR_REG_EEPROM_READ_ADDR \<or> cmd = I2C_BTLDR_REG_EEPROM_WRITE_ADDR \<longrightarrow> eeprom_addr a)
     \<and> (cmd = I2C_BTLDR_REG_DATA_READ_ADDR \<or> cmd = I2C_BTLDR_REG_DATA_WRITE_ADDR \<longrightarrow> data_addr a)"
  by (auto simp: check_flash_addr_def eeprom_addr_def data_addr_def block_addr_def not_less not_le)

text \<open>The address a flash state has been prepared for lies in its region.\<close>

fun flash_ok :: "flash_state \<Rightarrow> u32 \<Rightarrow> bool" where
  "flash_ok FLASH_STATE_IDLE a = True"
| "flash_ok FLASH_STATE_APP_INFO_WRITE_RUN a = True"
| "flash_ok FLASH_STATE_EEPROM_READ_ADDR_READY a = eeprom_addr a"
| "flash_ok FLASH_STATE_EEPROM_READ_RUN a = eeprom_addr a"
| "flash_ok FLASH_STATE_EEPROM_READ_DATA_READY a = eeprom_addr a"
| "flash_ok FLASH_STATE_EEPROM_WRITE_ADDR_READY a = eeprom_addr a"
| "flash_ok FLASH_STATE_EEPROM_WRITE_DATA_READY a = eeprom_addr a"
| "flash_ok FLASH_STATE_EEPROM_WRITE_RUN a = eeprom_addr a"
| "flash_ok FLASH_STATE_DATA_READ_ADDR_READY a = data_addr a"
| "flash_ok FLASH_STATE_DATA_READ_RUN a = data_addr a"
| "flash_ok FLASH_STATE_DATA_READ_DATA_READY a = data_addr a"
| "flash_ok FLASH_STATE_DATA_WRITE_ADDR_READY a = data_addr a"
| "flash_ok FLASH_STATE_DATA_WRITE_DATA_READY a = data_addr a"
| "flash_ok FLASH_STATE_DATA_WRITE_RUN a = data_addr a"

subsection \<open>What reads keep and change\<close>

lemma status_next_flash_ok: "status_next_flash_state f = Some f' \<Longrightarrow> flash_ok f a \<Longrightarrow> flash_ok f' a"
  by (cases f) auto

lemmas cmd_data_out_defs = cmd_data_out_def cmd_status_out_def cmd_out_default_def Let_def

lemma cmd_data_out_frame [simp]:
  "mem (cmd_data_out cmd s) = mem s" "app_status (cmd_data_out cmd s) = app_status s"
  "run_state (cmd_data_out cmd s) = run_state s" "i2c_reg (cmd_data_out cmd s) = i2c_reg s"
  "i2c_state (cmd_data_out cmd s) = i2c_state s" "flash_addr (cmd_data_out cmd s) = flash_addr s"
  "dr_out (cmd_data_out cmd s) = dr_out s" "board (cmd_data_out cmd s) = board s"
  by (simp_all add: cmd_data_out_defs split: option.split)

lemma cmd_data_out_buf [simp]:
  "length (i2c_buf s) = I2C_BUF_SIZE + 2 \<Longrightarrow> length (i2c_buf (cmd_data_out cmd s)) = I2C_BUF_SIZE + 2"
  by (simp add: cmd_data_out_defs split: option.split)

lemma cmd_data_out_offset [simp]: "i2c_offset (cmd_data_out cmd s) = 0"
  by (simp add: cmd_data_out_defs split: option.split)

lemma cmd_data_out_remaining: "unat (i2c_out_remaining (cmd_data_out cmd s)) \<le> I2C_BUF_SIZE"
  by (simp add: cmd_data_out_defs split: option.split)

lemma cmd_data_out_flash_ok:
  "flash_ok (flash_state s) (flash_addr s) \<Longrightarrow> flash_ok (flash_state (cmd_data_out cmd s)) (flash_addr s)"
  by (auto simp: cmd_data_out_defs split: option.split dest: status_next_flash_ok)

lemma cmd_data_out_flash_idle:
  "cmd \<noteq> I2C_BTLDR_REG_STATUS \<Longrightarrow> flash_state (cmd_data_out cmd s) = FLASH_STATE_IDLE"
  by (simp add: cmd_data_out_defs)

subsection \<open>What writes keep and change\<close>

lemmas cmd_data_in_defs = cmd_data_in_def cmd_start_def cmd_wait_def cmd_flash_addr_def cmd_flash_write_def
  set_addr_ready_flash_state_def Let_def

lemma cmd_start_frame [simp]:
  "mem (cmd_start s) = mem s" "app_status (cmd_start s) = app_status s" "i2c_buf (cmd_start s) = i2c_buf s"
  "i2c_state (cmd_start s) = i2c_state s" "i2c_offset (cmd_start s) = i2c_offset s" "i2c_reg (cmd_start s) = i2c_reg s"
  "dr_out (cmd_start s) = dr_out s" "flash_state (cmd_start s) = flash_state s"
  by (simp_all add: cmd_start_def split: run_state.split)

lemma cmd_wait_frame [simp]:
  "mem (cmd_wait s) = mem s" "app_status (cmd_wait s) = app_status s" "i2c_buf (cmd_wait s) = i2c_buf s"
  "i2c_state (cmd_wait s) = i2c_state s" "i2c_offset (cmd_wait s) = i2c_offset s" "i2c_reg (cmd_wait s) = i2c_reg s"
  "dr_out (cmd_wait s) = dr_out s" "flash_state (cmd_wait s) = flash_state s"
  by (simp_all add: cmd_wait_def split: run_state.split)

lemma cmd_flash_addr_frame [simp]:
  "mem (cmd_flash_addr c s) = mem s" "app_status (cmd_flash_addr c s) = app_status s" "i2c_buf (cmd_flash_addr c s) = i2c_buf s"
  "i2c_state (cmd_flash_addr c s) = i2c_state s" "i2c_offset (cmd_flash_addr c s) = i2c_offset s"
  "i2c_reg (cmd_flash_addr c s) = i2c_reg s" "dr_out (cmd_flash_addr c s) = dr_out s" "run_state (cmd_flash_addr c s) = run_state s"
  by (simp_all add: cmd_flash_addr_def set_addr_ready_flash_state_def Let_def)

lemma cmd_flash_write_frame [simp]:
  "mem (cmd_flash_write c f s) = mem s" "app_status (cmd_flash_write c f s) = app_status s"
  "i2c_buf (cmd_flash_write c f s) = i2c_buf s" "i2c_state (cmd_flash_write c f s) = i2c_state s"
  "i2c_offset (cmd_flash_write c f s) = i2c_offset s" "i2c_reg (cmd_flash_write c f s) = i2c_reg s"
  "dr_out (cmd_flash_write c f s) = dr_out s" "run_state (cmd_flash_write c f s) = run_state s"
  "flash_addr (cmd_flash_write c f s) = flash_addr s"
  by (simp_all add: cmd_flash_write_def)

lemma cmd_data_in_frame [simp]:
  "mem (cmd_data_in cmd s) = mem s" "app_status (cmd_data_in cmd s) = app_status s"
  "i2c_buf (cmd_data_in cmd s) = i2c_buf s" "i2c_state (cmd_data_in cmd s) = i2c_state s"
  "i2c_offset (cmd_data_in cmd s) = i2c_offset s" "i2c_reg (cmd_data_in cmd s) = i2c_reg s"
  "dr_out (cmd_data_in cmd s) = dr_out s"
  by (simp_all add: cmd_data_in_def Let_def)

lemma cmd_flash_addr_ok:
  assumes "cmd \<in> {I2C_BTLDR_REG_EEPROM_READ_ADDR, I2C_BTLDR_REG_DATA_READ_ADDR,
    I2C_BTLDR_REG_EEPROM_WRITE_ADDR, I2C_BTLDR_REG_DATA_WRITE_ADDR}" "flash_state s = FLASH_STATE_IDLE"
  shows "flash_ok (flash_state (cmd_flash_addr cmd s)) (flash_addr (cmd_flash_addr cmd s))"
  using assms by (auto simp: cmd_flash_addr_def set_addr_ready_flash_state_def Let_def check_flash_addr_ok)

lemma cmd_flash_write_ok:
  "flash_ok f (flash_addr s) \<Longrightarrow> flash_state s = FLASH_STATE_IDLE \<Longrightarrow>
   flash_ok (flash_state (cmd_flash_write cmd f s)) (flash_addr s)"
  by (auto simp: cmd_flash_write_def)

lemma cmd_data_in_flash_ok:
  assumes "flash_ok (flash_state s) (flash_addr s)"
  shows "flash_ok (flash_state (cmd_data_in cmd s)) (flash_addr (cmd_data_in cmd s))"
  using assms cmd_flash_addr_ok [of cmd "s\<lparr>btldr_state := I2C_BTLDR_STATE_OK, flash_state := FLASH_STATE_IDLE\<rparr>"]
    cmd_flash_write_ok [of "flash_state s" "s\<lparr>btldr_state := I2C_BTLDR_STATE_OK, flash_state := FLASH_STATE_IDLE\<rparr>" cmd]
  by (auto simp: cmd_data_in_def Let_def)

text \<open>Only the start key leaves the command loop, and only for a ready application.\<close>

lemma cmd_data_in_run_state:
  assumes "run_state (cmd_data_in cmd s) \<noteq> RUN_STATE_BTLDR_RUN" "run_state s = RUN_STATE_BTLDR_RUN"
  shows "cmd = I2C_BTLDR_REG_START \<and> app_ready s \<and> flash_state (cmd_data_in cmd s) = FLASH_STATE_IDLE"
  using assms by (auto simp: cmd_data_in_def Let_def cmd_start_def cmd_wait_def app_ready_def split: if_splits)

lemma cmd_data_in_gated:
  assumes "cmd \<in> {I2C_BTLDR_REG_START, I2C_BTLDR_REG_RESV_2, I2C_BTLDR_REG_RESV}"
  shows "flash_state (cmd_data_in cmd s) = FLASH_STATE_IDLE"
  using assms by (auto simp: cmd_data_in_def Let_def)

end
