(* ===== verification/Btldr_Main.thy ===== *)
theory Btldr_Main
  imports Btldr_Commands
begin

text \<open>
  The I2C slave of \<open>bootloader/i2c.c\<close>, the LED chaser of \<open>bootloader_b3_main.c\<close> and the main
  loop of \<open>bootloader/main.c\<close>, as a step function over what the bus hardware shows.
\<close>

section \<open>The I2C slave\<close>

datatype i2c_dir = I2C_START_RECV | I2C_START_TRA

definition I2C_STATE_RESET :: "btldr \<Rightarrow> btldr" where
  "I2C_STATE_RESET s =
     (if i2c_state s \<noteq> I2C_STATE_IDLE
      then s\<lparr>i2c_state := I2C_STATE_IDLE, i2c_offset := 0, i2c_out_remaining := 0, i2c_reg := I2C_BTLDR_REG_RESV\<rparr>
      else s)"

definition i2c_message_start :: "i2c_dir \<Rightarrow> btldr \<Rightarrow> btldr" where
  "i2c_message_start tra s =
     (case i2c_state s of
        I2C_STATE_IDLE \<Rightarrow> if tra = I2C_START_RECV then s\<lparr>i2c_state := I2C_STATE_REG_WAIT\<rparr> else s
      | I2C_STATE_OUT_START_WAIT \<Rightarrow>
          if tra = I2C_START_TRA then
            let s1 = cmd_data_out (i2c_reg s) s;
                checksum = i2c_message_checksum
                  (get_at (unat (i2c_offset s1)) (unat (i2c_out_remaining s1)) (i2c_buf s1)) (i2c_reg s1)
            in s1\<lparr>i2c_buf := (i2c_buf s1)[unat (i2c_offset s1) + unat (i2c_out_remaining s1) := checksum],
                  i2c_out_remaining := i2c_out_remaining s1 + 2, i2c_state := I2C_STATE_DATA_OUT\<rparr>
          else I2C_STATE_RESET s
      | _ \<Rightarrow> I2C_STATE_RESET s)"

text \<open>
  Reads of \<open>i2c_buf\<close> at an index the C code computes: outside the buffer they see the
  surrounding RAM, which is whatever \<open>ram\<close> says (index relative to the start of the buffer).
\<close>

definition buf_at :: "(int \<Rightarrow> u8) \<Rightarrow> bytes \<Rightarrow> int \<Rightarrow> u8" where
  "buf_at ram buf i = (if 0 \<le> i \<and> i < int (length buf) then buf ! nat i else ram i)"

definition i2c_message_verify :: "(int \<Rightarrow> u8) \<Rightarrow> bytes \<Rightarrow> u8 \<Rightarrow> u8 \<Rightarrow> bool" where
  "i2c_message_verify ram buf regaddr len =
     (crc8 (IOMCU_CRC8_INIT + regaddr) (map (\<lambda>i. buf_at ram buf (int i)) [0..<unat (len - 1)])
        = buf_at ram buf (int (unat len) - 1))"

definition i2c_message_stop :: "(int \<Rightarrow> u8) \<Rightarrow> btldr \<Rightarrow> btldr" where
  "i2c_message_stop ram s =
     (case i2c_state s of
        I2C_STATE_DATA_IN \<Rightarrow>
          I2C_STATE_RESET
            (if i2c_message_verify ram (i2c_buf s) (i2c_reg s) (i2c_offset s)
             then cmd_data_in (i2c_reg s) (s\<lparr>i2c_offset := i2c_offset s - 1\<rparr>)
             else s\<lparr>btldr_state := I2C_BTLDR_STATE_CHECKSUM_FAILED, flash_state := FLASH_STATE_IDLE\<rparr>)
      | _ \<Rightarrow> I2C_STATE_RESET s)"

definition i2c_byte_in :: "u8 \<Rightarrow> btldr \<Rightarrow> btldr" where
  "i2c_byte_in byte s =
     (case i2c_state s of
        I2C_STATE_REG_WAIT \<Rightarrow>
          if byte \<noteq> I2C_BTLDR_REG_RESV then
            let reg = (if run_state s = RUN_STATE_BTLDR_RUN \<or> byte = I2C_BTLDR_REG_START then byte
                       else I2C_BTLDR_REG_RESV_2 OR (byte AND I2C_BTLDR_REG_RW_MASK))
            in s\<lparr>i2c_reg := reg,
                 i2c_state := (if reg AND I2C_BTLDR_REG_RW_MASK = I2C_BTLDR_REG_READ
                               then I2C_STATE_OUT_START_WAIT else I2C_STATE_DATA_IN)\<rparr>
          else I2C_STATE_RESET s
      | I2C_STATE_DATA_IN \<Rightarrow>
          if unat (i2c_offset s) < I2C_BUF_SIZE
          then s\<lparr>i2c_buf := (i2c_buf s)[unat (i2c_offset s) := byte], i2c_offset := i2c_offset s + 1\<rparr>
          else s\<lparr>btldr_state := I2C_BTLDR_STATE_OVERFLOW\<rparr>
      | _ \<Rightarrow> I2C_STATE_RESET s)"

definition i2c_byte_out :: "btldr \<Rightarrow> u8 \<times> btldr" where
  "i2c_byte_out s =
     (case i2c_state s of
        I2C_STATE_DATA_OUT \<Rightarrow>
          if i2c_out_remaining s \<noteq> 0 \<and> unat (i2c_offset s) < I2C_BUF_SIZE
          then (i2c_buf s ! unat (i2c_offset s),
                s\<lparr>i2c_offset := i2c_offset s + 1, i2c_out_remaining := i2c_out_remaining s - 1\<rparr>)
          else if i2c_out_remaining s \<noteq> 0
          then (0x55, s\<lparr>btldr_state := I2C_BTLDR_STATE_OVERFLOW\<rparr>)
          else (0x55, s\<lparr>btldr_state := I2C_BTLDR_STATE_UNDERFLOW\<rparr>)
      | _ \<Rightarrow> (0x55, I2C_STATE_RESET s))"

text \<open>\<open>I2C1->DR = i2c_byte_out()\<close>.\<close>

definition i2c_dr_store :: "btldr \<Rightarrow> btldr" where
  "i2c_dr_store s = (let (byte, s') = i2c_byte_out s in s'\<lparr>dr_out := dr_out s' @ [byte]\<rparr>)"

section \<open>Polling the bus\<close>

text \<open>
  What the hardware shows during one call of \<open>i2c_proc_event\<close>: the successive reads of
  (SR2, SR1) while it polls, after which the bus is quiet; then SR3, DR and the RAM around the
  receive buffer.
\<close>

record i2c_hw =
  hw_polls :: "(u8 \<times> u8) list"
  hw_sr3 :: u8
  hw_dr :: u8
  hw_ram :: "int \<Rightarrow> u8"

abbreviation I2C_SR1_TXE :: u8 where "I2C_SR1_TXE \<equiv> 0x80"
abbreviation I2C_SR1_RXNE :: u8 where "I2C_SR1_RXNE \<equiv> 0x40"
abbreviation I2C_SR1_STOPF :: u8 where "I2C_SR1_STOPF \<equiv> 0x10"
abbreviation I2C_SR1_BTF :: u8 where "I2C_SR1_BTF \<equiv> 0x04"
abbreviation I2C_SR1_ADDR :: u8 where "I2C_SR1_ADDR \<equiv> 0x02"
abbreviation I2C_SR2_AF :: u8 where "I2C_SR2_AF \<equiv> 0x04"
abbreviation I2C_SR3_TRA :: u8 where "I2C_SR3_TRA \<equiv> 0x04"

text \<open>The wait with a timeout: the registers that ended it and the timeout that remains.\<close>

fun i2c_poll_timeout :: "(u8 \<times> u8) list \<Rightarrow> u16 \<Rightarrow> u8 \<times> u8 \<times> u16" where
  "i2c_poll_timeout [] timeout = (0, 0, 0)"
| "i2c_poll_timeout ((sr2, sr1) # polls) timeout =
     (if sr1 = 0 \<and> sr2 = 0
      then if timeout - 1 = 0 then (sr2, sr1, 0) else i2c_poll_timeout polls (timeout - 1)
      else (sr2, sr1, timeout))"

text \<open>The wait without a timeout: \<open>None\<close> while nothing happens on the bus.\<close>

fun i2c_poll :: "(u8 \<times> u8) list \<Rightarrow> (u8 \<times> u8) option" where
  "i2c_poll [] = None"
| "i2c_poll ((sr2, sr1) # polls) = (if sr1 = 0 \<and> sr2 = 0 then i2c_poll polls else Some (sr2, sr1))"

text \<open>
  The event handling after the wait. The communication error branch only writes hardware
  registers (release the lines, clear the flags), so it leaves the state as it is.
\<close>

definition i2c_handle :: "u8 \<Rightarrow> u8 \<Rightarrow> i2c_hw \<Rightarrow> btldr \<Rightarrow> btldr" where
  "i2c_handle sr2 sr1 hw s0 =
     (let s1 = (if sr1 AND I2C_SR1_RXNE \<noteq> 0 then i2c_byte_in (hw_dr hw) s0 else s0);
          s2 = (if sr2 AND I2C_SR2_AF \<noteq> 0 then i2c_message_stop (hw_ram hw) s1 else s1);
          s3 = (if sr1 AND I2C_SR1_STOPF \<noteq> 0 then i2c_message_stop (hw_ram hw) s2 else s2);
          s4 = (if sr1 AND I2C_SR1_ADDR \<noteq> 0
                then i2c_message_start (if hw_sr3 hw AND I2C_SR3_TRA = I2C_SR3_TRA then I2C_START_TRA else I2C_START_RECV) s3
                else s3);
          s5 = (if sr1 AND (I2C_SR1_TXE OR I2C_SR1_BTF) = I2C_SR1_TXE OR I2C_SR1_BTF then i2c_dr_store s4 else s4)
      in if sr1 AND I2C_SR1_TXE \<noteq> 0 then i2c_dr_store s5 else s5)"

definition i2c_proc_event_timeout :: "u16 \<Rightarrow> i2c_hw \<Rightarrow> btldr \<Rightarrow> u16 \<times> btldr" where
  "i2c_proc_event_timeout timeout hw s =
     (let (sr2, sr1, timeout') = i2c_poll_timeout (hw_polls hw) timeout
      in if timeout' = 0 then (0, s) else (timeout', i2c_handle sr2 sr1 hw s))"

definition i2c_proc_event_wait :: "i2c_hw \<Rightarrow> btldr \<Rightarrow> btldr option" where
  "i2c_proc_event_wait hw s =
     map_option (\<lambda>(sr2, sr1). i2c_handle sr2 sr1 hw s) (i2c_poll (hw_polls hw))"

section \<open>LED chaser\<close>

abbreviation LED_TIMER_VALUE :: u16 where "LED_TIMER_VALUE \<equiv> 0x300"
abbreviation LED_ROW_ALL :: u8 where "LED_ROW_ALL \<equiv> 0x0f"
abbreviation LED_COL_ALL :: u8 where "LED_COL_ALL \<equiv> 0x3f"

definition led_update :: "btldr \<Rightarrow> btldr" where
  "led_update s =
     (if led_delay s < LED_TIMER_VALUE then s\<lparr>led_delay := led_delay s + 1\<rparr>
      else
        let rows_off = led_row_odr s AND NOT LED_ROW_ALL;
            cols_off = led_col_odr s OR LED_COL_ALL;
            row = push_bit (unat (status_led s div 6)) 1;
            col = push_bit (unat (status_led s mod 6)) 1
        in s\<lparr>led_delay := 0, led_row_odr := rows_off OR row, led_col_odr := cols_off AND NOT col,
             status_led := (if status_led s + 1 \<ge> 24 then 0 else status_led s + 1)\<rparr>)"

section \<open>The main loop\<close>

abbreviation I2C_62500_US_TIMEOUT :: u16 where "I2C_62500_US_TIMEOUT \<equiv> 0x9100"
abbreviation I2C_TIMEOUT_COUNT :: u16 where "I2C_TIMEOUT_COUNT \<equiv> 16"

text \<open>
  Where \<open>main\<close> is: waiting for the start key with its timeout counter and timeout, serving
  commands with the flash unlocked, or gone to the application.
\<close>

datatype main_pc = MAIN_WAIT_START u16 u16 | MAIN_RUN | MAIN_APP

type_synonym main_config = "main_pc \<times> btldr"

definition main_wait_next :: "u16 \<Rightarrow> u16 \<Rightarrow> btldr \<Rightarrow> main_config" where
  "main_wait_next timeout_counter timeout s =
     (case run_state s of
        RUN_STATE_BTLDR_START \<Rightarrow> (MAIN_WAIT_START timeout_counter timeout, s)
      | RUN_STATE_BTLDR_RUN \<Rightarrow> (MAIN_RUN, s)
      | RUN_STATE_APP_START \<Rightarrow> (MAIN_APP, s))"

definition main_start :: "btldr \<Rightarrow> main_config" where
  "main_start s = main_wait_next I2C_TIMEOUT_COUNT I2C_62500_US_TIMEOUT (init_run_state s)"

definition main_wait_step :: "i2c_hw \<Rightarrow> u16 \<Rightarrow> u16 \<Rightarrow> btldr \<Rightarrow> main_config" where
  "main_wait_step hw timeout_counter timeout s =
     (let (timeout', s1) = i2c_proc_event_timeout timeout hw s
      in if timeout' = 0 then
           let timeout_counter' = timeout_counter - 1;
               s2 = (if timeout_counter' = 0
                     then s1\<lparr>run_state := (if run_state s1 = RUN_STATE_BTLDR_RUN then run_state s1 else RUN_STATE_APP_START)\<rparr>
                     else s1)
           in main_wait_next timeout_counter' I2C_62500_US_TIMEOUT s2
         else main_wait_next timeout_counter timeout' s1)"

definition main_flash_ops :: "btldr \<Rightarrow> btldr" where
  "main_flash_ops s =
     (if i2c_state s = I2C_STATE_IDLE then
        if flash_state s = FLASH_STATE_EEPROM_READ_RUN \<or> flash_state s = FLASH_STATE_DATA_READ_RUN
           \<or> flash_state s = FLASH_STATE_EEPROM_WRITE_RUN \<or> flash_state s = FLASH_STATE_DATA_WRITE_RUN
        then flash_rdwr_run s
        else if flash_state s = FLASH_STATE_APP_INFO_WRITE_RUN then write_app_info_run s
        else s
      else s)"

definition main_run_step :: "i2c_hw \<Rightarrow> btldr \<Rightarrow> main_config" where
  "main_run_step hw s =
     (case i2c_proc_event_wait hw s of
        None \<Rightarrow> (MAIN_RUN, s)
      | Some s1 \<Rightarrow>
          let s2 = main_flash_ops (led_update s1)
          in if run_state s2 = RUN_STATE_BTLDR_RUN \<or> i2c_state s2 \<noteq> I2C_STATE_IDLE
             then (MAIN_RUN, s2) else (MAIN_APP, s2))"

fun main_step :: "i2c_hw \<Rightarrow> main_config \<Rightarrow> main_config" where
  "main_step hw (MAIN_WAIT_START timeout_counter timeout, s) = main_wait_step hw timeout_counter timeout s"
| "main_step hw (MAIN_RUN, s) = main_run_step hw s"
| "main_step hw (MAIN_APP, s) = (MAIN_APP, s)"

text \<open>The state at reset: the initialised globals, over any memory contents.\<close>

definition btldr_reset :: "btldr_board \<Rightarrow> flash_mem \<Rightarrow> btldr" where
  "btldr_reset brd m = \<lparr>board = brd, run_state = RUN_STATE_BTLDR_START, btldr_state = I2C_BTLDR_STATE_OK,
     app_status = 0, i2c_state = I2C_STATE_IDLE, i2c_buf = replicate (I2C_BUF_SIZE + 2) 0, i2c_offset = 0,
     i2c_out_remaining = 0, i2c_reg = I2C_BTLDR_REG_RESV, flash_state = FLASH_STATE_IDLE, flash_addr = 0,
     mem = m, flash_cr2 = 0, dr_out = [], status_led = 1, led_delay = 0, led_row_odr = 0,
     led_col_odr = LED_COL_ALL\<rparr>"

definition boot :: "btldr_board \<Rightarrow> flash_mem \<Rightarrow> i2c_hw list \<Rightarrow> main_config" where
  "boot brd m hws = run main_step hws (main_start (btldr_reset brd m))"

end
