(* ===== verification/Btldr_Safety.thy ===== *)
theory Btldr_Safety
  imports Btldr_Main
begin

text \<open>
  The invariant of the bootloader and what follows from it for every run from reset: which
  memory it can change, what it boots, and that its buffer accesses stay in bounds.
\<close>

section \<open>The invariant\<close>

definition btldr_inv :: "btldr \<Rightarrow> bool" where
  "btldr_inv s \<longleftrightarrow> length (i2c_buf s) = I2C_BUF_SIZE + 2
     \<and> flash_ok (flash_state s) (flash_addr s)
     \<and> unat (i2c_offset s) \<le> I2C_BUF_SIZE
     \<and> (i2c_state s \<in> {I2C_STATE_IDLE, I2C_STATE_REG_WAIT, I2C_STATE_OUT_START_WAIT} \<longrightarrow> i2c_offset s = 0)
     \<and> (run_state s \<noteq> RUN_STATE_BTLDR_RUN \<longrightarrow> flash_state s = FLASH_STATE_IDLE \<and> app_ready s
          \<and> i2c_reg s \<in> {I2C_BTLDR_REG_START, I2C_BTLDR_REG_RESV_2, I2C_BTLDR_REG_RESV})
     \<and> (app_ready s \<longrightarrow> app_verified (mem s))"

lemma app_ready_cong: "app_status s = app_status t \<Longrightarrow> app_ready s = app_ready t"
  by (simp add: app_ready_def)

lemma I2C_STATE_RESET_frame [simp]:
  "mem (I2C_STATE_RESET s) = mem s" "app_status (I2C_STATE_RESET s) = app_status s"
  "run_state (I2C_STATE_RESET s) = run_state s" "flash_state (I2C_STATE_RESET s) = flash_state s"
  "flash_addr (I2C_STATE_RESET s) = flash_addr s" "i2c_buf (I2C_STATE_RESET s) = i2c_buf s"
  "i2c_state (I2C_STATE_RESET s) = I2C_STATE_IDLE" "dr_out (I2C_STATE_RESET s) = dr_out s"
  "btldr_state (I2C_STATE_RESET s) = btldr_state s"
  by (simp_all add: I2C_STATE_RESET_def)

lemma I2C_STATE_RESET_reg:
  "i2c_state s \<noteq> I2C_STATE_IDLE \<Longrightarrow> i2c_reg (I2C_STATE_RESET s) = I2C_BTLDR_REG_RESV"
  "i2c_state s \<noteq> I2C_STATE_IDLE \<Longrightarrow> i2c_offset (I2C_STATE_RESET s) = 0"
  by (simp_all add: I2C_STATE_RESET_def)

lemma I2C_STATE_RESET_inv [intro]: "btldr_inv s \<Longrightarrow> btldr_inv (I2C_STATE_RESET s)"
  by (auto simp: btldr_inv_def I2C_STATE_RESET_def app_ready_def)

section \<open>The I2C slave keeps it\<close>

lemma i2c_message_start_mem [simp]: "mem (i2c_message_start tra s) = mem s"
  by (simp add: i2c_message_start_def Let_def split: i2c_state.split)

lemma cmd_data_out_inv: "btldr_inv s \<Longrightarrow> btldr_inv (cmd_data_out (i2c_reg s) s)"
  using cmd_data_out_flash_idle [of "i2c_reg s" s]
  by (auto simp: btldr_inv_def cmd_data_out_flash_ok app_ready_def)

lemma i2c_message_start_inv: "btldr_inv s \<Longrightarrow> btldr_inv (i2c_message_start tra s)"
  using cmd_data_out_inv [of s]
  by (auto simp: i2c_message_start_def Let_def split: i2c_state.split)
    (auto simp: btldr_inv_def app_ready_def)

lemma i2c_message_stop_mem [simp]: "mem (i2c_message_stop ram s) = mem s"
  by (simp add: i2c_message_stop_def split: i2c_state.split)

lemma cmd_data_in_inv:
  assumes "btldr_inv s" "i2c_state s \<noteq> I2C_STATE_IDLE"
  shows "btldr_inv (I2C_STATE_RESET (cmd_data_in (i2c_reg s) (s\<lparr>i2c_offset := n\<rparr>)))"
proof -
  let ?s = "s\<lparr>i2c_offset := n\<rparr>"
  let ?t = "cmd_data_in (i2c_reg s) ?s"
  have ok: "flash_ok (flash_state ?t) (flash_addr ?t)"
    using assms(1) cmd_data_in_flash_ok [of ?s "i2c_reg s"] by (simp add: btldr_inv_def)
  have ready: "app_ready ?t = app_ready s" by (simp add: app_ready_def)
  have nrun: "flash_state ?t = FLASH_STATE_IDLE \<and> app_ready s" if "run_state ?t \<noteq> RUN_STATE_BTLDR_RUN"
  proof (cases "run_state s = RUN_STATE_BTLDR_RUN")
    case True
    with cmd_data_in_run_state [OF that] show ?thesis by (auto simp: app_ready_def)
  next
    case False
    with assms(1) show ?thesis by (auto simp: btldr_inv_def cmd_data_in_gated)
  qed
  show ?thesis
    using assms ok ready nrun
    by (simp add: btldr_inv_def I2C_STATE_RESET_reg app_ready_cong [of "I2C_STATE_RESET ?t" ?t])
qed

lemma i2c_message_stop_inv: "btldr_inv s \<Longrightarrow> btldr_inv (i2c_message_stop ram s)"
  using cmd_data_in_inv [of s]
  by (auto simp: i2c_message_stop_def split: i2c_state.split)
    (auto simp: btldr_inv_def I2C_STATE_RESET_def app_ready_def)

lemma i2c_byte_in_mem [simp]: "mem (i2c_byte_in b s) = mem s"
  by (simp add: i2c_byte_in_def Let_def split: i2c_state.split)

lemma gated_reg: "0x7f OR (b AND 0x80) = (0x7f :: u8) \<or> 0x7f OR (b AND 0x80) = (0xff :: u8)"
  using word_and_exp [of b 7] by (simp split: if_splits)

lemma btldr_inv_reg:
  assumes "btldr_inv s"
    and "run_state s \<noteq> RUN_STATE_BTLDR_RUN \<Longrightarrow> r \<in> {I2C_BTLDR_REG_START, I2C_BTLDR_REG_RESV_2, I2C_BTLDR_REG_RESV}"
    and "i2c_offset s = 0"
  shows "btldr_inv (s\<lparr>i2c_reg := r, i2c_state := st\<rparr>)"
  using assms by (simp add: btldr_inv_def app_ready_def)

lemma btldr_inv_byte:
  assumes "btldr_inv s" "unat (i2c_offset s) < I2C_BUF_SIZE" "i2c_state s = I2C_STATE_DATA_IN"
  shows "btldr_inv (s\<lparr>i2c_buf := (i2c_buf s)[i := b], i2c_offset := i2c_offset s + 1\<rparr>)"
  using assms by (simp add: btldr_inv_def app_ready_def unat_word_ariths)

lemma btldr_inv_state: "btldr_inv (s\<lparr>btldr_state := st\<rparr>) = btldr_inv s"
  by (simp add: btldr_inv_def app_ready_def)

lemma i2c_byte_in_inv: "btldr_inv s \<Longrightarrow> btldr_inv (i2c_byte_in b s)"
proof (cases "i2c_state s")
  case I2C_STATE_REG_WAIT
  assume "btldr_inv s"
  moreover from this I2C_STATE_REG_WAIT have "i2c_offset s = 0" by (simp add: btldr_inv_def)
  ultimately show ?thesis using I2C_STATE_REG_WAIT gated_reg [of b]
    by (simp add: i2c_byte_in_def Let_def I2C_STATE_RESET_inv btldr_inv_reg)
qed (auto simp: i2c_byte_in_def btldr_inv_byte btldr_inv_state)

lemma i2c_dr_store_mem [simp]: "mem (i2c_dr_store s) = mem s"
  by (simp add: i2c_dr_store_def i2c_byte_out_def split: i2c_state.split)

lemma i2c_byte_out_inv: "btldr_inv s \<Longrightarrow> btldr_inv (snd (i2c_byte_out s))"
  by (auto simp: i2c_byte_out_def split: i2c_state.split)
    (auto simp: btldr_inv_def app_ready_def unat_word_ariths)

lemma i2c_dr_store_inv: "btldr_inv s \<Longrightarrow> btldr_inv (i2c_dr_store s)"
  using i2c_byte_out_inv [of s]
  by (simp add: i2c_dr_store_def case_prod_beta) (simp add: btldr_inv_def app_ready_def)

lemma i2c_handle_mem [simp]: "mem (i2c_handle sr2 sr1 hw s) = mem s"
  unfolding i2c_handle_def
  by (intro let_keeps [where P = "\<lambda>t. mem t = mem s"] if_keeps [where P = "\<lambda>t. mem t = mem s"]) simp_all

lemma i2c_handle_inv: "btldr_inv s \<Longrightarrow> btldr_inv (i2c_handle sr2 sr1 hw s)"
  unfolding i2c_handle_def
  by (intro let_keeps [where P = btldr_inv] if_keeps [where P = btldr_inv] i2c_byte_in_inv i2c_message_stop_inv
      i2c_message_start_inv i2c_dr_store_inv)

section \<open>The flash operations keep it\<close>

lemma in_block_unat:
  "in_block (ucast (a :: u32)) x \<Longrightarrow> unat a + 0x80 \<le> 0x10000 \<Longrightarrow> unat a \<le> unat x \<and> unat x < unat a + 0x80"
proof -
  assume "in_block (ucast a) x" and a: "unat a + 0x80 \<le> 0x10000"
  then obtain i where i: "i < 0x80" "x = ucast a + of_nat i" by (auto simp: in_block_iff)
  have "unat (ucast a :: u16) = unat a" using a by (simp add: unsigned_ucast_eq take_bit_eq_mod)
  then have "unat x = unat a + i" using a i by (simp add: unat_word_ariths unat_of_nat)
  then show ?thesis using i by simp
qed

text \<open>The addresses outside of everything the protocol may program.\<close>

definition btldr_protected :: "u16 \<Rightarrow> bool" where
  "btldr_protected a \<longleftrightarrow> unat a < 0x1000 \<or> (0x1400 \<le> unat a \<and> unat a < 0xa000)"

lemma app_verified_cong:
  assumes "\<And>a. unat a < 0x1080 \<Longrightarrow> m' a = m a" "\<And>a. 0xa000 \<le> unat a \<Longrightarrow> m' a = m a"
  shows "app_verified m' = app_verified m"
proof -
  have h: "header_bytes m' = header_bytes m"
    unfolding header_bytes_def using assms(1) by (simp add: unat_word_ariths unat_of_nat)
  have img: "app_image m' n = app_image m n" if "n \<le> 0x6000" for n
    unfolding app_image_def using assms(2) that by (simp add: unat_word_ariths unat_of_nat)
  have "unat (ed_app_size (dec_eeprom_data (header_bytes m))) div 0x80 * 0x80 \<le> 0x6000"
    if "unat (ed_app_size (dec_eeprom_data (header_bytes m))) \<le> 0x6000"
    using that div_times_less_eq_dividend [of "unat (ed_app_size (dec_eeprom_data (header_bytes m)))" "0x80"]
    by linarith
  then show ?thesis
    using assms(2) [of "0xa000"] by (auto simp: app_verified_def header_valid_def Let_def h img)
qed

lemma main_flash_ops_cases:
  assumes "btldr_inv s"
  obtains (none) "main_flash_ops s = s"
  | (read) "main_flash_ops s = flash_rdwr_run s" "flash_state s = FLASH_STATE_EEPROM_READ_RUN \<or> flash_state s = FLASH_STATE_DATA_READ_RUN"
  | (eeprom) "main_flash_ops s = flash_rdwr_run s" "flash_state s = FLASH_STATE_EEPROM_WRITE_RUN" "eeprom_addr (flash_addr s)"
  | (data) "main_flash_ops s = flash_rdwr_run s" "flash_state s = FLASH_STATE_DATA_WRITE_RUN" "data_addr (flash_addr s)"
  | (info) "main_flash_ops s = write_app_info_run s" "flash_state s = FLASH_STATE_APP_INFO_WRITE_RUN"
  using assms that
  by (cases "flash_state s"; cases "i2c_state s = I2C_STATE_IDLE") (simp_all add: main_flash_ops_def btldr_inv_def)

lemma main_flash_ops_inv:
  assumes "btldr_inv s"
  shows "btldr_inv (main_flash_ops s)"
  using assms
proof (cases rule: main_flash_ops_cases)
  case none
  with assms show ?thesis by simp
next
  case read
  with assms show ?thesis by (auto simp: flash_rdwr_run_read btldr_inv_def app_ready_def)
next
  case eeprom
  have "app_verified (mem (flash_programblock_mem 1 (flash_addr s) (i2c_buf s) s)) = app_verified (mem s)"
    using eeprom_addr_unat [OF eeprom(3)]
    by (intro app_verified_cong) (auto simp: mem_programblock_mem dest!: in_block_unat)
  with assms eeprom show ?thesis by (auto simp: flash_rdwr_run_eeprom btldr_inv_def app_ready_def)
next
  case data
  then have "\<not> app_ready (main_flash_ops s)" by (simp add: flash_rdwr_run_data app_ready_def and.assoc)
  with assms data show ?thesis by (auto simp: flash_rdwr_run_data btldr_inv_def)
next
  case info
  let ?w = "write_app_info (dec_app_info_set (i2c_buf s)) s"
  have "FLASH_BLOCK_SIZE \<le> length (i2c_buf s)" using assms by (simp add: btldr_inv_def)
  note w = write_app_info_frame [OF this, of "dec_app_info_set (i2c_buf s)"]
  have "app_ready (?w\<lparr>flash_state := FLASH_STATE_IDLE\<rparr>) = app_ready ?w" by (simp add: app_ready_def)
  moreover have "run_state s = RUN_STATE_BTLDR_RUN" using assms info by (auto simp: btldr_inv_def)
  ultimately show ?thesis using assms info w by (simp add: write_app_info_run_def btldr_inv_def)
qed

lemma main_flash_ops_protected:
  assumes "btldr_inv s" "btldr_protected a"
  shows "mem (main_flash_ops s) a = mem s a"
  using assms(1)
proof (cases rule: main_flash_ops_cases)
  case eeprom
  with assms(2) eeprom_addr_unat [OF eeprom(3)] show ?thesis
    by (auto simp: flash_rdwr_run_eeprom mem_programblock_mem btldr_protected_def dest!: in_block_unat)
next
  case data
  with assms(2) data_addr_unat [OF data(3)] show ?thesis
    by (auto simp: flash_rdwr_run_data mem_programblock_mem btldr_protected_def dest!: in_block_unat)
next
  case info
  have "FLASH_BLOCK_SIZE \<le> length (i2c_buf s)" using assms(1) by (simp add: btldr_inv_def)
  with info assms(2) in_block_unat [of "0x1000" a] show ?thesis
    by (auto simp: write_app_info_run_def Let_def mem_write_app_info btldr_protected_def)
qed (auto simp: flash_rdwr_run_read)

section \<open>The main loop keeps it\<close>

lemma led_update_frame [simp]:
  "mem (led_update s) = mem s" "app_status (led_update s) = app_status s" "run_state (led_update s) = run_state s"
  "flash_state (led_update s) = flash_state s" "flash_addr (led_update s) = flash_addr s" "i2c_buf (led_update s) = i2c_buf s"
  "i2c_state (led_update s) = i2c_state s" "i2c_offset (led_update s) = i2c_offset s" "i2c_reg (led_update s) = i2c_reg s"
  "i2c_out_remaining (led_update s) = i2c_out_remaining s" "btldr_state (led_update s) = btldr_state s"
  "dr_out (led_update s) = dr_out s"
  by (simp_all add: led_update_def Let_def)

lemma led_update_inv: "btldr_inv s \<Longrightarrow> btldr_inv (led_update s)"
  by (simp add: btldr_inv_def app_ready_def)

fun main_inv :: "main_config \<Rightarrow> bool" where
  "main_inv (MAIN_WAIT_START c t, s) \<longleftrightarrow> btldr_inv s \<and> run_state s = RUN_STATE_BTLDR_START"
| "main_inv (MAIN_RUN, s) \<longleftrightarrow> btldr_inv s"
| "main_inv (MAIN_APP, s) \<longleftrightarrow> btldr_inv s \<and> run_state s \<noteq> RUN_STATE_BTLDR_RUN"

lemma main_wait_next_inv: "btldr_inv s \<Longrightarrow> main_inv (main_wait_next c t s)"
  by (simp add: main_wait_next_def split: run_state.split)

lemma snd_main_wait_next [simp]: "snd (main_wait_next c t s) = s"
  by (simp add: main_wait_next_def split: run_state.split)

lemma i2c_proc_event_timeout_inv: "btldr_inv s \<Longrightarrow> btldr_inv (snd (i2c_proc_event_timeout t hw s))"
  by (simp add: i2c_proc_event_timeout_def case_prod_beta i2c_handle_inv)

lemma i2c_proc_event_timeout_mem [simp]: "mem (snd (i2c_proc_event_timeout t hw s)) = mem s"
  by (simp add: i2c_proc_event_timeout_def case_prod_beta)

lemma btldr_inv_app_start:
  "btldr_inv s \<Longrightarrow>
   btldr_inv (s\<lparr>run_state := (if run_state s = RUN_STATE_BTLDR_RUN then run_state s else RUN_STATE_APP_START)\<rparr>)"
  by (simp add: btldr_inv_def app_ready_def)

lemma main_wait_step_inv: "btldr_inv s \<Longrightarrow> main_inv (main_wait_step hw c t s)"
  using i2c_proc_event_timeout_inv [of s t hw] btldr_inv_app_start [of "snd (i2c_proc_event_timeout t hw s)"]
  unfolding main_wait_step_def Let_def case_prod_beta
  by (intro if_keeps [where P = main_inv] main_wait_next_inv if_keeps [where P = btldr_inv]) simp_all

lemma main_wait_step_mem [simp]: "mem (snd (main_wait_step hw c t s)) = mem s"
  by (simp add: main_wait_step_def case_prod_beta Let_def)

lemma main_run_step_inv: "btldr_inv s \<Longrightarrow> main_inv (main_run_step hw s)"
  by (auto simp: main_run_step_def i2c_proc_event_wait_def Let_def split: option.split
      intro!: main_flash_ops_inv led_update_inv i2c_handle_inv)

lemma main_step_inv: "main_inv c \<Longrightarrow> main_inv (main_step hw c)"
  by (cases c rule: main_inv.cases) (simp_all add: main_wait_step_inv main_run_step_inv)

lemma main_start_inv: "main_inv (main_start (btldr_reset brd m))"
proof -
  let ?u = "update_app_status (btldr_reset brd m)"
  have [simp]: "length (i2c_buf (btldr_reset brd m)) = I2C_BUF_SIZE + 2" by (simp add: btldr_reset_def)
  have "app_ready ?u \<Longrightarrow> app_verified (mem ?u)"
    by (simp add: update_app_status_ready)
  then have "btldr_inv (init_run_state (btldr_reset brd m))"
    by (auto simp: init_run_state_def Let_def btldr_inv_def app_ready_def)
      (simp_all add: btldr_reset_def)
  then show ?thesis unfolding main_start_def by (rule main_wait_next_inv)
qed

interpretation btldr: machine_invariant main_step main_inv
  by unfold_locales (rule main_step_inv)

lemma boot_inv: "main_inv (boot brd m hws)"
  unfolding boot_def by (rule btldr.run_inv) (rule main_start_inv)

subsection \<open>Memory\<close>

definition main_protects :: "flash_mem \<Rightarrow> main_config \<Rightarrow> bool" where
  "main_protects m c \<longleftrightarrow> main_inv c \<and> (\<forall>a. btldr_protected a \<longrightarrow> mem (snd c) a = m a)
     \<and> (fst c \<noteq> MAIN_RUN \<and> fst c \<noteq> MAIN_APP \<longrightarrow> mem (snd c) = m)"

lemma snd_main_run_step_protected:
  assumes "btldr_inv s" "btldr_protected a"
  shows "mem (snd (main_run_step hw s)) a = mem s a"
proof (cases "i2c_proc_event_wait hw s")
  case (Some s1)
  then have "btldr_inv (led_update s1)" "mem s1 = mem s"
    using assms(1) by (auto simp: i2c_proc_event_wait_def i2c_handle_inv led_update_inv)
  with Some assms(2) show ?thesis by (simp add: main_run_step_def Let_def main_flash_ops_protected)
qed (simp add: main_run_step_def)

lemma main_step_protects: "main_protects m c \<Longrightarrow> main_protects m (main_step hw c)"
proof (cases c rule: main_inv.cases)
  case (1 n t s)
  assume "main_protects m c"
  with 1 show ?thesis
    using main_step_inv [of c hw] by (simp add: main_protects_def)
next
  case (2 s)
  assume "main_protects m c"
  with 2 show ?thesis
    using main_step_inv [of c hw]
    by (auto simp: main_protects_def snd_main_run_step_protected)
      (auto simp: main_run_step_def Let_def split: option.splits)
qed simp

interpretation btldr_mem: machine_invariant main_step "main_protects m" for m
  by unfold_locales (rule main_step_protects)

lemma boot_protects: "main_protects m (boot brd m hws)"
  unfolding boot_def
  by (rule btldr_mem.run_inv)
    (simp add: main_protects_def main_start_inv, simp add: main_start_def init_run_state_def btldr_reset_def Let_def)

section \<open>Starting\<close>

definition header_autoboot :: "flash_mem \<Rightarrow> bool" where
  "header_autoboot m \<longleftrightarrow> ed_autoboot (dec_eeprom_data (header_bytes m)) AND APP_STATUS_AUTOBOOT_MASK = APP_STATUS_AUTOBOOT_YES"

lemma autoboot_bit: "((0x7f OR x) AND 0x80) OR 1 = (0x81 :: u8) \<longleftrightarrow> x AND 0x80 = 0x80"
  using word_and_exp [of x 7] by (simp add: bit.conj_disj_distrib2 split: if_splits)

lemma or_ne_81: "(x AND 0x80) OR 2 \<noteq> (0x81 :: u8)" "(x AND 0x80) OR 3 \<noteq> (0x81 :: u8)"
  using word_and_exp [of x 7] by (simp_all split: if_splits)

lemma init_run_state_start:
  assumes "FLASH_BLOCK_SIZE \<le> length (i2c_buf s)"
  shows "run_state (init_run_state s) =
    (if app_verified (mem s) \<and> header_autoboot (mem s) then RUN_STATE_BTLDR_START else RUN_STATE_BTLDR_RUN)"
proof -
  have iff: "app_status (update_app_status s) = 0x81 \<longleftrightarrow> app_ready (update_app_status s) \<and> header_autoboot (mem s)"
    by (simp add: app_ready_def update_app_status_def read_app_info_eq Let_def case_prod_beta header_autoboot_def
        autoboot_bit or_ne_81)
  show ?thesis
    using iff update_app_status_ready [OF assms] by (simp add: init_run_state_def Let_def)
qed

lemma i2c_poll_timeout_quiet:
  "list_all (\<lambda>(sr2, sr1). sr1 = 0 \<and> sr2 = 0) polls \<Longrightarrow> snd (snd (i2c_poll_timeout polls t)) = 0"
  by (induction polls t rule: i2c_poll_timeout.induct) auto

definition hw_quiet :: "i2c_hw \<Rightarrow> bool" where
  "hw_quiet hw \<longleftrightarrow> list_all (\<lambda>(sr2, sr1). sr1 = 0 \<and> sr2 = 0) (hw_polls hw)"

lemma main_wait_step_quiet:
  assumes "hw_quiet hw" "run_state s = RUN_STATE_BTLDR_START"
  shows "main_wait_step hw c t s = (if c = 1 then (MAIN_APP, s\<lparr>run_state := RUN_STATE_APP_START\<rparr>)
    else (MAIN_WAIT_START (c - 1) I2C_62500_US_TIMEOUT, s))"
  using assms i2c_poll_timeout_quiet [of "hw_polls hw" t]
  by (simp add: main_wait_step_def i2c_proc_event_timeout_def hw_quiet_def case_prod_beta main_wait_next_def)

lemma main_wait_quiet:
  assumes "list_all hw_quiet hws" "length hws \<le> unat c" "run_state s = RUN_STATE_BTLDR_START"
  shows "fst (run main_step hws (MAIN_WAIT_START c t, s)) =
    (if length hws = 0 then MAIN_WAIT_START c t
     else if length hws < unat c then MAIN_WAIT_START (c - of_nat (length hws)) I2C_62500_US_TIMEOUT else MAIN_APP)"
  using assms
proof (induction hws arbitrary: c t)
  case (Cons hw hws)
  show ?case
  proof (cases "c = 1")
    case True
    with Cons show ?thesis by (simp add: main_wait_step_quiet)
  next
    case False
    have "c \<noteq> 0" using Cons.prems by auto
    then have "unat (c - 1) = unat c - 1" by (simp add: unat_minus_one)
    moreover have "unat c \<noteq> Suc 0" using False by (simp add: word_unat_eq_iff)
    ultimately show ?thesis using False Cons
      by (auto simp: main_wait_step_quiet unat_gt_0 algebra_simps)
  qed
qed simp

lemma boot_start:
  "boot brd m [] = (if app_verified m \<and> header_autoboot m
     then (MAIN_WAIT_START I2C_TIMEOUT_COUNT I2C_62500_US_TIMEOUT, init_run_state (btldr_reset brd m))
     else (MAIN_RUN, init_run_state (btldr_reset brd m)))"
  using init_run_state_start [of "btldr_reset brd m"]
  by (simp add: boot_def main_start_def main_wait_next_def btldr_reset_def)

lemma boot_quiet:
  assumes "app_verified m" "header_autoboot m" "list_all hw_quiet hws" "length hws = 16"
  shows "fst (boot brd m hws) = MAIN_APP"
proof -
  have "run_state (init_run_state (btldr_reset brd m)) = RUN_STATE_BTLDR_START"
    using assms init_run_state_start [of "btldr_reset brd m"] by (simp add: btldr_reset_def)
  with main_wait_quiet [OF assms(3), of I2C_TIMEOUT_COUNT "init_run_state (btldr_reset brd m)" I2C_62500_US_TIMEOUT]
  show ?thesis
    using assms(4) by (simp add: boot_def main_start_def main_wait_next_def)
qed

section \<open>A concrete device\<close>

text \<open>
  A memory with a one block application whose image checks (its two bytes after the opcode are
  the CRC of the opcode, so that the CRC of the block is 0) and the autoboot flag set.
\<close>

definition sample_header :: bytes where
  "sample_header = [0x42, 0x45, 0x45, 0x50, 0, 0, 0, 0x80, 0, 0, 0, 1, 0x80, 0xbc]"

definition sample_mem :: flash_mem where
  "sample_mem a = (if 0x1000 \<le> a \<and> a < 0x100e then sample_header ! unat (a - 0x1000)
     else if a = 0xa000 then 0x82 else if a = 0xa001 then 0x03 else if a = 0xa002 then 0x0c else 0)"

definition hw_nothing :: i2c_hw where
  "hw_nothing = \<lparr>hw_polls = [], hw_sr3 = 0, hw_dr = 0, hw_ram = (\<lambda>i. 0)\<rparr>"

lemma hw_quiet_nothing [simp]: "hw_quiet hw_nothing"
  by (simp add: hw_quiet_def hw_nothing_def)

lemma header_bytes_sample: "header_bytes sample_mem = sample_header"
  by (simp add: header_bytes_def sample_mem_def sample_header_def upt_rec)

lemma app_image_sample: "app_image sample_mem 0x80 = [0x82, 0x03, 0x0c] @ replicate 125 0"
  unfolding app_image_def
  by (rule nth_equalityI) (auto simp: nth_append nth_Cons sample_mem_def word_less_nat_alt word_le_nat_alt
      unat_word_ariths unat_of_nat word_unat_eq_iff split: nat.split)

lemma app_verified_sample: "app_verified sample_mem"
proof -
  have "crc8 IOMCU_CRC8_INIT (take 13 sample_header) = 0xbc"
    by (simp add: sample_header_def IOMCU_CRC8_INIT_def crc8_byte_unfold crc8_bit_def)
  moreover have "crc16 IOMCU_CRC16_INIT [0x82, 0x03, 0x0c] = 0"
    by (simp add: IOMCU_CRC16_INIT_def crc16_byte_unfold crc16_bit_def)
  then have "crc16 IOMCU_CRC16_INIT ([0x82, 0x03, 0x0c] @ replicate 125 0) = 0"
    by (simp only: crc16_append crc16_zeros)
  moreover have "dec_eeprom_data sample_header = \<lparr>ed_magic = BTLDR_EEPROM_DATA_MAGIC, ed_app_size = 0x80,
      ed_app_crc16 = 0, ed_app_ver = 1, ed_autoboot = 0x80, ed_crc8 = 0xbc\<rparr>"
    by (simp add: dec_eeprom_data_def sample_header_def)
  moreover have "sample_mem 0xa000 = 0x82" by (simp add: sample_mem_def)
  ultimately show ?thesis
    by (simp add: app_verified_def header_valid_def header_bytes_sample app_image_sample)
qed

lemma header_autoboot_sample: "header_autoboot sample_mem"
  by (simp add: header_autoboot_def header_bytes_sample dec_eeprom_data_def sample_header_def)

section \<open>Properties\<close>

text \<open>C1. Whatever happens on the bus, the bootloader leaves for the application only when the
  memory holds a valid header and an image that fits, starts with the interrupt opcode and has
  the CRC the header records.\<close>

theorem boot_only_verified_app:
  "fst (boot brd m hws) = MAIN_APP \<Longrightarrow> app_verified (mem (snd (boot brd m hws)))"
  using boot_inv [of brd m hws]
  by (cases "boot brd m hws" rule: main_inv.cases) (auto simp: btldr_inv_def)

theorem boot_only_verified_app_witness:
  "fst (boot BOARD_B3_MAIN sample_mem (replicate 16 hw_nothing)) = MAIN_APP
   \<and> app_verified (mem (snd (boot BOARD_B3_MAIN sample_mem (replicate 16 hw_nothing))))"
proof -
  have "fst (boot BOARD_B3_MAIN sample_mem (replicate 16 hw_nothing)) = MAIN_APP"
    by (rule boot_quiet) (simp_all add: app_verified_sample header_autoboot_sample list_all_iff)
  then show ?thesis using boot_only_verified_app by blast
qed

text \<open>C2. Whatever happens on the bus, no byte outside the EEPROM (0x1000 to 0x13ff) and the
  application flash (0xa000 to 0xffff) is ever changed: the bootloader cannot overwrite its own
  code, the option bytes or the vectors.\<close>

theorem boot_keeps_protected:
  "btldr_protected a \<Longrightarrow> mem (snd (boot brd m hws)) a = m a"
  using boot_protects [of m brd hws] by (simp add: main_protects_def)

theorem boot_keeps_protected_witness:
  "btldr_protected 0x8000 \<and> mem (snd (boot BOARD_B3_MAIN sample_mem [hw_nothing])) 0x8000 = sample_mem 0x8000"
proof -
  have "btldr_protected 0x8000" by (simp add: btldr_protected_def)
  then show ?thesis using boot_keeps_protected by blast
qed

text \<open>C3. While it waits for the start key, the bootloader does not change memory at all: every
  register but START is masked.\<close>

theorem boot_wait_keeps_memory:
  "fst (boot brd m hws) = MAIN_WAIT_START c t \<Longrightarrow> mem (snd (boot brd m hws)) = m"
  using boot_protects [of m brd hws] by (simp add: main_protects_def)

theorem boot_wait_keeps_memory_witness:
  "fst (boot BOARD_DEMO sample_mem []) = MAIN_WAIT_START 16 0x9100 \<and> mem (snd (boot BOARD_DEMO sample_mem [])) = sample_mem"
proof -
  have "fst (boot BOARD_DEMO sample_mem []) = MAIN_WAIT_START 16 0x9100"
    by (simp add: boot_start app_verified_sample header_autoboot_sample)
  then show ?thesis using boot_wait_keeps_memory by blast
qed

text \<open>C4. With a verified application, autoboot set and a quiet bus, the application is started
  after sixteen timeouts.\<close>

theorem autoboot_starts_app:
  "app_verified m \<and> header_autoboot m \<and> list_all hw_quiet hws \<and> length hws = 16 \<Longrightarrow>
   fst (boot brd m hws) = MAIN_APP"
  by (blast intro: boot_quiet)

theorem autoboot_starts_app_witness:
  "fst (boot BOARD_B3_MAIN sample_mem (replicate 16 hw_nothing)) = MAIN_APP"
  by (rule autoboot_starts_app) (simp add: app_verified_sample header_autoboot_sample list_all_iff)

text \<open>C5. At reset the bootloader waits for the start key exactly when the application is
  verified and its autoboot flag is set; otherwise it serves commands at once.\<close>

theorem boot_decides:
  "fst (boot brd m []) = (if app_verified m \<and> header_autoboot m
     then MAIN_WAIT_START I2C_TIMEOUT_COUNT I2C_62500_US_TIMEOUT else MAIN_RUN)"
  by (simp add: boot_start)

end
