(* ===== verification/Btldr_Bus.thy ===== *)
theory Btldr_Bus
  imports Btldr_Safety
begin

text \<open>
  Whole I2C transactions against the bootloader: the event sequences a master produces when it
  writes or reads a register, what the bootloader does over a whole transaction, and the block
  transfers built from them.
\<close>

section \<open>Event sequences\<close>

definition bus_event :: "(int \<Rightarrow> u8) \<Rightarrow> u8 \<Rightarrow> u8 \<Rightarrow> u8 \<Rightarrow> u8 \<Rightarrow> i2c_hw" where
  "bus_event ram sr2 sr1 sr3 dr = \<lparr>hw_polls = [(sr2, sr1)], hw_sr3 = sr3, hw_dr = dr, hw_ram = ram\<rparr>"

definition ev_addr :: "(int \<Rightarrow> u8) \<Rightarrow> u8 \<Rightarrow> i2c_hw" where "ev_addr ram sr3 = bus_event ram 0 I2C_SR1_ADDR sr3 0"
definition ev_rx :: "(int \<Rightarrow> u8) \<Rightarrow> u8 \<Rightarrow> i2c_hw" where "ev_rx ram b = bus_event ram 0 I2C_SR1_RXNE 0 b"
definition ev_tx :: "(int \<Rightarrow> u8) \<Rightarrow> i2c_hw" where "ev_tx ram = bus_event ram 0 I2C_SR1_TXE I2C_SR3_TRA 0"
definition ev_stop :: "(int \<Rightarrow> u8) \<Rightarrow> i2c_hw" where "ev_stop ram = bus_event ram 0 I2C_SR1_STOPF 0 0"
definition ev_nack :: "(int \<Rightarrow> u8) \<Rightarrow> i2c_hw" where "ev_nack ram = bus_event ram I2C_SR2_AF 0 I2C_SR3_TRA 0"

text \<open>
  A register write sends the register number, the data and the checksum of both; a register
  read sends the register number, a repeated start, and clocks \<open>n\<close> bytes out before the
  master's NACK.
\<close>

definition bus_write :: "(int \<Rightarrow> u8) \<Rightarrow> u8 \<Rightarrow> bytes \<Rightarrow> i2c_hw list" where
  "bus_write ram reg dat = ev_addr ram 0 # map (ev_rx ram) (reg # dat @ [i2c_message_checksum dat reg]) @ [ev_stop ram]"

definition bus_read :: "(int \<Rightarrow> u8) \<Rightarrow> u8 \<Rightarrow> nat \<Rightarrow> i2c_hw list" where
  "bus_read ram reg n = [ev_addr ram 0, ev_rx ram reg, ev_addr ram I2C_SR3_TRA] @ replicate n (ev_tx ram) @ [ev_nack ram]"

section \<open>The command loop without its LEDs\<close>

definition no_leds :: "btldr \<Rightarrow> btldr" where
  "no_leds s = s\<lparr>status_led := 0, led_delay := 0, led_row_odr := 0, led_col_odr := 0\<rparr>"

definition serve :: "i2c_hw \<Rightarrow> btldr \<Rightarrow> btldr" where
  "serve hw s = (case i2c_poll (hw_polls hw) of None \<Rightarrow> s
     | Some (sr2, sr1) \<Rightarrow> main_flash_ops (i2c_handle sr2 sr1 hw s))"

lemma no_leds_frame [simp]:
  "mem (no_leds s) = mem s" "app_status (no_leds s) = app_status s" "run_state (no_leds s) = run_state s"
  "flash_state (no_leds s) = flash_state s" "flash_addr (no_leds s) = flash_addr s" "i2c_buf (no_leds s) = i2c_buf s"
  "i2c_state (no_leds s) = i2c_state s" "i2c_offset (no_leds s) = i2c_offset s" "i2c_reg (no_leds s) = i2c_reg s"
  "i2c_out_remaining (no_leds s) = i2c_out_remaining s" "btldr_state (no_leds s) = btldr_state s"
  "dr_out (no_leds s) = dr_out s" "board (no_leds s) = board s"
  by (simp_all add: no_leds_def)

lemma no_leds_led_update [simp]: "no_leds (led_update s) = no_leds s"
  by (simp add: no_leds_def led_update_def Let_def)

lemma no_leds_push:
  "no_leds (s\<lparr>mem := a\<rparr>) = (no_leds s)\<lparr>mem := a\<rparr>" "no_leds (s\<lparr>app_status := b\<rparr>) = (no_leds s)\<lparr>app_status := b\<rparr>"
  "no_leds (s\<lparr>run_state := c\<rparr>) = (no_leds s)\<lparr>run_state := c\<rparr>" "no_leds (s\<lparr>flash_state := d\<rparr>) = (no_leds s)\<lparr>flash_state := d\<rparr>"
  "no_leds (s\<lparr>flash_addr := e\<rparr>) = (no_leds s)\<lparr>flash_addr := e\<rparr>" "no_leds (s\<lparr>i2c_buf := f\<rparr>) = (no_leds s)\<lparr>i2c_buf := f\<rparr>"
  "no_leds (s\<lparr>i2c_state := g\<rparr>) = (no_leds s)\<lparr>i2c_state := g\<rparr>" "no_leds (s\<lparr>i2c_offset := h\<rparr>) = (no_leds s)\<lparr>i2c_offset := h\<rparr>"
  "no_leds (s\<lparr>i2c_reg := h\<rparr>) = (no_leds s)\<lparr>i2c_reg := h\<rparr>" "no_leds (s\<lparr>i2c_out_remaining := h\<rparr>) = (no_leds s)\<lparr>i2c_out_remaining := h\<rparr>"
  "no_leds (s\<lparr>btldr_state := h\<rparr>) = (no_leds s)\<lparr>btldr_state := h\<rparr>" "no_leds (s\<lparr>dr_out := f\<rparr>) = (no_leds s)\<lparr>dr_out := f\<rparr>"
  "no_leds (s\<lparr>flash_cr2 := h\<rparr>) = (no_leds s)\<lparr>flash_cr2 := h\<rparr>"
  by (simp_all add: no_leds_def)

lemma no_leds_cr2 [simp]: "flash_cr2 (no_leds s) = flash_cr2 s"
  by (simp add: no_leds_def)

lemmas no_leds_simps = no_leds_push if_distrib [of no_leds] no_leds_frame no_leds_cr2 Let_def

lemma no_leds_reset: "I2C_STATE_RESET (no_leds s) = no_leds (I2C_STATE_RESET s)"
  by (simp only: I2C_STATE_RESET_def no_leds_simps)

lemma no_leds_status_out: "cmd_status_out f b (no_leds s) = no_leds (cmd_status_out f b s)"
  by (cases "status_next_flash_state f") (simp_all add: cmd_status_out_def no_leds_push Let_def)

lemma no_leds_default: "cmd_out_default b (no_leds s) = no_leds (cmd_out_default b s)"
  by (simp only: cmd_out_default_def no_leds_simps)

lemma no_leds_read_app_info [simp]: "read_app_info (no_leds s) = read_app_info s"
  by (simp only: read_app_info_def no_leds_frame)

lemma no_leds_dev_info: "btldr_dev_info ((no_leds s)\<lparr>btldr_state := b, i2c_offset := k, flash_state := f\<rparr>)
    = btldr_dev_info (s\<lparr>btldr_state := b, i2c_offset := k, flash_state := f\<rparr>)"
  by (simp add: btldr_dev_info_def)

lemma no_leds_cmd_data_out: "cmd_data_out cmd (no_leds s) = no_leds (cmd_data_out cmd s)"
proof -
  define r where "r = s\<lparr>btldr_state := I2C_BTLDR_STATE_OK, i2c_offset := 0, flash_state := FLASH_STATE_IDLE\<rparr>"
  have r: "(no_leds s)\<lparr>btldr_state := I2C_BTLDR_STATE_OK, i2c_offset := 0, flash_state := FLASH_STATE_IDLE\<rparr> = no_leds r"
    by (simp only: r_def no_leds_push)
  have dev: "btldr_dev_info (no_leds r) = btldr_dev_info r" by (simp only: btldr_dev_info_def no_leds_frame)
  show ?thesis
    unfolding cmd_data_out_def Let_def no_leds_frame r r_def [symmetric] dev no_leds_read_app_info
    by (simp only: no_leds_simps no_leds_status_out no_leds_default)
qed

lemma no_leds_cmd_start: "cmd_start (no_leds s) = no_leds (cmd_start s)"
  by (cases "run_state s") (simp_all only: cmd_start_def no_leds_simps run_state.case)

lemma no_leds_cmd_wait: "cmd_wait (no_leds s) = no_leds (cmd_wait s)"
  by (cases "run_state s") (simp_all only: cmd_wait_def no_leds_simps run_state.case)

lemma no_leds_cmd_flash_addr: "cmd_flash_addr cmd (no_leds s) = no_leds (cmd_flash_addr cmd s)"
  by (simp add: cmd_flash_addr_def set_addr_ready_flash_state_def no_leds_push Let_def)

lemma no_leds_cmd_flash_write: "cmd_flash_write cmd f (no_leds s) = no_leds (cmd_flash_write cmd f s)"
  by (simp only: cmd_flash_write_def no_leds_simps)

lemma no_leds_cmd_data_in: "cmd_data_in cmd (no_leds s) = no_leds (cmd_data_in cmd s)"
proof -
  define r where "r = s\<lparr>btldr_state := I2C_BTLDR_STATE_OK, flash_state := FLASH_STATE_IDLE\<rparr>"
  have r: "(no_leds s)\<lparr>btldr_state := I2C_BTLDR_STATE_OK, flash_state := FLASH_STATE_IDLE\<rparr> = no_leds r"
    by (simp only: r_def no_leds_push)
  show ?thesis
    unfolding cmd_data_in_def Let_def no_leds_frame r r_def [symmetric]
    by (simp only: no_leds_simps no_leds_cmd_start no_leds_cmd_wait no_leds_cmd_flash_addr no_leds_cmd_flash_write)
qed

lemma no_leds_message_start: "i2c_message_start tra (no_leds s) = no_leds (i2c_message_start tra s)"
  by (cases "i2c_state s")
    (simp_all only: i2c_message_start_def no_leds_simps no_leds_reset no_leds_cmd_data_out i2c_state.case)

lemma no_leds_message_stop: "i2c_message_stop ram (no_leds s) = no_leds (i2c_message_stop ram s)"
proof -
  have "(no_leds s)\<lparr>i2c_offset := k\<rparr> = no_leds (s\<lparr>i2c_offset := k\<rparr>)" for k by (simp only: no_leds_push)
  moreover have "(no_leds s)\<lparr>btldr_state := b, flash_state := f\<rparr> = no_leds (s\<lparr>btldr_state := b, flash_state := f\<rparr>)" for b f
    by (simp only: no_leds_push)
  ultimately show ?thesis
    by (cases "i2c_state s")
      (simp_all only: i2c_message_stop_def i2c_state.case no_leds_frame no_leds_reset no_leds_cmd_data_in
        if_distrib [of no_leds, symmetric])
qed

lemma no_leds_byte_in: "i2c_byte_in b (no_leds s) = no_leds (i2c_byte_in b s)"
  by (cases "i2c_state s") (simp_all only: i2c_byte_in_def no_leds_simps no_leds_reset i2c_state.case)

lemma no_leds_dr_store: "i2c_dr_store (no_leds s) = no_leds (i2c_dr_store s)"
  by (cases "i2c_state s"; cases "i2c_out_remaining s \<noteq> 0"; cases "unat (i2c_offset s) < I2C_BUF_SIZE")
    (simp_all add: i2c_dr_store_def i2c_byte_out_def no_leds_push no_leds_reset)

lemmas no_leds_ops = no_leds_message_start no_leds_message_stop no_leds_byte_in no_leds_dr_store

lemma no_leds_handle: "i2c_handle sr2 sr1 hw (no_leds s) = no_leds (i2c_handle sr2 sr1 hw s)"
  by (simp only: i2c_handle_def Let_def no_leds_ops if_distrib [of no_leds, symmetric])

lemma no_leds_update_app_status: "update_app_status (no_leds s) = no_leds (update_app_status s)"
proof -
  have st: "(no_leds s)\<lparr>app_status := b\<rparr> = no_leds (s\<lparr>app_status := b\<rparr>)" for b by (simp only: no_leds_push)
  show ?thesis
    unfolding update_app_status_def Let_def case_prod_beta st no_leds_read_app_info no_leds_frame
    by (simp only: no_leds_push if_distrib [of no_leds])
qed

lemma no_leds_programblock: "flash_programblock b t p buf (no_leds s) = no_leds (flash_programblock b t p buf s)"
  by (simp only: flash_programblock_def flash_programblock_mem_def no_leds_simps)

lemma no_leds_write_app_info: "write_app_info p (no_leds s) = no_leds (write_app_info p s)"
proof -
  have "(no_leds s)\<lparr>i2c_buf := b\<rparr> = no_leds (s\<lparr>i2c_buf := b\<rparr>)" for b by (simp only: no_leds_push)
  then show ?thesis
    by (simp only: write_app_info_def Let_def no_leds_frame no_leds_programblock no_leds_update_app_status)
qed

lemma no_leds_flash_rdwr: "flash_rdwr_run (no_leds s) = no_leds (flash_rdwr_run s)"
  by (cases "flash_state s")
    (simp_all only: flash_rdwr_run_def no_leds_simps no_leds_programblock flash_state.case)

lemma no_leds_flash_ops: "main_flash_ops (no_leds s) = no_leds (main_flash_ops s)"
  by (simp only: main_flash_ops_def write_app_info_run_def no_leds_flash_rdwr no_leds_write_app_info no_leds_simps)

lemma no_leds_serve: "serve hw (no_leds s) = no_leds (serve hw s)"
  by (simp add: serve_def no_leds_handle no_leds_flash_ops split: option.split)

text \<open>
  As long as the commands do not leave the loop, a run of \<open>main\<close> is a run of \<open>serve\<close> up to
  the LEDs.
\<close>

lemma main_run_step_serve:
  "\<exists>t. main_step hw (MAIN_RUN, s) = (if run_state (serve hw s) = RUN_STATE_BTLDR_RUN \<or> i2c_state (serve hw s) \<noteq> I2C_STATE_IDLE
      \<or> i2c_poll (hw_polls hw) = None then MAIN_RUN else MAIN_APP, t) \<and> no_leds t = no_leds (serve hw s)"
proof (cases "i2c_poll (hw_polls hw)")
  case None
  then show ?thesis by (simp add: main_run_step_def i2c_proc_event_wait_def serve_def)
next
  case (Some sr)
  obtain sr2 sr1 where sr: "sr = (sr2, sr1)" by (cases sr)
  let ?h = "i2c_handle sr2 sr1 hw s"
  have "no_leds (main_flash_ops (led_update ?h)) = no_leds (main_flash_ops ?h)"
    by (simp flip: no_leds_flash_ops)
  moreover from this have "run_state (main_flash_ops (led_update ?h)) = run_state (serve hw s)"
    "i2c_state (main_flash_ops (led_update ?h)) = i2c_state (serve hw s)"
    using Some sr by (metis (no_types) no_leds_frame serve_def option.case(2) prod.case)+
  ultimately show ?thesis
    using Some sr by (simp add: main_run_step_def i2c_proc_event_wait_def serve_def Let_def)
qed

definition steps :: "i2c_hw list \<Rightarrow> btldr \<Rightarrow> btldr \<Rightarrow> bool" where
  "steps hws s t \<longleftrightarrow> (\<forall>s'. no_leds s' = no_leds s \<longrightarrow>
     (\<exists>t'. run main_step hws (MAIN_RUN, s') = (MAIN_RUN, t') \<and> no_leds t' = no_leds t))"

lemma steps_nil: "steps [] s s"
  by (simp add: steps_def)

lemma steps_append: "steps xs s t \<Longrightarrow> steps ys t u \<Longrightarrow> steps (xs @ ys) s u"
  unfolding steps_def run_append by metis

lemma steps_cons: "steps [x] s t \<Longrightarrow> steps ys t u \<Longrightarrow> steps (x # ys) s u"
  using steps_append [of "[x]"] by simp

lemma steps_serve:
  assumes "run_state (serve hw s) = RUN_STATE_BTLDR_RUN \<or> i2c_state (serve hw s) \<noteq> I2C_STATE_IDLE"
  shows "steps [hw] s (serve hw s)"
  unfolding steps_def
proof (intro allI impI)
  fix s' assume s': "no_leds s' = no_leds s"
  then have same: "no_leds (serve hw s') = no_leds (serve hw s)" by (simp flip: no_leds_serve)
  then have "run_state (serve hw s') = run_state (serve hw s)" "i2c_state (serve hw s') = i2c_state (serve hw s)"
    by (metis no_leds_frame)+
  with main_run_step_serve [of hw s'] same assms
  show "\<exists>t'. run main_step [hw] (MAIN_RUN, s') = (MAIN_RUN, t') \<and> no_leds t' = no_leds (serve hw s)" by auto
qed

section \<open>Single events\<close>

lemma serve_events:
  "serve (ev_addr ram sr3) s = main_flash_ops (i2c_message_start (if sr3 AND I2C_SR3_TRA = I2C_SR3_TRA then I2C_START_TRA else I2C_START_RECV) s)"
  "serve (ev_rx ram b) s = main_flash_ops (i2c_byte_in b s)"
  "serve (ev_tx ram) s = main_flash_ops (i2c_dr_store s)"
  "serve (ev_stop ram) s = main_flash_ops (i2c_message_stop ram s)"
  "serve (ev_nack ram) s = main_flash_ops (i2c_message_stop ram s)"
  by (simp_all add: serve_def ev_addr_def ev_rx_def ev_tx_def ev_stop_def ev_nack_def bus_event_def i2c_handle_def Let_def)

lemma main_flash_ops_busy: "i2c_state s \<noteq> I2C_STATE_IDLE \<Longrightarrow> main_flash_ops s = s"
  by (simp add: main_flash_ops_def)

lemma steps_busy:
  assumes "serve hw s = main_flash_ops t" "i2c_state t \<noteq> I2C_STATE_IDLE"
  shows "steps [hw] s t"
  using steps_serve [of hw s] assms by (simp add: main_flash_ops_busy)

lemma steps_addr:
  "i2c_state s = I2C_STATE_IDLE \<Longrightarrow> steps [ev_addr ram 0] s (s\<lparr>i2c_state := I2C_STATE_REG_WAIT\<rparr>)"
  by (rule steps_busy) (simp_all add: serve_events i2c_message_start_def)

lemma steps_reg:
  assumes "i2c_state s = I2C_STATE_REG_WAIT" "run_state s = RUN_STATE_BTLDR_RUN" "reg \<noteq> I2C_BTLDR_REG_RESV"
  shows "steps [ev_rx ram reg] s (s\<lparr>i2c_reg := reg, i2c_state :=
    (if reg AND I2C_BTLDR_REG_RW_MASK = I2C_BTLDR_REG_READ then I2C_STATE_OUT_START_WAIT else I2C_STATE_DATA_IN)\<rparr>)"
  using assms by (intro steps_busy) (simp_all add: serve_events i2c_byte_in_def)

lemma put_at_cons: "n < length buf \<Longrightarrow> put_at (Suc n) xs (buf[n := x]) = put_at n (x # xs) buf"
  by (simp add: put_at_def take_Suc_conv_app_nth)

lemma steps_rx:
  assumes "i2c_state s = I2C_STATE_DATA_IN" "unat (i2c_offset s) + length bs \<le> I2C_BUF_SIZE"
    "I2C_BUF_SIZE \<le> length (i2c_buf s)"
  shows "steps (map (ev_rx ram) bs) s (s\<lparr>i2c_buf := put_at (unat (i2c_offset s)) bs (i2c_buf s),
    i2c_offset := i2c_offset s + of_nat (length bs)\<rparr>)"
  using assms
proof (induction bs arbitrary: s)
  case Nil
  then show ?case using steps_nil [of s] by (simp add: put_at_def)
next
  case (Cons b bs)
  let ?t = "s\<lparr>i2c_buf := (i2c_buf s)[unat (i2c_offset s) := b], i2c_offset := i2c_offset s + 1\<rparr>"
  have off: "unat (i2c_offset s + 1) = Suc (unat (i2c_offset s))"
    using Cons.prems(2) by (simp add: unat_word_ariths)
  have "steps [ev_rx ram b] s ?t"
    using Cons.prems by (intro steps_busy) (simp_all add: serve_events i2c_byte_in_def)
  moreover have "steps (map (ev_rx ram) bs) ?t (?t\<lparr>i2c_buf := put_at (unat (i2c_offset ?t)) bs (i2c_buf ?t),
      i2c_offset := i2c_offset ?t + of_nat (length bs)\<rparr>)"
    using Cons.prems off by (intro Cons.IH) simp_all
  ultimately have "steps (map (ev_rx ram) (b # bs)) s (?t\<lparr>i2c_buf := put_at (unat (i2c_offset ?t)) bs (i2c_buf ?t),
      i2c_offset := i2c_offset ?t + of_nat (length bs)\<rparr>)"
    using steps_cons by simp
  then show ?case using Cons.prems off by (simp add: put_at_cons algebra_simps)
qed

section \<open>Register writes\<close>

lemma buf_at_nat: "i < length buf \<Longrightarrow> buf_at ram buf (int i) = buf ! i"
  by (simp add: buf_at_def)

lemma map_buf_at:
  "n \<le> length buf \<Longrightarrow> map (\<lambda>i. buf_at ram buf (int i)) [0..<n] = take n buf"
  by (rule nth_equalityI) (auto simp: buf_at_def)

text \<open>The check of a message of at least one byte reads nothing but the message.\<close>

lemma i2c_message_verify_eq:
  assumes "0 < unat len" "unat len \<le> length buf"
  shows "i2c_message_verify ram buf reg len \<longleftrightarrow>
    i2c_message_checksum (take (unat len - 1) buf) reg = buf ! (unat len - 1)"
proof -
  have "len \<noteq> 0" using assms(1) by auto
  then have "unat (len - 1) = unat len - 1" by (simp add: unat_minus_one)
  moreover have "buf_at ram buf (int (unat len - 1)) = buf ! (unat len - 1)" using assms by (intro buf_at_nat) simp
  moreover have "int (unat len) - 1 = int (unat len - 1)" using assms(1) by linarith
  ultimately show ?thesis
    using assms unfolding i2c_message_verify_def i2c_message_checksum_def by (simp only: map_buf_at)
qed

definition dev_write :: "u8 \<Rightarrow> bytes \<Rightarrow> btldr \<Rightarrow> btldr" where
  "dev_write reg dat s = main_flash_ops (I2C_STATE_RESET (cmd_data_in reg
     (s\<lparr>i2c_reg := reg, i2c_state := I2C_STATE_DATA_IN,
        i2c_buf := put_at 0 (dat @ [i2c_message_checksum dat reg]) (i2c_buf s), i2c_offset := of_nat (length dat)\<rparr>)))"

text \<open>The device between two transactions, serving commands.\<close>

definition dev_ready :: "btldr \<Rightarrow> bool" where
  "dev_ready s \<longleftrightarrow> btldr_inv s \<and> i2c_state s = I2C_STATE_IDLE \<and> run_state s = RUN_STATE_BTLDR_RUN"

lemma dev_ready_fields:
  "dev_ready s \<Longrightarrow> i2c_state s = I2C_STATE_IDLE" "dev_ready s \<Longrightarrow> run_state s = RUN_STATE_BTLDR_RUN"
  "dev_ready s \<Longrightarrow> i2c_offset s = 0" "dev_ready s \<Longrightarrow> length (i2c_buf s) = I2C_BUF_SIZE + 2"
  by (auto simp: dev_ready_def btldr_inv_def)

lemma steps_stop:
  assumes "i2c_state s = I2C_STATE_DATA_IN" "i2c_message_verify ram (i2c_buf s) (i2c_reg s) (i2c_offset s)"
    "run_state (main_flash_ops (I2C_STATE_RESET (cmd_data_in (i2c_reg s) (s\<lparr>i2c_offset := i2c_offset s - 1\<rparr>)))) = RUN_STATE_BTLDR_RUN"
  shows "steps [ev_stop ram] s (main_flash_ops (I2C_STATE_RESET (cmd_data_in (i2c_reg s) (s\<lparr>i2c_offset := i2c_offset s - 1\<rparr>))))"
  using steps_serve [of "ev_stop ram" s] assms by (simp add: serve_events i2c_message_stop_def)

lemma main_flash_ops_run_state [simp]:
  assumes "btldr_inv s"
  shows "run_state (main_flash_ops s) = run_state s"
  using assms
proof (cases rule: main_flash_ops_cases)
  case info
  with assms show ?thesis by (simp add: write_app_info_run_def btldr_inv_def write_app_info_frame)
qed (auto simp: flash_rdwr_run_read flash_rdwr_run_eeprom flash_rdwr_run_data)

text \<open>The message in the buffer, before the stop condition.\<close>

definition dev_message :: "u8 \<Rightarrow> bytes \<Rightarrow> btldr \<Rightarrow> btldr" where
  "dev_message reg dat s = s\<lparr>i2c_reg := reg, i2c_state := I2C_STATE_DATA_IN,
     i2c_buf := put_at 0 (dat @ [i2c_message_checksum dat reg]) (i2c_buf s), i2c_offset := of_nat (Suc (length dat))\<rparr>"

lemma steps_message:
  assumes ready: "dev_ready s" and len: "length dat < I2C_BUF_SIZE"
    and reg: "reg AND I2C_BTLDR_REG_RW_MASK = I2C_BTLDR_REG_WRITE" "reg \<noteq> I2C_BTLDR_REG_RESV"
  shows "steps (butlast (bus_write ram reg dat)) s (dev_message reg dat s)"
proof -
  let ?msg = "dat @ [i2c_message_checksum dat reg]"
  let ?a = "s\<lparr>i2c_state := I2C_STATE_REG_WAIT\<rparr>"
  let ?b = "s\<lparr>i2c_reg := reg, i2c_state := I2C_STATE_DATA_IN\<rparr>"
  note ready = dev_ready_fields [OF ready]
  have 1: "steps [ev_addr ram 0] s ?a" using ready by (simp add: steps_addr)
  have 2: "steps [ev_rx ram reg] ?a ?b"
    using steps_reg [of ?a reg ram] ready reg by simp
  have 3: "steps (map (ev_rx ram) ?msg) ?b (dev_message reg dat s)"
    using steps_rx [of ?b ?msg ram] ready len by (simp add: dev_message_def)
  have "butlast (bus_write ram reg dat) = ev_addr ram 0 # ev_rx ram reg # map (ev_rx ram) ?msg"
    by (simp add: bus_write_def butlast_append)
  then show ?thesis by (simp only: steps_cons [OF 1] steps_cons [OF 2] 3)
qed

lemma dev_message_verify:
  assumes "dev_ready s" "length dat < I2C_BUF_SIZE"
  shows "i2c_message_verify ram (i2c_buf (dev_message reg dat s)) (i2c_reg (dev_message reg dat s)) (i2c_offset (dev_message reg dat s))"
proof -
  have n: "unat (of_nat (Suc (length dat)) :: u8) = Suc (length dat)"
    using assms(2) by (simp add: unat_of_nat del: of_nat_Suc)
  have buf: "take (length dat) (put_at 0 (dat @ [c]) (i2c_buf s)) = dat" "put_at 0 (dat @ [c]) (i2c_buf s) ! length dat = c" for c
    by (simp_all add: put_at_def nth_append)
  show ?thesis
    unfolding dev_message_def using n assms(2) dev_ready_fields [OF assms(1)] buf
    by (subst i2c_message_verify_eq) (simp_all del: of_nat_Suc)
qed

lemma bus_write_last: "bus_write ram reg dat = butlast (bus_write ram reg dat) @ [ev_stop ram]"
  by (simp add: bus_write_def butlast_append)

lemma serve_stop:
  assumes "dev_ready s" "length dat < I2C_BUF_SIZE"
  shows "serve (ev_stop ram) (dev_message reg dat s) = dev_write reg dat s"
  using dev_message_verify [OF assms, of ram reg]
  by (simp add: serve_events i2c_message_stop_def dev_message_def dev_write_def)

lemma steps_write:
  assumes "dev_ready s" "length dat < I2C_BUF_SIZE"
    and "reg AND I2C_BTLDR_REG_RW_MASK = I2C_BTLDR_REG_WRITE" "reg \<noteq> I2C_BTLDR_REG_RESV"
    and run: "run_state (dev_write reg dat s) = RUN_STATE_BTLDR_RUN"
  shows "steps (bus_write ram reg dat) s (dev_write reg dat s)"
  using steps_append [OF steps_message [OF assms(1-4), of ram] steps_serve [of "ev_stop ram"]] run
  by (simp add: serve_stop [OF assms(1,2)] flip: bus_write_last)

lemma run_write_app:
  assumes "dev_ready s" "length dat < I2C_BUF_SIZE"
    and "reg AND I2C_BTLDR_REG_RW_MASK = I2C_BTLDR_REG_WRITE" "reg \<noteq> I2C_BTLDR_REG_RESV"
    and app: "run_state (dev_write reg dat s) \<noteq> RUN_STATE_BTLDR_RUN" "i2c_state (dev_write reg dat s) = I2C_STATE_IDLE"
  shows "fst (run main_step (bus_write ram reg dat) (MAIN_RUN, s)) = MAIN_APP"
proof -
  obtain t where t: "run main_step (butlast (bus_write ram reg dat)) (MAIN_RUN, s) = (MAIN_RUN, t)"
    "no_leds t = no_leds (dev_message reg dat s)"
    using steps_message [OF assms(1-4), of ram] by (auto simp: steps_def)
  then have same: "no_leds (serve (ev_stop ram) t) = no_leds (dev_write reg dat s)"
    by (simp add: serve_stop [OF assms(1,2)] flip: no_leds_serve) (simp add: no_leds_serve serve_stop [OF assms(1,2)])
  then have "run_state (serve (ev_stop ram) t) = run_state (dev_write reg dat s)"
    "i2c_state (serve (ev_stop ram) t) = i2c_state (dev_write reg dat s)"
    by (metis no_leds_frame)+
  with main_run_step_serve [of "ev_stop ram" t] app t show ?thesis
    by (subst bus_write_last) (auto simp: run_append ev_stop_def bus_event_def)
qed

section \<open>Register reads\<close>

definition dev_out :: "u8 \<Rightarrow> btldr \<Rightarrow> btldr" where
  "dev_out reg s = (let s1 = cmd_data_out reg (s\<lparr>i2c_reg := reg, i2c_state := I2C_STATE_OUT_START_WAIT\<rparr>) in
     s1\<lparr>i2c_buf := (i2c_buf s1)[unat (i2c_out_remaining s1) :=
          i2c_message_checksum (take (unat (i2c_out_remaining s1)) (i2c_buf s1)) reg]\<rparr>)"

definition dev_read :: "u8 \<Rightarrow> nat \<Rightarrow> btldr \<Rightarrow> btldr" where
  "dev_read reg n s = main_flash_ops ((dev_out reg s)\<lparr>dr_out := dr_out s @ take n (i2c_buf (dev_out reg s)),
     i2c_state := I2C_STATE_IDLE, i2c_offset := 0, i2c_out_remaining := 0, i2c_reg := I2C_BTLDR_REG_RESV\<rparr>)"

lemma steps_tx:
  assumes "i2c_state s = I2C_STATE_DATA_OUT" "n \<le> unat (i2c_out_remaining s)" "unat (i2c_offset s) + n \<le> I2C_BUF_SIZE"
    "I2C_BUF_SIZE \<le> length (i2c_buf s)"
  shows "steps (replicate n (ev_tx ram)) s (s\<lparr>i2c_offset := i2c_offset s + of_nat n,
    i2c_out_remaining := i2c_out_remaining s - of_nat n, dr_out := dr_out s @ get_at (unat (i2c_offset s)) n (i2c_buf s)\<rparr>)"
  using assms
proof (induction n arbitrary: s)
  case 0
  then show ?case using steps_nil [of s] by (simp add: get_at_def)
next
  case (Suc n)
  let ?i = "unat (i2c_offset s)"
  let ?t = "s\<lparr>i2c_offset := i2c_offset s + 1, i2c_out_remaining := i2c_out_remaining s - 1, dr_out := dr_out s @ [i2c_buf s ! ?i]\<rparr>"
  have off: "unat (i2c_offset s + 1) = Suc ?i" using Suc.prems(3) by (simp add: unat_word_ariths)
  have nz: "i2c_out_remaining s \<noteq> 0" using Suc.prems(2) by auto
  then have rem: "unat (i2c_out_remaining s - 1) = unat (i2c_out_remaining s) - 1" by (simp add: unat_minus_one)
  have "steps [ev_tx ram] s ?t"
    using Suc.prems nz by (intro steps_busy) (simp_all add: serve_events i2c_dr_store_def i2c_byte_out_def)
  moreover have "steps (replicate n (ev_tx ram)) ?t (?t\<lparr>i2c_offset := i2c_offset ?t + of_nat n,
      i2c_out_remaining := i2c_out_remaining ?t - of_nat n, dr_out := dr_out ?t @ get_at (unat (i2c_offset ?t)) n (i2c_buf ?t)\<rparr>)"
    using Suc.prems off rem by (intro Suc.IH) simp_all
  ultimately have "steps (replicate (Suc n) (ev_tx ram)) s (?t\<lparr>i2c_offset := i2c_offset ?t + of_nat n,
      i2c_out_remaining := i2c_out_remaining ?t - of_nat n, dr_out := dr_out ?t @ get_at (unat (i2c_offset ?t)) n (i2c_buf ?t)\<rparr>)"
    using steps_cons by simp
  moreover have "i2c_buf s ! ?i # get_at (Suc ?i) n (i2c_buf s) = get_at ?i (Suc n) (i2c_buf s)"
    using Suc.prems by (simp add: get_at_def Cons_nth_drop_Suc [symmetric])
  ultimately show ?case using off by (simp add: algebra_simps)
qed

lemma dev_out_eq:
  assumes "dev_ready s"
  shows "i2c_message_start I2C_START_TRA (s\<lparr>i2c_reg := reg, i2c_state := I2C_STATE_OUT_START_WAIT\<rparr>) =
    (dev_out reg s)\<lparr>i2c_out_remaining := i2c_out_remaining (dev_out reg s) + 2, i2c_state := I2C_STATE_DATA_OUT\<rparr>"
  by (simp add: i2c_message_start_def dev_out_def Let_def get_at_def)

lemma dev_out_frame [simp]:
  "i2c_offset (dev_out reg s) = 0" "run_state (dev_out reg s) = run_state s" "dr_out (dev_out reg s) = dr_out s"
  "i2c_reg (dev_out reg s) = reg" "mem (dev_out reg s) = mem s" "app_status (dev_out reg s) = app_status s"
  by (simp_all add: dev_out_def Let_def)

lemma dev_out_buf: "dev_ready s \<Longrightarrow> length (i2c_buf (dev_out reg s)) = I2C_BUF_SIZE + 2"
  by (simp add: dev_out_def Let_def dev_ready_fields)

lemma steps_nack:
  assumes "i2c_state s = I2C_STATE_DATA_OUT" "run_state (main_flash_ops (I2C_STATE_RESET s)) = RUN_STATE_BTLDR_RUN"
  shows "steps [ev_nack ram] s (main_flash_ops (I2C_STATE_RESET s))"
  using steps_serve [of "ev_nack ram" s] assms by (simp add: serve_events i2c_message_stop_def)

lemma steps_read:
  assumes ready: "dev_ready s" and reg: "reg AND I2C_BTLDR_REG_RW_MASK = I2C_BTLDR_REG_READ"
    and n: "n \<le> unat (i2c_out_remaining (dev_out reg s)) + 2" "n \<le> I2C_BUF_SIZE"
    and run: "run_state (dev_read reg n s) = RUN_STATE_BTLDR_RUN"
  shows "steps (bus_read ram reg n) s (dev_read reg n s)"
proof -
  let ?a = "s\<lparr>i2c_state := I2C_STATE_REG_WAIT\<rparr>"
  let ?b = "s\<lparr>i2c_reg := reg, i2c_state := I2C_STATE_OUT_START_WAIT\<rparr>"
  let ?o = "dev_out reg s"
  let ?c = "?o\<lparr>i2c_out_remaining := i2c_out_remaining ?o + 2, i2c_state := I2C_STATE_DATA_OUT\<rparr>"
  let ?d = "?c\<lparr>i2c_offset := i2c_offset ?c + of_nat n, i2c_out_remaining := i2c_out_remaining ?c - of_nat n,
     dr_out := dr_out ?c @ get_at (unat (i2c_offset ?c)) n (i2c_buf ?c)\<rparr>"
  note fields = dev_ready_fields [OF ready]
  have "reg \<noteq> I2C_BTLDR_REG_RESV" using reg by auto
  then have 2: "steps [ev_rx ram reg] ?a ?b" using steps_reg [of ?a reg ram] fields reg by simp
  have 1: "steps [ev_addr ram 0] s ?a" using fields by (simp add: steps_addr)
  have 3: "steps [ev_addr ram I2C_SR3_TRA] ?b ?c"
    by (rule steps_busy) (simp_all add: serve_events dev_out_eq [OF ready])
  have "unat (i2c_out_remaining ?o) \<le> I2C_BUF_SIZE"
    using cmd_data_out_remaining [of reg ?b] by (simp add: dev_out_def Let_def)
  then have rem: "unat (i2c_out_remaining ?o + 2) = unat (i2c_out_remaining ?o) + 2" by (simp add: unat_word_ariths)
  have 4: "steps (replicate n (ev_tx ram)) ?c ?d"
    using n rem dev_out_buf [OF ready, of reg] by (intro steps_tx) simp_all
  have "I2C_STATE_RESET ?d = (dev_out reg s)\<lparr>dr_out := dr_out s @ take n (i2c_buf (dev_out reg s)),
     i2c_state := I2C_STATE_IDLE, i2c_offset := 0, i2c_out_remaining := 0, i2c_reg := I2C_BTLDR_REG_RESV\<rparr>"
    by (simp add: I2C_STATE_RESET_def get_at_def)
  then have 5: "steps [ev_nack ram] ?d (dev_read reg n s)"
    using steps_nack [of ?d ram] run by (simp add: dev_read_def)
  show ?thesis
    unfolding bus_read_def append_Cons append_Nil
    by (intro steps_cons [OF 1] steps_cons [OF 2] steps_cons [OF 3] steps_append [OF 4] 5)
qed

end
