(* ===== verification/Btldr_Blocks.thy ===== *)
theory Btldr_Blocks
  imports Btldr_Bus
begin

text \<open>
  The block transfers of the register protocol: an address write, a status read that prepares
  the flash operation, and the data write or read, for the EEPROM and the data flash alike.
\<close>

section \<open>Transactions keep the device ready\<close>

lemma btldr_inv_message:
  assumes "dev_ready s" "length dat < I2C_BUF_SIZE"
  shows "btldr_inv (s\<lparr>i2c_reg := reg, i2c_state := I2C_STATE_DATA_IN, i2c_buf := put_at 0 (dat @ [c]) (i2c_buf s),
    i2c_offset := of_nat (length dat)\<rparr>)"
  using assms by (simp add: dev_ready_def btldr_inv_def app_ready_def unat_of_nat)

lemma main_flash_ops_i2c_state [simp]:
  assumes "btldr_inv s"
  shows "i2c_state (main_flash_ops s) = i2c_state s"
  using assms
proof (cases rule: main_flash_ops_cases)
  case info
  with assms show ?thesis by (simp add: write_app_info_run_def btldr_inv_def write_app_info_frame)
qed (auto simp: flash_rdwr_run_read flash_rdwr_run_eeprom flash_rdwr_run_data)

lemma dev_write_reset_inv:
  assumes "dev_ready s" "length dat < I2C_BUF_SIZE"
  shows "btldr_inv (I2C_STATE_RESET (cmd_data_in reg (s\<lparr>i2c_reg := reg, i2c_state := I2C_STATE_DATA_IN,
    i2c_buf := put_at 0 (dat @ [c]) (i2c_buf s), i2c_offset := of_nat (length dat)\<rparr>)))"
  using cmd_data_in_inv [OF btldr_inv_message [OF assms, of c reg], of "of_nat (length dat)"] by simp

lemma dev_write_ready:
  assumes "dev_ready s" "length dat < I2C_BUF_SIZE" "run_state (dev_write reg dat s) = RUN_STATE_BTLDR_RUN"
  shows "dev_ready (dev_write reg dat s)"
  using assms(3) dev_write_reset_inv [OF assms(1,2)] main_flash_ops_inv [OF dev_write_reset_inv [OF assms(1,2)]]
  by (simp add: dev_ready_def dev_write_def)

lemma dev_out_inv:
  assumes "dev_ready s"
  shows "btldr_inv ((dev_out reg s)\<lparr>dr_out := d, i2c_state := I2C_STATE_IDLE, i2c_offset := 0, i2c_out_remaining := 0,
    i2c_reg := I2C_BTLDR_REG_RESV\<rparr>)"
proof -
  let ?t = "s\<lparr>i2c_reg := reg, i2c_state := I2C_STATE_OUT_START_WAIT\<rparr>"
  have "btldr_inv ?t" using assms by (simp add: dev_ready_def btldr_inv_def app_ready_def)
  from cmd_data_out_inv [OF this] show ?thesis
    using assms by (simp add: dev_out_def Let_def dev_ready_def btldr_inv_def app_ready_def)
qed

lemma dev_read_ready:
  assumes "dev_ready s"
  shows "dev_ready (dev_read reg n s)"
proof -
  let ?t = "(dev_out reg s)\<lparr>dr_out := dr_out s @ take n (i2c_buf (dev_out reg s)), i2c_state := I2C_STATE_IDLE,
    i2c_offset := 0, i2c_out_remaining := 0, i2c_reg := I2C_BTLDR_REG_RESV\<rparr>"
  have "btldr_inv ?t" by (rule dev_out_inv [OF assms])
  from main_flash_ops_inv [OF this] this show ?thesis
    using dev_ready_fields(2) [OF assms] by (simp add: dev_ready_def dev_read_def)
qed

section \<open>Regions\<close>

datatype flash_region = REGION_EEPROM | REGION_DATA

fun region_addr :: "flash_region \<Rightarrow> u32 \<Rightarrow> bool" where
  "region_addr REGION_EEPROM = eeprom_addr"
| "region_addr REGION_DATA = data_addr"

fun reg_read_addr :: "flash_region \<Rightarrow> u8" where
  "reg_read_addr REGION_EEPROM = I2C_BTLDR_REG_EEPROM_READ_ADDR"
| "reg_read_addr REGION_DATA = I2C_BTLDR_REG_DATA_READ_ADDR"

fun reg_write_addr :: "flash_region \<Rightarrow> u8" where
  "reg_write_addr REGION_EEPROM = I2C_BTLDR_REG_EEPROM_WRITE_ADDR"
| "reg_write_addr REGION_DATA = I2C_BTLDR_REG_DATA_WRITE_ADDR"

fun reg_read_data :: "flash_region \<Rightarrow> u8" where
  "reg_read_data REGION_EEPROM = I2C_BTLDR_REG_EEPROM_READ"
| "reg_read_data REGION_DATA = I2C_BTLDR_REG_DATA_READ"

fun reg_write_data :: "flash_region \<Rightarrow> u8" where
  "reg_write_data REGION_EEPROM = I2C_BTLDR_REG_EEPROM_WRITE"
| "reg_write_data REGION_DATA = I2C_BTLDR_REG_DATA_WRITE"

fun st_read_addr_ready :: "flash_region \<Rightarrow> flash_state" where
  "st_read_addr_ready REGION_EEPROM = FLASH_STATE_EEPROM_READ_ADDR_READY"
| "st_read_addr_ready REGION_DATA = FLASH_STATE_DATA_READ_ADDR_READY"

fun st_write_addr_ready :: "flash_region \<Rightarrow> flash_state" where
  "st_write_addr_ready REGION_EEPROM = FLASH_STATE_EEPROM_WRITE_ADDR_READY"
| "st_write_addr_ready REGION_DATA = FLASH_STATE_DATA_WRITE_ADDR_READY"

fun st_read_data_ready :: "flash_region \<Rightarrow> flash_state" where
  "st_read_data_ready REGION_EEPROM = FLASH_STATE_EEPROM_READ_DATA_READY"
| "st_read_data_ready REGION_DATA = FLASH_STATE_DATA_READ_DATA_READY"

fun st_write_data_ready :: "flash_region \<Rightarrow> flash_state" where
  "st_write_data_ready REGION_EEPROM = FLASH_STATE_EEPROM_WRITE_DATA_READY"
| "st_write_data_ready REGION_DATA = FLASH_STATE_DATA_WRITE_DATA_READY"

section \<open>The steps of a transfer\<close>

lemma region_check:
  "check_flash_addr (reg_read_addr r) a = I2C_BTLDR_STATE_OK \<longleftrightarrow> region_addr r a"
  "check_flash_addr (reg_write_addr r) a = I2C_BTLDR_STATE_OK \<longleftrightarrow> region_addr r a"
  by (cases r; auto simp: check_flash_addr_ok eeprom_addr_def data_addr_def block_addr_def)+

lemma of_be32_put: "of_be32 (put_at 0 (be32 a @ xs) buf) = a"
  by (simp add: put_at_def)

lemma cmd_data_in_addr:
  assumes "region_addr r (of_be32 (i2c_buf s))"
  shows "cmd_data_in (reg_read_addr r) s = s\<lparr>btldr_state := I2C_BTLDR_STATE_OK, flash_addr := of_be32 (i2c_buf s), flash_state := st_read_addr_ready r\<rparr>"
    "cmd_data_in (reg_write_addr r) s = s\<lparr>btldr_state := I2C_BTLDR_STATE_OK, flash_addr := of_be32 (i2c_buf s), flash_state := st_write_addr_ready r\<rparr>"
proof -
  show "cmd_data_in (reg_read_addr r) s = s\<lparr>btldr_state := I2C_BTLDR_STATE_OK, flash_addr := of_be32 (i2c_buf s), flash_state := st_read_addr_ready r\<rparr>"
    using assms region_check(1) [of r "of_be32 (i2c_buf s)"]
    by (cases r) (simp_all add: cmd_data_in_def cmd_flash_addr_def set_addr_ready_flash_state_def Let_def)
  show "cmd_data_in (reg_write_addr r) s = s\<lparr>btldr_state := I2C_BTLDR_STATE_OK, flash_addr := of_be32 (i2c_buf s), flash_state := st_write_addr_ready r\<rparr>"
    using assms region_check(2) [of r "of_be32 (i2c_buf s)"]
    by (cases r) (simp_all add: cmd_data_in_def cmd_flash_addr_def set_addr_ready_flash_state_def Let_def)
qed

definition flash_pending :: "flash_state \<Rightarrow> bool" where
  "flash_pending f \<longleftrightarrow> f \<in> {FLASH_STATE_EEPROM_READ_RUN, FLASH_STATE_DATA_READ_RUN, FLASH_STATE_EEPROM_WRITE_RUN,
     FLASH_STATE_DATA_WRITE_RUN, FLASH_STATE_APP_INFO_WRITE_RUN}"

lemma main_flash_ops_idle: "\<not> flash_pending (flash_state s) \<Longrightarrow> main_flash_ops s = s"
  by (simp add: main_flash_ops_def flash_pending_def)

lemma not_pending [simp]:
  "\<not> flash_pending (st_read_addr_ready r)" "\<not> flash_pending (st_write_addr_ready r)"
  "\<not> flash_pending (st_write_data_ready r)" "\<not> flash_pending (st_read_data_ready r)" "\<not> flash_pending FLASH_STATE_IDLE"
  by (cases r; simp add: flash_pending_def)+

lemma dev_write_addr:
  assumes "dev_ready s" "region_addr r a"
  shows "let t = dev_write (reg_read_addr r) (be32 a) s in
      dev_ready t \<and> flash_state t = st_read_addr_ready r \<and> flash_addr t = a \<and> btldr_state t = I2C_BTLDR_STATE_OK
      \<and> mem t = mem s \<and> app_status t = app_status s \<and> dr_out t = dr_out s"
    "let t = dev_write (reg_write_addr r) (be32 a) s in
      dev_ready t \<and> flash_state t = st_write_addr_ready r \<and> flash_addr t = a \<and> btldr_state t = I2C_BTLDR_STATE_OK
      \<and> mem t = mem s \<and> app_status t = app_status s \<and> dr_out t = dr_out s"
  using assms dev_ready_fields [OF assms(1)] dev_write_ready [OF assms(1), of "be32 a" "reg_read_addr r"]
    dev_write_ready [OF assms(1), of "be32 a" "reg_write_addr r"]
  by (simp_all add: Let_def dev_write_def cmd_data_in_addr of_be32_put main_flash_ops_idle)

lemma cmd_data_out_status_write:
  assumes "flash_state s = st_write_addr_ready r" "btldr_state s = I2C_BTLDR_STATE_OK"
  shows "cmd_data_out I2C_BTLDR_REG_STATUS s = s\<lparr>btldr_state := I2C_BTLDR_STATE_OK, i2c_offset := 0,
    flash_state := st_write_data_ready r, i2c_buf := put_at 0 [I2C_BTLDR_STATE_OK] (i2c_buf s), i2c_out_remaining := 1\<rparr>"
  using assms by (cases r) (simp_all add: cmd_data_out_def cmd_status_out_def Let_def)

fun st_read_run :: "flash_region \<Rightarrow> flash_state" where
  "st_read_run REGION_EEPROM = FLASH_STATE_EEPROM_READ_RUN"
| "st_read_run REGION_DATA = FLASH_STATE_DATA_READ_RUN"

fun st_write_run :: "flash_region \<Rightarrow> flash_state" where
  "st_write_run REGION_EEPROM = FLASH_STATE_EEPROM_WRITE_RUN"
| "st_write_run REGION_DATA = FLASH_STATE_DATA_WRITE_RUN"

lemma cmd_data_out_status_read:
  assumes "flash_state s = st_read_addr_ready r" "btldr_state s = I2C_BTLDR_STATE_OK"
  shows "cmd_data_out I2C_BTLDR_REG_STATUS s = s\<lparr>btldr_state := I2C_BTLDR_STATE_OK, i2c_offset := 0,
    flash_state := st_read_run r, i2c_buf := put_at 0 [I2C_BTLDR_STATE_OK] (i2c_buf s), i2c_out_remaining := 1\<rparr>"
  using assms by (cases r) (simp_all add: cmd_data_out_def cmd_status_out_def Let_def)

lemma put_status: "length buf = I2C_BUF_SIZE + 2 \<Longrightarrow> take 2 ((put_at 0 [b] buf)[Suc 0 := c]) = [b, c]"
  by (cases buf; cases "tl buf") (auto simp: put_at_def numeral_2_eq_2)

lemma dev_read_status_write:
  assumes "dev_ready s" "flash_state s = st_write_addr_ready r" "btldr_state s = I2C_BTLDR_STATE_OK"
  shows "let t = dev_read I2C_BTLDR_REG_STATUS 2 s in
    dev_ready t \<and> flash_state t = st_write_data_ready r \<and> flash_addr t = flash_addr s \<and> btldr_state t = I2C_BTLDR_STATE_OK
    \<and> mem t = mem s \<and> app_status t = app_status s
    \<and> dr_out t = dr_out s @ [I2C_BTLDR_STATE_OK, i2c_message_checksum [I2C_BTLDR_STATE_OK] I2C_BTLDR_REG_STATUS]"
  using assms dev_ready_fields [OF assms(1)] dev_read_ready [OF assms(1), of I2C_BTLDR_REG_STATUS 2]
  by (simp add: Let_def dev_read_def dev_out_def cmd_data_out_status_write main_flash_ops_idle put_status)

lemma main_flash_ops_read:
  "i2c_state s = I2C_STATE_IDLE \<Longrightarrow> flash_state s = st_read_run r \<Longrightarrow>
   main_flash_ops s = s\<lparr>i2c_out_remaining := 0x80, i2c_buf := put_at 0 (read_block (mem s) (ucast (flash_addr s))) (i2c_buf s),
     flash_state := st_read_data_ready r\<rparr>"
  by (cases r) (simp_all add: main_flash_ops_def flash_rdwr_run_read)

lemma dev_read_status_read:
  assumes "dev_ready s" "flash_state s = st_read_addr_ready r" "btldr_state s = I2C_BTLDR_STATE_OK"
  shows "let t = dev_read I2C_BTLDR_REG_STATUS 2 s in
    dev_ready t \<and> flash_state t = st_read_data_ready r \<and> btldr_state t = I2C_BTLDR_STATE_OK
    \<and> mem t = mem s \<and> app_status t = app_status s \<and> i2c_out_remaining t = 0x80
    \<and> take FLASH_BLOCK_SIZE (i2c_buf t) = read_block (mem s) (ucast (flash_addr s))
    \<and> dr_out t = dr_out s @ [I2C_BTLDR_STATE_OK, i2c_message_checksum [I2C_BTLDR_STATE_OK] I2C_BTLDR_REG_STATUS]"
  using assms dev_ready_fields [OF assms(1)] dev_read_ready [OF assms(1), of I2C_BTLDR_REG_STATUS 2]
  by (simp add: Let_def dev_read_def dev_out_def cmd_data_out_status_read main_flash_ops_read [of _ r] put_status take_put_at_0)

lemma cmd_data_in_write:
  assumes "flash_state s = st_write_data_ready r" "i2c_offset s = 0x80"
  shows "cmd_data_in (reg_write_data r) s = s\<lparr>btldr_state := I2C_BTLDR_STATE_OK, flash_state := st_write_run r\<rparr>"
  using assms by (cases r) (simp_all add: cmd_data_in_def cmd_flash_write_def Let_def)

lemma main_flash_ops_write:
  assumes "i2c_state s = I2C_STATE_IDLE" "flash_state s = st_write_run r" "region_addr r (flash_addr s)"
  shows "main_flash_ops s = (flash_programblock_mem 0x01 (flash_addr s) (i2c_buf s) s)
    \<lparr>app_status := (if r = REGION_DATA then app_status s AND NOT APP_STATUS_READY_MASK else app_status s),
     flash_state := FLASH_STATE_IDLE\<rparr>"
  using assms by (cases r) (simp_all add: main_flash_ops_def flash_rdwr_run_eeprom flash_rdwr_run_data)

definition mem_with_block :: "flash_mem \<Rightarrow> u32 \<Rightarrow> bytes \<Rightarrow> flash_mem" where
  "mem_with_block m a blk = (\<lambda>x. if in_block (ucast a) x then blk ! unat (x - ucast a) else m x)"

lemma read_block_with_block [simp]:
  "length blk = FLASH_BLOCK_SIZE \<Longrightarrow> read_block (mem_with_block m a blk) (ucast a) = blk"
  by (rule nth_equalityI) (auto simp: read_block_def mem_with_block_def in_block_def unat_of_nat)

lemma mem_programmed:
  assumes "take FLASH_BLOCK_SIZE buf = blk"
  shows "mem (flash_programblock_mem k a buf s) = mem_with_block (mem s) a blk"
proof -
  have "buf ! i = blk ! i" if "i < FLASH_BLOCK_SIZE" for i using that by (simp flip: assms)
  then show ?thesis by (auto simp: mem_programblock_mem mem_with_block_def in_block_def)
qed

lemma take_put_append: "take (length xs) (put_at 0 (xs @ ys) buf) = xs"
  by (simp add: put_at_def)

lemma dev_write_block:
  assumes "dev_ready s" "flash_state s = st_write_data_ready r" "region_addr r (flash_addr s)" "length blk = FLASH_BLOCK_SIZE"
  shows "let t = dev_write (reg_write_data r) blk s in
    dev_ready t \<and> flash_state t = FLASH_STATE_IDLE \<and> btldr_state t = I2C_BTLDR_STATE_OK
    \<and> mem t = mem_with_block (mem s) (flash_addr s) blk \<and> dr_out t = dr_out s"
  using assms dev_ready_fields [OF assms(1)] dev_write_ready [OF assms(1), of blk "reg_write_data r"]
    take_put_append [of blk "[i2c_message_checksum blk (reg_write_data r)]" "i2c_buf s"]
  by (simp add: Let_def dev_write_def cmd_data_in_write main_flash_ops_write mem_programmed)

lemma cmd_data_out_read:
  assumes "flash_state s = st_read_data_ready r" "i2c_out_remaining s = 0x80"
  shows "cmd_data_out (reg_read_data r) s = s\<lparr>btldr_state := I2C_BTLDR_STATE_OK, i2c_offset := 0, flash_state := FLASH_STATE_IDLE\<rparr>"
  using assms by (cases r) (simp_all add: cmd_data_out_def Let_def)

lemma take_list_update_append:
  "n < length xs \<Longrightarrow> take (Suc n) (xs[n := x]) = take n xs @ [x]"
  by (simp add: take_Suc_conv_app_nth)

lemma dev_read_block:
  assumes "dev_ready s" "flash_state s = st_read_data_ready r" "i2c_out_remaining s = 0x80"
    "take FLASH_BLOCK_SIZE (i2c_buf s) = blk"
  shows "let t = dev_read (reg_read_data r) (FLASH_BLOCK_SIZE + 1) s in
    dev_ready t \<and> btldr_state t = I2C_BTLDR_STATE_OK \<and> mem t = mem s \<and> app_status t = app_status s
    \<and> dr_out t = dr_out s @ blk @ [i2c_message_checksum blk (reg_read_data r)]"
  using assms dev_ready_fields [OF assms(1)] dev_read_ready [OF assms(1), of "reg_read_data r" "FLASH_BLOCK_SIZE + 1"]
    take_list_update_append [of FLASH_BLOCK_SIZE "i2c_buf s"]
  by (simp add: Let_def dev_read_def dev_out_def cmd_data_out_read main_flash_ops_idle)

section \<open>Whole transfers\<close>

text \<open>The transactions that write and read one block, as \<open>ioutil\<close> issues them.\<close>

definition bus_write_block :: "(int \<Rightarrow> u8) \<Rightarrow> flash_region \<Rightarrow> u32 \<Rightarrow> bytes \<Rightarrow> i2c_hw list" where
  "bus_write_block ram r a blk = bus_write ram (reg_write_addr r) (be32 a)
     @ bus_read ram I2C_BTLDR_REG_STATUS 2 @ bus_write ram (reg_write_data r) blk"

definition bus_read_block :: "(int \<Rightarrow> u8) \<Rightarrow> flash_region \<Rightarrow> u32 \<Rightarrow> i2c_hw list" where
  "bus_read_block ram r a = bus_write ram (reg_read_addr r) (be32 a)
     @ bus_read ram I2C_BTLDR_REG_STATUS 2 @ bus_read ram (reg_read_data r) (FLASH_BLOCK_SIZE + 1)"

lemma dev_out_remaining:
  "i2c_out_remaining (dev_out reg s) = i2c_out_remaining (cmd_data_out reg (s\<lparr>i2c_reg := reg, i2c_state := I2C_STATE_OUT_START_WAIT\<rparr>))"
  by (simp add: dev_out_def Let_def)

lemma steps_status: "dev_ready s \<Longrightarrow> steps (bus_read ram I2C_BTLDR_REG_STATUS 2) s (dev_read I2C_BTLDR_REG_STATUS 2 s)"
  using dev_read_ready [of s I2C_BTLDR_REG_STATUS 2] by (intro steps_read) (simp_all add: dev_ready_def)

lemma reg_write_bits [simp]:
  "reg_write_addr r AND 0x80 = 0x80" "reg_read_addr r AND 0x80 = 0x80" "reg_write_data r AND 0x80 = 0x80"
  "reg_read_data r AND 0x80 = 0" "reg_write_addr r \<noteq> 0xff" "reg_read_addr r \<noteq> 0xff" "reg_write_data r \<noteq> 0xff"
  by (cases r; simp)+

lemma steps_write_block:
  assumes "dev_ready s" "region_addr r a" "length blk = FLASH_BLOCK_SIZE"
  shows "\<exists>t. steps (bus_write_block ram r a blk) s t \<and> dev_ready t \<and> mem t = mem_with_block (mem s) a blk
    \<and> btldr_state t = I2C_BTLDR_STATE_OK \<and> dr_out t = dr_out s @ [0, i2c_message_checksum [0] I2C_BTLDR_REG_STATUS]"
proof -
  define u where "u = dev_write (reg_write_addr r) (be32 a) s"
  define v where "v = dev_read I2C_BTLDR_REG_STATUS 2 u"
  define w where "w = dev_write (reg_write_data r) blk v"
  have u: "dev_ready u" "flash_state u = st_write_addr_ready r" "flash_addr u = a" "btldr_state u = I2C_BTLDR_STATE_OK"
    "mem u = mem s" "dr_out u = dr_out s"
    using dev_write_addr(2) [OF assms(1,2)] by (simp_all add: Let_def u_def)
  have v: "dev_ready v" "flash_state v = st_write_data_ready r" "flash_addr v = a" "mem v = mem s"
    "dr_out v = dr_out s @ [0, i2c_message_checksum [0] I2C_BTLDR_REG_STATUS]"
    using dev_read_status_write [OF u(1,2,4)] u by (simp_all add: Let_def v_def)
  have w: "dev_ready w" "btldr_state w = I2C_BTLDR_STATE_OK" "mem w = mem_with_block (mem s) a blk" "dr_out w = dr_out v"
    using dev_write_block [OF v(1,2) _ assms(3)] v assms(2) by (simp_all add: Let_def w_def)
  have 1: "steps (bus_write ram (reg_write_addr r) (be32 a)) s u"
    unfolding u_def using u(1) dev_ready_fields(2) by (intro steps_write assms(1)) (simp_all add: u_def)
  have 2: "steps (bus_read ram I2C_BTLDR_REG_STATUS 2) u v" unfolding v_def by (rule steps_status) (rule u(1))
  have 3: "steps (bus_write ram (reg_write_data r) blk) v w"
    unfolding w_def using w(1) dev_ready_fields(2) assms(3) by (intro steps_write v(1)) (simp_all add: w_def)
  have "steps (bus_write_block ram r a blk) s w"
    unfolding bus_write_block_def by (intro steps_append [OF 1] steps_append [OF 2] 3)
  with w v show ?thesis by auto
qed

lemma steps_read_block:
  assumes "dev_ready s" "region_addr r a"
  shows "\<exists>t. steps (bus_read_block ram r a) s t \<and> dev_ready t \<and> mem t = mem s
    \<and> dr_out t = dr_out s @ [0, i2c_message_checksum [0] I2C_BTLDR_REG_STATUS] @ read_block (mem s) (ucast a)
        @ [i2c_message_checksum (read_block (mem s) (ucast a)) (reg_read_data r)]"
proof -
  define u where "u = dev_write (reg_read_addr r) (be32 a) s"
  define v where "v = dev_read I2C_BTLDR_REG_STATUS 2 u"
  define w where "w = dev_read (reg_read_data r) (FLASH_BLOCK_SIZE + 1) v"
  have u: "dev_ready u" "flash_state u = st_read_addr_ready r" "flash_addr u = a" "btldr_state u = I2C_BTLDR_STATE_OK"
    "mem u = mem s" "dr_out u = dr_out s"
    using dev_write_addr(1) [OF assms(1,2)] by (simp_all add: Let_def u_def)
  have v: "dev_ready v" "flash_state v = st_read_data_ready r" "mem v = mem s" "i2c_out_remaining v = 0x80"
    "take FLASH_BLOCK_SIZE (i2c_buf v) = read_block (mem s) (ucast a)"
    "dr_out v = dr_out s @ [0, i2c_message_checksum [0] I2C_BTLDR_REG_STATUS]"
    using dev_read_status_read [OF u(1,2,4)] u by (simp_all add: Let_def v_def)
  have w: "dev_ready w" "mem w = mem s"
    "dr_out w = dr_out v @ read_block (mem s) (ucast a) @ [i2c_message_checksum (read_block (mem s) (ucast a)) (reg_read_data r)]"
    using dev_read_block [OF v(1,2,4,5)] v by (simp_all add: Let_def w_def)
  have 1: "steps (bus_write ram (reg_read_addr r) (be32 a)) s u"
    unfolding u_def using u(1) dev_ready_fields(2) by (intro steps_write assms(1)) (simp_all add: u_def)
  have 2: "steps (bus_read ram I2C_BTLDR_REG_STATUS 2) u v" unfolding v_def by (rule steps_status) (rule u(1))
  have "i2c_out_remaining (dev_out (reg_read_data r) v) = 0x80"
    using cmd_data_out_read [of "v\<lparr>i2c_reg := reg_read_data r, i2c_state := I2C_STATE_OUT_START_WAIT\<rparr>" r] v
    by (simp add: dev_out_remaining)
  then have 3: "steps (bus_read ram (reg_read_data r) (FLASH_BLOCK_SIZE + 1)) v w"
    unfolding w_def using w(1) dev_ready_fields(2) by (intro steps_read v(1)) (simp_all add: w_def)
  have "steps (bus_read_block ram r a) s w"
    unfolding bus_read_block_def by (intro steps_append [OF 1] steps_append [OF 2] 3)
  with w v show ?thesis by auto
qed

section \<open>Setting and reading the application information\<close>

lemma read_app_info_cong: "mem s = mem t \<Longrightarrow> app_status s = app_status t \<Longrightarrow> read_app_info s = read_app_info t"
  by (simp add: read_app_info_eq Let_def)

lemma cmd_data_in_app_info:
  "i2c_offset s = 9 \<Longrightarrow> cmd_data_in I2C_BTLDR_REG_APP_INFO_SET s
     = s\<lparr>btldr_state := I2C_BTLDR_STATE_OK, flash_state := FLASH_STATE_APP_INFO_WRITE_RUN\<rparr>"
  by (simp add: cmd_data_in_def Let_def)

lemma dec_put_app_info_set: "dec_app_info_set (put_at 0 (enc_app_info_set p @ xs) buf) = p"
  by (simp add: put_at_def dec_enc_app_info_set)

lemma dev_write_app_info:
  assumes "dev_ready s"
  shows "let t = dev_write I2C_BTLDR_REG_APP_INFO_SET (enc_app_info_set p) s in
    dev_ready t \<and> flash_state t = FLASH_STATE_IDLE \<and> btldr_state t = I2C_BTLDR_STATE_OK \<and> dr_out t = dr_out s
    \<and> mem t = mem_with_block (mem s) 0x1000 (header_block p) \<and> (app_ready t \<longleftrightarrow> app_verified (mem t))
    \<and> header_valid (mem t) \<and> read_app_info t = \<lparr>ai_size = as_size p, ai_crc16 = as_crc16 p, ai_app_ver = as_app_ver p,
        ai_app_info_set_time = BTLDR_APP_INFO_SET_TIME,
        ai_status = app_status t OR (as_autoboot p AND APP_STATUS_AUTOBOOT_MASK)\<rparr>"
proof -
  note fields = dev_ready_fields [OF assms]
  define v where "v = I2C_STATE_RESET (s\<lparr>i2c_reg := I2C_BTLDR_REG_APP_INFO_SET, i2c_state := I2C_STATE_DATA_IN,
      i2c_buf := put_at 0 (enc_app_info_set p @ [i2c_message_checksum (enc_app_info_set p) I2C_BTLDR_REG_APP_INFO_SET]) (i2c_buf s),
      i2c_offset := 9, btldr_state := I2C_BTLDR_STATE_OK, flash_state := FLASH_STATE_APP_INFO_WRITE_RUN\<rparr>)"
  have buf: "FLASH_BLOCK_SIZE \<le> length (i2c_buf v)" using fields by (simp add: v_def)
  have t: "dev_write I2C_BTLDR_REG_APP_INFO_SET (enc_app_info_set p) s = (write_app_info p v)\<lparr>flash_state := FLASH_STATE_IDLE\<rparr>"
    by (simp add: dev_write_def cmd_data_in_app_info main_flash_ops_def write_app_info_run_def dec_put_app_info_set v_def)
  have cong: "app_ready ((write_app_info p v)\<lparr>flash_state := FLASH_STATE_IDLE\<rparr>) = app_ready (write_app_info p v)"
    "read_app_info ((write_app_info p v)\<lparr>flash_state := FLASH_STATE_IDLE\<rparr>) = read_app_info (write_app_info p v)"
    by (simp add: app_ready_def, rule read_app_info_cong, simp_all)
  have v: "mem v = mem s" "dr_out v = dr_out s" "run_state v = run_state s" "btldr_state v = I2C_BTLDR_STATE_OK"
    by (simp_all add: v_def)
  have m: "mem (write_app_info p v) = mem_with_block (mem s) 0x1000 (header_block p)"
    by (rule ext) (simp add: mem_write_app_info [OF buf] mem_with_block_def v)
  have "dev_ready (dev_write I2C_BTLDR_REG_APP_INFO_SET (enc_app_info_set p) s)"
    by (rule dev_write_ready [OF assms]) (simp_all add: t write_app_info_frame [OF buf] v fields)
  then show ?thesis
    using write_app_info_frame [OF buf, of p] read_write_app_info [OF buf, of p] header_valid_write [OF buf, of p] m v cong
    by (simp add: Let_def t)
qed

lemma dev_read_app_info:
  assumes "dev_ready s"
  shows "let t = dev_read I2C_BTLDR_REG_APP_INFO 12 s in
    dev_ready t \<and> mem t = mem s \<and> app_status t = app_status s \<and> btldr_state t = I2C_BTLDR_STATE_OK \<and> flash_state t = FLASH_STATE_IDLE
    \<and> dr_out t = dr_out s @ enc_app_info (read_app_info s) @ [i2c_message_checksum (enc_app_info (read_app_info s)) I2C_BTLDR_REG_APP_INFO]"
proof -
  note fields = dev_ready_fields [OF assms]
  have r: "read_app_info (s\<lparr>i2c_reg := a, i2c_state := b, btldr_state := c, i2c_offset := d, flash_state := e\<rparr>) = read_app_info s" for a b c d e
    by (rule read_app_info_cong) simp_all
  have out: "cmd_data_out I2C_BTLDR_REG_APP_INFO (s\<lparr>i2c_reg := I2C_BTLDR_REG_APP_INFO, i2c_state := I2C_STATE_OUT_START_WAIT\<rparr>)
      = s\<lparr>i2c_reg := I2C_BTLDR_REG_APP_INFO, i2c_state := I2C_STATE_OUT_START_WAIT, btldr_state := I2C_BTLDR_STATE_OK, i2c_offset := 0,
         flash_state := FLASH_STATE_IDLE, i2c_buf := put_at 0 (enc_app_info (read_app_info s)) (i2c_buf s), i2c_out_remaining := 11\<rparr>"
    by (simp add: cmd_data_out_def Let_def r)
  have buf: "take 11 (put_at 0 (enc_app_info (read_app_info s)) (i2c_buf s)) = enc_app_info (read_app_info s)"
    by (simp add: put_at_def)
  show ?thesis
    using fields dev_read_ready [OF assms, of I2C_BTLDR_REG_APP_INFO 12] buf
      take_list_update_append [of 11 "put_at 0 (enc_app_info (read_app_info s)) (i2c_buf s)"]
    by (simp add: Let_def dev_read_def dev_out_def out main_flash_ops_idle)
qed

section \<open>The start key\<close>

definition start_key :: bytes where
  "start_key = [I2C_BTLDR_START_KEY_3, I2C_BTLDR_START_KEY_2, I2C_BTLDR_START_KEY_1, I2C_BTLDR_START_KEY_0]"

lemma start_key_put: "start_key_ok (put_at 0 (start_key @ xs) buf)"
  by (simp add: start_key_ok_def start_key_def put_at_def)

lemma dev_write_start:
  assumes "dev_ready s"
  shows "run_state (dev_write I2C_BTLDR_REG_START start_key s) = (if app_ready s then RUN_STATE_APP_START else RUN_STATE_BTLDR_RUN)"
    "i2c_state (dev_write I2C_BTLDR_REG_START start_key s) = I2C_STATE_IDLE"
    "mem (dev_write I2C_BTLDR_REG_START start_key s) = mem s"
  using start_key_put [of "[i2c_message_checksum start_key I2C_BTLDR_REG_START]" "i2c_buf s"] dev_ready_fields(2) [OF assms]
  by (simp_all add: dev_write_def cmd_data_in_def cmd_start_def Let_def start_key_def main_flash_ops_idle app_ready_def)

lemma run_start:
  assumes "dev_ready s" "app_ready s"
  shows "fst (run main_step (bus_write ram I2C_BTLDR_REG_START start_key) (MAIN_RUN, s)) = MAIN_APP"
  using assms dev_write_start [OF assms(1)] by (intro run_write_app) (simp_all add: start_key_def)

section \<open>Properties\<close>

lemma steps_run:
  assumes "steps hws s t"
  shows "\<exists>t'. run main_step hws (MAIN_RUN, s) = (MAIN_RUN, t') \<and> mem t' = mem t \<and> dr_out t' = dr_out t
    \<and> btldr_state t' = btldr_state t \<and> app_status t' = app_status t"
  using assms unfolding steps_def by (metis no_leds_frame)

text \<open>A device without an application, between transactions.\<close>

definition sample_dev :: btldr where
  "sample_dev = init_run_state (btldr_reset BOARD_B3_MAIN (\<lambda>a. 0xff))"

lemma sample_dev_ready: "dev_ready sample_dev"
proof -
  have "boot BOARD_B3_MAIN (\<lambda>a. 0xff) [] = (MAIN_RUN, sample_dev)"
    by (simp add: boot_start sample_dev_def app_verified_def Let_def)
  then have "main_inv (MAIN_RUN, sample_dev)" using boot_inv by metis
  moreover have "run_state sample_dev = RUN_STATE_BTLDR_RUN"
    using init_run_state_start [of "btldr_reset BOARD_B3_MAIN (\<lambda>a. 0xff)"]
    by (simp add: sample_dev_def app_verified_def Let_def btldr_reset_def)
  moreover have "i2c_state sample_dev = I2C_STATE_IDLE"
    by (simp add: sample_dev_def init_run_state_def Let_def) (simp add: btldr_reset_def)
  ultimately show ?thesis by (simp add: dev_ready_def)
qed

text \<open>C6. A block written to a valid address of the EEPROM or the data flash and read back over
  the bus comes back unchanged, with status OK and a correct checksum; memory differs from before
  exactly in that block.\<close>

theorem block_write_read:
  "dev_ready s \<and> region_addr r a \<and> length blk = FLASH_BLOCK_SIZE \<Longrightarrow>
   \<exists>t. run main_step (bus_write_block ram r a blk @ bus_read_block ram r a) (MAIN_RUN, s) = (MAIN_RUN, t)
     \<and> mem t = mem_with_block (mem s) a blk
     \<and> dr_out t = dr_out s @ [I2C_BTLDR_STATE_OK, i2c_message_checksum [I2C_BTLDR_STATE_OK] I2C_BTLDR_REG_STATUS]
         @ [I2C_BTLDR_STATE_OK, i2c_message_checksum [I2C_BTLDR_STATE_OK] I2C_BTLDR_REG_STATUS]
         @ blk @ [i2c_message_checksum blk (reg_read_data r)]"
proof -
  assume a: "dev_ready s \<and> region_addr r a \<and> length blk = FLASH_BLOCK_SIZE"
  then obtain u where u: "steps (bus_write_block ram r a blk) s u" "dev_ready u" "mem u = mem_with_block (mem s) a blk"
    "dr_out u = dr_out s @ [0, i2c_message_checksum [0] I2C_BTLDR_REG_STATUS]"
    using steps_write_block [of s r a blk ram] by blast
  obtain v where v: "steps (bus_read_block ram r a) u v" "mem v = mem u"
    "dr_out v = dr_out u @ [0, i2c_message_checksum [0] I2C_BTLDR_REG_STATUS] @ read_block (mem u) (ucast a)
      @ [i2c_message_checksum (read_block (mem u) (ucast a)) (reg_read_data r)]"
    using steps_read_block [OF u(2), of r a ram] a by blast
  from steps_run [OF steps_append [OF u(1) v(1)]] u v a show ?thesis by auto
qed

theorem block_write_read_witness:
  "\<exists>t. run main_step (bus_write_block (\<lambda>i. 0) REGION_DATA 0xa080 (replicate 128 7) @ bus_read_block (\<lambda>i. 0) REGION_DATA 0xa080)
      (MAIN_RUN, sample_dev) = (MAIN_RUN, t) \<and> mem t = mem_with_block (mem sample_dev) 0xa080 (replicate 128 7)"
proof -
  have "dev_ready sample_dev \<and> region_addr REGION_DATA 0xa080 \<and> length (replicate 128 (7::u8)) = FLASH_BLOCK_SIZE"
    using sample_dev_ready by (simp add: data_addr_def block_addr_def proto_defs)
  from block_write_read [OF this, of "\<lambda>i. 0"] show ?thesis by blast
qed

text \<open>C7. Setting the application information over the bus writes a header block that reads back
  as set, leaves the rest of memory alone, and marks the application ready exactly when the
  image in flash passes the check against it.\<close>

theorem app_info_set_get:
  "dev_ready s \<Longrightarrow>
   \<exists>t st. run main_step (bus_write ram I2C_BTLDR_REG_APP_INFO_SET (enc_app_info_set p) @ bus_read ram I2C_BTLDR_REG_APP_INFO 12)
       (MAIN_RUN, s) = (MAIN_RUN, t)
     \<and> mem t = mem_with_block (mem s) 0x1000 (header_block p) \<and> header_valid (mem t)
     \<and> (app_ready t \<longleftrightarrow> app_verified (mem t)) \<and> st = app_status t OR (as_autoboot p AND APP_STATUS_AUTOBOOT_MASK)
     \<and> (let info = enc_app_info \<lparr>ai_size = as_size p, ai_crc16 = as_crc16 p, ai_app_ver = as_app_ver p,
            ai_app_info_set_time = BTLDR_APP_INFO_SET_TIME, ai_status = st\<rparr>
        in dr_out t = dr_out s @ info @ [i2c_message_checksum info I2C_BTLDR_REG_APP_INFO])"
proof -
  assume ready: "dev_ready s"
  define u where "u = dev_write I2C_BTLDR_REG_APP_INFO_SET (enc_app_info_set p) s"
  define v where "v = dev_read I2C_BTLDR_REG_APP_INFO 12 u"
  note u = dev_write_app_info [OF ready, of p, folded u_def, unfolded Let_def]
  then have ru: "dev_ready u" by simp
  note v = dev_read_app_info [OF ru, folded v_def, unfolded Let_def]
  have 1: "steps (bus_write ram I2C_BTLDR_REG_APP_INFO_SET (enc_app_info_set p)) s u"
    unfolding u_def using u dev_ready_fields(2) by (intro steps_write ready) (simp_all add: u_def)
  have 2: "steps (bus_read ram I2C_BTLDR_REG_APP_INFO 12) u v"
    unfolding v_def using v dev_ready_fields(2)
    by (intro steps_read ru) (simp_all add: v_def dev_out_remaining cmd_data_out_def Let_def)
  from steps_run [OF steps_append [OF 1 2]] u v show ?thesis
    by (auto simp: Let_def app_ready_def)
qed

theorem app_info_set_get_witness:
  "\<exists>t. run main_step (bus_write (\<lambda>i. 0) I2C_BTLDR_REG_APP_INFO_SET
        (enc_app_info_set \<lparr>as_size = 0x80, as_crc16 = 0, as_app_ver = 1, as_autoboot = 0x80\<rparr>)
      @ bus_read (\<lambda>i. 0) I2C_BTLDR_REG_APP_INFO 12) (MAIN_RUN, sample_dev) = (MAIN_RUN, t) \<and> header_valid (mem t)"
  using app_info_set_get [OF sample_dev_ready] by blast

text \<open>C8. The start key sent to a device that serves commands starts the application when the
  application is ready; otherwise the device stays in its command loop and reports that the
  application is not ready.\<close>

theorem start_key_starts_app:
  "dev_ready s \<Longrightarrow>
   (if app_ready s then fst (run main_step (bus_write ram I2C_BTLDR_REG_START start_key) (MAIN_RUN, s)) = MAIN_APP
    else \<exists>t. run main_step (bus_write ram I2C_BTLDR_REG_START start_key) (MAIN_RUN, s) = (MAIN_RUN, t)
           \<and> mem t = mem s \<and> btldr_state t = I2C_BTLDR_STATE_APP_NOT_READY)"
proof (cases "app_ready s")
  case True
  assume "dev_ready s"
  with True run_start show ?thesis by simp
next
  case False
  assume ready: "dev_ready s"
  let ?t = "dev_write I2C_BTLDR_REG_START start_key s"
  have "btldr_state ?t = I2C_BTLDR_STATE_APP_NOT_READY"
    using start_key_put [of "[i2c_message_checksum start_key I2C_BTLDR_REG_START]" "i2c_buf s"]
      dev_ready_fields(2) [OF ready] False
    by (simp add: dev_write_def cmd_data_in_def cmd_start_def Let_def start_key_def main_flash_ops_idle app_ready_def)
  moreover have "steps (bus_write ram I2C_BTLDR_REG_START start_key) s ?t"
    using dev_write_start [OF ready] False by (intro steps_write ready) (simp_all add: start_key_def)
  ultimately show ?thesis
    using steps_run [of _ s ?t] dev_write_start [OF ready] False by auto
qed

theorem start_key_starts_app_witness:
  "\<exists>t. run main_step (bus_write (\<lambda>i. 0) I2C_BTLDR_REG_START start_key) (MAIN_RUN, sample_dev) = (MAIN_RUN, t)
     \<and> btldr_state t = I2C_BTLDR_STATE_APP_NOT_READY"
proof -
  have "\<not> app_verified (mem sample_dev)"
    by (simp add: sample_dev_def init_run_state_def Let_def btldr_reset_def app_verified_def)
  then have "\<not> app_ready sample_dev" using sample_dev_ready by (auto simp: dev_ready_def btldr_inv_def)
  then show ?thesis using start_key_starts_app [OF sample_dev_ready, of "\<lambda>i. 0"] by auto
qed

lemma checksum_byte:
  "i2c_message_checksum (xs @ x # ys) reg = i2c_message_checksum (xs @ y # ys) reg \<longleftrightarrow> x = y"
  unfolding i2c_message_checksum_def crc8_foldl by (rule crc8_lfsr.feed_detects_byte)

lemma checksum_reg: "i2c_message_checksum xs reg = i2c_message_checksum xs reg' \<longleftrightarrow> reg = reg'"
  unfolding i2c_message_checksum_def crc8_foldl by (simp add: crc8_lfsr.feed_inj)

lemma checksum_update:
  assumes "i < length xs"
  shows "i2c_message_checksum (xs[i := b]) reg = i2c_message_checksum xs reg \<longleftrightarrow> b = xs ! i"
  using checksum_byte [of "take i xs" b "drop (Suc i) xs" reg "xs ! i"] assms
  by (simp add: upd_conv_take_nth_drop id_take_nth_drop [symmetric])

text \<open>C9. The message check detects every change of a single byte of a message, its checksum byte
  included, and every change of the register it is addressed to.\<close>

theorem message_verify_detects:
  "0 < unat len \<and> unat len \<le> length buf \<and> i2c_message_verify ram buf reg len \<Longrightarrow>
   (\<forall>i b. i < unat len \<and> b \<noteq> buf ! i \<longrightarrow> \<not> i2c_message_verify ram (buf[i := b]) reg len)
   \<and> (\<forall>reg'. reg' \<noteq> reg \<longrightarrow> \<not> i2c_message_verify ram buf reg' len)"
proof (intro conjI allI impI)
  fix i b
  assume a: "0 < unat len \<and> unat len \<le> length buf \<and> i2c_message_verify ram buf reg len" and i: "i < unat len \<and> b \<noteq> buf ! i"
  let ?n = "unat len - 1"
  have len: "0 < unat len" "unat len \<le> length buf" using a by simp_all
  have ok: "i2c_message_checksum (take ?n buf) reg = buf ! ?n"
    using a i2c_message_verify_eq [OF len] by blast
  show "\<not> i2c_message_verify ram (buf[i := b]) reg len"
  proof (cases "i < ?n")
    case True
    then show ?thesis
      using a i ok checksum_update [of i "take ?n buf" b reg] by (simp add: i2c_message_verify_eq take_update_swap)
  next
    case False
    then have "i = ?n" using i by linarith
    then show ?thesis using a i ok by (auto simp: i2c_message_verify_eq)
  qed
next
  fix reg'
  assume a: "0 < unat len \<and> unat len \<le> length buf \<and> i2c_message_verify ram buf reg len" and r: "reg' \<noteq> reg"
  then show "\<not> i2c_message_verify ram buf reg' len"
    using checksum_reg [of "take (unat len - 1) buf" reg reg'] by (auto simp: i2c_message_verify_eq)
qed

theorem message_verify_detects_witness:
  "\<not> i2c_message_verify (\<lambda>i. 0) ([0, i2c_message_checksum [0] I2C_BTLDR_REG_WAIT][0 := 1]) I2C_BTLDR_REG_WAIT 2"
proof -
  have "0 < unat (2::u8) \<and> unat (2::u8) \<le> length [0, i2c_message_checksum [0] I2C_BTLDR_REG_WAIT]
      \<and> i2c_message_verify (\<lambda>i. 0) [0, i2c_message_checksum [0] I2C_BTLDR_REG_WAIT] I2C_BTLDR_REG_WAIT 2"
    by (simp add: i2c_message_verify_eq)
  from message_verify_detects [OF this, THEN conjunct1, rule_format, of 0 1] show ?thesis by simp
qed


text \<open>C11. A write transaction with no data byte makes the check read outside the buffer: its
  length is 0, so \<open>len - 1\<close> wraps to 255 and the checksum is read from \<open>buf[-1]\<close>. Whether such a
  message is accepted depends on the RAM before the buffer.\<close>

theorem empty_message_reads_outside:
  "\<exists>ram ram'. i2c_message_verify ram buf reg 0 \<and> \<not> i2c_message_verify ram' buf reg 0"
proof -
  define c where "c = crc8 (IOMCU_CRC8_INIT + reg) (map (\<lambda>i. buf_at (\<lambda>j. 0) buf (int i)) [0..<255])"
  let ?ram = "\<lambda>b j. if j = - 1 then b else (0::u8)"
  have m: "map (\<lambda>i. buf_at (?ram b) buf (int i)) [0..<255] = map (\<lambda>i. buf_at (\<lambda>j. 0) buf (int i)) [0..<255]" for b
    by (rule map_cong) (auto simp: buf_at_def)
  have n: "unat ((0::u8) - 1) = 255" by (simp add: unsigned_minus_1_eq_mask mask_eq_exp_minus_1)
  have "buf_at (?ram b) buf (int (unat (0::u8)) - 1) = b" for b by (simp add: buf_at_def)
  then have v: "i2c_message_verify (?ram b) buf reg 0 \<longleftrightarrow> c = b" for b
    unfolding i2c_message_verify_def n m c_def by simp
  have "c \<noteq> c + 1" by simp
  then show ?thesis using v by blast
qed

end
