(* ===== verification/Ioutil_Text.thy ===== *)
theory Ioutil_Text
  imports Btldr_Blocks
begin

text \<open>
  The text side of the host tool \<open>ioutil/ioutil.c\<close>: number formatting as \<open>printf\<close> does it,
  the names of status codes and identifiers, and the command line. Of the C library it models
  what the tool uses: \<open>strtol\<close> with base 0 and \<open>getopt_long\<close> with long options only. The usage
  text and the debug output are not modelled.
\<close>

section \<open>Formatting\<close>

definition hex_char :: string where "hex_char = ''0123456789abcdef''"

fun digits :: "nat \<Rightarrow> nat \<Rightarrow> string" where
  "digits base n = (if base < 2 \<or> n < base then [hex_char ! (n mod 16)] else digits base (n div base) @ [hex_char ! (n mod base)])"

declare digits.simps [simp del]

definition pad_zero :: "nat \<Rightarrow> string \<Rightarrow> string" where
  "pad_zero w s = replicate (w - length s) CHR ''0'' @ s"

definition fmt_x :: "nat \<Rightarrow> 'a :: len word \<Rightarrow> string" where
  "fmt_x w n = pad_zero w (digits 16 (unat n))"

definition fmt_u :: "'a :: len word \<Rightarrow> string" where
  "fmt_u n = digits 10 (unat n)"

definition fmt_d :: "int \<Rightarrow> string" where
  "fmt_d i = (if i < 0 then CHR ''-'' # digits 10 (nat (- i)) else digits 10 (nat i))"

text \<open>\<open>hex_str\<close>: its static buffer holds 65 characters, longer input fails the assertion.\<close>

fun hex_chars :: "bytes \<Rightarrow> string" where
  "hex_chars [] = []"
| "hex_chars (b # buf) = hex_char ! unat (drop_bit 4 b) # hex_char ! unat (b AND 0xf) # hex_chars buf"

definition hex_str :: "bytes \<Rightarrow> string option" where
  "hex_str buf = (if length buf * 2 < 65 then Some (hex_chars buf) else None)"

section \<open>Names\<close>

definition status_str :: "u8 \<Rightarrow> string" where
  "status_str status =
     (if status = I2C_BTLDR_STATE_OK then ''ok''
      else if status = I2C_BTLDR_STATE_OVERFLOW then ''overflow''
      else if status = I2C_BTLDR_STATE_UNDERFLOW then ''underflow''
      else if status = I2C_BTLDR_STATE_INVALID_REG then ''invalid regaddr''
      else if status = I2C_BTLDR_STATE_INVALID_I2C_SIZE then ''invalid i2c size''
      else if status = I2C_BTLDR_STATE_BAD_KEY then ''bad key''
      else if status = I2C_BTLDR_STATE_INVALID_BLOCK_SIZE then ''invalid block size''
      else if status = I2C_BTLDR_STATE_INVALID_ADDR then ''invalid addr''
      else if status = I2C_BTLDR_STATE_ACCESS_DENIED then ''access denied''
      else if status = I2C_BTLDR_STATE_BUSY then ''busy''
      else if status = I2C_BTLDR_STATE_FLASH_INTERRUPTED then ''flash operation interrupted''
      else if status = I2C_BTLDR_STATE_COMM_ERROR then ''comm error''
      else if status = I2C_BTLDR_STATE_CHECKSUM_FAILED then ''checksum failed''
      else if status = I2C_BTLDR_STATE_DATA_NOT_READY then ''data not ready''
      else if status = I2C_BTLDR_STATE_FLASH_NOT_READY then ''flash not ready''
      else if status = I2C_BTLDR_STATE_APP_NOT_READY then ''app not ready''
      else ''unknown'')"

definition board_id_str :: "u16 \<Rightarrow> string" where
  "board_id_str board_id =
     (if board_id = 0 then ''NA'' else if board_id = 1 then ''beeptwo encoder'' else if board_id = 2 then ''beep3 main''
      else if board_id = 3 then ''demo board 1'' else ''unknown'')"

definition chip_id_str :: "u16 \<Rightarrow> string" where
  "chip_id_str chip_id =
     (if chip_id = 0 then ''NA'' else if chip_id = 1 then ''stm8l152c6'' else if chip_id = 2 then ''stm8l152c8''
      else if chip_id = 3 then ''stm8l151g6'' else ''unknown'')"

definition app_status_ready_str :: "u8 \<Rightarrow> string" where
  "app_status_ready_str status0 =
     (let status = status0 AND APP_STATUS_READY_MASK
      in if status = APP_STATUS_READY_NA then ''NA'' else if status = APP_STATUS_READY_READY then ''ready''
         else if status = APP_STATUS_READY_CRC_FAILED then ''crc failed''
         else if status = APP_STATUS_READY_NO_RESET then ''invalid reset vector'' else ''unknown'')"

text \<open>\<open>snprintf\<close> cuts the text to the 7 characters the buffer holds.\<close>

definition time_str :: "u16 \<Rightarrow> string" where
  "time_str time = take 7 (fmt_u (time AND I2C_BTLDR_TIME_NUM_MASK)
     @ (if time AND I2C_BTLDR_TIME_UNIT_MASK = I2C_BTLDR_TIME_UNIT_US then ''us'' else ''ms''))"

section \<open>Numbers in arguments\<close>

definition c_space :: "char \<Rightarrow> bool" where
  "c_space c \<longleftrightarrow> c = CHR '' '' \<or> (9 \<le> (of_char c :: nat) \<and> (of_char c :: nat) \<le> 13)"

definition digit_val :: "char \<Rightarrow> nat" where
  "digit_val c = (let n = of_char c :: nat in
     if 48 \<le> n \<and> n \<le> 57 then n - 48 else if 97 \<le> n \<and> n \<le> 122 then n - 87 else if 65 \<le> n \<and> n \<le> 90 then n - 55 else 99)"

fun num_val :: "nat \<Rightarrow> string \<Rightarrow> nat \<Rightarrow> nat" where
  "num_val base [] acc = acc"
| "num_val base (c # cs) acc = num_val base cs (acc * base + digit_val c)"

text \<open>The value and the unparsed rest; the value is clamped to the range of the C type, whose
  largest value is \<open>lim\<close>.\<close>

definition strtol :: "int \<Rightarrow> string \<Rightarrow> int \<times> string" where
  "strtol lim str =
     (let s0 = dropWhile c_space str;
          neg = (s0 \<noteq> [] \<and> hd s0 = CHR ''-'');
          s1 = (if s0 \<noteq> [] \<and> (hd s0 = CHR ''-'' \<or> hd s0 = CHR ''+'') then tl s0 else s0);
          hex = (length s1 > 2 \<and> s1 ! 0 = CHR ''0'' \<and> (s1 ! 1 = CHR ''x'' \<or> s1 ! 1 = CHR ''X'') \<and> digit_val (s1 ! 2) < 16);
          base = (if hex then 16 else if s1 \<noteq> [] \<and> hd s1 = CHR ''0'' then 8 else 10);
          s2 = (if hex then drop 2 s1 else s1);
          ds = takeWhile (\<lambda>c. digit_val c < base) s2;
          v = (if neg then - int (num_val base ds 0) else int (num_val base ds 0))
      in if ds = [] then (0, str) else (max (- lim - 1) (min lim v), drop (length ds) s2))"

abbreviation LONG_MAX :: int where "LONG_MAX \<equiv> 0x7fffffff"
abbreviation LLONG_MAX :: int where "LLONG_MAX \<equiv> 0x7fffffffffffffff"

section \<open>Commands and options\<close>

abbreviation I2C_ADDR_MIN :: int where "I2C_ADDR_MIN \<equiv> 0x03"
abbreviation I2C_ADDR_MAX :: int where "I2C_ADDR_MAX \<equiv> 0x77"
abbreviation I2C_APP_ADDR :: u8 where "I2C_APP_ADDR \<equiv> 0x23"

datatype ioutil_cmd = IOUTIL_CMD_NONE | IOUTIL_CMD_WRITE_FW | IOUTIL_CMD_READ_FW | IOUTIL_CMD_READ_DATA
  | IOUTIL_CMD_ERASE_DATA | IOUTIL_CMD_READ_EEPROM | IOUTIL_CMD_ERASE_EEPROM | IOUTIL_CMD_STATUS | IOUTIL_CMD_INFO
  | IOUTIL_CMD_AUTOBOOT | IOUTIL_CMD_STOP | IOUTIL_CMD_START

record cmd_str_pair =
  pair_cmd :: ioutil_cmd
  cmd_str :: string
  pair_desc :: string
  require_path :: bool

definition cmd_table :: "cmd_str_pair list" where
  "cmd_table = [
     \<lparr>pair_cmd = IOUTIL_CMD_WRITE_FW, cmd_str = ''write-fw'', pair_desc = ''Write firmware from path (requires option APPVER)'', require_path = True\<rparr>,
     \<lparr>pair_cmd = IOUTIL_CMD_READ_FW, cmd_str = ''read-fw'', pair_desc = ''Read firmware to path'', require_path = True\<rparr>,
     \<lparr>pair_cmd = IOUTIL_CMD_READ_DATA, cmd_str = ''read-data'', pair_desc = ''Read entire data flash to path'', require_path = True\<rparr>,
     \<lparr>pair_cmd = IOUTIL_CMD_ERASE_DATA, cmd_str = ''erase-data'', pair_desc = ''Erase entire data flash'', require_path = False\<rparr>,
     \<lparr>pair_cmd = IOUTIL_CMD_READ_EEPROM, cmd_str = ''read-eeprom'', pair_desc = ''Read entire eeprom to path'', require_path = True\<rparr>,
     \<lparr>pair_cmd = IOUTIL_CMD_ERASE_EEPROM, cmd_str = ''erase-eeprom'', pair_desc = ''Erase entire eeprom'', require_path = False\<rparr>,
     \<lparr>pair_cmd = IOUTIL_CMD_STATUS, cmd_str = ''status'', pair_desc = ''Last command status (will clear status)'', require_path = False\<rparr>,
     \<lparr>pair_cmd = IOUTIL_CMD_INFO, cmd_str = ''info'', pair_desc = ''Dump device info'', require_path = False\<rparr>,
     \<lparr>pair_cmd = IOUTIL_CMD_AUTOBOOT, cmd_str = ''autoboot'', pair_desc = ''Set autoboot status (requires option AUTOBOOT)'', require_path = False\<rparr>,
     \<lparr>pair_cmd = IOUTIL_CMD_STOP, cmd_str = ''stop'', pair_desc = ''Stop app'', require_path = False\<rparr>,
     \<lparr>pair_cmd = IOUTIL_CMD_START, cmd_str = ''start'', pair_desc = ''Start app'', require_path = False\<rparr>]"

datatype ioutil_opt = OPT_APP_ADDR | OPT_APP_RESTART_KEY | OPT_BTLDR_ADDR | OPT_BTLDR_START_KEY | OPT_I2C_BUS
  | OPT_IGNORE_CHKSUM | OPT_VERBOSE | OPT_NEW_STOP | OPT_HELP | OPT_ERROR

definition ioutil_long_opts :: "(string \<times> bool \<times> ioutil_opt) list" where
  "ioutil_long_opts = [(''app-addr'', True, OPT_APP_ADDR), (''restart-key'', True, OPT_APP_RESTART_KEY),
     (''btldr-addr'', True, OPT_BTLDR_ADDR), (''start-key'', True, OPT_BTLDR_START_KEY), (''bus'', True, OPT_I2C_BUS),
     (''no-chksum'', False, OPT_IGNORE_CHKSUM), (''verbose'', False, OPT_VERBOSE), (''new-stop'', False, OPT_NEW_STOP),
     (''help'', False, OPT_HELP)]"

record ioutil_opts =
  i2c_bus :: u32
  app_addr :: u8
  app_restart_key :: bytes
  btldr_addr :: u8
  btldr_start_key :: bytes
  ignore_chksum :: bool
  en_dprintf :: bool
  new_stop :: bool
  ioutil_cmd :: ioutil_cmd
  ioutil_path :: "string option"
  write_fw_app_ver :: u16
  set_autoboot :: bool

definition ioutil_defaults :: ioutil_opts where
  "ioutil_defaults = \<lparr>i2c_bus = 0, app_addr = I2C_APP_ADDR, app_restart_key = [0xc0, 0xaa, 0xaa, 0xa4],
     btldr_addr = I2C_BTLDR_ADDR, btldr_start_key = [I2C_BTLDR_START_KEY_3, I2C_BTLDR_START_KEY_2, I2C_BTLDR_START_KEY_1, I2C_BTLDR_START_KEY_0],
     ignore_chksum = False, en_dprintf = False, new_stop = False, ioutil_cmd = IOUTIL_CMD_NONE, ioutil_path = None,
     write_fw_app_ver = 0, set_autoboot = False\<rparr>"

text \<open>
  \<open>getopt_long\<close> with an empty list of short options: a long option is named exactly or by an
  unambiguous prefix, its argument follows after \<open>=\<close> or as the next word, anything else that
  starts with a dash is an error, and the remaining words are the operands.
\<close>

definition find_opt :: "string \<Rightarrow> (bool \<times> ioutil_opt) option" where
  "find_opt nm = (case map_of ioutil_long_opts nm of Some o1 \<Rightarrow> Some o1
     | None \<Rightarrow> (case List.filter (\<lambda>e. take (length nm) (fst e) = nm) ioutil_long_opts of [e] \<Rightarrow> Some (snd e) | _ \<Rightarrow> None))"

fun getopt_long :: "string list \<Rightarrow> (ioutil_opt \<times> string) list \<times> string list" where
  "getopt_long [] = ([], [])"
| "getopt_long (w # ws) =
     (if w = ''--'' then ([], ws)
      else if take 2 w = ''--'' then
        let nm = takeWhile (\<lambda>c. c \<noteq> CHR ''='') (drop 2 w); arg = dropWhile (\<lambda>c. c \<noteq> CHR ''='') (drop 2 w)
        in (case find_opt nm of
              None \<Rightarrow> ([(OPT_ERROR, [])], [])
            | Some (False, opt) \<Rightarrow> if arg = [] then (let (es, xs) = getopt_long ws in ((opt, []) # es, xs)) else ([(OPT_ERROR, [])], [])
            | Some (True, opt) \<Rightarrow>
                if arg \<noteq> [] then (let (es, xs) = getopt_long ws in ((opt, tl arg) # es, xs))
                else (case ws of [] \<Rightarrow> ([(OPT_ERROR, [])], [])
                      | v # ws' \<Rightarrow> (let (es, xs) = getopt_long ws' in ((opt, v) # es, xs))))
      else if length w > 1 \<and> hd w = CHR ''-'' then ([(OPT_ERROR, [])], [])
      else (let (es, xs) = getopt_long ws in (es, w # xs)))"

section \<open>The command line\<close>

text \<open>The tool leaves with a status or, on a failed assertion, aborts.\<close>

datatype ioutil_exit = EXIT nat | ABORT

definition key_bytes :: "int \<Rightarrow> bytes" where
  "key_bytes val = map word_of_int [drop_bit 24 val AND 0xff, drop_bit 16 val AND 0xff, drop_bit 8 val AND 0xff, val AND 0xff]"

definition process_opt :: "ioutil_opt \<Rightarrow> string \<Rightarrow> ioutil_opts \<Rightarrow> ioutil_exit + ioutil_opts" where
  "process_opt c optarg g = (case c of
     OPT_APP_ADDR \<Rightarrow> let (val, ccheck) = strtol LONG_MAX optarg
       in if val < I2C_ADDR_MIN \<or> val > I2C_ADDR_MAX \<or> ccheck \<noteq> [] then Inl (EXIT 3) else Inr (g\<lparr>app_addr := word_of_int val\<rparr>)
   | OPT_BTLDR_ADDR \<Rightarrow> let (val, ccheck) = strtol LONG_MAX optarg
       in if val < I2C_ADDR_MIN \<or> val > I2C_ADDR_MAX \<or> ccheck \<noteq> [] then Inl (EXIT 3) else Inr (g\<lparr>btldr_addr := word_of_int val\<rparr>)
   | OPT_APP_RESTART_KEY \<Rightarrow> let (val, ccheck) = strtol LLONG_MAX optarg
       in if val < 0 \<or> val > 0xffffffff \<or> ccheck \<noteq> [] then Inl (EXIT 3) else Inr (g\<lparr>app_restart_key := key_bytes val\<rparr>)
   | OPT_BTLDR_START_KEY \<Rightarrow> let (val, ccheck) = strtol LLONG_MAX optarg
       in if val < 0 \<or> val > 0xffffffff \<or> ccheck \<noteq> [] then Inl (EXIT 3) else Inr (g\<lparr>btldr_start_key := key_bytes val\<rparr>)
   | OPT_I2C_BUS \<Rightarrow> let (val, ccheck) = strtol LONG_MAX optarg
       in if val < 0 \<or> ccheck \<noteq> [] then Inl (EXIT 3) else Inr (g\<lparr>i2c_bus := word_of_int val\<rparr>)
   | OPT_IGNORE_CHKSUM \<Rightarrow> Inr (g\<lparr>ignore_chksum := True\<rparr>)
   | OPT_VERBOSE \<Rightarrow> Inr (g\<lparr>en_dprintf := True\<rparr>)
   | OPT_NEW_STOP \<Rightarrow> Inr (g\<lparr>new_stop := True\<rparr>)
   | OPT_HELP \<Rightarrow> Inl (EXIT 0)
   | OPT_ERROR \<Rightarrow> Inl (EXIT 3))"

fun process_opts :: "(ioutil_opt \<times> string) list \<Rightarrow> ioutil_opts \<Rightarrow> ioutil_exit + ioutil_opts" where
  "process_opts [] g = Inr g"
| "process_opts ((c, optarg) # es) g = (case process_opt c optarg g of Inl e \<Rightarrow> Inl e | Inr g' \<Rightarrow> process_opts es g')"

text \<open>The command and its operands; \<open>mem_ok\<close> tells whether \<open>strdup\<close> finds so much memory.\<close>

definition process_operands :: "(nat \<Rightarrow> bool) \<Rightarrow> string list \<Rightarrow> ioutil_opts \<Rightarrow> ioutil_exit + ioutil_opts" where
  "process_operands mem_ok xs g0 =
     (let entry = (if xs = [] then None else List.find (\<lambda>p. cmd_str p = hd xs) cmd_table);
          g = (case entry of None \<Rightarrow> g0 | Some p \<Rightarrow> g0\<lparr>ioutil_cmd := pair_cmd p\<rparr>);
          need = (case entry of None \<Rightarrow> False | Some p \<Rightarrow> require_path p)
      in if ioutil_cmd g = IOUTIL_CMD_NONE then Inl (EXIT 3)
         else if need \<and> length xs \<le> 1 then Inl (EXIT 3)
         else if need \<and> \<not> mem_ok (length (xs ! 1) + 1) then Inl ABORT
         else let g1 = (if need then g\<lparr>ioutil_path := Some (xs ! 1)\<rparr> else g)
         in if ioutil_cmd g1 = IOUTIL_CMD_WRITE_FW then
              if 2 < length xs then
                let (val, ccheck) = strtol LONG_MAX (xs ! 2)
                in if val < 0 \<or> val > 0xffff \<or> ccheck \<noteq> [] then Inl (EXIT 3) else Inr (g1\<lparr>write_fw_app_ver := word_of_int val\<rparr>)
              else Inl (EXIT 3)
            else if ioutil_cmd g1 = IOUTIL_CMD_AUTOBOOT then
              if 1 < length xs then
                let (val, ccheck) = strtol LONG_MAX (xs ! 1)
                in if ccheck \<noteq> [] then Inl (EXIT 3) else Inr (g1\<lparr>set_autoboot := (val \<noteq> 0)\<rparr>)
              else Inl (EXIT 3)
            else Inr g1)"

definition process_cmd_args :: "(nat \<Rightarrow> bool) \<Rightarrow> string list \<Rightarrow> ioutil_exit + ioutil_opts" where
  "process_cmd_args mem_ok args =
     (let (es, xs) = getopt_long args
      in (case process_opts es ioutil_defaults of Inl e \<Rightarrow> Inl e | Inr g \<Rightarrow> process_operands mem_ok xs g))"

end
