(* ===== verification/Ioutil_Tool.thy ===== *)
theory Ioutil_Tool
  imports Ioutil_Text
begin

text \<open>
  The host tool \<open>ioutil/ioutil.c\<close> with its bus access \<open>ioutil/i2c.c\<close>: register transfers,
  flash blocks and the commands. What the operating system does is the parameter \<open>host\<close>: the
  I2C device file, memory and files. A command returns its code and the state it leaves, or
  \<open>None\<close> where the C program stops (a division by a block size of zero, a failed assertion).
\<close>

section \<open>The operating system and the state\<close>

record i2c_msg =
  msg_addr :: u8
  msg_flags :: u16
  msg_buf :: bytes

text \<open>\<open>env_fopen_r\<close> gives the size of a file that can be opened for reading, \<open>env_fread\<close> the
  bytes a read of so many bytes delivers, \<open>env_fwrite\<close> how many bytes a write stores.\<close>

record 'd host =
  env_open :: "string \<Rightarrow> bool"
  env_ioctl :: "i2c_msg list \<Rightarrow> 'd \<Rightarrow> bool \<times> i2c_msg list \<times> 'd"
  env_malloc :: "nat \<Rightarrow> bool"
  env_fopen_r :: "string \<Rightarrow> nat option"
  env_fread :: "string \<Rightarrow> nat \<Rightarrow> bytes"
  env_fopen_w :: "string \<Rightarrow> bool"
  env_fwrite :: "string \<Rightarrow> bytes \<Rightarrow> nat"
  env_strerror :: string

record 'd io =
  io_dev :: 'd
  io_out :: "string list"
  io_sleeps :: "(nat \<times> nat) list"
  io_files :: "(string \<times> bytes) list"

definition printf :: "string \<Rightarrow> 'd io \<Rightarrow> 'd io" where
  "printf line s = s\<lparr>io_out := io_out s @ [line]\<rparr>"

section \<open>Bus access\<close>

abbreviation RW_ACK :: nat where "RW_ACK \<equiv> 0"
abbreviation RW_NACK :: nat where "RW_NACK \<equiv> 1"
abbreviation RW_ERROR_SEND :: nat where "RW_ERROR_SEND \<equiv> 2"
abbreviation RW_ERROR_BUS :: nat where "RW_ERROR_BUS \<equiv> 3"
abbreviation RW_ERROR_PARAM :: nat where "RW_ERROR_PARAM \<equiv> 4"
abbreviation RW_ERROR_NOMEM :: nat where "RW_ERROR_NOMEM \<equiv> 5"

text \<open>Flags of \<open>linux/i2c.h\<close>.\<close>

abbreviation I2C_M_RD :: u16 where "I2C_M_RD \<equiv> 0x0001"
abbreviation I2C_M_NO_RD_ACK :: u16 where "I2C_M_NO_RD_ACK \<equiv> 0x0800"

definition i2c_dev_name :: "u32 \<Rightarrow> string" where
  "i2c_dev_name bus = ''/dev/i2c-'' @ fmt_d (sint bus)"

definition i2c_rw :: "'d host \<Rightarrow> u32 \<Rightarrow> u8 \<Rightarrow> bytes \<Rightarrow> nat \<Rightarrow> 'd \<Rightarrow> nat \<times> bytes \<times> 'd" where
  "i2c_rw E bus addr wbuf rlen d =
     (if wbuf = [] \<and> rlen = 0 then (RW_ERROR_PARAM, [], d)
      else let m0 = \<lparr>msg_addr = addr, msg_flags = 0, msg_buf = wbuf\<rparr>;
               m1 = \<lparr>msg_addr = addr, msg_flags = I2C_M_RD, msg_buf = replicate rlen 0\<rparr>;
               msgs = (if wbuf \<noteq> [] \<and> rlen > 0 then [m0, m1] else if wbuf \<noteq> [] then [m0] else [m1])
           in if \<not> env_open E (i2c_dev_name bus) then (RW_ERROR_BUS, [], d)
              else let (done, msgs', d') = env_ioctl E msgs d;
                       m0' = (if wbuf \<noteq> [] then msgs' ! 0 else m0);
                       m1' = (if rlen > 0 then last msgs' else m1)
                   in if \<not> done then (RW_ERROR_SEND, [], d')
                      else if msg_flags m0' AND I2C_M_NO_RD_ACK \<noteq> 0 \<or> msg_flags m1' AND I2C_M_NO_RD_ACK \<noteq> 0
                      then (RW_NACK, msg_buf m1', d') else (RW_ACK, msg_buf m1', d'))"

definition i2c_reg_read :: "'d host \<Rightarrow> u32 \<Rightarrow> u8 \<Rightarrow> u8 \<Rightarrow> nat \<Rightarrow> 'd \<Rightarrow> nat \<times> bytes \<times> 'd" where
  "i2c_reg_read E bus addr regaddr len d = i2c_rw E bus addr [regaddr] len d"

definition i2c_reg_write :: "'d host \<Rightarrow> u32 \<Rightarrow> u8 \<Rightarrow> u8 \<Rightarrow> bytes \<Rightarrow> 'd \<Rightarrow> nat \<times> 'd" where
  "i2c_reg_write E bus addr regaddr buf d =
     (if \<not> env_malloc E (length buf + 1) then (RW_ERROR_NOMEM, d)
      else let (ret, _, d') = i2c_rw E bus addr (regaddr # buf) 0 d in (ret, d'))"

section \<open>Registers\<close>

text \<open>On the host the length of a message is an \<open>int\<close>, so \<open>i2c_message_verify\<close> compares the
  last byte with the checksum of the others.\<close>

definition ioutil_reg_read :: "'d host \<Rightarrow> ioutil_opts \<Rightarrow> u8 \<Rightarrow> u8 \<Rightarrow> nat \<Rightarrow> 'd io \<Rightarrow> nat \<times> bytes \<times> 'd io" where
  "ioutil_reg_read E g addr regaddr len s =
     (if \<not> env_malloc E (len + 1) then (127, [], s)
      else let (ret, tbuf, d) = i2c_reg_read E (i2c_bus g) addr regaddr (len + 1) (io_dev s); s1 = s\<lparr>io_dev := d\<rparr>
           in if ret \<noteq> 0 then (ret, [], s1)
              else if i2c_message_checksum (take len tbuf) regaddr = tbuf ! len \<or> ignore_chksum g then (0, take len tbuf, s1)
              else (2, [], printf (''Invalid checksum for reg: 0x'' @ fmt_x 2 regaddr @ ''.  Expected: 0x''
                     @ fmt_x 2 (i2c_message_checksum (take len tbuf) regaddr) @ '' Recieved: 0x'' @ fmt_x 2 (tbuf ! len)) s1))"

definition ioutil_reg_write :: "'d host \<Rightarrow> ioutil_opts \<Rightarrow> u8 \<Rightarrow> u8 \<Rightarrow> bytes \<Rightarrow> 'd io \<Rightarrow> nat \<times> 'd io" where
  "ioutil_reg_write E g addr regaddr buf s =
     (if \<not> env_malloc E (length buf + 1) then (127, s)
      else let (ret, d) = i2c_reg_write E (i2c_bus g) addr regaddr (buf @ [i2c_message_checksum buf regaddr]) (io_dev s)
           in (ret, s\<lparr>io_dev := d\<rparr>))"

text \<open>Structures start zeroed and keep that value when the transfer fails.\<close>

record BtldrInfo =
  bi_endian :: u32
  bi_proto_ver :: u16
  bi_btldr_ver :: u16

definition dec_btldr_info :: "bytes \<Rightarrow> BtldrInfo" where
  "dec_btldr_info bs = \<lparr>bi_endian = of_be32 bs, bi_proto_ver = of_be16 (drop 4 bs), bi_btldr_ver = of_be16 (drop 6 bs)\<rparr>"

definition dec_device_info :: "bytes \<Rightarrow> BtldrDeviceInfo" where
  "dec_device_info bs = \<lparr>di_board_id = of_be16 bs, di_board_rev = of_be16 (drop 2 bs), di_chip_id = of_be16 (drop 4 bs),
     di_chip_serial = take 12 (drop 6 bs), di_option_bytes = take 8 (drop 18 bs)\<rparr>"

definition rd_struct :: "nat \<Rightarrow> (bytes \<Rightarrow> 'a) \<Rightarrow> nat \<times> bytes \<times> 'd io \<Rightarrow> nat \<times> 'a \<times> 'd io" where
  "rd_struct len dec r = (let (ret, bs, s) = r in (ret, dec (if ret = 0 then bs else replicate len 0), s))"

definition rd_btldr_info :: "'d host \<Rightarrow> ioutil_opts \<Rightarrow> 'd io \<Rightarrow> nat \<times> BtldrInfo \<times> 'd io" where
  "rd_btldr_info E g s = rd_struct 8 dec_btldr_info (ioutil_reg_read E g (btldr_addr g) I2C_BTLDR_REG_BTLDR_INFO 8 s)"

definition rd_btldr_status :: "'d host \<Rightarrow> ioutil_opts \<Rightarrow> 'd io \<Rightarrow> nat \<times> u8 \<times> 'd io" where
  "rd_btldr_status E g s =
     (let (ret, bs, s1) = ioutil_reg_read E g (btldr_addr g) I2C_BTLDR_REG_STATUS 1 s
      in (ret, if ret \<noteq> 0 then I2C_BTLDR_STATE_COMM_ERROR else bs ! 0, s1))"

definition rd_btldr_dev_info :: "'d host \<Rightarrow> ioutil_opts \<Rightarrow> u16 \<Rightarrow> 'd io \<Rightarrow> nat \<times> BtldrDeviceInfo \<times> 'd io" where
  "rd_btldr_dev_info E g proto_ver s =
     (let (ret, bs, s1) = ioutil_reg_read E g (btldr_addr g) I2C_BTLDR_REG_DEV_INFO (if proto_ver = 1 then 18 else 26) s
      in (ret, dec_device_info (if ret = 0 then bs @ replicate (26 - length bs) 0 else replicate 26 0), s1))"

definition rd_btldr_flash_info :: "'d host \<Rightarrow> ioutil_opts \<Rightarrow> 'd io \<Rightarrow> nat \<times> BtldrFlashInfo \<times> 'd io" where
  "rd_btldr_flash_info E g s = rd_struct 28 dec_flash_info (ioutil_reg_read E g (btldr_addr g) I2C_BTLDR_REG_FLASH_INFO 28 s)"

definition rd_btldr_app_info :: "'d host \<Rightarrow> ioutil_opts \<Rightarrow> 'd io \<Rightarrow> nat \<times> BtldrAppInfo \<times> 'd io" where
  "rd_btldr_app_info E g s = rd_struct 11 dec_app_info (ioutil_reg_read E g (btldr_addr g) I2C_BTLDR_REG_APP_INFO 11 s)"

definition wr_btldr_flash_addr :: "'d host \<Rightarrow> ioutil_opts \<Rightarrow> u32 \<Rightarrow> u8 \<Rightarrow> 'd io \<Rightarrow> nat \<times> 'd io" where
  "wr_btldr_flash_addr E g addr regaddr s = ioutil_reg_write E g (btldr_addr g) regaddr (be32 addr) s"

definition wr_btldr_app_info_set :: "'d host \<Rightarrow> ioutil_opts \<Rightarrow> BtldrAppInfoSet \<Rightarrow> 'd io \<Rightarrow> nat \<times> 'd io" where
  "wr_btldr_app_info_set E g p s = ioutil_reg_write E g (btldr_addr g) I2C_BTLDR_REG_APP_INFO_SET (enc_app_info_set p) s"

definition ioutil_sleep :: "u16 \<Rightarrow> 'd io \<Rightarrow> 'd io" where
  "ioutil_sleep delay s =
     (let (sec, usec) =
        (if delay AND I2C_BTLDR_TIME_UNIT_MASK = I2C_BTLDR_TIME_UNIT_MS
         then let d = unat (delay AND I2C_BTLDR_TIME_NUM_MASK); sec = d div 1000 in (sec, (d - sec * 1000) * 1000)
         else (0, unat delay))
      in s\<lparr>io_sleeps := io_sleeps s @ [(sec, usec)]\<rparr>)"

section \<open>Flash\<close>

datatype flash_type = IOUTIL_EEPROM_FLASH | IOUTIL_DATA_FLASH

definition ioutil_write_flash :: "'d host \<Rightarrow> ioutil_opts \<Rightarrow> u32 \<Rightarrow> bytes \<Rightarrow> flash_type \<Rightarrow> u16 \<Rightarrow> 'd io \<Rightarrow> nat \<times> 'd io" where
  "ioutil_write_flash E g write_addr buf ft delay s =
     (let regaddr_addr = (if ft = IOUTIL_EEPROM_FLASH then I2C_BTLDR_REG_EEPROM_WRITE_ADDR else I2C_BTLDR_REG_DATA_WRITE_ADDR);
          regaddr_write = (if ft = IOUTIL_EEPROM_FLASH then I2C_BTLDR_REG_EEPROM_WRITE else I2C_BTLDR_REG_DATA_WRITE);
          (ret, s1) = wr_btldr_flash_addr E g write_addr regaddr_addr s
      in if ret \<noteq> 0 then (ret, s1) else
      let (ret, status, s2) = rd_btldr_status E g s1
      in if ret \<noteq> 0 then (ret, s2)
      else if status \<noteq> I2C_BTLDR_STATE_OK
      then (1, printf (''Setting write address returned bootloader status: '' @ fmt_u status @ '' ('' @ status_str status @ '').'') s2) else
      let (ret, s3) = ioutil_reg_write E g (btldr_addr g) regaddr_write buf s2
      in if ret \<noteq> 0 then (ret, s3) else
      let (ret, status, s4) = rd_btldr_status E g (ioutil_sleep delay s3)
      in if ret \<noteq> 0 then (ret, s4)
      else if status \<noteq> I2C_BTLDR_STATE_OK
      then (1, printf (''Writing data returned bootloader status: '' @ fmt_u status @ '' ('' @ status_str status @ '').'') s4)
      else (0, s4))"

definition ioutil_read_flash :: "'d host \<Rightarrow> ioutil_opts \<Rightarrow> u32 \<Rightarrow> nat \<Rightarrow> flash_type \<Rightarrow> u16 \<Rightarrow> 'd io \<Rightarrow> nat \<times> bytes \<times> 'd io" where
  "ioutil_read_flash E g read_addr len ft delay s =
     (let regaddr_addr = (if ft = IOUTIL_EEPROM_FLASH then I2C_BTLDR_REG_EEPROM_READ_ADDR else I2C_BTLDR_REG_DATA_READ_ADDR);
          regaddr_read = (if ft = IOUTIL_EEPROM_FLASH then I2C_BTLDR_REG_EEPROM_READ else I2C_BTLDR_REG_DATA_READ);
          (ret, s1) = wr_btldr_flash_addr E g read_addr regaddr_addr s
      in if ret \<noteq> 0 then (ret, [], s1) else
      let (ret, status, s2) = rd_btldr_status E g s1
      in if ret \<noteq> 0
      then (ret, [], printf (''Setting read address returned bootloader status: '' @ fmt_u status @ '' ('' @ status_str status @ '').'') s2)
      else if status \<noteq> I2C_BTLDR_STATE_OK then (1, [], s2)
      else ioutil_reg_read E g (btldr_addr g) regaddr_read len (ioutil_sleep delay s2))"

definition ROUND_UP_ADDR :: "u32 \<Rightarrow> u32 \<Rightarrow> u32" where
  "ROUND_UP_ADDR a bs = (a + bs - 1) div bs * bs"

text \<open>
  The block loop. Both checks passed, so \<open>left\<close> is a multiple of the block size and one unit of
  fuel per byte is more than the loop needs.
\<close>

fun rdwr_loop :: "nat \<Rightarrow> 'd host \<Rightarrow> ioutil_opts \<Rightarrow> u32 \<Rightarrow> nat \<Rightarrow> u32 \<Rightarrow> u32 \<Rightarrow> flash_type \<Rightarrow> u16 \<Rightarrow> bool \<Rightarrow> bytes \<Rightarrow> 'd io
    \<Rightarrow> (u32 \<times> bytes \<times> 'd io) option" where
  "rdwr_loop 0 E g base pos left bs ft delay rd buf s = (if left = 0 then Some (left, buf, s) else None)"
| "rdwr_loop (Suc n) E g base pos left bs ft delay rd buf s =
     (if left = 0 then Some (left, buf, s)
      else let (ret, buf', s') =
             (if rd then (let (ret, blk, s1) = ioutil_read_flash E g base (unat bs) ft delay s
                          in (ret, if ret = 0 then put_at pos blk buf else buf, s1))
              else (let (ret, s1) = ioutil_write_flash E g base (get_at pos (unat bs) buf) ft delay s in (ret, buf, s1)))
           in if ret \<noteq> 0 then Some (left, buf', s')
              else rdwr_loop n E g (base + bs) (pos + unat bs) (left - bs) bs ft delay rd buf' s')"

definition ioutil_rdwr_flash_block :: "'d host \<Rightarrow> ioutil_opts \<Rightarrow> u32 \<Rightarrow> u32 \<Rightarrow> u16 \<Rightarrow> flash_type \<Rightarrow> u16 \<Rightarrow> bytes \<Rightarrow> bool \<Rightarrow> 'd io
    \<Rightarrow> (u32 \<times> bytes \<times> 'd io) option" where
  "ioutil_rdwr_flash_block E g base sz blocksize ft delay buf rd s =
     (let bs = ucast blocksize :: u32; type_str = (if ft = IOUTIL_EEPROM_FLASH then ''eeprom'' else ''data'');
          boundary_error = (\<lambda>what a. ''Error: '' @ type_str @ '' '' @ what @ '' 0x'' @ fmt_x 8 a
            @ '' is not on a block boundary (block size: 0x'' @ fmt_x 4 bs @ '')'')
      in if bs = 0 then None
         else if base \<noteq> ROUND_UP_ADDR base bs then Some (0, buf, printf (boundary_error ''base address'' base) s)
         else if sz \<noteq> ROUND_UP_ADDR sz bs then Some (0, buf, printf (boundary_error ''size'' sz) s)
         else map_option (\<lambda>(left, buf', s'). (sz - left, buf', s')) (rdwr_loop (unat sz) E g base 0 sz bs ft delay rd buf s))"

definition ioutil_erase_flash :: "'d host \<Rightarrow> ioutil_opts \<Rightarrow> u32 \<Rightarrow> u32 \<Rightarrow> u16 \<Rightarrow> flash_type \<Rightarrow> u16 \<Rightarrow> 'd io \<Rightarrow> (u32 \<times> 'd io) option" where
  "ioutil_erase_flash E g base sz blocksize ft delay s =
     (if env_malloc E (unat sz)
      then map_option (\<lambda>(n, _, s'). (n, s')) (ioutil_rdwr_flash_block E g base sz blocksize ft delay (replicate (unat sz) 0) False s)
      else Some (sz, s))"

section \<open>Commands\<close>

definition show_app_info_set :: "BtldrAppInfoSet \<Rightarrow> string" where
  "show_app_info_set p = ''Writing app info (size: 0x'' @ fmt_x 8 (as_size p) @ '' crc16: 0x'' @ fmt_x 4 (as_crc16 p)
     @ '' ver: 0x'' @ fmt_x 4 (as_app_ver p) @ '' autoboot: 0x'' @ fmt_x 2 (as_autoboot p) @ '')...''"

definition ioutil_status :: "'d host \<Rightarrow> ioutil_opts \<Rightarrow> 'd io \<Rightarrow> nat \<times> 'd io" where
  "ioutil_status E g s =
     (let (ret, status, s1) = rd_btldr_status E g s
      in (ret, printf (''Bootloader status: '' @ fmt_u status @ '' ('' @ status_str status @ '')'') s1))"

text \<open>The report of \<open>ioutil_info\<close>, line by line.\<close>

definition info_lines :: "u8 \<Rightarrow> BtldrInfo \<Rightarrow> BtldrDeviceInfo \<Rightarrow> BtldrFlashInfo \<Rightarrow> BtldrAppInfo \<Rightarrow> string \<Rightarrow> string \<Rightarrow> string list" where
  "info_lines status info di fi ai serial option_bytes =
     [''Bootloader status: '' @ fmt_u status @ '' ('' @ status_str status @ '')'',
      ''Bootloader info:'',
      ''  endian: 0x'' @ fmt_x 8 (bi_endian info),
      ''  proto ver: '' @ fmt_u (bi_proto_ver info) @ '' (0x'' @ fmt_x 4 (bi_proto_ver info) @ '')'',
      ''  btldr ver: '' @ fmt_u (bi_btldr_ver info) @ '' (0x'' @ fmt_x 4 (bi_btldr_ver info) @ '')'',
      ''Device info:'',
      ''  board_id: 0x'' @ fmt_x 4 (di_board_id di) @ '' ('' @ board_id_str (di_board_id di) @ '')'',
      ''  board_rev: '' @ fmt_u (di_board_rev di) @ '' (0x'' @ fmt_x 4 (di_board_rev di) @ '')'',
      ''  chip_id: 0x'' @ fmt_x 4 (di_chip_id di) @ '' ('' @ chip_id_str (di_chip_id di) @ '')'',
      ''  chip_serial: '' @ serial]
     @ (if bi_proto_ver info > 1 then [''  option_bytes: '' @ option_bytes] else [])
     @ [''Flash info:'',
      ''  eeprom base: 0x'' @ fmt_x 8 (fi_eeprom_base fi),
      ''  eeprom size: 0x'' @ fmt_x 8 (fi_eeprom_size fi),
      ''  data base: 0x'' @ fmt_x 8 (fi_data_base fi),
      ''  data size: 0x'' @ fmt_x 8 (fi_data_size fi),
      ''  eeprom block size: 0x'' @ fmt_x 4 (fi_eeprom_blocksize fi),
      ''  data block size: 0x'' @ fmt_x 4 (fi_data_blocksize fi),
      ''  eeprom read time: '' @ time_str (fi_eeprom_read_time fi) @ '' (0x'' @ fmt_x 4 (fi_eeprom_read_time fi) @ '')'',
      ''  eeprom write time: '' @ time_str (fi_eeprom_write_time fi) @ '' (0x'' @ fmt_x 4 (fi_eeprom_write_time fi) @ '')'',
      ''  data read time: '' @ time_str (fi_data_read_time fi) @ '' (0x'' @ fmt_x 4 (fi_data_read_time fi) @ '')'',
      ''  data write time: '' @ time_str (fi_data_write_time fi) @ '' (0x'' @ fmt_x 4 (fi_data_write_time fi) @ '')'',
      ''App info:'',
      ''  size: 0x'' @ fmt_x 8 (ai_size ai),
      ''  crc16: 0x'' @ fmt_x 4 (ai_crc16 ai),
      ''  app version: 0x'' @ fmt_x 4 (ai_app_ver ai),
      ''  info set time: '' @ time_str (ai_app_info_set_time ai) @ '' (0x'' @ fmt_x 4 (ai_app_info_set_time ai) @ '')'',
      ''  status: 0x'' @ fmt_x 2 (ai_status ai) @ '' ('' @ (if ai_status ai AND APP_STATUS_AUTOBOOT_MASK \<noteq> 0 then ''autoboot, '' else [])
        @ app_status_ready_str (ai_status ai) @ '')'',
      []]"

definition ioutil_info :: "'d host \<Rightarrow> ioutil_opts \<Rightarrow> u8 \<Rightarrow> BtldrInfo \<Rightarrow> 'd io \<Rightarrow> (nat \<times> 'd io) option" where
  "ioutil_info E g status info s =
     (let (ret1, di, s1) = rd_btldr_dev_info E g (bi_proto_ver info) s;
          (ret2, fi, s2) = (if ret1 \<noteq> 0 then (ret1, dec_flash_info (replicate 28 0), s1) else rd_btldr_flash_info E g s1);
          (ret3, ai, s3) = (if ret2 \<noteq> 0 then (ret2, dec_app_info (replicate 11 0), s2) else rd_btldr_app_info E g s2)
      in (case (hex_str (di_chip_serial di), hex_str (di_option_bytes di)) of
            (Some serial, Some opts) \<Rightarrow> Some (ret3, fold printf (info_lines status info di fi ai serial opts) s3)
          | _ \<Rightarrow> None))"

definition ioutil_set_autoboot :: "'d host \<Rightarrow> ioutil_opts \<Rightarrow> 'd io \<Rightarrow> nat \<times> 'd io" where
  "ioutil_set_autoboot E g s =
     (let (ret, ai, s1) = rd_btldr_app_info E g s
      in if ret \<noteq> 0 then (ret, s1)
      else let p = \<lparr>as_size = ai_size ai, as_crc16 = ai_crc16 ai, as_app_ver = ai_app_ver ai,
                    as_autoboot = (if set_autoboot g then APP_STATUS_AUTOBOOT_YES else 0)\<rparr>;
               (ret, s2) = wr_btldr_app_info_set E g p (printf (show_app_info_set p) s1)
           in if ret \<noteq> 0 then (ret, printf ''Error writing app info'' s2)
              else (ret, ioutil_sleep (ai_app_info_set_time ai) s2))"

definition ioutil_start :: "'d host \<Rightarrow> ioutil_opts \<Rightarrow> 'd io \<Rightarrow> nat \<times> 'd io" where
  "ioutil_start E g s = ioutil_reg_write E g (btldr_addr g) I2C_BTLDR_REG_START (btldr_start_key g) s"

definition ioutil_wait :: "'d host \<Rightarrow> ioutil_opts \<Rightarrow> 'd io \<Rightarrow> nat \<times> 'd io" where
  "ioutil_wait E g s = ioutil_reg_write E g (btldr_addr g) I2C_BTLDR_REG_WAIT (btldr_start_key g) s"

definition io_usleep :: "nat \<Rightarrow> 'd io \<Rightarrow> 'd io" where
  "io_usleep us s = s\<lparr>io_sleeps := io_sleeps s @ [(0, us)]\<rparr>"

text \<open>At most 50 attempts; the first argument counts those left after this one.\<close>

fun stop_loop :: "nat \<Rightarrow> 'd host \<Rightarrow> ioutil_opts \<Rightarrow> 'd io \<Rightarrow> nat \<times> 'd io" where
  "stop_loop n E g s =
     (let (ret, s1) = (if new_stop g then ioutil_wait E g s else ioutil_start E g s); s2 = io_usleep 100000 s1
      in (case n of 0 \<Rightarrow> (ret, s2) | Suc m \<Rightarrow> if ret \<noteq> 0 then stop_loop m E g s2 else (ret, s2)))"

declare stop_loop.simps [simp del]

definition ioutil_stop :: "'d host \<Rightarrow> ioutil_opts \<Rightarrow> 'd io \<Rightarrow> nat \<times> 'd io" where
  "ioutil_stop E g s =
     (let (ret, s1) = ioutil_reg_write E g (app_addr g) 0x81 (app_restart_key g) s
      in if ret \<noteq> 0 then (ret, printf ''Could not stop app.'' s1)
      else let (ret, s2) = stop_loop 49 E g (io_usleep 500000 s1)
           in (ret, if ret \<noteq> 0 then printf ''Could not start bootloader.'' s2 else s2))"

text \<open>Opening and filling a file, as the three read commands do it.\<close>

definition write_file :: "'d host \<Rightarrow> string \<Rightarrow> bytes \<Rightarrow> 'd io \<Rightarrow> nat \<times> 'd io" where
  "write_file E path buf s =
     (if env_fopen_w E path then
        let wsize = env_fwrite E path buf; s1 = s\<lparr>io_files := io_files s @ [(path, take wsize buf)]\<rparr>
        in if wsize \<noteq> length buf then (1, printf (''Error writing to '' @ path) s1) else (0, s1)
      else (1, printf (''Error opening '' @ path @ '': '' @ env_strerror E) s))"

text \<open>\<open>ioutil_write_fw\<close>: the file read into a buffer of whole blocks, ...\<close>

definition write_fw_load :: "'d host \<Rightarrow> string \<Rightarrow> BtldrFlashInfo \<Rightarrow> 'd io \<Rightarrow> (nat \<times> bytes \<times> u32 \<times> 'd io) option" where
  "write_fw_load E path fi s =
     (case env_fopen_r E path of
        None \<Rightarrow> Some (1, [], 0, printf (''Error opening '' @ path @ '': '' @ env_strerror E) s)
      | Some fsize \<Rightarrow>
          if fi_data_blocksize fi = 0 then None
          else let nbs = unat (fi_data_blocksize fi); bsize = of_nat ((fsize + nbs - 1) div nbs * nbs) :: u32
          in if bsize > fi_data_size fi
             then Some (1, [], bsize, printf (''Firmware size 0x'' @ fmt_x 8 bsize @ '' is larger than data size 0x'' @ fmt_x 8 (fi_data_blocksize fi)) s)
             else if \<not> env_malloc E (unat bsize * 2) then Some (1, [], bsize, s)
             else let dat = env_fread E path fsize
             in if length dat \<noteq> fsize then Some (1, [], bsize, printf (''Error reading from '' @ path) s)
                else Some (0, put_at 0 dat (replicate (unat bsize) 0), bsize, s))"

text \<open>... written to the data flash and read back, ...\<close>

definition write_fw_flash :: "'d host \<Rightarrow> ioutil_opts \<Rightarrow> BtldrFlashInfo \<Rightarrow> bytes \<Rightarrow> u32 \<Rightarrow> 'd io \<Rightarrow> (nat \<times> 'd io) option" where
  "write_fw_flash E g fi buf bsize s =
     (case ioutil_rdwr_flash_block E g (fi_data_base fi) bsize (fi_data_blocksize fi) IOUTIL_DATA_FLASH (fi_data_write_time fi) buf False
        (printf ''Uploading firmware...'' s) of
        None \<Rightarrow> None
      | Some (wsize, _, s1) \<Rightarrow>
          if wsize \<noteq> bsize
          then Some (1, printf (''Error writing data: firmware size 0x'' @ fmt_x 8 bsize @ '', written 0x'' @ fmt_x 8 wsize) s1)
          else (case ioutil_rdwr_flash_block E g (fi_data_base fi) bsize (fi_data_blocksize fi) IOUTIL_DATA_FLASH (fi_data_read_time fi)
                  (replicate (unat bsize) 0) True (printf ''Verifying firmware...'' s1) of
                  None \<Rightarrow> None
                | Some (rsize, buf2, s2) \<Rightarrow>
                    if rsize \<noteq> bsize
                    then Some (1, printf (''Error reading data: firmware size 0x'' @ fmt_x 8 bsize @ '', read 0x'' @ fmt_x 8 rsize) s2)
                    else if buf \<noteq> buf2 then Some (1, printf ''Verify failed!'' s2) else Some (0, printf ''Verify passed!'' s2)))"

text \<open>... and described by the application information, which is read back too.\<close>

definition write_fw_info :: "'d host \<Rightarrow> ioutil_opts \<Rightarrow> BtldrAppInfo \<Rightarrow> bytes \<Rightarrow> u32 \<Rightarrow> 'd io \<Rightarrow> nat \<times> 'd io" where
  "write_fw_info E g ai buf bsize s =
     (let p = \<lparr>as_size = bsize, as_crc16 = crc16 IOMCU_CRC16_INIT buf, as_app_ver = write_fw_app_ver g,
               as_autoboot = ai_status ai AND APP_STATUS_AUTOBOOT_MASK\<rparr>;
          (ret, s1) = wr_btldr_app_info_set E g p (printf (show_app_info_set p) s)
      in if ret \<noteq> 0 then (ret, printf ''Error writing app info'' s1)
      else let (ret, ai', s2) = rd_btldr_app_info E g (printf ''Verifying app info...'' (ioutil_sleep (ai_app_info_set_time ai) s1))
           in if ret \<noteq> 0 \<or> ai_size ai' \<noteq> as_size p \<or> ai_crc16 ai' \<noteq> as_crc16 p \<or> ai_app_ver ai' \<noteq> as_app_ver p
                 \<or> ai_status ai' AND APP_STATUS_AUTOBOOT_MASK \<noteq> as_autoboot p AND APP_STATUS_AUTOBOOT_MASK
              then (1, printf ''Verify failed!'' s2) else (0, printf ''Verify passed!'' s2))"

definition ioutil_write_fw :: "'d host \<Rightarrow> ioutil_opts \<Rightarrow> 'd io \<Rightarrow> (nat \<times> 'd io) option" where
  "ioutil_write_fw E g s =
     (case ioutil_path g of None \<Rightarrow> None | Some path \<Rightarrow>
      let (ret1, fi, s1) = rd_btldr_flash_info E g s
      in if ret1 \<noteq> 0 then Some (1, s1) else
      let (ret2, ai, s2) = rd_btldr_app_info E g s1
      in if ret2 \<noteq> 0 then Some (1, s2) else
      (case write_fw_load E path fi s2 of None \<Rightarrow> None | Some (ret3, buf, bsize, s3) \<Rightarrow>
       if ret3 \<noteq> 0 then Some (ret3, s3) else
       (case write_fw_flash E g fi buf bsize s3 of None \<Rightarrow> None | Some (ret4, s4) \<Rightarrow>
        if ret4 \<noteq> 0 then Some (ret4, s4) else Some (write_fw_info E g ai buf bsize s4))))"

definition ioutil_read_fw :: "'d host \<Rightarrow> ioutil_opts \<Rightarrow> 'd io \<Rightarrow> (nat \<times> 'd io) option" where
  "ioutil_read_fw E g s =
     (case ioutil_path g of None \<Rightarrow> None | Some path \<Rightarrow>
      let (ret1, fi, s1) = rd_btldr_flash_info E g s
      in if ret1 \<noteq> 0 then Some (ret1, s1) else
      let (ret2, ai, s2) = rd_btldr_app_info E g s1
      in if ret2 \<noteq> 0 then Some (ret2, s2) else
      if fi_data_blocksize fi = 0 then None else
      let bs = ucast (fi_data_blocksize fi); sz0 = ai_size ai;
          (sz1, s3) = (if sz0 \<noteq> ROUND_UP_ADDR sz0 bs
            then (ROUND_UP_ADDR sz0 bs, printf (''Changing app size to 0x'' @ fmt_x 8 (ROUND_UP_ADDR sz0 bs))
                   (printf (''Warning app size 0x'' @ fmt_x 8 sz0 @ '' is not on a block boundary.'') s2))
            else (sz0, s2));
          (sz, s4) = (if sz1 > fi_data_size fi
            then (fi_data_size fi, printf (''Changing app size to 0x'' @ fmt_x 8 (fi_data_size fi))
                   (printf (''Warning app size 0x'' @ fmt_x 8 sz1 @ '' is larger than data size 0x'' @ fmt_x 8 (fi_data_size fi)) s3))
            else (sz1, s3))
      in if \<not> env_malloc E (unat sz) then Some (1, s4) else
      (case ioutil_rdwr_flash_block E g (fi_data_base fi) sz (fi_data_blocksize fi) IOUTIL_DATA_FLASH (fi_data_read_time fi)
          (replicate (unat sz) 0) True (printf ''Downloading firmware...'' s4) of
         None \<Rightarrow> None
       | Some (rsize, buf, s5) \<Rightarrow>
           if rsize \<noteq> sz
           then Some (1, printf (''Error reading data: firmware size 0x'' @ fmt_x 8 sz @ '', read 0x'' @ fmt_x 8 rsize) s5)
           else let crc = crc16 IOMCU_CRC16_INIT buf;
                    s6 = (if ai_crc16 ai \<noteq> crc
                          then printf (''Warning crc16 mismatch app_info: 0x'' @ fmt_x 4 (ai_crc16 ai) @ '' downloaded: 0x'' @ fmt_x 4 crc) s5 else s5)
                in Some (write_file E path buf s6)))"

text \<open>\<open>ioutil_read_data\<close> and \<open>ioutil_read_eeprom\<close>; the latter allocates a buffer of the size of
  the data flash and does not check the path.\<close>

definition ioutil_read_data :: "'d host \<Rightarrow> ioutil_opts \<Rightarrow> 'd io \<Rightarrow> (nat \<times> 'd io) option" where
  "ioutil_read_data E g s =
     (let (ret, fi, s1) = rd_btldr_flash_info E g s
      in case ioutil_path g of None \<Rightarrow> None | Some path \<Rightarrow>
      let err = (\<lambda>rsize. ''Error reading data: total size 0x'' @ fmt_x 8 (fi_data_size fi) @ '', read 0x'' @ fmt_x 8 (rsize :: u32))
      in if ret \<noteq> 0 then Some (ret, printf (err 0) s1)
      else if \<not> env_malloc E (unat (fi_data_size fi)) then Some (1, printf (err 0) s1)
      else (case ioutil_rdwr_flash_block E g (fi_data_base fi) (fi_data_size fi) (fi_data_blocksize fi) IOUTIL_DATA_FLASH
              (fi_data_read_time fi) (replicate (unat (fi_data_size fi)) 0) True (printf ''Downloading data flash...'' s1) of
              None \<Rightarrow> None
            | Some (rsize, buf, s2) \<Rightarrow>
                if rsize = fi_data_size fi then Some (write_file E path (take (unat rsize) buf) s2) else Some (1, printf (err rsize) s2)))"

definition ioutil_erase_data :: "'d host \<Rightarrow> ioutil_opts \<Rightarrow> 'd io \<Rightarrow> (nat \<times> 'd io) option" where
  "ioutil_erase_data E g s =
     (let (ret, fi, s1) = rd_btldr_flash_info E g s
      in if ret \<noteq> 0 then Some (ret, s1)
      else (case ioutil_erase_flash E g (fi_data_base fi) (fi_data_size fi) (fi_data_blocksize fi) IOUTIL_DATA_FLASH (fi_data_write_time fi)
              (printf ''Erasing data...'' s1) of
              None \<Rightarrow> None
            | Some (esize, s2) \<Rightarrow>
                if esize \<noteq> fi_data_size fi
                then Some (1, printf (''Error erasing data: total size 0x'' @ fmt_x 8 (fi_data_size fi) @ '', erased 0x'' @ fmt_x 8 esize) s2)
                else Some (0, s2)))"

definition ioutil_read_eeprom :: "'d host \<Rightarrow> ioutil_opts \<Rightarrow> 'd io \<Rightarrow> (nat \<times> 'd io) option" where
  "ioutil_read_eeprom E g s =
     (let (ret, fi, s1) = rd_btldr_flash_info E g s;
          err = (\<lambda>rsize. ''Error reading eeprom: total size 0x'' @ fmt_x 8 (fi_eeprom_size fi) @ '', read 0x'' @ fmt_x 8 (rsize :: u32))
      in if ret \<noteq> 0 then Some (ret, printf (err 0) s1)
      else if \<not> env_malloc E (unat (fi_data_size fi)) then Some (1, printf (err 0) s1)
      else (case ioutil_rdwr_flash_block E g (fi_eeprom_base fi) (fi_eeprom_size fi) (fi_eeprom_blocksize fi) IOUTIL_EEPROM_FLASH
              (fi_eeprom_read_time fi) (replicate (unat (fi_data_size fi)) 0) True (printf ''Downloading eeprom flash...'' s1) of
              None \<Rightarrow> None
            | Some (rsize, buf, s2) \<Rightarrow>
                if rsize = fi_eeprom_size fi then map_option (\<lambda>path. write_file E path (take (unat rsize) buf) s2) (ioutil_path g) else Some (1, printf (err rsize) s2)))"

definition ioutil_erase_eeprom :: "'d host \<Rightarrow> ioutil_opts \<Rightarrow> 'd io \<Rightarrow> (nat \<times> 'd io) option" where
  "ioutil_erase_eeprom E g s =
     (let (ret, fi, s1) = rd_btldr_flash_info E g s
      in if ret \<noteq> 0 then Some (ret, s1)
      else (case ioutil_erase_flash E g (fi_eeprom_base fi) (fi_eeprom_size fi) (fi_eeprom_blocksize fi) IOUTIL_DATA_FLASH (fi_eeprom_write_time fi)
              (printf ''Erasing eeprom...'' s1) of
              None \<Rightarrow> None
            | Some (esize, s2) \<Rightarrow>
                if esize \<noteq> fi_eeprom_size fi
                then Some (1, printf (''Error erasing eeprom: total size 0x'' @ fmt_x 8 (fi_eeprom_size fi) @ '', read 0x'' @ fmt_x 8 esize) s2)
                else Some (0, s2)))"

section \<open>Main\<close>

text \<open>The commands that need a bootloader; \<open>abort\<close> for those \<open>main\<close> handles before.\<close>

definition ioutil_dispatch :: "'d host \<Rightarrow> ioutil_opts \<Rightarrow> u8 \<Rightarrow> BtldrInfo \<Rightarrow> 'd io \<Rightarrow> (nat \<times> 'd io) option" where
  "ioutil_dispatch E g status info s = (case ioutil_cmd g of
     IOUTIL_CMD_WRITE_FW \<Rightarrow> ioutil_write_fw E g s
   | IOUTIL_CMD_READ_FW \<Rightarrow> ioutil_read_fw E g s
   | IOUTIL_CMD_READ_DATA \<Rightarrow> ioutil_read_data E g s
   | IOUTIL_CMD_ERASE_DATA \<Rightarrow> ioutil_erase_data E g s
   | IOUTIL_CMD_READ_EEPROM \<Rightarrow> ioutil_read_eeprom E g s
   | IOUTIL_CMD_ERASE_EEPROM \<Rightarrow> ioutil_erase_eeprom E g s
   | IOUTIL_CMD_INFO \<Rightarrow> ioutil_info E g status info s
   | IOUTIL_CMD_AUTOBOOT \<Rightarrow> Some (ioutil_set_autoboot E g s)
   | IOUTIL_CMD_STOP \<Rightarrow> Some (ioutil_stop E g s)
   | IOUTIL_CMD_START \<Rightarrow> Some (ioutil_start E g s)
   | _ \<Rightarrow> None)"

definition ioutil_run :: "'d host \<Rightarrow> ioutil_opts \<Rightarrow> 'd io \<Rightarrow> (nat \<times> 'd io) option" where
  "ioutil_run E g s =
     (if ioutil_cmd g = IOUTIL_CMD_STOP then Some (ioutil_stop E g s)
      else if ioutil_cmd g = IOUTIL_CMD_START then Some (ioutil_start E g s)
      else if ioutil_cmd g = IOUTIL_CMD_STATUS then Some (ioutil_status E g s)
      else let (ret1, status, s1) = rd_btldr_status E g s;
               (ret, info, s2) = (if ret1 \<noteq> 0 then (ret1, dec_btldr_info (replicate 8 0), s1) else rd_btldr_info E g s1)
           in if ret \<noteq> 0 then Some (ret, printf ''Could not detect bootloader'' s2)
              else if bi_proto_ver info > I2C_BTLDR_INFO_PROTO_VERSION
              then Some (1, printf (''Unsupported protocol version: 0x'' @ fmt_x 4 (bi_proto_ver info) @ '' > 0x''
                     @ fmt_x 4 I2C_BTLDR_INFO_PROTO_VERSION) s2)
              else ioutil_dispatch E g status info s2)"

fun cmd_number :: "ioutil_cmd \<Rightarrow> nat" where
  "cmd_number IOUTIL_CMD_NONE = 0" | "cmd_number IOUTIL_CMD_WRITE_FW = 1" | "cmd_number IOUTIL_CMD_READ_FW = 2"
| "cmd_number IOUTIL_CMD_READ_DATA = 3" | "cmd_number IOUTIL_CMD_ERASE_DATA = 4" | "cmd_number IOUTIL_CMD_READ_EEPROM = 5"
| "cmd_number IOUTIL_CMD_ERASE_EEPROM = 6" | "cmd_number IOUTIL_CMD_STATUS = 7" | "cmd_number IOUTIL_CMD_INFO = 8"
| "cmd_number IOUTIL_CMD_AUTOBOOT = 9" | "cmd_number IOUTIL_CMD_STOP = 10" | "cmd_number IOUTIL_CMD_START = 11"

definition ioutil_main :: "'d host \<Rightarrow> string list \<Rightarrow> 'd io \<Rightarrow> (nat \<times> 'd io) option" where
  "ioutil_main E args s = (case process_cmd_args (env_malloc E) args of
     Inl (EXIT status) \<Rightarrow> Some (status, s)
   | Inl ABORT \<Rightarrow> None
   | Inr g \<Rightarrow> map_option (\<lambda>(ret, s'). (ret, printf ((if ret \<noteq> 0 then ''Error'' else ''Success'') @ '': command ''
         @ digits 10 (cmd_number (ioutil_cmd g)) @ '' returned code '' @ digits 10 ret) s')) (ioutil_run E g s))"

end
