(* ===== verification/Ioutil_Link.thy ===== *)
theory Ioutil_Link
  imports Ioutil_Tool
begin

text \<open>
  The host tool over the bus to the bootloader. \<open>btldr_link\<close> is what the tool relies on: block
  writes and reads, rejected addresses, and the information registers, each as the register
  transfers the tool makes. The interpretation at the end discharges it for the model of the
  bootloader, driven event by event.
\<close>

section \<open>Register transfers that succeed\<close>

definition link_write :: "'d host \<Rightarrow> u32 \<Rightarrow> u8 \<Rightarrow> u8 \<Rightarrow> bytes \<Rightarrow> 'd \<Rightarrow> 'd \<Rightarrow> bool" where
  "link_write E bus addr reg dat d d' \<longleftrightarrow> i2c_reg_write E bus addr reg (dat @ [i2c_message_checksum dat reg]) d = (RW_ACK, d')"

definition link_read :: "'d host \<Rightarrow> u32 \<Rightarrow> u8 \<Rightarrow> u8 \<Rightarrow> bytes \<Rightarrow> 'd \<Rightarrow> 'd \<Rightarrow> bool" where
  "link_read E bus addr reg dat d d' \<longleftrightarrow>
     i2c_reg_read E bus addr reg (length dat + 1) d = (RW_ACK, dat @ [i2c_message_checksum dat reg], d')"

lemma reg_write_link:
  "env_malloc E (length dat + 1) \<Longrightarrow> link_write E (i2c_bus g) addr reg dat (io_dev s) d' \<Longrightarrow>
   ioutil_reg_write E g addr reg dat s = (0, s\<lparr>io_dev := d'\<rparr>)"
  by (simp add: ioutil_reg_write_def link_write_def)

lemma reg_read_link:
  "env_malloc E (n + 1) \<Longrightarrow> link_read E (i2c_bus g) addr reg dat (io_dev s) d' \<Longrightarrow> length dat = n \<Longrightarrow>
   ioutil_reg_read E g addr reg n s = (0, dat, s\<lparr>io_dev := d'\<rparr>)"
  by (auto simp: ioutil_reg_read_def link_read_def Let_def)

section \<open>Bytes in flash\<close>

definition flash_put :: "flash_mem \<Rightarrow> nat \<Rightarrow> bytes \<Rightarrow> flash_mem" where
  "flash_put m a bs = (\<lambda>x. if a \<le> unat x \<and> unat x < a + length bs then bs ! (unat x - a) else m x)"

definition flash_get :: "flash_mem \<Rightarrow> nat \<Rightarrow> nat \<Rightarrow> bytes" where
  "flash_get m a n = map (\<lambda>i. m (of_nat (a + i))) [0..<n]"

lemma length_flash_get [simp]: "length (flash_get m a n) = n"
  by (simp add: flash_get_def)

lemma flash_put_nil [simp]: "flash_put m a [] = m"
  by (rule ext) (auto simp: flash_put_def)

lemma flash_put_append: "flash_put (flash_put m a xs) (a + length xs) ys = flash_put m a (xs @ ys)"
  by (rule ext) (auto simp: flash_put_def nth_append)

lemma flash_get_append: "flash_get m a (n + k) = flash_get m a n @ flash_get m (a + n) k"
  by (rule nth_equalityI) (auto simp: flash_get_def nth_append)

lemma flash_get_put:
  assumes "a + length bs \<le> 0x10000"
  shows "flash_get (flash_put m a bs) a (length bs) = bs"
proof (rule nth_equalityI)
  fix i assume "i < length (flash_get (flash_put m a bs) a (length bs))"
  then have "unat (of_nat (a + i) :: u16) = a + i" "i < length bs" using assms by (simp_all add: unat_of_nat del: of_nat_add)
  then show "flash_get (flash_put m a bs) a (length bs) ! i = bs ! i" by (simp add: flash_get_def flash_put_def del: of_nat_add)
qed simp

lemma mem_with_block_put:
  assumes "unat a + FLASH_BLOCK_SIZE \<le> 0x10000" "length blk = FLASH_BLOCK_SIZE"
  shows "mem_with_block m a blk = flash_put m (unat a) blk"
proof
  fix x :: u16
  have ua: "unat (ucast a :: u16) = unat a" using assms(1) by (simp add: unsigned_ucast_eq take_bit_eq_mod)
  have ux: "unat x < 0x10000" using unsigned_less [of x, where ?'a = nat] by simp
  have "in_block (ucast a) x \<longleftrightarrow> unat a \<le> unat x \<and> unat x < unat a + FLASH_BLOCK_SIZE"
  proof (cases "unat a \<le> unat x")
    case True
    then have "unat (x - ucast a) = unat x - unat a" using ua by (simp add: unat_sub word_le_nat_alt)
    then show ?thesis using True by (auto simp: in_block_def word_less_nat_alt)
  next
    case False
    then have "unat (x - ucast a) = 0x10000 + unat x - unat a" using ua ux by (simp add: unat_sub_if' word_le_nat_alt)
    then show ?thesis using False assms(1) by (auto simp: in_block_def word_less_nat_alt)
  qed
  moreover have "unat (x - ucast a) = unat x - unat a" if "unat a \<le> unat x"
    using that ua by (simp add: unat_sub word_le_nat_alt)
  ultimately show "mem_with_block m a blk x = flash_put m (unat a) blk x"
    using assms(2) by (auto simp: mem_with_block_def flash_put_def)
qed

lemma read_block_get:
  fixes a :: u32
  assumes "unat a + FLASH_BLOCK_SIZE \<le> 0x10000"
  shows "read_block m (ucast a) = flash_get m (unat a) FLASH_BLOCK_SIZE"
proof -
  have "ucast a = (of_nat (unat a) :: u16)" by simp
  then show ?thesis by (simp add: read_block_def flash_get_def)
qed

lemma put_at_put_at:
  "length xs = n \<Longrightarrow> pos + n \<le> length buf \<Longrightarrow> put_at (pos + n) ys (put_at pos xs buf) = put_at pos (xs @ ys) buf"
  by (simp add: put_at_def add.commute add.left_commute)

lemma unat_small: "n \<le> 0x10000 \<Longrightarrow> unat (of_nat n :: u32) = n"
  by (simp add: unat_of_nat)

lemma blocks_nz: "Suc k * FLASH_BLOCK_SIZE \<le> 0x10000 \<Longrightarrow> of_nat (Suc k * FLASH_BLOCK_SIZE) \<noteq> (0 :: u32)"
  using unat_small [of "Suc k * FLASH_BLOCK_SIZE"] by (metis mult_is_0 nat.simps(3) unsigned_0 zero_neq_numeral)

lemma blocks_step:
  "of_nat (Suc k * FLASH_BLOCK_SIZE) - 0x80 = (of_nat (k * FLASH_BLOCK_SIZE) :: u32)"
  "of_nat b + 0x80 = (of_nat (b + FLASH_BLOCK_SIZE) :: u32)"
  by simp_all

lemma blocks_shift:
  assumes "\<forall>i<Suc k. P (of_nat (b + i * FLASH_BLOCK_SIZE) :: u32)"
  shows "P (of_nat b)" "\<forall>i<k. P (of_nat (b + FLASH_BLOCK_SIZE + i * FLASH_BLOCK_SIZE))"
proof -
  have "P (of_nat (b + 0 * FLASH_BLOCK_SIZE))" using assms by blast
  then show "P (of_nat b)" by simp
  show "\<forall>i<k. P (of_nat (b + FLASH_BLOCK_SIZE + i * FLASH_BLOCK_SIZE))"
  proof (intro allI impI)
    fix i assume "i < k"
    then have "P (of_nat (b + Suc i * FLASH_BLOCK_SIZE))" using assms by blast
    then show "P (of_nat (b + FLASH_BLOCK_SIZE + i * FLASH_BLOCK_SIZE))" by (simp add: algebra_simps)
  qed
qed

lemma round_up_blocks:
  assumes "k * FLASH_BLOCK_SIZE \<le> 0x10000"
  shows "ROUND_UP_ADDR (of_nat (k * FLASH_BLOCK_SIZE)) 0x80 = of_nat (k * FLASH_BLOCK_SIZE)"
proof -
  define n where "n = k * FLASH_BLOCK_SIZE"
  have n: "unat (of_nat n :: u32) = n" using assms unat_small n_def by blast
  have "unat (of_nat n + 0x7f :: u32) = n + 0x7f" using assms n by (simp add: unat_word_ariths n_def)
  moreover have "of_nat n + 0x80 - 1 = (of_nat n + 0x7f :: u32)" by simp
  ultimately have "unat ((of_nat n + 0x80 - 1) div 0x80 :: u32) = (n + 0x7f) div 0x80" by (simp only: unat_div) simp
  then have "unat ((of_nat n + 0x80 - 1) div 0x80 :: u32) = k" by (simp add: n_def del: of_nat_mult)
  then have "unat (ROUND_UP_ADDR (of_nat n) 0x80) = n" using assms by (simp add: ROUND_UP_ADDR_def unat_word_ariths n_def)
  then show ?thesis using n unfolding n_def by (metis word_unat_eq_iff)
qed

section \<open>What the tool relies on\<close>

fun region_of :: "flash_type \<Rightarrow> flash_region" where
  "region_of IOUTIL_EEPROM_FLASH = REGION_EEPROM"
| "region_of IOUTIL_DATA_FLASH = REGION_DATA"

locale btldr_link =
  fixes E :: "'d host" and g :: ioutil_opts and serving :: "'d \<Rightarrow> bool" and flash :: "'d \<Rightarrow> flash_mem" and app_info :: "'d \<Rightarrow> BtldrAppInfo"
  assumes mem_ok: "env_malloc E n"
    and rd_status: "serving d \<Longrightarrow> \<exists>d' st. link_read E (i2c_bus g) (btldr_addr g) I2C_BTLDR_REG_STATUS [st] d d'
      \<and> serving d' \<and> flash d' = flash d \<and> app_info d' = app_info d"
    and rd_info: "serving d \<Longrightarrow> \<exists>d'. link_read E (i2c_bus g) (btldr_addr g) I2C_BTLDR_REG_BTLDR_INFO
        (enc_btldr_info I2C_BTLDR_INFO_SLAVE_ENDIAN I2C_BTLDR_INFO_PROTO_VERSION BTLDR_VERSION) d d'
      \<and> serving d' \<and> flash d' = flash d \<and> app_info d' = app_info d"
    and rd_flash_info: "serving d \<Longrightarrow> \<exists>d'. link_read E (i2c_bus g) (btldr_addr g) I2C_BTLDR_REG_FLASH_INFO (enc_flash_info btldr_flash_info) d d'
      \<and> serving d' \<and> flash d' = flash d \<and> app_info d' = app_info d"
    and rd_app_info: "serving d \<Longrightarrow> \<exists>d'. link_read E (i2c_bus g) (btldr_addr g) I2C_BTLDR_REG_APP_INFO (enc_app_info (app_info d)) d d'
      \<and> serving d' \<and> flash d' = flash d \<and> app_info d' = app_info d"
    and wr_app_info: "serving d \<Longrightarrow> \<exists>d'. link_write E (i2c_bus g) (btldr_addr g) I2C_BTLDR_REG_APP_INFO_SET (enc_app_info_set p) d d'
      \<and> serving d' \<and> flash d' = mem_with_block (flash d) 0x1000 (header_block p)
      \<and> ai_size (app_info d') = as_size p \<and> ai_crc16 (app_info d') = as_crc16 p \<and> ai_app_ver (app_info d') = as_app_ver p
      \<and> ai_status (app_info d') AND APP_STATUS_AUTOBOOT_MASK = as_autoboot p AND APP_STATUS_AUTOBOOT_MASK"
    and wr_block: "serving d \<Longrightarrow> region_addr r a \<Longrightarrow> length blk = FLASH_BLOCK_SIZE \<Longrightarrow>
      \<exists>d1 d2 d3 d4. link_write E (i2c_bus g) (btldr_addr g) (reg_write_addr r) (be32 a) d d1
        \<and> link_read E (i2c_bus g) (btldr_addr g) I2C_BTLDR_REG_STATUS [I2C_BTLDR_STATE_OK] d1 d2
        \<and> link_write E (i2c_bus g) (btldr_addr g) (reg_write_data r) blk d2 d3
        \<and> link_read E (i2c_bus g) (btldr_addr g) I2C_BTLDR_REG_STATUS [I2C_BTLDR_STATE_OK] d3 d4
        \<and> serving d4 \<and> flash d4 = mem_with_block (flash d) a blk"
    and rd_block: "serving d \<Longrightarrow> region_addr r a \<Longrightarrow>
      \<exists>d1 d2 d3. link_write E (i2c_bus g) (btldr_addr g) (reg_read_addr r) (be32 a) d d1
        \<and> link_read E (i2c_bus g) (btldr_addr g) I2C_BTLDR_REG_STATUS [I2C_BTLDR_STATE_OK] d1 d2
        \<and> link_read E (i2c_bus g) (btldr_addr g) (reg_read_data r) (read_block (flash d) (ucast a)) d2 d3
        \<and> serving d3 \<and> flash d3 = flash d \<and> app_info d3 = app_info d"
    and bad_addr: "serving d \<Longrightarrow> \<not> region_addr r a \<Longrightarrow>
      \<exists>d1 d2. link_write E (i2c_bus g) (btldr_addr g) (reg_write_addr r) (be32 a) d d1
        \<and> link_read E (i2c_bus g) (btldr_addr g) I2C_BTLDR_REG_STATUS [I2C_BTLDR_STATE_INVALID_ADDR] d1 d2
        \<and> serving d2 \<and> flash d2 = flash d"
begin

text \<open>A state of the tool whose device serves commands, and that has written no file since \<open>s\<close>.\<close>

definition goes :: "'d io \<Rightarrow> 'd io \<Rightarrow> bool" where
  "goes s s' \<longleftrightarrow> serving (io_dev s') \<and> io_files s' = io_files s"

lemma printf_fields [simp]: "io_dev (printf l s) = io_dev s" "io_files (printf l s) = io_files s"
  by (simp_all add: printf_def)

lemma sleep_fields [simp]: "io_dev (ioutil_sleep t s) = io_dev s" "io_files (ioutil_sleep t s) = io_files s"
  by (simp_all add: ioutil_sleep_def Let_def)

lemma write_flash_ok:
  assumes "serving (io_dev s)" "region_addr (region_of ft) a" "length blk = FLASH_BLOCK_SIZE"
  shows "\<exists>s'. ioutil_write_flash E g a blk ft delay s = (0, s') \<and> goes s s'
    \<and> flash (io_dev s') = mem_with_block (flash (io_dev s)) a blk"
proof -
  obtain d1 d2 d3 d4 where d: "link_write E (i2c_bus g) (btldr_addr g) (reg_write_addr (region_of ft)) (be32 a) (io_dev s) d1"
      "link_read E (i2c_bus g) (btldr_addr g) I2C_BTLDR_REG_STATUS [I2C_BTLDR_STATE_OK] d1 d2"
      "link_write E (i2c_bus g) (btldr_addr g) (reg_write_data (region_of ft)) blk d2 d3"
      "link_read E (i2c_bus g) (btldr_addr g) I2C_BTLDR_REG_STATUS [I2C_BTLDR_STATE_OK] d3 d4"
      "serving d4" "flash d4 = mem_with_block (flash (io_dev s)) a blk"
    using wr_block [OF assms] by blast
  define s1 where "s1 = s\<lparr>io_dev := d1\<rparr>"
  define s2 where "s2 = s1\<lparr>io_dev := d2\<rparr>"
  define s3 where "s3 = s2\<lparr>io_dev := d3\<rparr>"
  define s4 where "s4 = (ioutil_sleep delay s3)\<lparr>io_dev := d4\<rparr>"
  have 1: "wr_btldr_flash_addr E g a (reg_write_addr (region_of ft)) s = (0, s1)"
    unfolding wr_btldr_flash_addr_def s1_def by (rule reg_write_link [OF mem_ok d(1)])
  have 2: "rd_btldr_status E g s1 = (0, I2C_BTLDR_STATE_OK, s2)"
    unfolding rd_btldr_status_def s2_def using reg_read_link [OF mem_ok, of g "btldr_addr g" I2C_BTLDR_REG_STATUS "[0]" s1 d2 1] d(2) by (simp add: s1_def)
  have 3: "ioutil_reg_write E g (btldr_addr g) (reg_write_data (region_of ft)) blk s2 = (0, s3)"
    unfolding s3_def using d(3) by (intro reg_write_link mem_ok) (simp add: s2_def)
  have 4: "rd_btldr_status E g (ioutil_sleep delay s3) = (0, I2C_BTLDR_STATE_OK, s4)"
    unfolding rd_btldr_status_def s4_def
    using reg_read_link [OF mem_ok, of g "btldr_addr g" I2C_BTLDR_REG_STATUS "[0]" "ioutil_sleep delay s3" d4 1] d(4) by (simp add: s3_def)
  have r: "(if ft = IOUTIL_EEPROM_FLASH then I2C_BTLDR_REG_EEPROM_WRITE_ADDR else I2C_BTLDR_REG_DATA_WRITE_ADDR) = reg_write_addr (region_of ft)"
    "(if ft = IOUTIL_EEPROM_FLASH then I2C_BTLDR_REG_EEPROM_WRITE else I2C_BTLDR_REG_DATA_WRITE) = reg_write_data (region_of ft)"
    by (cases ft; simp)+
  have "ioutil_write_flash E g a blk ft delay s = (0, s4)"
    unfolding ioutil_write_flash_def r Let_def by (simp add: 1 2 3 4)
  then show ?thesis using d(5,6) by (simp add: goes_def s4_def s3_def s2_def s1_def)
qed

lemma read_flash_ok:
  assumes "serving (io_dev s)" "region_addr (region_of ft) a"
  shows "\<exists>s'. ioutil_read_flash E g a FLASH_BLOCK_SIZE ft delay s = (0, read_block (flash (io_dev s)) (ucast a), s') \<and> goes s s'
    \<and> flash (io_dev s') = flash (io_dev s) \<and> app_info (io_dev s') = app_info (io_dev s)"
proof -
  obtain d1 d2 d3 where d: "link_write E (i2c_bus g) (btldr_addr g) (reg_read_addr (region_of ft)) (be32 a) (io_dev s) d1"
      "link_read E (i2c_bus g) (btldr_addr g) I2C_BTLDR_REG_STATUS [I2C_BTLDR_STATE_OK] d1 d2"
      "link_read E (i2c_bus g) (btldr_addr g) (reg_read_data (region_of ft)) (read_block (flash (io_dev s)) (ucast a)) d2 d3"
      "serving d3" "flash d3 = flash (io_dev s)" "app_info d3 = app_info (io_dev s)"
    using rd_block [OF assms] by blast
  define s1 where "s1 = s\<lparr>io_dev := d1\<rparr>"
  define s2 where "s2 = s1\<lparr>io_dev := d2\<rparr>"
  define s3 where "s3 = (ioutil_sleep delay s2)\<lparr>io_dev := d3\<rparr>"
  have 1: "wr_btldr_flash_addr E g a (reg_read_addr (region_of ft)) s = (0, s1)"
    unfolding wr_btldr_flash_addr_def s1_def by (rule reg_write_link [OF mem_ok d(1)])
  have 2: "rd_btldr_status E g s1 = (0, I2C_BTLDR_STATE_OK, s2)"
    unfolding rd_btldr_status_def s2_def using reg_read_link [OF mem_ok, of g "btldr_addr g" I2C_BTLDR_REG_STATUS "[0]" s1 d2 1] d(2) by (simp add: s1_def)
  have 3: "ioutil_reg_read E g (btldr_addr g) (reg_read_data (region_of ft)) FLASH_BLOCK_SIZE (ioutil_sleep delay s2)
      = (0, read_block (flash (io_dev s)) (ucast a), s3)"
    unfolding s3_def using d(3) by (intro reg_read_link mem_ok) (simp_all add: s2_def)
  have r: "(if ft = IOUTIL_EEPROM_FLASH then I2C_BTLDR_REG_EEPROM_READ_ADDR else I2C_BTLDR_REG_DATA_READ_ADDR) = reg_read_addr (region_of ft)"
    "(if ft = IOUTIL_EEPROM_FLASH then I2C_BTLDR_REG_EEPROM_READ else I2C_BTLDR_REG_DATA_READ) = reg_read_data (region_of ft)"
    by (cases ft; simp)+
  have "ioutil_read_flash E g a FLASH_BLOCK_SIZE ft delay s = (0, read_block (flash (io_dev s)) (ucast a), s3)"
    unfolding ioutil_read_flash_def r Let_def by (simp add: 1 2) (simp add: 3)
  then show ?thesis using d(4-6) by (simp add: goes_def s3_def s2_def s1_def)
qed

lemma write_flash_bad:
  assumes "serving (io_dev s)" "\<not> region_addr (region_of ft) a"
  shows "\<exists>s'. ioutil_write_flash E g a blk ft delay s = (1, s') \<and> goes s s' \<and> flash (io_dev s') = flash (io_dev s)"
proof -
  obtain d1 d2 where d: "link_write E (i2c_bus g) (btldr_addr g) (reg_write_addr (region_of ft)) (be32 a) (io_dev s) d1"
      "link_read E (i2c_bus g) (btldr_addr g) I2C_BTLDR_REG_STATUS [I2C_BTLDR_STATE_INVALID_ADDR] d1 d2"
      "serving d2" "flash d2 = flash (io_dev s)"
    using bad_addr [OF assms] by blast
  define s1 where "s1 = s\<lparr>io_dev := d1\<rparr>"
  have 1: "wr_btldr_flash_addr E g a (reg_write_addr (region_of ft)) s = (0, s1)"
    unfolding wr_btldr_flash_addr_def s1_def by (rule reg_write_link [OF mem_ok d(1)])
  have 2: "rd_btldr_status E g s1 = (0, I2C_BTLDR_STATE_INVALID_ADDR, s1\<lparr>io_dev := d2\<rparr>)"
    unfolding rd_btldr_status_def using reg_read_link [OF mem_ok, of g "btldr_addr g" I2C_BTLDR_REG_STATUS "[7]" s1 d2 1] d(2) by (simp add: s1_def)
  have r: "(if ft = IOUTIL_EEPROM_FLASH then I2C_BTLDR_REG_EEPROM_WRITE_ADDR else I2C_BTLDR_REG_DATA_WRITE_ADDR) = reg_write_addr (region_of ft)"
    by (cases ft; simp)
  have "\<exists>l. ioutil_write_flash E g a blk ft delay s = (1, printf l (s1\<lparr>io_dev := d2\<rparr>))"
    unfolding ioutil_write_flash_def r Let_def by (simp add: 1 2) blast
  then show ?thesis using d(3,4) by (auto simp: goes_def s1_def)
qed

text \<open>The block loop, with \<open>k\<close> blocks to go.\<close>

lemma loop_write:
  assumes "serving (io_dev s)" "k \<le> n" "b + k * FLASH_BLOCK_SIZE \<le> 0x10000" "pos + k * FLASH_BLOCK_SIZE \<le> length buf"
    "\<forall>i<k. region_addr (region_of ft) (of_nat (b + i * FLASH_BLOCK_SIZE))"
  shows "\<exists>s'. rdwr_loop n E g (of_nat b) pos (of_nat (k * FLASH_BLOCK_SIZE)) 0x80 ft delay False buf s = Some (0, buf, s') \<and> goes s s'
    \<and> flash (io_dev s') = flash_put (flash (io_dev s)) b (get_at pos (k * FLASH_BLOCK_SIZE) buf)"
  using assms
proof (induction k arbitrary: n b pos s)
  case 0
  then show ?case by (cases n) (simp_all add: goes_def get_at_def)
next
  case (Suc k)
  obtain m where n: "n = Suc m" using Suc.prems(2) by (cases n) auto
  let ?blk = "get_at pos FLASH_BLOCK_SIZE buf"
  have ra: "region_addr (region_of ft) (of_nat b)" by (rule blocks_shift(1) [OF Suc.prems(5)])
  have len: "length ?blk = FLASH_BLOCK_SIZE" using Suc.prems(4) by simp
  obtain s1 where s1: "ioutil_write_flash E g (of_nat b) ?blk ft delay s = (0, s1)" "goes s s1"
    "flash (io_dev s1) = mem_with_block (flash (io_dev s)) (of_nat b) ?blk"
    using write_flash_ok [OF Suc.prems(1) ra len] by blast
  have ub: "unat (of_nat b :: u32) = b" using Suc.prems(3) by (intro unat_small) simp
  have f1: "flash (io_dev s1) = flash_put (flash (io_dev s)) b ?blk"
    unfolding s1(3) using mem_with_block_put [of "of_nat b" ?blk] ub Suc.prems(3) len by simp
  note nxt = blocks_shift(2) [OF Suc.prems(5)]
  obtain s' where s': "rdwr_loop m E g (of_nat (b + FLASH_BLOCK_SIZE)) (pos + FLASH_BLOCK_SIZE) (of_nat (k * FLASH_BLOCK_SIZE)) 0x80 ft delay False buf s1
      = Some (0, buf, s')" "goes s1 s'"
    "flash (io_dev s') = flash_put (flash (io_dev s1)) (b + FLASH_BLOCK_SIZE) (get_at (pos + FLASH_BLOCK_SIZE) (k * FLASH_BLOCK_SIZE) buf)"
    using Suc.IH [of s1 m "b + FLASH_BLOCK_SIZE" "pos + FLASH_BLOCK_SIZE"] s1(2) Suc.prems n nxt by (auto simp: goes_def)
  have nz: "of_nat (Suc k * FLASH_BLOCK_SIZE) \<noteq> (0 :: u32)" using Suc.prems(3) by (intro blocks_nz) simp
  have "rdwr_loop n E g (of_nat b) pos (of_nat (Suc k * FLASH_BLOCK_SIZE)) 0x80 ft delay False buf s = Some (0, buf, s')"
    unfolding n rdwr_loop.simps blocks_step using nz s1(1) s'(1) by simp
  moreover have "get_at pos (Suc k * FLASH_BLOCK_SIZE) buf = ?blk @ get_at (pos + FLASH_BLOCK_SIZE) (k * FLASH_BLOCK_SIZE) buf"
    by (simp add: get_at_def take_add add.commute)
  then have "flash (io_dev s') = flash_put (flash (io_dev s)) b (get_at pos (Suc k * FLASH_BLOCK_SIZE) buf)"
    unfolding s'(3) f1 using flash_put_append [of "flash (io_dev s)" b ?blk] len by simp
  ultimately show ?case using s1(2) s'(2) by (auto simp: goes_def)
qed

lemma loop_read:
  assumes "serving (io_dev s)" "k \<le> n" "b + k * FLASH_BLOCK_SIZE \<le> 0x10000" "pos + k * FLASH_BLOCK_SIZE \<le> length buf"
    "\<forall>i<k. region_addr (region_of ft) (of_nat (b + i * FLASH_BLOCK_SIZE))"
  shows "\<exists>s'. rdwr_loop n E g (of_nat b) pos (of_nat (k * FLASH_BLOCK_SIZE)) 0x80 ft delay True buf s
      = Some (0, put_at pos (flash_get (flash (io_dev s)) b (k * FLASH_BLOCK_SIZE)) buf, s') \<and> goes s s'
    \<and> flash (io_dev s') = flash (io_dev s) \<and> app_info (io_dev s') = app_info (io_dev s)"
  using assms
proof (induction k arbitrary: n b pos s buf)
  case 0
  then show ?case by (cases n) (simp_all add: goes_def put_at_def flash_get_def)
next
  case (Suc k)
  obtain m where n: "n = Suc m" using Suc.prems(2) by (cases n) auto
  let ?fl = "flash (io_dev s)"
  have ra: "region_addr (region_of ft) (of_nat b)" by (rule blocks_shift(1) [OF Suc.prems(5)])
  have ub: "unat (of_nat b :: u32) = b" using Suc.prems(3) by (intro unat_small) simp
  have blk: "read_block ?fl (ucast (of_nat b :: u32)) = flash_get ?fl b FLASH_BLOCK_SIZE"
    using read_block_get [of "of_nat b" ?fl] Suc.prems(3) unfolding ub by simp
  obtain s1 where s1: "ioutil_read_flash E g (of_nat b) FLASH_BLOCK_SIZE ft delay s = (0, flash_get ?fl b FLASH_BLOCK_SIZE, s1)" "goes s s1"
    "flash (io_dev s1) = ?fl" "app_info (io_dev s1) = app_info (io_dev s)"
    using read_flash_ok [OF Suc.prems(1) ra, of delay] unfolding blk by blast
  let ?buf = "put_at pos (flash_get ?fl b FLASH_BLOCK_SIZE) buf"
  note nxt = blocks_shift(2) [OF Suc.prems(5)]
  obtain s' where s': "rdwr_loop m E g (of_nat (b + FLASH_BLOCK_SIZE)) (pos + FLASH_BLOCK_SIZE) (of_nat (k * FLASH_BLOCK_SIZE)) 0x80 ft delay True ?buf s1
      = Some (0, put_at (pos + FLASH_BLOCK_SIZE) (flash_get ?fl (b + FLASH_BLOCK_SIZE) (k * FLASH_BLOCK_SIZE)) ?buf, s')" "goes s1 s'"
    "flash (io_dev s') = ?fl" "app_info (io_dev s') = app_info (io_dev s)"
    using Suc.IH [of s1 m "b + FLASH_BLOCK_SIZE" "pos + FLASH_BLOCK_SIZE" ?buf] s1 Suc.prems n nxt by (auto simp: goes_def)
  have nz: "of_nat (Suc k * FLASH_BLOCK_SIZE) \<noteq> (0 :: u32)" using Suc.prems(3) by (intro blocks_nz) simp
  have put: "put_at (pos + FLASH_BLOCK_SIZE) (flash_get ?fl (b + FLASH_BLOCK_SIZE) (k * FLASH_BLOCK_SIZE)) ?buf
      = put_at pos (flash_get ?fl b (Suc k * FLASH_BLOCK_SIZE)) buf"
    using flash_get_append [of ?fl b FLASH_BLOCK_SIZE "k * FLASH_BLOCK_SIZE"] Suc.prems(4)
      put_at_put_at [of "flash_get ?fl b FLASH_BLOCK_SIZE" FLASH_BLOCK_SIZE pos buf] by simp
  have "rdwr_loop n E g (of_nat b) pos (of_nat (Suc k * FLASH_BLOCK_SIZE)) 0x80 ft delay True buf s
      = Some (0, put_at pos (flash_get ?fl b (Suc k * FLASH_BLOCK_SIZE)) buf, s')"
    unfolding n rdwr_loop.simps blocks_step using nz s1(1) s'(1) put by simp
  then show ?case using s1(2) s'(2-4) by (auto simp: goes_def)
qed

lemma rdwr_write:
  assumes "serving (io_dev s)" "(j + k) * FLASH_BLOCK_SIZE \<le> 0x10000" "length buf = k * FLASH_BLOCK_SIZE"
    "\<forall>i<k. region_addr (region_of ft) (of_nat (j * FLASH_BLOCK_SIZE + i * FLASH_BLOCK_SIZE))"
  shows "\<exists>s'. ioutil_rdwr_flash_block E g (of_nat (j * FLASH_BLOCK_SIZE)) (of_nat (k * FLASH_BLOCK_SIZE)) 0x80 ft delay buf False s
      = Some (of_nat (k * FLASH_BLOCK_SIZE), buf, s') \<and> goes s s'
    \<and> flash (io_dev s') = flash_put (flash (io_dev s)) (j * FLASH_BLOCK_SIZE) buf"
proof -
  have fuel: "k \<le> unat (of_nat (k * FLASH_BLOCK_SIZE) :: u32)" using unat_small [of "k * FLASH_BLOCK_SIZE"] assms(2) by simp
  have "j * FLASH_BLOCK_SIZE + k * FLASH_BLOCK_SIZE \<le> 0x10000" using assms(2) by simp
  from loop_write [OF assms(1) fuel this, of 0 buf ft delay] assms(3,4)
  obtain s' where "rdwr_loop (unat (of_nat (k * FLASH_BLOCK_SIZE) :: u32)) E g (of_nat (j * FLASH_BLOCK_SIZE)) 0 (of_nat (k * FLASH_BLOCK_SIZE)) 0x80 ft delay False buf s
      = Some (0, buf, s')" "goes s s'" "flash (io_dev s') = flash_put (flash (io_dev s)) (j * FLASH_BLOCK_SIZE) buf"
    by (auto simp: get_at_def)
  moreover have "ROUND_UP_ADDR (of_nat (j * FLASH_BLOCK_SIZE)) 0x80 = of_nat (j * FLASH_BLOCK_SIZE)"
    "ROUND_UP_ADDR (of_nat (k * FLASH_BLOCK_SIZE)) 0x80 = of_nat (k * FLASH_BLOCK_SIZE)"
    using assms(2) by (intro round_up_blocks; simp)+
  ultimately show ?thesis unfolding ioutil_rdwr_flash_block_def Let_def by (simp del: of_nat_mult)
qed

lemma rdwr_read:
  assumes "serving (io_dev s)" "(j + k) * FLASH_BLOCK_SIZE \<le> 0x10000" "k * FLASH_BLOCK_SIZE \<le> length buf"
    "\<forall>i<k. region_addr (region_of ft) (of_nat (j * FLASH_BLOCK_SIZE + i * FLASH_BLOCK_SIZE))"
  shows "\<exists>s'. ioutil_rdwr_flash_block E g (of_nat (j * FLASH_BLOCK_SIZE)) (of_nat (k * FLASH_BLOCK_SIZE)) 0x80 ft delay buf True s
      = Some (of_nat (k * FLASH_BLOCK_SIZE), put_at 0 (flash_get (flash (io_dev s)) (j * FLASH_BLOCK_SIZE) (k * FLASH_BLOCK_SIZE)) buf, s') \<and> goes s s'
    \<and> flash (io_dev s') = flash (io_dev s) \<and> app_info (io_dev s') = app_info (io_dev s)"
proof -
  have fuel: "k \<le> unat (of_nat (k * FLASH_BLOCK_SIZE) :: u32)" using unat_small [of "k * FLASH_BLOCK_SIZE"] assms(2) by simp
  have "j * FLASH_BLOCK_SIZE + k * FLASH_BLOCK_SIZE \<le> 0x10000" using assms(2) by simp
  from loop_read [OF assms(1) fuel this, of 0 buf ft delay] assms(3,4)
  obtain s' where "rdwr_loop (unat (of_nat (k * FLASH_BLOCK_SIZE) :: u32)) E g (of_nat (j * FLASH_BLOCK_SIZE)) 0 (of_nat (k * FLASH_BLOCK_SIZE)) 0x80 ft delay True buf s
      = Some (0, put_at 0 (flash_get (flash (io_dev s)) (j * FLASH_BLOCK_SIZE) (k * FLASH_BLOCK_SIZE)) buf, s')" "goes s s'"
    "flash (io_dev s') = flash (io_dev s)" "app_info (io_dev s') = app_info (io_dev s)"
    by auto
  moreover have "ROUND_UP_ADDR (of_nat (j * FLASH_BLOCK_SIZE)) 0x80 = of_nat (j * FLASH_BLOCK_SIZE)"
    "ROUND_UP_ADDR (of_nat (k * FLASH_BLOCK_SIZE)) 0x80 = of_nat (k * FLASH_BLOCK_SIZE)"
    using assms(2) by (intro round_up_blocks; simp)+
  ultimately show ?thesis unfolding ioutil_rdwr_flash_block_def Let_def by (simp del: of_nat_mult)
qed

text \<open>The information registers.\<close>

lemma flash_info_ok:
  assumes "serving (io_dev s)"
  shows "\<exists>s'. rd_btldr_flash_info E g s = (0, btldr_flash_info, s') \<and> goes s s'
    \<and> flash (io_dev s') = flash (io_dev s) \<and> app_info (io_dev s') = app_info (io_dev s)"
proof -
  obtain d' where d: "link_read E (i2c_bus g) (btldr_addr g) I2C_BTLDR_REG_FLASH_INFO (enc_flash_info btldr_flash_info) (io_dev s) d'"
    "serving d'" "flash d' = flash (io_dev s)" "app_info d' = app_info (io_dev s)" using rd_flash_info [OF assms] by blast
  have "length (enc_flash_info btldr_flash_info) = 28" by (simp add: enc_flash_info_def)
  then have "rd_btldr_flash_info E g s = (0, btldr_flash_info, s\<lparr>io_dev := d'\<rparr>)"
    using reg_read_link [OF mem_ok d(1), of 28] dec_enc_flash_info [of btldr_flash_info "[]"]
    by (simp add: rd_btldr_flash_info_def rd_struct_def)
  then show ?thesis using d by (simp add: goes_def)
qed

lemma app_info_ok:
  assumes "serving (io_dev s)"
  shows "\<exists>s'. rd_btldr_app_info E g s = (0, app_info (io_dev s), s') \<and> goes s s'
    \<and> flash (io_dev s') = flash (io_dev s) \<and> app_info (io_dev s') = app_info (io_dev s)"
proof -
  obtain d' where d: "link_read E (i2c_bus g) (btldr_addr g) I2C_BTLDR_REG_APP_INFO (enc_app_info (app_info (io_dev s))) (io_dev s) d'"
    "serving d'" "flash d' = flash (io_dev s)" "app_info d' = app_info (io_dev s)" using rd_app_info [OF assms] by blast
  then have "rd_btldr_app_info E g s = (0, app_info (io_dev s), s\<lparr>io_dev := d'\<rparr>)"
    using reg_read_link [OF mem_ok d(1), of 11] dec_enc_app_info [of "app_info (io_dev s)" "[]"]
    by (simp add: rd_btldr_app_info_def rd_struct_def)
  then show ?thesis using d by (simp add: goes_def)
qed

end

end
