(* ===== verification/Ioutil_Commands.thy ===== *)
theory Ioutil_Commands
  imports Ioutil_Link
begin

text \<open>
  The commands of the host tool against a device that keeps the contract \<open>btldr_link\<close>: what
  \<open>write-fw\<close>, \<open>read-fw\<close>, \<open>read-data\<close>, \<open>erase-data\<close>, \<open>read-eeprom\<close>, \<open>erase-eeprom\<close> and
  \<open>autoboot\<close> do to the flash and to the files.
\<close>

section \<open>Regions in blocks\<close>

lemma block_aligned: "of_nat (n * FLASH_BLOCK_SIZE) AND BTLDR_STM8L15X_INVALID_ADDR_MASK = (0 :: u32)"
proof -
  have "of_nat (n * FLASH_BLOCK_SIZE) = push_bit 7 (of_nat n :: u32)" by (simp add: push_bit_eq_mult)
  moreover have "push_bit 7 (w :: u32) AND 0x7f = 0" for w
  proof -
    have "push_bit 7 w AND mask 7 = 0" by (rule bit_word_eqI) (auto simp: bit_simps)
    then show ?thesis by (simp add: mask_eq_exp_minus_1)
  qed
  ultimately show ?thesis by metis
qed

lemma data_blocks: "i < 192 \<Longrightarrow> region_addr (region_of IOUTIL_DATA_FLASH) (of_nat (320 * FLASH_BLOCK_SIZE + i * FLASH_BLOCK_SIZE))"
  using block_aligned [of "320 + i"] unat_small [of "(320 + i) * FLASH_BLOCK_SIZE"]
  by (simp add: data_addr_def block_addr_def proto_defs word_le_nat_alt word_less_nat_alt add_mult_distrib del: of_nat_add of_nat_mult)

lemma eeprom_blocks: "i < 7 \<Longrightarrow> region_addr (region_of IOUTIL_EEPROM_FLASH) (of_nat (33 * FLASH_BLOCK_SIZE + i * FLASH_BLOCK_SIZE))"
  using block_aligned [of "33 + i"] unat_small [of "(33 + i) * FLASH_BLOCK_SIZE"]
  by (simp add: eeprom_addr_def block_addr_def proto_defs word_le_nat_alt word_less_nat_alt add_mult_distrib del: of_nat_add of_nat_mult)

lemma flash_info_fields [simp]:
  "fi_data_base btldr_flash_info = of_nat (320 * FLASH_BLOCK_SIZE)" "fi_data_size btldr_flash_info = of_nat (192 * FLASH_BLOCK_SIZE)"
  "fi_data_blocksize btldr_flash_info = 0x80" "fi_eeprom_base btldr_flash_info = of_nat (33 * FLASH_BLOCK_SIZE)"
  "fi_eeprom_size btldr_flash_info = of_nat (7 * FLASH_BLOCK_SIZE)" "fi_eeprom_blocksize btldr_flash_info = 0x80"
  by (simp_all add: btldr_flash_info_def proto_defs)

section \<open>The image of a firmware file\<close>

definition image_blocks :: "bytes \<Rightarrow> nat" where
  "image_blocks fw = (length fw + 127) div FLASH_BLOCK_SIZE"

definition padded :: "bytes \<Rightarrow> bytes" where
  "padded fw = fw @ replicate (image_blocks fw * FLASH_BLOCK_SIZE - length fw) 0"

lemma image_blocks_bound: "length fw \<le> 0x6000 \<Longrightarrow> image_blocks fw \<le> 192"
  by (simp add: image_blocks_def)

lemma length_padded [simp]: "length (padded fw) = image_blocks fw * FLASH_BLOCK_SIZE"
proof -
  have "length fw \<le> image_blocks fw * FLASH_BLOCK_SIZE" unfolding image_blocks_def by presburger
  then show ?thesis by (simp add: padded_def)
qed

lemma put_padded: "put_at 0 fw (replicate (image_blocks fw * FLASH_BLOCK_SIZE) 0) = padded fw"
  by (simp add: put_at_def padded_def)

definition install_info :: "ioutil_opts \<Rightarrow> bytes \<Rightarrow> u8 \<Rightarrow> BtldrAppInfoSet" where
  "install_info g fw status = \<lparr>as_size = of_nat (length (padded fw)), as_crc16 = crc16 IOMCU_CRC16_INIT (padded fw),
     as_app_ver = write_fw_app_ver g, as_autoboot = status AND APP_STATUS_AUTOBOOT_MASK\<rparr>"

context btldr_link
begin

lemma load_ok:
  assumes "env_fopen_r E path = Some (length fw)" "env_fread E path (length fw) = fw" "length fw \<le> 0x6000"
  shows "write_fw_load E path btldr_flash_info s = Some (0, padded fw, of_nat (image_blocks fw * FLASH_BLOCK_SIZE), s)"
proof -
  have n: "image_blocks fw * FLASH_BLOCK_SIZE \<le> 192 * FLASH_BLOCK_SIZE" using image_blocks_bound [OF assms(3)] by simp
  have u: "unat (of_nat (image_blocks fw * FLASH_BLOCK_SIZE) :: u32) = image_blocks fw * FLASH_BLOCK_SIZE"
    "unat (of_nat (192 * FLASH_BLOCK_SIZE) :: u32) = 192 * FLASH_BLOCK_SIZE" using n by (intro unat_small; simp)+
  have "\<not> of_nat (image_blocks fw * FLASH_BLOCK_SIZE) > (of_nat (192 * FLASH_BLOCK_SIZE) :: u32)"
    unfolding word_less_nat_alt u using n by simp
  moreover have "(length fw + unat (0x80 :: u16) - 1) div unat (0x80 :: u16) * unat (0x80 :: u16) = image_blocks fw * FLASH_BLOCK_SIZE"
    by (simp add: image_blocks_def)
  ultimately show ?thesis
    unfolding write_fw_load_def using assms(1,2) mem_ok u(1) put_padded [of fw] by (simp add: Let_def del: of_nat_mult)
qed

lemma install_flash:
  assumes "serving (io_dev s)" "length fw \<le> 0x6000"
  shows "\<exists>s'. write_fw_flash E g btldr_flash_info (padded fw) (of_nat (image_blocks fw * FLASH_BLOCK_SIZE)) s = Some (0, s') \<and> goes s s'
    \<and> flash (io_dev s') = flash_put (flash (io_dev s)) (320 * FLASH_BLOCK_SIZE) (padded fw)"
proof -
  let ?k = "image_blocks fw"
  let ?n = "?k * FLASH_BLOCK_SIZE"
  let ?b = "of_nat (320 * FLASH_BLOCK_SIZE) :: u32"
  note k = image_blocks_bound [OF assms(2)]
  have room: "(320 + ?k) * FLASH_BLOCK_SIZE \<le> 0x10000" using k by simp
  have reg: "\<forall>i<?k. region_addr (region_of IOUTIL_DATA_FLASH) (of_nat (320 * FLASH_BLOCK_SIZE + i * FLASH_BLOCK_SIZE))"
    using data_blocks k by (meson less_le_trans)
  have u: "unat (of_nat ?n :: u32) = ?n" using k by (intro unat_small) simp
  obtain s1 where s1: "ioutil_rdwr_flash_block E g ?b (of_nat ?n) 0x80 IOUTIL_DATA_FLASH (fi_data_write_time btldr_flash_info) (padded fw) False
      (printf ''Uploading firmware...'' s) = Some (of_nat ?n, padded fw, s1)" "goes s s1"
    "flash (io_dev s1) = flash_put (flash (io_dev s)) (320 * FLASH_BLOCK_SIZE) (padded fw)"
    using rdwr_write [of "printf ''Uploading firmware...'' s" 320 ?k "padded fw" IOUTIL_DATA_FLASH] assms(1) room reg
    by (auto simp: goes_def)
  have rb: "flash_get (flash (io_dev s1)) (320 * FLASH_BLOCK_SIZE) ?n = padded fw"
    unfolding s1(3) using flash_get_put [of "320 * FLASH_BLOCK_SIZE" "padded fw"] k by simp
  obtain s2 where s2: "ioutil_rdwr_flash_block E g ?b (of_nat ?n) 0x80 IOUTIL_DATA_FLASH (fi_data_read_time btldr_flash_info) (replicate ?n 0) True
      (printf ''Verifying firmware...'' s1) = Some (of_nat ?n, padded fw, s2)" "goes s1 s2" "flash (io_dev s2) = flash (io_dev s1)"
    using rdwr_read [of "printf ''Verifying firmware...'' s1" 320 ?k "replicate ?n 0" IOUTIL_DATA_FLASH] s1(2) room reg rb
    by (auto simp: goes_def put_at_def)
  have "write_fw_flash E g btldr_flash_info (padded fw) (of_nat ?n) s = Some (0, printf ''Verify passed!'' s2)"
    unfolding write_fw_flash_def flash_info_fields u using s1(1) s2(1) by (simp del: of_nat_mult)
  then show ?thesis using s1 s2 by (auto simp: goes_def)
qed

lemma install_app_info:
  assumes "serving (io_dev s)"
  shows "\<exists>s'. write_fw_info E g ai (padded fw) (of_nat (image_blocks fw * FLASH_BLOCK_SIZE)) s = (0, s') \<and> goes s s'
    \<and> flash (io_dev s') = mem_with_block (flash (io_dev s)) 0x1000 (header_block (install_info g fw (ai_status ai)))
    \<and> ai_size (app_info (io_dev s')) = of_nat (image_blocks fw * FLASH_BLOCK_SIZE)"
proof -
  let ?p = "install_info g fw (ai_status ai)"
  let ?s0 = "printf (show_app_info_set ?p) s"
  have p: "\<lparr>as_size = of_nat (image_blocks fw * FLASH_BLOCK_SIZE), as_crc16 = crc16 IOMCU_CRC16_INIT (padded fw),
      as_app_ver = write_fw_app_ver g, as_autoboot = ai_status ai AND APP_STATUS_AUTOBOOT_MASK\<rparr> = ?p"
    by (simp add: install_info_def)
  obtain d1 where d1: "link_write E (i2c_bus g) (btldr_addr g) I2C_BTLDR_REG_APP_INFO_SET (enc_app_info_set ?p) (io_dev s) d1" "serving d1"
    "flash d1 = mem_with_block (flash (io_dev s)) 0x1000 (header_block ?p)" "ai_size (app_info d1) = as_size ?p" "ai_crc16 (app_info d1) = as_crc16 ?p"
    "ai_app_ver (app_info d1) = as_app_ver ?p" "ai_status (app_info d1) AND APP_STATUS_AUTOBOOT_MASK = as_autoboot ?p AND APP_STATUS_AUTOBOOT_MASK"
    using wr_app_info [OF assms] by blast
  define s1 where "s1 = ?s0\<lparr>io_dev := d1\<rparr>"
  have w: "wr_btldr_app_info_set E g ?p ?s0 = (0, s1)"
    unfolding wr_btldr_app_info_set_def s1_def using d1(1) by (intro reg_write_link mem_ok) simp
  let ?s2 = "printf ''Verifying app info...'' (ioutil_sleep (ai_app_info_set_time ai) s1)"
  obtain s3 where s3: "rd_btldr_app_info E g ?s2 = (0, app_info d1, s3)" "goes ?s2 s3" "flash (io_dev s3) = flash d1" "app_info (io_dev s3) = app_info d1"
    using app_info_ok [of ?s2] d1(2) by (auto simp: s1_def)
  have "write_fw_info E g ai (padded fw) (of_nat (image_blocks fw * FLASH_BLOCK_SIZE)) s = (0, printf ''Verify passed!'' s3)"
    unfolding write_fw_info_def p Let_def using w s3(1) d1(4-7) by simp
  then show ?thesis using s3(2-4) d1(3,4) by (auto simp: goes_def s1_def install_info_def)
qed

lemma write_fw_ok:
  assumes "serving (io_dev s)" "ioutil_path g = Some path" "env_fopen_r E path = Some (length fw)"
    "env_fread E path (length fw) = fw" "length fw \<le> 0x6000"
  shows "\<exists>s'. ioutil_write_fw E g s = Some (0, s') \<and> goes s s'
    \<and> flash (io_dev s') = mem_with_block (flash_put (flash (io_dev s)) (320 * FLASH_BLOCK_SIZE) (padded fw)) 0x1000
        (header_block (install_info g fw (ai_status (app_info (io_dev s)))))
    \<and> ai_size (app_info (io_dev s')) = of_nat (image_blocks fw * FLASH_BLOCK_SIZE)"
proof -
  obtain s1 where s1: "rd_btldr_flash_info E g s = (0, btldr_flash_info, s1)" "goes s s1"
    "flash (io_dev s1) = flash (io_dev s)" "app_info (io_dev s1) = app_info (io_dev s)" using flash_info_ok [OF assms(1)] by blast
  obtain s2 where s2: "rd_btldr_app_info E g s1 = (0, app_info (io_dev s), s2)" "goes s1 s2" "flash (io_dev s2) = flash (io_dev s)"
    using app_info_ok [of s1] s1 by (auto simp: goes_def)
  obtain s3 where s3: "write_fw_flash E g btldr_flash_info (padded fw) (of_nat (image_blocks fw * FLASH_BLOCK_SIZE)) s2 = Some (0, s3)" "goes s2 s3"
    "flash (io_dev s3) = flash_put (flash (io_dev s)) (320 * FLASH_BLOCK_SIZE) (padded fw)"
    using install_flash [of s2 fw] s2 assms(5) by (auto simp: goes_def)
  obtain s4 where s4: "write_fw_info E g (app_info (io_dev s)) (padded fw) (of_nat (image_blocks fw * FLASH_BLOCK_SIZE)) s3 = (0, s4)" "goes s3 s4"
    "flash (io_dev s4) = mem_with_block (flash (io_dev s3)) 0x1000 (header_block (install_info g fw (ai_status (app_info (io_dev s)))))"
    "ai_size (app_info (io_dev s4)) = of_nat (image_blocks fw * FLASH_BLOCK_SIZE)"
    using install_app_info [of s3] s3(2) by (auto simp: goes_def)
  have "ioutil_write_fw E g s = Some (0, s4)"
    unfolding ioutil_write_fw_def assms(2) using s1(1) s2(1) load_ok [OF assms(3-5), of s2] s3(1) s4(1) by (simp del: of_nat_mult)
  then show ?thesis using s1 s2 s3 s4 by (auto simp: goes_def)
qed

text \<open>Files the host can write.\<close>

lemma write_file_ok:
  assumes "env_fopen_w E path" "env_fwrite E path buf = length buf"
  shows "write_file E path buf s = (0, s\<lparr>io_files := io_files s @ [(path, buf)]\<rparr>)"
  using assms by (simp add: write_file_def Let_def)

lemma read_data_ok:
  assumes "serving (io_dev s)" "ioutil_path g = Some path" "env_fopen_w E path" "\<And>buf. env_fwrite E path buf = length buf"
  shows "\<exists>s'. ioutil_read_data E g s = Some (0, s') \<and> serving (io_dev s') \<and> flash (io_dev s') = flash (io_dev s)
    \<and> io_files s' = io_files s @ [(path, flash_get (flash (io_dev s)) 0xa000 0x6000)]"
proof -
  obtain s1 where s1: "rd_btldr_flash_info E g s = (0, btldr_flash_info, s1)" "goes s s1" "flash (io_dev s1) = flash (io_dev s)"
    using flash_info_ok [OF assms(1)] by blast
  have u: "unat (of_nat (192 * FLASH_BLOCK_SIZE) :: u32) = 192 * FLASH_BLOCK_SIZE" by (rule unat_small) simp
  let ?data = "flash_get (flash (io_dev s)) (320 * FLASH_BLOCK_SIZE) (192 * FLASH_BLOCK_SIZE)"
  obtain s2 where s2: "ioutil_rdwr_flash_block E g (of_nat (320 * FLASH_BLOCK_SIZE)) (of_nat (192 * FLASH_BLOCK_SIZE)) 0x80 IOUTIL_DATA_FLASH
      (fi_data_read_time btldr_flash_info) (replicate (192 * FLASH_BLOCK_SIZE) 0) True (printf ''Downloading data flash...'' s1)
      = Some (of_nat (192 * FLASH_BLOCK_SIZE), put_at 0 ?data (replicate (192 * FLASH_BLOCK_SIZE) 0), s2)" "goes s1 s2"
    "flash (io_dev s2) = flash (io_dev s)"
    using rdwr_read [of "printf ''Downloading data flash...'' s1" 320 192 "replicate (192 * FLASH_BLOCK_SIZE) 0" IOUTIL_DATA_FLASH
        "fi_data_read_time btldr_flash_info"] s1 data_blocks
    by (auto simp: goes_def simp del: of_nat_mult of_nat_add)
  have "ioutil_read_data E g s = Some (write_file E path (take (192 * FLASH_BLOCK_SIZE) (put_at 0 ?data (replicate (192 * FLASH_BLOCK_SIZE) 0))) s2)"
    unfolding ioutil_read_data_def s1(1) Let_def flash_info_fields u using assms(2) mem_ok s2(1) u
    by (simp del: of_nat_mult)
  then show ?thesis using write_file_ok [OF assms(3,4)] s1 s2 by (auto simp: goes_def put_at_def)
qed

lemma read_fw_ok:
  assumes "serving (io_dev s)" "ioutil_path g = Some path" "env_fopen_w E path" "\<And>buf. env_fwrite E path buf = length buf"
    and k: "ai_size (app_info (io_dev s)) = of_nat (k * FLASH_BLOCK_SIZE)" "k \<le> 192"
  shows "\<exists>s'. ioutil_read_fw E g s = Some (0, s') \<and> serving (io_dev s') \<and> flash (io_dev s') = flash (io_dev s)
    \<and> io_files s' = io_files s @ [(path, flash_get (flash (io_dev s)) 0xa000 (k * FLASH_BLOCK_SIZE))]"
proof -
  let ?n = "k * FLASH_BLOCK_SIZE"
  obtain s1 where s1: "rd_btldr_flash_info E g s = (0, btldr_flash_info, s1)" "goes s s1" "flash (io_dev s1) = flash (io_dev s)"
    "app_info (io_dev s1) = app_info (io_dev s)" using flash_info_ok [OF assms(1)] by blast
  obtain s2 where s2: "rd_btldr_app_info E g s1 = (0, app_info (io_dev s), s2)" "goes s1 s2" "flash (io_dev s2) = flash (io_dev s)"
    using app_info_ok [of s1] s1 by (auto simp: goes_def)
  have u: "unat (of_nat ?n :: u32) = ?n" "unat (of_nat (192 * FLASH_BLOCK_SIZE) :: u32) = 192 * FLASH_BLOCK_SIZE" using k(2) by (intro unat_small; simp)+
  have ru: "ROUND_UP_ADDR (of_nat ?n) 0x80 = of_nat ?n" using k(2) by (intro round_up_blocks) simp
  have fits: "\<not> of_nat ?n > (of_nat (192 * FLASH_BLOCK_SIZE) :: u32)" unfolding word_less_nat_alt u using k(2) by simp
  let ?data = "flash_get (flash (io_dev s)) (320 * FLASH_BLOCK_SIZE) ?n"
  have reg: "\<forall>i<k. region_addr (region_of IOUTIL_DATA_FLASH) (of_nat (320 * FLASH_BLOCK_SIZE + i * FLASH_BLOCK_SIZE))"
    using data_blocks k(2) by (meson less_le_trans)
  obtain s3 where s3: "ioutil_rdwr_flash_block E g (of_nat (320 * FLASH_BLOCK_SIZE)) (of_nat ?n) 0x80 IOUTIL_DATA_FLASH
      (fi_data_read_time btldr_flash_info) (replicate ?n 0) True (printf ''Downloading firmware...'' s2)
      = Some (of_nat ?n, put_at 0 ?data (replicate ?n 0), s3)" "goes s2 s3" "flash (io_dev s3) = flash (io_dev s)"
    using rdwr_read [of "printf ''Downloading firmware...'' s2" 320 k "replicate ?n 0" IOUTIL_DATA_FLASH "fi_data_read_time btldr_flash_info"] s2 reg k(2)
    by (auto simp: goes_def simp del: of_nat_mult of_nat_add)
  have d: "put_at 0 ?data (replicate ?n 0) = ?data" by (simp add: put_at_def)
  have "\<exists>s4. ioutil_read_fw E g s = Some (write_file E path ?data s4) \<and> io_dev s4 = io_dev s3 \<and> io_files s4 = io_files s3"
  proof (cases "ai_crc16 (app_info (io_dev s)) = crc16 IOMCU_CRC16_INIT ?data")
    case True
    then show ?thesis unfolding ioutil_read_fw_def assms(2) s1(1) Let_def flash_info_fields
      using s2(1) k(1) ru fits mem_ok s3(1) u d by (intro exI [of _ s3]) (simp del: of_nat_mult)
  next
    case False
    have "\<exists>l. ioutil_read_fw E g s = Some (write_file E path ?data (printf l s3))" unfolding ioutil_read_fw_def assms(2) s1(1) Let_def flash_info_fields
      using s2(1) k(1) ru fits mem_ok s3(1) u d False by (simp del: of_nat_mult) blast
    then show ?thesis by (metis printf_fields)
  qed
  then obtain s4 where s4: "ioutil_read_fw E g s = Some (write_file E path ?data s4)" "io_dev s4 = io_dev s3" "io_files s4 = io_files s3" by blast
  have "320 * FLASH_BLOCK_SIZE = (0xa000 :: nat)" by simp
  then show ?thesis using s4 write_file_ok [OF assms(3,4)] s1 s2 s3 by (auto simp: goes_def)
qed

lemma read_eeprom_ok:
  assumes "serving (io_dev s)" "ioutil_path g = Some path" "env_fopen_w E path" "\<And>buf. env_fwrite E path buf = length buf"
  shows "\<exists>s'. ioutil_read_eeprom E g s = Some (0, s') \<and> serving (io_dev s') \<and> flash (io_dev s') = flash (io_dev s)
    \<and> io_files s' = io_files s @ [(path, flash_get (flash (io_dev s)) 0x1080 0x380)]"
proof -
  obtain s1 where s1: "rd_btldr_flash_info E g s = (0, btldr_flash_info, s1)" "goes s s1" "flash (io_dev s1) = flash (io_dev s)"
    using flash_info_ok [OF assms(1)] by blast
  have u: "unat (of_nat (192 * FLASH_BLOCK_SIZE) :: u32) = 192 * FLASH_BLOCK_SIZE" "unat (of_nat (7 * FLASH_BLOCK_SIZE) :: u32) = 7 * FLASH_BLOCK_SIZE"
    by (rule unat_small; simp)+
  let ?data = "flash_get (flash (io_dev s)) (33 * FLASH_BLOCK_SIZE) (7 * FLASH_BLOCK_SIZE)"
  obtain s2 where s2: "ioutil_rdwr_flash_block E g (of_nat (33 * FLASH_BLOCK_SIZE)) (of_nat (7 * FLASH_BLOCK_SIZE)) 0x80 IOUTIL_EEPROM_FLASH
      (fi_eeprom_read_time btldr_flash_info) (replicate (192 * FLASH_BLOCK_SIZE) 0) True (printf ''Downloading eeprom flash...'' s1)
      = Some (of_nat (7 * FLASH_BLOCK_SIZE), put_at 0 ?data (replicate (192 * FLASH_BLOCK_SIZE) 0), s2)" "goes s1 s2"
    "flash (io_dev s2) = flash (io_dev s)"
    using rdwr_read [of "printf ''Downloading eeprom flash...'' s1" 33 7 "replicate (192 * FLASH_BLOCK_SIZE) 0" IOUTIL_EEPROM_FLASH
        "fi_eeprom_read_time btldr_flash_info"] s1 eeprom_blocks
    by (auto simp: goes_def simp del: of_nat_mult of_nat_add)
  have "ioutil_read_eeprom E g s = Some (write_file E path (take (7 * FLASH_BLOCK_SIZE) (put_at 0 ?data (replicate (192 * FLASH_BLOCK_SIZE) 0))) s2)"
    unfolding ioutil_read_eeprom_def s1(1) Let_def flash_info_fields u using assms(2) mem_ok s2(1) u
    by (simp del: of_nat_mult)
  then show ?thesis using write_file_ok [OF assms(3,4)] s1 s2 by (auto simp: goes_def put_at_def)
qed

lemma erase_data_ok:
  assumes "serving (io_dev s)"
  shows "\<exists>s'. ioutil_erase_data E g s = Some (0, s') \<and> goes s s' \<and> flash (io_dev s') = flash_put (flash (io_dev s)) 0xa000 (replicate 0x6000 0)"
proof -
  obtain s1 where s1: "rd_btldr_flash_info E g s = (0, btldr_flash_info, s1)" "goes s s1" "flash (io_dev s1) = flash (io_dev s)"
    using flash_info_ok [OF assms(1)] by blast
  have u: "unat (of_nat (192 * FLASH_BLOCK_SIZE) :: u32) = 192 * FLASH_BLOCK_SIZE" by (rule unat_small) simp
  obtain s2 where s2: "ioutil_rdwr_flash_block E g (of_nat (320 * FLASH_BLOCK_SIZE)) (of_nat (192 * FLASH_BLOCK_SIZE)) 0x80 IOUTIL_DATA_FLASH
      (fi_data_write_time btldr_flash_info) (replicate (192 * FLASH_BLOCK_SIZE) 0) False (printf ''Erasing data...'' s1)
      = Some (of_nat (192 * FLASH_BLOCK_SIZE), replicate (192 * FLASH_BLOCK_SIZE) 0, s2)" "goes s1 s2"
    "flash (io_dev s2) = flash_put (flash (io_dev s)) (320 * FLASH_BLOCK_SIZE) (replicate (192 * FLASH_BLOCK_SIZE) 0)"
    using rdwr_write [of "printf ''Erasing data...'' s1" 320 192 "replicate (192 * FLASH_BLOCK_SIZE) 0" IOUTIL_DATA_FLASH
        "fi_data_write_time btldr_flash_info"] s1 data_blocks
    by (auto simp: goes_def simp del: of_nat_mult of_nat_add)
  have "ioutil_erase_data E g s = Some (0, s2)"
    unfolding ioutil_erase_data_def ioutil_erase_flash_def s1(1) Let_def flash_info_fields u using mem_ok s2(1) by (simp del: of_nat_mult)
  then show ?thesis using s1 s2 by (auto simp: goes_def)
qed

text \<open>\<open>erase-eeprom\<close> asks for the registers of the data flash, whose address check rejects the
  first EEPROM block.\<close>

lemma erase_eeprom_rejected:
  assumes "serving (io_dev s)"
  shows "\<exists>s'. ioutil_erase_eeprom E g s = Some (1, s') \<and> goes s s' \<and> flash (io_dev s') = flash (io_dev s)"
proof -
  obtain s1 where s1: "rd_btldr_flash_info E g s = (0, btldr_flash_info, s1)" "goes s s1" "flash (io_dev s1) = flash (io_dev s)"
    using flash_info_ok [OF assms(1)] by blast
  let ?n = "7 * FLASH_BLOCK_SIZE"
  let ?a = "of_nat (33 * FLASH_BLOCK_SIZE) :: u32"
  have u: "unat (of_nat ?n :: u32) = ?n" by (rule unat_small) simp
  have bad: "\<not> region_addr (region_of IOUTIL_DATA_FLASH) ?a" by (simp add: data_addr_def block_addr_def proto_defs)
  let ?s1 = "printf ''Erasing eeprom...'' s1"
  obtain s2 where s2: "ioutil_write_flash E g ?a (get_at 0 FLASH_BLOCK_SIZE (replicate ?n 0)) IOUTIL_DATA_FLASH (fi_eeprom_write_time btldr_flash_info) ?s1 = (1, s2)"
    "goes ?s1 s2" "flash (io_dev s2) = flash (io_dev s)"
    using write_flash_bad [OF _ bad, of ?s1] s1 by (fastforce simp: goes_def)
  have r: "ROUND_UP_ADDR ?a 0x80 = ?a" "ROUND_UP_ADDR (of_nat ?n) 0x80 = of_nat ?n" by (rule round_up_blocks; simp)+
  have nz: "of_nat ?n \<noteq> (0 :: u32)" by simp
  have "rdwr_loop (Suc 895) E g ?a 0 (of_nat ?n) 0x80 IOUTIL_DATA_FLASH (fi_eeprom_write_time btldr_flash_info) False (replicate ?n 0) ?s1
      = Some (of_nat ?n, replicate ?n 0, s2)"
    unfolding rdwr_loop.simps using s2(1) nz by (simp del: of_nat_mult)
  moreover have "Suc 895 = ?n" by simp
  ultimately have "rdwr_loop ?n E g ?a 0 (of_nat ?n) 0x80 IOUTIL_DATA_FLASH (fi_eeprom_write_time btldr_flash_info) False (replicate ?n 0) ?s1
      = Some (of_nat ?n, replicate ?n 0, s2)" by metis
  then have "ioutil_rdwr_flash_block E g ?a (of_nat ?n) 0x80 IOUTIL_DATA_FLASH (fi_eeprom_write_time btldr_flash_info) (replicate ?n 0) False ?s1
      = Some (0, replicate ?n 0, s2)"
    unfolding ioutil_rdwr_flash_block_def Let_def u using r by (simp del: of_nat_mult)
  then have "\<exists>l. ioutil_erase_eeprom E g s = Some (1, printf l s2)"
    unfolding ioutil_erase_eeprom_def ioutil_erase_flash_def s1(1) Let_def flash_info_fields u using mem_ok nz
    by (simp del: of_nat_mult) blast
  then show ?thesis using s1 s2 by (auto simp: goes_def)
qed

lemma set_autoboot_ok:
  assumes "serving (io_dev s)"
  shows "\<exists>s'. ioutil_set_autoboot E g s = (0, s') \<and> goes s s'
    \<and> flash (io_dev s') = mem_with_block (flash (io_dev s)) 0x1000 (header_block \<lparr>as_size = ai_size (app_info (io_dev s)),
        as_crc16 = ai_crc16 (app_info (io_dev s)), as_app_ver = ai_app_ver (app_info (io_dev s)),
        as_autoboot = (if set_autoboot g then APP_STATUS_AUTOBOOT_YES else 0)\<rparr>)"
proof -
  let ?ai = "app_info (io_dev s)"
  let ?p = "\<lparr>as_size = ai_size ?ai, as_crc16 = ai_crc16 ?ai, as_app_ver = ai_app_ver ?ai,
    as_autoboot = (if set_autoboot g then APP_STATUS_AUTOBOOT_YES else 0)\<rparr>"
  obtain s1 where s1: "rd_btldr_app_info E g s = (0, ?ai, s1)" "goes s s1" "flash (io_dev s1) = flash (io_dev s)"
    using app_info_ok [OF assms] by blast
  let ?s1 = "printf (show_app_info_set ?p) s1"
  obtain d where d: "link_write E (i2c_bus g) (btldr_addr g) I2C_BTLDR_REG_APP_INFO_SET (enc_app_info_set ?p) (io_dev s1) d" "serving d"
    "flash d = mem_with_block (flash (io_dev s1)) 0x1000 (header_block ?p)"
    using wr_app_info [of "io_dev s1" ?p] s1(2) by (auto simp: goes_def)
  have "wr_btldr_app_info_set E g ?p ?s1 = (0, ?s1\<lparr>io_dev := d\<rparr>)"
    unfolding wr_btldr_app_info_set_def using d(1) by (intro reg_write_link mem_ok) simp
  then have "ioutil_set_autoboot E g s = (0, ioutil_sleep (ai_app_info_set_time ?ai) (?s1\<lparr>io_dev := d\<rparr>))"
    unfolding ioutil_set_autoboot_def Let_def using s1(1) by simp
  then show ?thesis using s1 d by (auto simp: goes_def)
qed

text \<open>\<open>main\<close> reads the status and the bootloader information before the command.\<close>

lemma run_dispatch:
  assumes "serving (io_dev s)" "ioutil_cmd g \<notin> {IOUTIL_CMD_STOP, IOUTIL_CMD_START, IOUTIL_CMD_STATUS}"
  shows "\<exists>s' st info. ioutil_run E g s = ioutil_dispatch E g st info s' \<and> goes s s'
    \<and> flash (io_dev s') = flash (io_dev s) \<and> app_info (io_dev s') = app_info (io_dev s)"
proof -
  obtain d1 st where d1: "link_read E (i2c_bus g) (btldr_addr g) I2C_BTLDR_REG_STATUS [st] (io_dev s) d1" "serving d1"
    "flash d1 = flash (io_dev s)" "app_info d1 = app_info (io_dev s)" using rd_status [OF assms(1)] by blast
  define s1 where "s1 = s\<lparr>io_dev := d1\<rparr>"
  have 1: "rd_btldr_status E g s = (0, st, s1)"
    unfolding rd_btldr_status_def s1_def using reg_read_link [OF mem_ok d1(1), of 1] by simp
  let ?i = "enc_btldr_info I2C_BTLDR_INFO_SLAVE_ENDIAN I2C_BTLDR_INFO_PROTO_VERSION BTLDR_VERSION"
  obtain d2 where d2: "link_read E (i2c_bus g) (btldr_addr g) I2C_BTLDR_REG_BTLDR_INFO ?i d1 d2" "serving d2"
    "flash d2 = flash (io_dev s)" "app_info d2 = app_info (io_dev s)" using rd_info [OF d1(2)] d1 by auto
  define s2 where "s2 = s1\<lparr>io_dev := d2\<rparr>"
  have 2: "rd_btldr_info E g s1 = (0, dec_btldr_info ?i, s2)"
    unfolding rd_btldr_info_def rd_struct_def s2_def using reg_read_link [OF mem_ok, of g "btldr_addr g" I2C_BTLDR_REG_BTLDR_INFO ?i s1 d2 8] d2(1)
    by (simp add: s1_def)
  have "bi_proto_ver (dec_btldr_info ?i) = I2C_BTLDR_INFO_PROTO_VERSION" by (simp add: dec_btldr_info_def enc_btldr_info_def)
  then have "ioutil_run E g s = ioutil_dispatch E g st (dec_btldr_info ?i) s2"
    unfolding ioutil_run_def using assms(2) 1 2 by simp
  moreover have "goes s s2" "flash (io_dev s2) = flash (io_dev s)" "app_info (io_dev s2) = app_info (io_dev s)"
    using d2 by (simp_all add: goes_def s2_def s1_def)
  ultimately show ?thesis by blast
qed

end

end
