(* ===== verification/Ioutil_Device.thy ===== *)
theory Ioutil_Device
  imports Ioutil_Commands
begin

text \<open>
  The host tool connected to the bootloader: an I2C transfer of the host is the sequence of bus
  events the bootloader model runs on. The contract \<open>btldr_link\<close> is discharged for this
  device, so everything proved of the commands holds of the tool and the bootloader together.
\<close>

section \<open>The bus between them\<close>

definition msg_events :: "(int \<Rightarrow> u8) \<Rightarrow> i2c_msg \<Rightarrow> i2c_hw list" where
  "msg_events ram m = (if msg_flags m AND I2C_M_RD = 0 then ev_addr ram 0 # map (ev_rx ram) (msg_buf m)
     else ev_addr ram I2C_SR3_TRA # replicate (length (msg_buf m)) (ev_tx ram))"

definition bus_events :: "(int \<Rightarrow> u8) \<Rightarrow> i2c_msg list \<Rightarrow> i2c_hw list" where
  "bus_events ram msgs = concat (map (msg_events ram) msgs)
     @ [if msg_flags (last msgs) AND I2C_M_RD = 0 then ev_stop ram else ev_nack ram]"

text \<open>The bootloader answers to its own address, and no longer once the application runs.\<close>

definition btldr_ioctl :: "(int \<Rightarrow> u8) \<Rightarrow> i2c_msg list \<Rightarrow> main_config \<Rightarrow> bool \<times> i2c_msg list \<times> main_config" where
  "btldr_ioctl ram msgs c =
     (if fst c = MAIN_APP \<or> (\<exists>m \<in> set msgs. msg_addr m \<noteq> I2C_BTLDR_ADDR) then (False, msgs, c)
      else let c' = run main_step (bus_events ram msgs) c; out = drop (length (dr_out (snd c))) (dr_out (snd c'))
           in (True, map (\<lambda>m. if msg_flags m AND I2C_M_RD = 0 then m else m\<lparr>msg_buf := out\<rparr>) msgs, c'))"

text \<open>A host whose system calls succeed, with the files \<open>fs\<close>.\<close>

definition btldr_host :: "(int \<Rightarrow> u8) \<Rightarrow> (string \<Rightarrow> bytes option) \<Rightarrow> main_config host" where
  "btldr_host ram fs = \<lparr>env_open = \<lambda>_. True, env_ioctl = btldr_ioctl ram, env_malloc = \<lambda>_. True,
     env_fopen_r = \<lambda>p. map_option length (fs p), env_fread = \<lambda>p n. (case fs p of None \<Rightarrow> [] | Some bs \<Rightarrow> take n bs),
     env_fopen_w = \<lambda>_. True, env_fwrite = \<lambda>_ bs. length bs, env_strerror = []\<rparr>"

definition dev_serving :: "main_config \<Rightarrow> bool" where
  "dev_serving c \<longleftrightarrow> fst c = MAIN_RUN \<and> dev_ready (snd c)"

definition dev_flash :: "main_config \<Rightarrow> flash_mem" where "dev_flash c = mem (snd c)"

definition dev_app_info :: "main_config \<Rightarrow> BtldrAppInfo" where "dev_app_info c = read_app_info (snd c)"

section \<open>Transfers as runs of the bootloader\<close>

text \<open>A configuration of the command loop that is \<open>s\<close> up to its LEDs.\<close>

definition at_state :: "main_config \<Rightarrow> btldr \<Rightarrow> bool" where
  "at_state c s \<longleftrightarrow> fst c = MAIN_RUN \<and> no_leds (snd c) = no_leds s"

lemma dev_ready_no_leds: "dev_ready (no_leds s) = dev_ready s"
  by (simp add: dev_ready_def btldr_inv_def app_ready_def)

lemma at_state_fields:
  assumes "at_state c s"
  shows "dev_serving c = dev_ready s" "dev_flash c = mem s" "dev_app_info c = read_app_info s" "dr_out (snd c) = dr_out s" "fst c = MAIN_RUN"
proof -
  have eq: "no_leds (snd c) = no_leds s" "fst c = MAIN_RUN" using assms by (simp_all add: at_state_def)
  show "dev_serving c = dev_ready s" using eq by (metis dev_serving_def dev_ready_no_leds)
  show "dev_flash c = mem s" "dr_out (snd c) = dr_out s" using eq by (metis dev_flash_def no_leds_frame)+
  show "dev_app_info c = read_app_info s" using eq by (metis dev_app_info_def no_leds_read_app_info)
  show "fst c = MAIN_RUN" by (rule eq)
qed

lemma at_state_self: "dev_serving c \<Longrightarrow> at_state c (snd c)"
  by (simp add: dev_serving_def at_state_def)

lemma at_state_steps:
  assumes "at_state c s" "steps hws s t"
  shows "at_state (run main_step hws c) t"
proof -
  obtain c1 c2 where c: "c = (c1, c2)" by (cases c)
  then show ?thesis using assms by (auto simp: at_state_def steps_def)
qed

lemma btldr_write:
  assumes "at_state c s" "steps (bus_write ram reg dat) s t"
  shows "\<exists>c'. link_write (btldr_host ram fs) bus I2C_BTLDR_ADDR reg dat c c' \<and> at_state c' t"
proof -
  let ?m = "\<lparr>msg_addr = I2C_BTLDR_ADDR, msg_flags = 0, msg_buf = reg # dat @ [i2c_message_checksum dat reg]\<rparr>"
  have ev: "bus_events ram [?m] = bus_write ram reg dat" by (simp add: bus_events_def msg_events_def bus_write_def)
  have "fst c \<noteq> MAIN_APP" using assms(1) by (simp add: at_state_def)
  then have "btldr_ioctl ram [?m] c = (True, [?m], run main_step (bus_write ram reg dat) c)"
    unfolding btldr_ioctl_def Let_def ev by simp
  then have "link_write (btldr_host ram fs) bus I2C_BTLDR_ADDR reg dat c (run main_step (bus_write ram reg dat) c)"
    by (simp add: link_write_def i2c_reg_write_def i2c_rw_def btldr_host_def Let_def)
  then show ?thesis using at_state_steps [OF assms] by blast
qed

lemma btldr_read:
  assumes "at_state c s" "steps (bus_read ram reg (length dat + 1)) s t" "dr_out t = dr_out s @ dat @ [i2c_message_checksum dat reg]"
  shows "\<exists>c'. link_read (btldr_host ram fs) bus I2C_BTLDR_ADDR reg dat c c' \<and> at_state c' t"
proof -
  let ?m = "\<lparr>msg_addr = I2C_BTLDR_ADDR, msg_flags = 0, msg_buf = [reg]\<rparr>"
  let ?r = "\<lparr>msg_addr = I2C_BTLDR_ADDR, msg_flags = I2C_M_RD, msg_buf = replicate (length dat + 1) 0\<rparr>"
  let ?c = "run main_step (bus_read ram reg (length dat + 1)) c"
  have ev: "bus_events ram [?m, ?r] = bus_read ram reg (length dat + 1)" by (simp add: bus_events_def msg_events_def bus_read_def)
  have at: "at_state ?c t" by (rule at_state_steps [OF assms(1,2)])
  have out: "drop (length (dr_out (snd c))) (dr_out (snd ?c)) = dat @ [i2c_message_checksum dat reg]"
    using at_state_fields(4) [OF at] at_state_fields(4) [OF assms(1)] assms(3) by simp
  have "fst c \<noteq> MAIN_APP" using assms(1) by (simp add: at_state_def)
  then have "btldr_ioctl ram [?m, ?r] c = (True, [?m, ?r\<lparr>msg_buf := dat @ [i2c_message_checksum dat reg]\<rparr>], ?c)"
    unfolding btldr_ioctl_def Let_def ev out by simp
  then have "link_read (btldr_host ram fs) bus I2C_BTLDR_ADDR reg dat c ?c"
    by (simp add: link_read_def i2c_reg_read_def i2c_rw_def btldr_host_def Let_def)
  then show ?thesis using at by blast
qed

section \<open>Information registers\<close>

lemma dev_read_regs:
  assumes "dev_ready s" and out: "cmd_data_out reg (s\<lparr>i2c_reg := reg, i2c_state := I2C_STATE_OUT_START_WAIT\<rparr>)
      = u\<lparr>i2c_buf := put_at 0 dat (i2c_buf s), i2c_out_remaining := of_nat (length dat)\<rparr>"
    and u: "mem u = mem s" "app_status u = app_status s" "dr_out u = dr_out s" "\<not> flash_pending (flash_state u)"
    and len: "length dat < I2C_BUF_SIZE" and reg: "reg AND I2C_BTLDR_REG_RW_MASK = I2C_BTLDR_REG_READ"
  shows "steps (bus_read ram reg (length dat + 1)) s (dev_read reg (length dat + 1) s)"
    "dev_ready (dev_read reg (length dat + 1) s)" "mem (dev_read reg (length dat + 1) s) = mem s"
    "app_status (dev_read reg (length dat + 1) s) = app_status s"
    "dr_out (dev_read reg (length dat + 1) s) = dr_out s @ dat @ [i2c_message_checksum dat reg]"
proof -
  have n: "unat (of_nat (length dat) :: u8) = length dat" using len by (simp add: unat_of_nat)
  show r: "dev_ready (dev_read reg (length dat + 1) s)" by (rule dev_read_ready [OF assms(1)])
  show "steps (bus_read ram reg (length dat + 1)) s (dev_read reg (length dat + 1) s)"
    using len n dev_ready_fields(2) [OF r] by (intro steps_read assms(1) reg) (simp_all add: dev_out_remaining out)
  have "take (length dat + 1) ((put_at 0 dat (i2c_buf s))[length dat := c]) = dat @ [c]" for c
    using take_list_update_append [of "length dat" "put_at 0 dat (i2c_buf s)" c] len dev_ready_fields(4) [OF assms(1)] by simp
  then show "mem (dev_read reg (length dat + 1) s) = mem s" "app_status (dev_read reg (length dat + 1) s) = app_status s"
    "dr_out (dev_read reg (length dat + 1) s) = dr_out s @ dat @ [i2c_message_checksum dat reg]"
    using u n by (simp_all add: dev_read_def dev_out_def Let_def out main_flash_ops_idle)
qed

lemma status_next_none:
  assumes "\<And>r. f \<noteq> st_read_addr_ready r" "\<And>r. f \<noteq> st_write_addr_ready r"
  shows "status_next_flash_state f = None"
  using assms(1) [of REGION_EEPROM] assms(1) [of REGION_DATA] assms(2) [of REGION_EEPROM] assms(2) [of REGION_DATA]
  by (cases f) simp_all

lemma status_other:
  assumes "status_next_flash_state (flash_state s) = None"
  shows "\<exists>b. cmd_data_out I2C_BTLDR_REG_STATUS s = (s\<lparr>btldr_state := b, i2c_offset := 0, flash_state := FLASH_STATE_IDLE\<rparr>)
    \<lparr>i2c_buf := put_at 0 [btldr_state s] (i2c_buf s), i2c_out_remaining := of_nat (length [btldr_state s])\<rparr>"
proof (cases "flash_state s \<noteq> FLASH_STATE_IDLE \<and> btldr_state s = I2C_BTLDR_STATE_OK")
  case True
  then show ?thesis using assms by (intro exI [of _ I2C_BTLDR_STATE_FLASH_INTERRUPTED]) (simp add: cmd_data_out_def cmd_status_out_def Let_def)
next
  case False
  then show ?thesis by (intro exI [of _ I2C_BTLDR_STATE_OK]) (auto simp: cmd_data_out_def cmd_status_out_def Let_def)
qed

lemma status_read:
  assumes "dev_ready s"
  shows "\<exists>t. steps (bus_read ram I2C_BTLDR_REG_STATUS 2) s t \<and> dev_ready t \<and> mem t = mem s \<and> app_status t = app_status s
    \<and> dr_out t = dr_out s @ [btldr_state s] @ [i2c_message_checksum [btldr_state s] I2C_BTLDR_REG_STATUS]"
proof -
  let ?t = "dev_read I2C_BTLDR_REG_STATUS 2 s"
  have st: "steps (bus_read ram I2C_BTLDR_REG_STATUS 2) s ?t" by (rule steps_status [OF assms])
  consider (rd) r where "flash_state s = st_read_addr_ready r" "btldr_state s = I2C_BTLDR_STATE_OK"
    | (wr) r where "flash_state s = st_write_addr_ready r" "btldr_state s = I2C_BTLDR_STATE_OK"
    | (err) r where "flash_state s = st_read_addr_ready r \<or> flash_state s = st_write_addr_ready r" "btldr_state s \<noteq> I2C_BTLDR_STATE_OK"
    | (other) "\<And>r. flash_state s \<noteq> st_read_addr_ready r" "\<And>r. flash_state s \<noteq> st_write_addr_ready r" by blast
  then show ?thesis
  proof cases
    case rd
    then show ?thesis using st dev_read_status_read [OF assms rd] by (intro exI [of _ ?t]) (simp add: Let_def)
  next
    case wr
    then show ?thesis using st dev_read_status_write [OF assms wr] by (intro exI [of _ ?t]) (simp add: Let_def)
  next
    case err
    let ?s = "s\<lparr>i2c_reg := I2C_BTLDR_REG_STATUS, i2c_state := I2C_STATE_OUT_START_WAIT\<rparr>"
    have "cmd_data_out I2C_BTLDR_REG_STATUS ?s = (?s\<lparr>btldr_state := I2C_BTLDR_STATE_OK, i2c_offset := 0, flash_state := FLASH_STATE_IDLE\<rparr>)
        \<lparr>i2c_buf := put_at 0 [btldr_state s] (i2c_buf s), i2c_out_remaining := of_nat (length [btldr_state s])\<rparr>"
      using err(2) by (simp add: cmd_data_out_def cmd_status_out_def Let_def)
    from dev_read_regs [OF assms this] show ?thesis using st by (intro exI [of _ ?t]) (simp add: numeral_2_eq_2)
  next
    case other
    let ?s = "s\<lparr>i2c_reg := I2C_BTLDR_REG_STATUS, i2c_state := I2C_STATE_OUT_START_WAIT\<rparr>"
    obtain b where "cmd_data_out I2C_BTLDR_REG_STATUS ?s = (?s\<lparr>btldr_state := b, i2c_offset := 0, flash_state := FLASH_STATE_IDLE\<rparr>)
        \<lparr>i2c_buf := put_at 0 [btldr_state s] (i2c_buf s), i2c_out_remaining := of_nat (length [btldr_state s])\<rparr>"
      using status_other [of ?s] status_next_none [OF other] by auto
    from dev_read_regs [OF assms this] show ?thesis using st by (intro exI [of _ ?t]) (simp add: numeral_2_eq_2)
  qed
qed

lemma info_reads:
  assumes "dev_ready s" "(reg, dat) \<in> {(I2C_BTLDR_REG_BTLDR_INFO, enc_btldr_info I2C_BTLDR_INFO_SLAVE_ENDIAN I2C_BTLDR_INFO_PROTO_VERSION BTLDR_VERSION),
    (I2C_BTLDR_REG_FLASH_INFO, enc_flash_info btldr_flash_info), (I2C_BTLDR_REG_APP_INFO, enc_app_info (read_app_info s))}"
  shows "\<exists>t. steps (bus_read ram reg (length dat + 1)) s t \<and> dev_ready t \<and> mem t = mem s \<and> app_status t = app_status s
    \<and> dr_out t = dr_out s @ dat @ [i2c_message_checksum dat reg]"
proof -
  let ?s = "s\<lparr>i2c_reg := reg, i2c_state := I2C_STATE_OUT_START_WAIT\<rparr>"
  let ?u = "?s\<lparr>btldr_state := I2C_BTLDR_STATE_OK, i2c_offset := 0, flash_state := FLASH_STATE_IDLE\<rparr>"
  have same: "read_app_info ?u = read_app_info s" by (rule read_app_info_cong) simp_all
  have out: "cmd_data_out reg ?s = ?u\<lparr>i2c_buf := put_at 0 dat (i2c_buf s), i2c_out_remaining := of_nat (length dat)\<rparr>"
  proof -
    consider (bi) "reg = I2C_BTLDR_REG_BTLDR_INFO" "dat = enc_btldr_info I2C_BTLDR_INFO_SLAVE_ENDIAN I2C_BTLDR_INFO_PROTO_VERSION BTLDR_VERSION"
      | (fi) "reg = I2C_BTLDR_REG_FLASH_INFO" "dat = enc_flash_info btldr_flash_info"
      | (ai) "reg = I2C_BTLDR_REG_APP_INFO" "dat = enc_app_info (read_app_info s)" using assms(2) by blast
    then show ?thesis
    proof cases
      case bi
      have n: "of_nat (length dat) = (8 :: u8)" by (simp add: bi(2))
      show ?thesis unfolding n by (simp add: cmd_data_out_def Let_def bi)
    next
      case fi
      have n: "of_nat (length dat) = (28 :: u8)" by (simp add: fi(2))
      show ?thesis unfolding n by (simp add: cmd_data_out_def Let_def fi)
    next
      case ai
      have n: "of_nat (length dat) = (11 :: u8)" by (simp add: ai(2))
      show ?thesis unfolding n using same by (simp add: cmd_data_out_def Let_def ai)
    qed
  qed
  have "length dat < I2C_BUF_SIZE" "reg AND I2C_BTLDR_REG_RW_MASK = I2C_BTLDR_REG_READ" using assms(2) by auto
  then show ?thesis
    using dev_read_regs [OF assms(1) out] by (intro exI [of _ "dev_read reg (length dat + 1) s"]) simp
qed

section \<open>Rejected addresses\<close>

lemma bad_address:
  assumes "dev_ready s" "\<not> region_addr r a"
  shows "\<exists>t. steps (bus_write ram (reg_write_addr r) (be32 a)) s t \<and> dev_ready t \<and> mem t = mem s \<and> dr_out t = dr_out s
    \<and> btldr_state t = I2C_BTLDR_STATE_INVALID_ADDR"
proof -
  let ?t = "dev_write (reg_write_addr r) (be32 a) s"
  let ?m = "s\<lparr>i2c_reg := reg_write_addr r, i2c_state := I2C_STATE_DATA_IN,
    i2c_buf := put_at 0 (be32 a @ [i2c_message_checksum (be32 a) (reg_write_addr r)]) (i2c_buf s), i2c_offset := of_nat (length (be32 a))\<rparr>"
  have "check_flash_addr (reg_write_addr r) a = I2C_BTLDR_STATE_INVALID_ADDR"
    using assms(2) region_check(2) [of r a] by (auto simp: check_flash_addr_def split: if_splits)
  then have c: "cmd_data_in (reg_write_addr r) ?m = ?m\<lparr>btldr_state := I2C_BTLDR_STATE_INVALID_ADDR, flash_state := FLASH_STATE_IDLE\<rparr>"
    by (cases r) (simp_all add: cmd_data_in_def cmd_flash_addr_def of_be32_put Let_def)
  have eq: "?t = I2C_STATE_RESET (?m\<lparr>btldr_state := I2C_BTLDR_STATE_INVALID_ADDR, flash_state := FLASH_STATE_IDLE\<rparr>)"
    unfolding dev_write_def c by (rule main_flash_ops_idle) simp
  have t: "mem ?t = mem s" "dr_out ?t = dr_out s" "btldr_state ?t = I2C_BTLDR_STATE_INVALID_ADDR" "run_state ?t = RUN_STATE_BTLDR_RUN"
    unfolding eq using dev_ready_fields(2) [OF assms(1)] by simp_all
  then have "dev_ready ?t" by (intro dev_write_ready assms(1)) simp_all
  moreover have "steps (bus_write ram (reg_write_addr r) (be32 a)) s ?t" using t(4) by (intro steps_write assms(1)) simp_all
  ultimately show ?thesis using t by blast
qed

section \<open>Setting the application information\<close>

lemma update_app_status_autoboot:
  assumes "header_valid (mem s)"
  shows "app_status (update_app_status s) AND 0x80 = 0
    \<or> app_status (update_app_status s) AND 0x80 = ed_autoboot (dec_eeprom_data (header_bytes (mem s))) AND 0x80"
proof -
  have a: "((x AND 0x80) OR y) AND 0x80 = x AND (0x80 :: u8)" "(0x7f OR x) AND 0x80 = x AND (0x80 :: u8)" if "y AND 0x80 = 0" for x y
    using that by (simp_all add: bit.conj_disj_distrib2 and.assoc)
  show ?thesis
    using assms a [of APP_STATUS_READY_NO_RESET] a [of APP_STATUS_READY_CRC_FAILED] a [of APP_STATUS_READY_READY]
    by (simp add: update_app_status_def read_app_info_eq Let_def case_prod_beta)
qed

lemma autoboot_written:
  assumes "FLASH_BLOCK_SIZE \<le> length (i2c_buf s)"
  shows "ai_status (read_app_info (write_app_info p s)) AND APP_STATUS_AUTOBOOT_MASK = as_autoboot p AND APP_STATUS_AUTOBOOT_MASK"
proof -
  obtain u where u: "write_app_info p s = update_app_status u" using write_app_info_eq [OF assms, of p] by blast
  have m: "mem u = mem (write_app_info p s)" by (simp add: u)
  have "ed_autoboot (dec_eeprom_data (header_bytes (mem u))) = as_autoboot p AND 0x80"
    using dec_enc_eeprom_data [of "header_data p" "[]"] by (simp add: m header_bytes_write [OF assms]) (simp add: header_data_def Let_def)
  then have "app_status (write_app_info p s) AND 0x80 = 0 \<or> app_status (write_app_info p s) AND 0x80 = as_autoboot p AND 0x80"
    using update_app_status_autoboot [of u] header_valid_write [OF assms, of p] by (simp only: m [symmetric] u [symmetric] and.assoc and.idem simp_thms)
  moreover have "(x OR (y AND 0x80)) AND 0x80 = (x AND 0x80) OR (y AND (0x80 :: u8))" for x y by (simp add: bit.conj_disj_distrib2 and.assoc)
  ultimately show ?thesis by (auto simp: read_write_app_info [OF assms])
qed

lemma dev_write_autoboot:
  assumes "dev_ready s"
  shows "ai_status (read_app_info (dev_write I2C_BTLDR_REG_APP_INFO_SET (enc_app_info_set p) s)) AND APP_STATUS_AUTOBOOT_MASK
    = as_autoboot p AND APP_STATUS_AUTOBOOT_MASK"
proof -
  define v where "v = I2C_STATE_RESET (s\<lparr>i2c_reg := I2C_BTLDR_REG_APP_INFO_SET, i2c_state := I2C_STATE_DATA_IN,
      i2c_buf := put_at 0 (enc_app_info_set p @ [i2c_message_checksum (enc_app_info_set p) I2C_BTLDR_REG_APP_INFO_SET]) (i2c_buf s),
      i2c_offset := 9, btldr_state := I2C_BTLDR_STATE_OK, flash_state := FLASH_STATE_APP_INFO_WRITE_RUN\<rparr>)"
  have "dev_write I2C_BTLDR_REG_APP_INFO_SET (enc_app_info_set p) s = (write_app_info p v)\<lparr>flash_state := FLASH_STATE_IDLE\<rparr>"
    by (simp add: dev_write_def cmd_data_in_app_info main_flash_ops_def write_app_info_run_def dec_put_app_info_set v_def)
  moreover have "read_app_info ((write_app_info p v)\<lparr>flash_state := FLASH_STATE_IDLE\<rparr>) = read_app_info (write_app_info p v)"
    by (rule read_app_info_cong) simp_all
  moreover have "FLASH_BLOCK_SIZE \<le> length (i2c_buf v)" using dev_ready_fields(4) [OF assms] by (simp add: v_def)
  ultimately show ?thesis using autoboot_written by simp
qed

section \<open>The contract holds of the bootloader\<close>

lemma law_read:
  assumes "dev_serving c" "\<exists>t. steps (bus_read ram reg (length dat + 1)) (snd c) t \<and> dev_ready t \<and> mem t = mem (snd c)
      \<and> app_status t = app_status (snd c) \<and> dr_out t = dr_out (snd c) @ dat @ [i2c_message_checksum dat reg]"
  shows "\<exists>c'. link_read (btldr_host ram fs) bus I2C_BTLDR_ADDR reg dat c c' \<and> dev_serving c' \<and> dev_flash c' = dev_flash c
    \<and> dev_app_info c' = dev_app_info c"
proof -
  obtain t where t: "steps (bus_read ram reg (length dat + 1)) (snd c) t" "dev_ready t" "mem t = mem (snd c)" "app_status t = app_status (snd c)"
    "dr_out t = dr_out (snd c) @ dat @ [i2c_message_checksum dat reg]" using assms(2) by blast
  obtain c' where c': "link_read (btldr_host ram fs) bus I2C_BTLDR_ADDR reg dat c c'" "at_state c' t"
    using btldr_read [OF at_state_self [OF assms(1)] t(1,5)] by blast
  have "dev_serving c'" "dev_flash c' = dev_flash c" "dev_app_info c' = dev_app_info c"
    using at_state_fields [OF c'(2)] t read_app_info_cong [of t "snd c"] by (simp_all add: dev_flash_def dev_app_info_def)
  then show ?thesis using c'(1) by blast
qed

lemma law_status:
  assumes "dev_serving c"
  shows "\<exists>c' st. link_read (btldr_host ram fs) bus I2C_BTLDR_ADDR I2C_BTLDR_REG_STATUS [st] c c' \<and> dev_serving c'
    \<and> dev_flash c' = dev_flash c \<and> dev_app_info c' = dev_app_info c"
proof -
  have r: "dev_ready (snd c)" using assms by (simp add: dev_serving_def)
  have "\<exists>t. steps (bus_read ram I2C_BTLDR_REG_STATUS (length [btldr_state (snd c)] + 1)) (snd c) t \<and> dev_ready t \<and> mem t = mem (snd c)
      \<and> app_status t = app_status (snd c) \<and> dr_out t = dr_out (snd c) @ [btldr_state (snd c)] @ [i2c_message_checksum [btldr_state (snd c)] I2C_BTLDR_REG_STATUS]"
    using status_read [OF r, of ram] by (simp add: numeral_2_eq_2)
  from law_read [OF assms this] show ?thesis by blast
qed

lemma law_app_info_set:
  assumes "dev_serving c"
  shows "\<exists>c'. link_write (btldr_host ram fs) bus I2C_BTLDR_ADDR I2C_BTLDR_REG_APP_INFO_SET (enc_app_info_set p) c c'
      \<and> dev_serving c' \<and> dev_flash c' = mem_with_block (dev_flash c) 0x1000 (header_block p)
      \<and> ai_size (dev_app_info c') = as_size p \<and> ai_crc16 (dev_app_info c') = as_crc16 p \<and> ai_app_ver (dev_app_info c') = as_app_ver p
      \<and> ai_status (dev_app_info c') AND APP_STATUS_AUTOBOOT_MASK = as_autoboot p AND APP_STATUS_AUTOBOOT_MASK"
proof -
  let ?t = "dev_write I2C_BTLDR_REG_APP_INFO_SET (enc_app_info_set p) (snd c)"
  have r: "dev_ready (snd c)" using assms by (simp add: dev_serving_def)
  note t = dev_write_app_info [OF r, of p, unfolded Let_def]
  have "steps (bus_write ram I2C_BTLDR_REG_APP_INFO_SET (enc_app_info_set p)) (snd c) ?t"
    using t dev_ready_fields(2) by (intro steps_write r) simp_all
  then obtain c' where c': "link_write (btldr_host ram fs) bus I2C_BTLDR_ADDR I2C_BTLDR_REG_APP_INFO_SET (enc_app_info_set p) c c'" "at_state c' ?t"
    using btldr_write [OF at_state_self [OF assms]] by blast
  show ?thesis using c'(1) at_state_fields [OF c'(2)] t dev_write_autoboot [OF r, of p] by (intro exI [of _ c']) (simp add: dev_flash_def)
qed

lemma law_write_block:
  assumes "dev_serving c" "region_addr r a" "length blk = FLASH_BLOCK_SIZE"
  shows "\<exists>d1 d2 d3 d4. link_write (btldr_host ram fs) bus I2C_BTLDR_ADDR (reg_write_addr r) (be32 a) c d1
    \<and> link_read (btldr_host ram fs) bus I2C_BTLDR_ADDR I2C_BTLDR_REG_STATUS [I2C_BTLDR_STATE_OK] d1 d2
    \<and> link_write (btldr_host ram fs) bus I2C_BTLDR_ADDR (reg_write_data r) blk d2 d3
    \<and> link_read (btldr_host ram fs) bus I2C_BTLDR_ADDR I2C_BTLDR_REG_STATUS [I2C_BTLDR_STATE_OK] d3 d4
    \<and> dev_serving d4 \<and> dev_flash d4 = mem_with_block (dev_flash c) a blk"
proof -
  define s where "s = snd c"
  have s: "dev_ready s" "at_state c s" using assms(1) at_state_self by (simp_all add: dev_serving_def s_def)
  define u where "u = dev_write (reg_write_addr r) (be32 a) s"
  define v where "v = dev_read I2C_BTLDR_REG_STATUS 2 u"
  define w where "w = dev_write (reg_write_data r) blk v"
  have u: "dev_ready u" "flash_state u = st_write_addr_ready r" "flash_addr u = a" "btldr_state u = I2C_BTLDR_STATE_OK" "mem u = mem s"
    using dev_write_addr(2) [OF s(1) assms(2)] by (simp_all add: Let_def u_def)
  have v: "dev_ready v" "flash_state v = st_write_data_ready r" "flash_addr v = a" "mem v = mem s"
    "dr_out v = dr_out u @ [0] @ [i2c_message_checksum [0] I2C_BTLDR_REG_STATUS]"
    using dev_read_status_write [OF u(1,2,4)] u by (simp_all add: Let_def v_def)
  have w: "dev_ready w" "btldr_state w = I2C_BTLDR_STATE_OK" "mem w = mem_with_block (mem s) a blk"
    using dev_write_block [OF v(1,2) _ assms(3)] v assms(2) by (simp_all add: Let_def w_def)
  obtain x where x: "steps (bus_read ram I2C_BTLDR_REG_STATUS 2) w x" "dev_ready x" "mem x = mem w"
    "dr_out x = dr_out w @ [0] @ [i2c_message_checksum [0] I2C_BTLDR_REG_STATUS]" using status_read [OF w(1)] w(2) by auto
  have 1: "steps (bus_write ram (reg_write_addr r) (be32 a)) s u"
    unfolding u_def using u(1) dev_ready_fields(2) by (intro steps_write s(1)) (simp_all add: u_def)
  have 2: "steps (bus_read ram I2C_BTLDR_REG_STATUS 2) u v" unfolding v_def by (rule steps_status [OF u(1)])
  have 3: "steps (bus_write ram (reg_write_data r) blk) v w"
    unfolding w_def using w(1) dev_ready_fields(2) assms(3) by (intro steps_write v(1)) (simp_all add: w_def)
  obtain d1 where d1: "link_write (btldr_host ram fs) bus I2C_BTLDR_ADDR (reg_write_addr r) (be32 a) c d1" "at_state d1 u"
    using btldr_write [OF s(2) 1] by blast
  obtain d2 where d2: "link_read (btldr_host ram fs) bus I2C_BTLDR_ADDR I2C_BTLDR_REG_STATUS [0] d1 d2" "at_state d2 v"
    using btldr_read [OF d1(2), of ram I2C_BTLDR_REG_STATUS "[0]" v fs bus] 2 v(5) by (simp add: numeral_2_eq_2) blast
  obtain d3 where d3: "link_write (btldr_host ram fs) bus I2C_BTLDR_ADDR (reg_write_data r) blk d2 d3" "at_state d3 w"
    using btldr_write [OF d2(2) 3] by blast
  obtain d4 where d4: "link_read (btldr_host ram fs) bus I2C_BTLDR_ADDR I2C_BTLDR_REG_STATUS [0] d3 d4" "at_state d4 x"
    using btldr_read [OF d3(2), of ram I2C_BTLDR_REG_STATUS "[0]" x fs bus] x(1,4) by (simp add: numeral_2_eq_2) blast
  have "dev_serving d4" "dev_flash d4 = mem_with_block (dev_flash c) a blk"
    using at_state_fields [OF d4(2)] x w by (simp_all add: dev_flash_def s_def)
  then show ?thesis using d1(1) d2(1) d3(1) d4(1) by blast
qed

lemma law_read_block:
  assumes "dev_serving c" "region_addr r a"
  shows "\<exists>d1 d2 d3. link_write (btldr_host ram fs) bus I2C_BTLDR_ADDR (reg_read_addr r) (be32 a) c d1
    \<and> link_read (btldr_host ram fs) bus I2C_BTLDR_ADDR I2C_BTLDR_REG_STATUS [I2C_BTLDR_STATE_OK] d1 d2
    \<and> link_read (btldr_host ram fs) bus I2C_BTLDR_ADDR (reg_read_data r) (read_block (dev_flash c) (ucast a)) d2 d3
    \<and> dev_serving d3 \<and> dev_flash d3 = dev_flash c \<and> dev_app_info d3 = dev_app_info c"
proof -
  define s where "s = snd c"
  have s: "dev_ready s" "at_state c s" using assms(1) at_state_self by (simp_all add: dev_serving_def s_def)
  define u where "u = dev_write (reg_read_addr r) (be32 a) s"
  define v where "v = dev_read I2C_BTLDR_REG_STATUS 2 u"
  define blk where "blk = read_block (mem s) (ucast a)"
  define w where "w = dev_read (reg_read_data r) (FLASH_BLOCK_SIZE + 1) v"
  have u: "dev_ready u" "flash_state u = st_read_addr_ready r" "flash_addr u = a" "btldr_state u = I2C_BTLDR_STATE_OK" "mem u = mem s"
    "app_status u = app_status s"
    using dev_write_addr(1) [OF s(1) assms(2)] by (simp_all add: Let_def u_def)
  have v: "dev_ready v" "flash_state v = st_read_data_ready r" "mem v = mem s" "app_status v = app_status s" "i2c_out_remaining v = 0x80"
    "take FLASH_BLOCK_SIZE (i2c_buf v) = blk" "dr_out v = dr_out u @ [0] @ [i2c_message_checksum [0] I2C_BTLDR_REG_STATUS]"
    using dev_read_status_read [OF u(1,2,4)] u by (simp_all add: Let_def v_def blk_def)
  have w: "dev_ready w" "mem w = mem s" "app_status w = app_status s"
    "dr_out w = dr_out v @ blk @ [i2c_message_checksum blk (reg_read_data r)]"
    using dev_read_block [OF v(1,2,5,6)] v by (simp_all add: Let_def w_def)
  have len: "length blk = FLASH_BLOCK_SIZE" by (simp add: blk_def)
  have 1: "steps (bus_write ram (reg_read_addr r) (be32 a)) s u"
    unfolding u_def using u(1) dev_ready_fields(2) by (intro steps_write s(1)) (simp_all add: u_def)
  have 2: "steps (bus_read ram I2C_BTLDR_REG_STATUS 2) u v" unfolding v_def by (rule steps_status [OF u(1)])
  have "i2c_out_remaining (dev_out (reg_read_data r) v) = 0x80"
    using cmd_data_out_read [of "v\<lparr>i2c_reg := reg_read_data r, i2c_state := I2C_STATE_OUT_START_WAIT\<rparr>" r] v by (simp add: dev_out_remaining)
  then have 3: "steps (bus_read ram (reg_read_data r) (FLASH_BLOCK_SIZE + 1)) v w"
    unfolding w_def using w(1) dev_ready_fields(2) by (intro steps_read v(1)) (simp_all add: w_def)
  obtain d1 where d1: "link_write (btldr_host ram fs) bus I2C_BTLDR_ADDR (reg_read_addr r) (be32 a) c d1" "at_state d1 u"
    using btldr_write [OF s(2) 1] by blast
  obtain d2 where d2: "link_read (btldr_host ram fs) bus I2C_BTLDR_ADDR I2C_BTLDR_REG_STATUS [0] d1 d2" "at_state d2 v"
    using btldr_read [OF d1(2), of ram I2C_BTLDR_REG_STATUS "[0]" v fs bus] 2 v(7) by (simp add: numeral_2_eq_2) blast
  obtain d3 where d3: "link_read (btldr_host ram fs) bus I2C_BTLDR_ADDR (reg_read_data r) blk d2 d3" "at_state d3 w"
    using btldr_read [OF d2(2), of ram "reg_read_data r" blk w fs bus] 3 w(4) len by simp blast
  have "dev_serving d3" "dev_flash d3 = dev_flash c" "dev_app_info d3 = dev_app_info c"
    using at_state_fields [OF d3(2)] w read_app_info_cong [of w s] by (simp_all add: dev_flash_def dev_app_info_def s_def)
  then show ?thesis using d1(1) d2(1) d3(1) unfolding blk_def s_def dev_flash_def by blast
qed

lemma law_bad_addr:
  assumes "dev_serving c" "\<not> region_addr r a"
  shows "\<exists>d1 d2. link_write (btldr_host ram fs) bus I2C_BTLDR_ADDR (reg_write_addr r) (be32 a) c d1
    \<and> link_read (btldr_host ram fs) bus I2C_BTLDR_ADDR I2C_BTLDR_REG_STATUS [I2C_BTLDR_STATE_INVALID_ADDR] d1 d2
    \<and> dev_serving d2 \<and> dev_flash d2 = dev_flash c"
proof -
  have r: "dev_ready (snd c)" using assms(1) by (simp add: dev_serving_def)
  obtain t where t: "steps (bus_write ram (reg_write_addr r) (be32 a)) (snd c) t" "dev_ready t" "mem t = mem (snd c)"
    "btldr_state t = I2C_BTLDR_STATE_INVALID_ADDR" using bad_address [OF r assms(2)] by blast
  obtain x where x: "steps (bus_read ram I2C_BTLDR_REG_STATUS 2) t x" "dev_ready x" "mem x = mem t"
    "dr_out x = dr_out t @ [7] @ [i2c_message_checksum [7] I2C_BTLDR_REG_STATUS]" using status_read [OF t(2)] t(4) by auto
  obtain d1 where d1: "link_write (btldr_host ram fs) bus I2C_BTLDR_ADDR (reg_write_addr r) (be32 a) c d1" "at_state d1 t"
    using btldr_write [OF at_state_self [OF assms(1)] t(1)] by blast
  obtain d2 where d2: "link_read (btldr_host ram fs) bus I2C_BTLDR_ADDR I2C_BTLDR_REG_STATUS [7] d1 d2" "at_state d2 x"
    using btldr_read [OF d1(2), of ram I2C_BTLDR_REG_STATUS "[7]" x fs bus] x(1,4) by (simp add: numeral_2_eq_2) blast
  have "dev_serving d2" "dev_flash d2 = dev_flash c" using at_state_fields [OF d2(2)] x t by (simp_all add: dev_flash_def)
  then show ?thesis using d1(1) d2(1) by blast
qed

text \<open>The options the tool runs with: any bus, and the address of the bootloader.\<close>

definition at_btldr :: "ioutil_opts \<Rightarrow> ioutil_opts" where
  "at_btldr g = g\<lparr>btldr_addr := I2C_BTLDR_ADDR\<rparr>"

interpretation bl: btldr_link "btldr_host ram fs" "at_btldr g" dev_serving dev_flash dev_app_info for ram fs g
proof unfold_locales
  fix n show "env_malloc (btldr_host ram fs) n" by (simp add: btldr_host_def)
next
  fix d assume d: "dev_serving d"
  then have r: "dev_ready (snd d)" by (simp add: dev_serving_def)
  show "\<exists>d' st. link_read (btldr_host ram fs) (i2c_bus (at_btldr g)) (btldr_addr (at_btldr g)) I2C_BTLDR_REG_STATUS [st] d d'
      \<and> dev_serving d' \<and> dev_flash d' = dev_flash d \<and> dev_app_info d' = dev_app_info d"
    using law_status [OF d] by (simp add: at_btldr_def)
  show "\<exists>d'. link_read (btldr_host ram fs) (i2c_bus (at_btldr g)) (btldr_addr (at_btldr g)) I2C_BTLDR_REG_BTLDR_INFO
        (enc_btldr_info I2C_BTLDR_INFO_SLAVE_ENDIAN I2C_BTLDR_INFO_PROTO_VERSION BTLDR_VERSION) d d'
      \<and> dev_serving d' \<and> dev_flash d' = dev_flash d \<and> dev_app_info d' = dev_app_info d"
    using law_read [OF d info_reads [OF r, of I2C_BTLDR_REG_BTLDR_INFO]] by (simp add: at_btldr_def)
  show "\<exists>d'. link_read (btldr_host ram fs) (i2c_bus (at_btldr g)) (btldr_addr (at_btldr g)) I2C_BTLDR_REG_FLASH_INFO (enc_flash_info btldr_flash_info) d d'
      \<and> dev_serving d' \<and> dev_flash d' = dev_flash d \<and> dev_app_info d' = dev_app_info d"
    using law_read [OF d info_reads [OF r, of I2C_BTLDR_REG_FLASH_INFO]] by (simp add: at_btldr_def)
  show "\<exists>d'. link_read (btldr_host ram fs) (i2c_bus (at_btldr g)) (btldr_addr (at_btldr g)) I2C_BTLDR_REG_APP_INFO (enc_app_info (dev_app_info d)) d d'
      \<and> dev_serving d' \<and> dev_flash d' = dev_flash d \<and> dev_app_info d' = dev_app_info d"
    using law_read [OF d info_reads [OF r, of I2C_BTLDR_REG_APP_INFO]] by (simp add: at_btldr_def dev_app_info_def)
  fix p
  show "\<exists>d'. link_write (btldr_host ram fs) (i2c_bus (at_btldr g)) (btldr_addr (at_btldr g)) I2C_BTLDR_REG_APP_INFO_SET (enc_app_info_set p) d d'
      \<and> dev_serving d' \<and> dev_flash d' = mem_with_block (dev_flash d) 0x1000 (header_block p)
      \<and> ai_size (dev_app_info d') = as_size p \<and> ai_crc16 (dev_app_info d') = as_crc16 p \<and> ai_app_ver (dev_app_info d') = as_app_ver p
      \<and> ai_status (dev_app_info d') AND APP_STATUS_AUTOBOOT_MASK = as_autoboot p AND APP_STATUS_AUTOBOOT_MASK"
    using law_app_info_set [OF d] by (simp add: at_btldr_def)
next
  fix d r a and blk :: bytes assume "dev_serving d" "region_addr r a" "length blk = FLASH_BLOCK_SIZE"
  from law_write_block [OF this] show "\<exists>d1 d2 d3 d4. link_write (btldr_host ram fs) (i2c_bus (at_btldr g)) (btldr_addr (at_btldr g)) (reg_write_addr r) (be32 a) d d1
      \<and> link_read (btldr_host ram fs) (i2c_bus (at_btldr g)) (btldr_addr (at_btldr g)) I2C_BTLDR_REG_STATUS [I2C_BTLDR_STATE_OK] d1 d2
      \<and> link_write (btldr_host ram fs) (i2c_bus (at_btldr g)) (btldr_addr (at_btldr g)) (reg_write_data r) blk d2 d3
      \<and> link_read (btldr_host ram fs) (i2c_bus (at_btldr g)) (btldr_addr (at_btldr g)) I2C_BTLDR_REG_STATUS [I2C_BTLDR_STATE_OK] d3 d4
      \<and> dev_serving d4 \<and> dev_flash d4 = mem_with_block (dev_flash d) a blk"
    by (simp add: at_btldr_def)
next
  fix d r a assume "dev_serving d" "region_addr r a"
  from law_read_block [OF this] show "\<exists>d1 d2 d3. link_write (btldr_host ram fs) (i2c_bus (at_btldr g)) (btldr_addr (at_btldr g)) (reg_read_addr r) (be32 a) d d1
      \<and> link_read (btldr_host ram fs) (i2c_bus (at_btldr g)) (btldr_addr (at_btldr g)) I2C_BTLDR_REG_STATUS [I2C_BTLDR_STATE_OK] d1 d2
      \<and> link_read (btldr_host ram fs) (i2c_bus (at_btldr g)) (btldr_addr (at_btldr g)) (reg_read_data r) (read_block (dev_flash d) (ucast a)) d2 d3
      \<and> dev_serving d3 \<and> dev_flash d3 = dev_flash d \<and> dev_app_info d3 = dev_app_info d"
    by (simp add: at_btldr_def)
next
  fix d r a assume "dev_serving d" "\<not> region_addr r a"
  from law_bad_addr [OF this] show "\<exists>d1 d2. link_write (btldr_host ram fs) (i2c_bus (at_btldr g)) (btldr_addr (at_btldr g)) (reg_write_addr r) (be32 a) d d1
      \<and> link_read (btldr_host ram fs) (i2c_bus (at_btldr g)) (btldr_addr (at_btldr g)) I2C_BTLDR_REG_STATUS [I2C_BTLDR_STATE_INVALID_ADDR] d1 d2
      \<and> dev_serving d2 \<and> dev_flash d2 = dev_flash d"
    by (simp add: at_btldr_def)
qed

end
