(* ===== verification/Ctrl_Led.thy ===== *)
theory Ctrl_Led
  imports Beep_Prelude
begin

text \<open>
  The LED array of the controller application (\<open>iomcu/controller/led.c\<close> and the TIM4
  interrupt of \<open>stm8l15x_it.c\<close>), in the configuration \<open>controller.h\<close> selects: four rows of
  six columns, 8 bit PWM values, splash pattern at boot. \<open>led_update_arr\<close> turns the PWM table
  into a schedule of timer operations, which the interrupt plays row by row.
\<close>

section \<open>Constants and state\<close>

abbreviation LED_ROW_SIZE :: nat where "LED_ROW_SIZE \<equiv> 4"
abbreviation LED_COL_SIZE :: nat where "LED_COL_SIZE \<equiv> 6"
abbreviation LED_TOT_SIZE :: nat where "LED_TOT_SIZE \<equiv> 24"
abbreviation LED_OP_COUNT :: nat where "LED_OP_COUNT \<equiv> 28"
abbreviation CTRL_LED_ROW_0 :: u8 where "CTRL_LED_ROW_0 \<equiv> 1"
abbreviation CTRL_LED_COL_ALL :: u8 where "CTRL_LED_COL_ALL \<equiv> 0x3f"
abbreviation LED_OP_COL_MASK :: u8 where "LED_OP_COL_MASK \<equiv> 0x3f"
abbreviation LED_OP_ROW_INC :: u8 where "LED_OP_ROW_INC \<equiv> 0x40"
abbreviation LED_OP_LOOP :: u8 where "LED_OP_LOOP \<equiv> 0x80"
abbreviation LED_STATE_PWM_READY :: u8 where "LED_STATE_PWM_READY \<equiv> 0x01"
abbreviation LED_STATE_OPS_READY :: u8 where "LED_STATE_OPS_READY \<equiv> 0x02"
abbreviation LED_STATE_OFF_TIME :: u8 where "LED_STATE_OFF_TIME \<equiv> 0x04"
abbreviation LED_OFF_TIME_ARR :: u8 where "LED_OFF_TIME_ARR \<equiv> 25"
abbreviation LED_ARR_DELTA_MIN :: int where "LED_ARR_DELTA_MIN \<equiv> 1"
abbreviation LED_MAX_ROW_ARR :: u8 where "LED_MAX_ROW_ARR \<equiv> 255"
abbreviation RESTART_INTERRUPT_ARR :: u8 where "RESTART_INTERRUPT_ARR \<equiv> 5"

definition led_lut :: "nat list" where
  "led_lut = [9, 13, 17, 21, 1, 5,
              8, 12, 16, 20, 0, 4,
              7, 11, 15, 19, 23, 3,
              6, 10, 14, 18, 22, 2]"

definition burn_arr_table :: bytes where "burn_arr_table = [18, 37, 55, 73, 91]"

record LedArrayOp =
  op_arr :: u8
  op_op :: u8

record LedArrayCalc =
  calc_idx :: bytes
  calc_arr :: bytes
  calc_rarr :: bytes

datatype led_table = LED_TABLE_OPS_A | LED_TABLE_OPS_B

text \<open>
  The tables of \<open>led_data\<close> and the globals; a pointer into an operation table is the table
  and an index, -1 for the element before the first that the interrupt points to while it
  restarts a table. \<open>led_rows\<close> and \<open>led_cols\<close> are the LED bits of the output registers of
  ports D and B, \<open>tim4_arr\<close> the auto-reload register.
\<close>

record led =
  led_state :: u8
  led_calc_table :: LedArrayCalc
  led_pwm_table :: bytes
  led_ops_a :: "LedArrayOp list"
  led_ops_b :: "LedArrayOp list"
  led_ops_table :: led_table
  led_current_op :: "led_table \<times> int"
  active_row :: u8
  inactive_cols :: u8
  led_rows :: u8
  led_cols :: u8
  tim4_arr :: u8

definition led_ops :: "led_table \<Rightarrow> led \<Rightarrow> LedArrayOp list" where
  "led_ops t s = (case t of LED_TABLE_OPS_A \<Rightarrow> led_ops_a s | LED_TABLE_OPS_B \<Rightarrow> led_ops_b s)"

definition led_other :: "led_table \<Rightarrow> led_table" where
  "led_other t = (if t = LED_TABLE_OPS_A then LED_TABLE_OPS_B else LED_TABLE_OPS_A)"

definition set_led_ops :: "led_table \<Rightarrow> LedArrayOp list \<Rightarrow> led \<Rightarrow> led" where
  "set_led_ops t ops s = (case t of LED_TABLE_OPS_A \<Rightarrow> s\<lparr>led_ops_a := ops\<rparr> | LED_TABLE_OPS_B \<Rightarrow> s\<lparr>led_ops_b := ops\<rparr>)"

definition led_data_init :: "led \<Rightarrow> led" where
  "led_data_init s =
     (let s1 = s\<lparr>led_state := 0, led_ops_table := LED_TABLE_OPS_B, led_current_op := (LED_TABLE_OPS_B, 0)\<rparr>
      in s1\<lparr>led_ops_b := put_at 0
           [\<lparr>op_arr = LED_MAX_ROW_ARR, op_op = 0x74\<rparr>, \<lparr>op_arr = LED_MAX_ROW_ARR, op_op = 0x78\<rparr>,
            \<lparr>op_arr = LED_MAX_ROW_ARR, op_op = 0x78\<rparr>, \<lparr>op_arr = LED_MAX_ROW_ARR, op_op = 0xd9\<rparr>] (led_ops_b s1)\<rparr>)"

section \<open>Sorting a row\<close>

text \<open>\<open>SWAP_IDX\<close>: compare through the indexes and exchange them by three XORs.\<close>

definition SWAP_IDX :: "bytes \<Rightarrow> nat \<Rightarrow> nat \<Rightarrow> bytes \<Rightarrow> bytes" where
  "SWAP_IDX d a b i =
     (if d ! unat (i ! a) > d ! unat (i ! b) then
        let i1 = i[a := i ! a XOR i ! b];
            i2 = i1[b := i1 ! b XOR i1 ! a]
        in i2[a := i2 ! a XOR i2 ! b]
      else i)"

definition swap_row :: "bytes \<Rightarrow> bytes \<Rightarrow> bytes" where
  "swap_row arr idx =
     (SWAP_IDX arr 2 3 \<circ> SWAP_IDX arr 1 3 \<circ> SWAP_IDX arr 2 4 \<circ> SWAP_IDX arr 2 5 \<circ> SWAP_IDX arr 1 4
      \<circ> SWAP_IDX arr 0 3 \<circ> SWAP_IDX arr 3 4 \<circ> SWAP_IDX arr 3 5 \<circ> SWAP_IDX arr 4 5
      \<circ> SWAP_IDX arr 0 1 \<circ> SWAP_IDX arr 0 2 \<circ> SWAP_IDX arr 1 2) idx"

section \<open>The schedule\<close>

text \<open>
  The row loops. \<open>LED_ARR_IDX(arr, idx, LED_OFFSET(i, j))\<close> is element \<open>idx[j]\<close> of row \<open>i\<close> of
  \<open>arr\<close>; the inner loops over \<open>j\<close> go through the row's indexes in order.
\<close>

definition led_row :: "nat \<Rightarrow> 'a list \<Rightarrow> 'a list" where
  "led_row i xs = get_at (i * LED_COL_SIZE) LED_COL_SIZE xs"

fun combine_row :: "bytes \<Rightarrow> bytes \<Rightarrow> u8 \<Rightarrow> bytes" where
  "combine_row [] arr t = arr"
| "combine_row (k # ks) arr t =
     (if uint (arr ! unat k) - uint t \<ge> LED_ARR_DELTA_MIN then combine_row ks arr (arr ! unat k)
      else combine_row ks (arr[unat k := t]) t)"

fun delta_row :: "bytes \<Rightarrow> bytes \<Rightarrow> u8 \<Rightarrow> bytes" where
  "delta_row [] arr t = arr"
| "delta_row (k # ks) arr t =
     (let arr' = arr[unat k := arr ! unat k - t] in delta_row ks arr' (arr' ! unat k + t))"

text \<open>The operations of one row, and the columns still to be switched off at its end.\<close>

fun ops_row :: "bytes \<Rightarrow> bytes \<Rightarrow> u8 \<Rightarrow> LedArrayOp list \<times> u8" where
  "ops_row [] arr t = ([], t)"
| "ops_row (k # ks) arr t =
     (let (ops, t') = ops_row ks arr ((if arr ! unat k \<noteq> 0 then 0 else t) OR push_bit (unat k) 1)
      in (if arr ! unat k \<noteq> 0 then \<lparr>op_arr = arr ! unat k, op_op = t\<rparr> # ops else ops, t'))"

text \<open>\<open>(p - 1)->op |= flag\<close> on the operations written so far.\<close>

definition or_last :: "u8 \<Rightarrow> LedArrayOp list \<Rightarrow> LedArrayOp list" where
  "or_last flag ops = (if ops = [] then [] else butlast ops @ [(last ops)\<lparr>op_op := op_op (last ops) OR flag\<rparr>])"

definition schedule_row :: "bytes \<Rightarrow> bytes \<Rightarrow> u8 \<Rightarrow> LedArrayOp list \<Rightarrow> LedArrayOp list" where
  "schedule_row idx arr rarr p =
     (let (ops, t) = ops_row idx arr 0
      in if rarr \<noteq> 0 then p @ ops @ [\<lparr>op_arr = rarr, op_op = LED_OP_ROW_INC OR t\<rparr>]
         else or_last LED_OP_ROW_INC (p @ ops))"

definition led_update_arr :: "led \<Rightarrow> led" where
  "led_update_arr s =
     (let arr0 = map (\<lambda>i. led_pwm_table s ! (led_lut ! i)) [0..<LED_TOT_SIZE];
          idx0 = map (\<lambda>i. of_nat (i mod LED_COL_SIZE)) [0..<LED_TOT_SIZE];
          idx = concat (map (\<lambda>i. swap_row (led_row i arr0) (led_row i idx0)) [0..<LED_ROW_SIZE]);
          rarr = map (\<lambda>i. LED_MAX_ROW_ARR - led_row i arr0 ! unat (led_row i idx ! (LED_COL_SIZE - 1))) [0..<LED_ROW_SIZE];
          arr1 = concat (map (\<lambda>i. combine_row (led_row i idx) (led_row i arr0) 0) [0..<LED_ROW_SIZE]);
          arr2 = concat (map (\<lambda>i. delta_row (led_row i idx) (led_row i arr1) 0) [0..<LED_ROW_SIZE]);
          ops = or_last LED_OP_LOOP
                  (fold (\<lambda>i. schedule_row (led_row i idx) (led_row i arr2) (rarr ! i)) [0..<LED_ROW_SIZE] []);
          t = led_other (led_ops_table s);
          s1 = s\<lparr>led_calc_table := \<lparr>calc_idx = idx, calc_arr = arr2, calc_rarr = rarr\<rparr>\<rparr>
      in (set_led_ops t (put_at 0 ops (led_ops t s1)) s1)\<lparr>led_state := led_state s OR LED_STATE_OPS_READY\<rparr>)"

section \<open>The timer interrupt\<close>

definition LED_TABLE_OPS_SWAP :: "led \<Rightarrow> led" where
  "LED_TABLE_OPS_SWAP s = s\<lparr>led_ops_table := led_other (led_ops_table s), led_state := 0\<rparr>"

definition led_op_at :: "led \<Rightarrow> led_table \<times> int \<Rightarrow> LedArrayOp" where
  "led_op_at s p = led_ops (fst p) s ! nat (snd p)"

text \<open>How a pass through the handler ends: back to the code it interrupted, or again from the
  top after a delay too short for the timer.\<close>

datatype tim4_exit = TIM4_RETURN | TIM4_AGAIN u8

definition tim4_next_row :: "led \<Rightarrow> led" where
  "tim4_next_row s =
     (let cur = led_op_at s (led_current_op s);
          s1 = s\<lparr>led_state := led_state s AND NOT LED_STATE_OFF_TIME, inactive_cols := 0\<rparr>;
          s2 = (if op_op cur AND LED_OP_LOOP \<noteq> 0 then
                  let s' = (if led_state s1 AND (LED_STATE_PWM_READY OR LED_STATE_OPS_READY) = LED_STATE_PWM_READY OR LED_STATE_OPS_READY
                            then (LED_TABLE_OPS_SWAP s1)\<lparr>led_state := 0\<rparr> else s1)
                  in s'\<lparr>led_current_op := (led_ops_table s', -1), active_row := CTRL_LED_ROW_0\<rparr>
                else s1\<lparr>active_row := push_bit 1 (active_row s1)\<rparr>);
          nxt = led_op_at s2 (fst (led_current_op s2), snd (led_current_op s2) + 1)
      in s2\<lparr>led_cols := led_cols s2 AND NOT (NOT (op_op nxt) AND LED_OP_COL_MASK)\<rparr>)"

definition tim4_start_op :: "led \<Rightarrow> tim4_exit \<times> led" where
  "tim4_start_op s =
     (let s1 = s\<lparr>led_current_op := (fst (led_current_op s), snd (led_current_op s) + 1)\<rparr>;
          cur = led_op_at s1 (led_current_op s1);
          s2 = s1\<lparr>led_cols := led_cols s1 OR (op_op cur AND LED_OP_COL_MASK),
                  inactive_cols := inactive_cols s1 OR (op_op cur AND LED_OP_COL_MASK)\<rparr>;
          s3 = (if inactive_cols s2 \<noteq> CTRL_LED_COL_ALL then s2\<lparr>led_rows := led_rows s2 OR active_row s2\<rparr> else s2)
      in if op_arr cur \<le> RESTART_INTERRUPT_ARR
         then (TIM4_AGAIN (burn_arr_table ! unat (op_arr cur - 1)), s3)
         else (TIM4_RETURN, s3\<lparr>tim4_arr := op_arr cur\<rparr>))"

definition tim4_pass :: "led \<Rightarrow> tim4_exit \<times> led" where
  "tim4_pass s0 =
     (let s = s0\<lparr>led_rows := led_rows s0 AND NOT (active_row s0)\<rparr>;
          cur = led_op_at s (led_current_op s)
      in if op_op cur AND LED_OP_ROW_INC \<noteq> 0 then
           if led_state s AND LED_STATE_OFF_TIME = 0 then
             (TIM4_RETURN, s\<lparr>led_cols := led_cols s OR CTRL_LED_COL_ALL, led_state := led_state s OR LED_STATE_OFF_TIME,
                tim4_arr := (if op_arr cur < LED_OFF_TIME_ARR then op_arr cur else LED_OFF_TIME_ARR)\<rparr>)
           else tim4_start_op (tim4_next_row s)
         else tim4_start_op s)"

text \<open>The interrupt: passes until one returns; \<open>None\<close> when the fuel does not suffice.\<close>

fun TIM4_UPD_OVF_TRG_IRQHandler :: "nat \<Rightarrow> led \<Rightarrow> led option" where
  "TIM4_UPD_OVF_TRG_IRQHandler 0 s = None"
| "TIM4_UPD_OVF_TRG_IRQHandler (Suc n) s =
     (case tim4_pass s of
        (TIM4_RETURN, s') \<Rightarrow> Some s'
      | (TIM4_AGAIN burn, s') \<Rightarrow> TIM4_UPD_OVF_TRG_IRQHandler n s')"

end
