(* ===== verification/Ctrl_Schedule.thy ===== *)
theory Ctrl_Schedule
  imports Ctrl_Led "HOL-Library.Multiset"
begin

text \<open>
  Correctness of the LED schedule: the sorting network sorts, and the operations of a row keep
  every LED of the row lit for exactly its PWM value out of 255 ticks.
\<close>

section \<open>Sorting networks\<close>

definition cmp_swap :: "nat \<Rightarrow> nat \<Rightarrow> 'a :: linorder list \<Rightarrow> 'a list" where
  "cmp_swap a b xs = (if xs ! a > xs ! b then xs[a := xs ! b, b := xs ! a] else xs)"

fun network :: "(nat \<times> nat) list \<Rightarrow> 'a :: linorder list \<Rightarrow> 'a list" where
  "network [] xs = xs"
| "network ((a, b) # net) xs = network net (cmp_swap a b xs)"

lemma length_cmp_swap [simp]: "length (cmp_swap a b xs) = length xs"
  by (simp add: cmp_swap_def)

lemma length_network [simp]: "length (network net xs) = length xs"
  by (induction net xs rule: network.induct) auto

lemma mset_swap_nth:
  "a < length xs \<Longrightarrow> b < length xs \<Longrightarrow> mset (xs[a := xs ! b, b := xs ! a]) = mset xs"
  by (cases "a = b") (simp_all add: mset_swap)

lemma cmp_swap_map:
  assumes "mono f" "a < length xs" "b < length xs"
  shows "map f (cmp_swap a b xs) = cmp_swap a b (map f xs)"
proof (cases "xs ! a > xs ! b")
  case True
  then have "f (xs ! b) \<le> f (xs ! a)" using assms(1) by (simp add: monoD)
  moreover have "map f (xs[a := xs ! b, b := xs ! a]) = map f xs" if "f (xs ! b) = f (xs ! a)"
    using that assms(2,3) by (auto simp: map_update list_update_same_conv nth_list_update intro!: nth_equalityI)
  ultimately show ?thesis
    using True assms(2,3) by (auto simp: cmp_swap_def map_update)
next
  case False
  then have "f (xs ! a) \<le> f (xs ! b)" using assms(1) by (simp add: monoD)
  with False show ?thesis using assms(2,3) by (auto simp: cmp_swap_def)
qed

lemma network_map:
  assumes "mono f" "\<forall>(a, b) \<in> set net. a < length xs \<and> b < length xs"
  shows "map f (network net xs) = network net (map f xs)"
  using assms(2)
proof (induction net xs rule: network.induct)
  case (2 a b net xs)
  then show ?case using assms(1) by (simp add: cmp_swap_map)
qed simp

text \<open>The 0-1 principle: a network that sorts all inputs of truth values sorts everything.\<close>

lemma zero_one_principle:
  assumes net: "\<forall>(a, b) \<in> set net. a < length xs \<and> b < length xs"
    and bools: "\<And>bs :: bool list. length bs = length xs \<Longrightarrow> sorted (network net bs)"
  shows "sorted (network net xs)"
proof (rule ccontr)
  assume "\<not> sorted (network net xs)"
  then obtain i j where ij: "i < j" "j < length xs" "network net xs ! j < network net xs ! i"
    unfolding sorted_iff_nth_mono_less by (auto simp: not_le)
  define f where "f = (\<lambda>x. network net xs ! j < x)"
  have "mono f" unfolding f_def by (intro monoI) (auto intro: less_le_trans)
  from network_map [OF this net] bools [of "map f xs"] have "sorted (map f (network net xs))" by simp
  then have "f (network net xs ! i) \<le> f (network net xs ! j)"
    using ij by (auto dest: sorted_nth_mono [of _ i j])
  then show False using ij by (simp add: f_def)
qed

definition row_network :: "(nat \<times> nat) list" where
  "row_network = [(1, 2), (0, 2), (0, 1), (4, 5), (3, 5), (3, 4), (0, 3), (1, 4), (2, 5), (2, 4), (1, 3), (2, 3)]"

lemma row_network_sorts_bools: "length bs = 6 \<Longrightarrow> sorted (network row_network (bs :: bool list))"
proof -
  assume "length bs = 6"
  then have "length bs = Suc (Suc (Suc (Suc (Suc (Suc 0)))))" by simp
  then obtain a b c d e f where "bs = [a, b, c, d, e, f]" by (auto simp: length_Suc_conv)
  then show ?thesis
    by (cases a; cases b; cases c; cases d; cases e; cases f)
      (simp_all add: row_network_def cmp_swap_def)
qed

lemma row_network_sorts: "length xs = 6 \<Longrightarrow> sorted (network row_network xs)"
  by (rule zero_one_principle) (simp add: row_network_def, simp add: row_network_sorts_bools)

section \<open>Sorting a row\<close>

definition row_vals :: "bytes \<Rightarrow> bytes \<Rightarrow> bytes" where
  "row_vals arr idx = map (\<lambda>k. arr ! unat k) idx"

lemma length_row_vals [simp]: "length (row_vals arr idx) = length idx"
  by (simp add: row_vals_def)

lemma SWAP_IDX_eq:
  assumes "a < length i" "b < length i" "a \<noteq> b"
  shows "SWAP_IDX d a b i = (if d ! unat (i ! a) > d ! unat (i ! b) then i[a := i ! b, b := i ! a] else i)"
proof -
  have "(x XOR y) XOR x = y" "y XOR (x XOR y) = x" for x y :: u8
    by (simp_all add: xor.assoc xor.left_commute xor.commute)
  then have "(let i1 = i[a := i ! a XOR i ! b]; i2 = i1[b := i1 ! b XOR i1 ! a] in i2[a := i2 ! a XOR i2 ! b])
      = i[a := i ! b, b := i ! a]"
    using assms by (auto simp: Let_def nth_list_update list_update_swap intro!: nth_equalityI)
  then show ?thesis by (simp add: SWAP_IDX_def)
qed

lemma length_SWAP_IDX [simp]: "length (SWAP_IDX d a b i) = length i"
  by (simp add: SWAP_IDX_def Let_def)

lemma row_vals_SWAP_IDX:
  "a < length i \<Longrightarrow> b < length i \<Longrightarrow> a \<noteq> b \<Longrightarrow> row_vals d (SWAP_IDX d a b i) = cmp_swap a b (row_vals d i)"
  by (simp add: SWAP_IDX_eq cmp_swap_def row_vals_def map_update)

lemma mset_SWAP_IDX:
  "a < length i \<Longrightarrow> b < length i \<Longrightarrow> a \<noteq> b \<Longrightarrow> mset (SWAP_IDX d a b i) = mset i"
  by (simp add: SWAP_IDX_eq mset_swap_nth)

lemma row_vals_swap_row: "length idx = 6 \<Longrightarrow> row_vals arr (swap_row arr idx) = network row_network (row_vals arr idx)"
  by (simp add: swap_row_def row_network_def row_vals_SWAP_IDX)

lemma swap_row_sorted: "length idx = 6 \<Longrightarrow> sorted (row_vals arr (swap_row arr idx))"
  by (simp add: row_vals_swap_row row_network_sorts)

lemma mset_swap_row: "length idx = 6 \<Longrightarrow> mset (swap_row arr idx) = mset idx"
  by (simp add: swap_row_def mset_SWAP_IDX)

lemma length_swap_row [simp]: "length (swap_row arr idx) = length idx"
  by (simp add: swap_row_def)

section \<open>Combining and differences\<close>

lemma combine_row_sorted:
  "sorted (row_vals arr ks) \<Longrightarrow> \<forall>k \<in> set ks. t \<le> arr ! unat k \<and> unat k < length arr \<Longrightarrow> combine_row ks arr t = arr"
proof (induction ks arbitrary: t)
  case (Cons k ks)
  then have le: "\<forall>k' \<in> set ks. arr ! unat k \<le> arr ! unat k'" by (simp add: row_vals_def)
  have "arr ! unat k = t" if "\<not> uint (arr ! unat k) - uint t \<ge> 1"
    using that Cons.prems(2) by (simp add: word_le_def word_uint_eq_iff)
  then show ?case using Cons le by (auto simp: row_vals_def)
qed simp

lemma length_delta_row [simp]: "length (delta_row ks arr t) = length arr"
  by (induction ks arr t rule: delta_row.induct) (auto simp: Let_def)

lemma delta_row_other: "j \<notin> unat ` set ks \<Longrightarrow> delta_row ks arr t ! j = arr ! j"
proof (induction ks arr t rule: delta_row.induct)
  case (2 k ks arr t)
  then show ?case by (auto simp: Let_def)
qed simp

lemma ops_row_cong: "\<forall>k \<in> set ks. arr ! unat k = arr' ! unat k \<Longrightarrow> ops_row ks arr t = ops_row ks arr' t"
  by (induction ks arbitrary: t) auto

section \<open>The operations of a row\<close>

text \<open>
  The operations as a function of the LEDs of a row in the order they go off: pairs of column
  and PWM value, the value before, and the columns to switch off next.
\<close>

fun row_plan :: "(u8 \<times> u8) list \<Rightarrow> u8 \<Rightarrow> u8 \<Rightarrow> LedArrayOp list \<times> u8" where
  "row_plan [] p m = ([], m)"
| "row_plan ((k, v) # r) p m =
     (let (ops, m') = row_plan r v ((if v \<noteq> p then 0 else m) OR push_bit (unat k) 1)
      in (if v \<noteq> p then \<lparr>op_arr = v - p, op_op = m\<rparr> # ops else ops, m'))"

lemma ops_row_delta:
  assumes "distinct ks" "\<forall>k \<in> set ks. unat k < length arr"
  shows "ops_row ks (delta_row ks arr p) m = row_plan (map (\<lambda>k. (k, arr ! unat k)) ks) p m"
  using assms
proof (induction ks arbitrary: arr p m)
  case (Cons k ks)
  let ?arr = "arr[unat k := arr ! unat k - p]"
  have k: "unat k \<notin> unat ` set ks" using Cons.prems(1) by (auto simp: image_iff simp flip: word_unat_eq_iff)
  have "delta_row (k # ks) arr p = delta_row ks ?arr (arr ! unat k)"
    using Cons.prems(2) by (simp add: Let_def)
  moreover have "delta_row ks ?arr (arr ! unat k) ! unat k = arr ! unat k - p"
    using k Cons.prems(2) by (simp add: delta_row_other)
  moreover have "ops_row ks (delta_row ks ?arr (arr ! unat k)) m' = row_plan (map (\<lambda>k. (k, arr ! unat k)) ks) (arr ! unat k) m'" for m'
  proof -
    have eq: "map (\<lambda>k. (k, ?arr ! unat k)) ks = map (\<lambda>k. (k, arr ! unat k)) ks"
      using k by (auto simp: nth_list_update image_iff)
    have "ops_row ks (delta_row ks ?arr (arr ! unat k)) m' = row_plan (map (\<lambda>k. (k, ?arr ! unat k)) ks) (arr ! unat k) m'"
      by (rule Cons.IH) (use Cons.prems in auto)
    then show ?thesis by (simp only: eq)
  qed
  ultimately show ?case by simp
qed simp

definition on_time :: "nat \<Rightarrow> LedArrayOp list \<Rightarrow> nat" where
  "on_time c ops = (\<Sum>op \<leftarrow> takeWhile (\<lambda>op. \<not> bit (op_op op) c) ops. unat (op_arr op))"

definition row_time :: "LedArrayOp list \<Rightarrow> nat" where
  "row_time ops = (\<Sum>op \<leftarrow> ops. unat (op_arr op))"

lemma on_time_Nil [simp]: "on_time c [] = 0"
  by (simp add: on_time_def)

lemma on_time_Cons [simp]:
  "on_time c (op # ops) = (if bit (op_op op) c then 0 else unat (op_arr op) + on_time c ops)"
  by (simp add: on_time_def)

lemma row_time_simps [simp]: "row_time [] = 0" "row_time (op # ops) = unat (op_arr op) + row_time ops"
  "row_time (xs @ ys) = row_time xs + row_time ys"
  by (simp_all add: row_time_def)

text \<open>The operations of a row with the closing delay.\<close>

definition row_ops :: "(u8 \<times> u8) list \<Rightarrow> u8 \<Rightarrow> u8 \<Rightarrow> LedArrayOp list" where
  "row_ops kvs p m = (let v = snd (last ((0, p) # kvs)) in
     fst (row_plan kvs p m) @ (if v \<noteq> 255 then [\<lparr>op_arr = 255 - v, op_op = 0x40 OR snd (row_plan kvs p m)\<rparr>] else []))"

lemma row_ops_Nil: "row_ops [] p m = (if p \<noteq> 255 then [\<lparr>op_arr = 255 - p, op_op = 0x40 OR m\<rparr>] else [])"
  by (simp add: row_ops_def)

lemma row_ops_Cons:
  "row_ops ((k, v) # r) p m = (if v \<noteq> p then [\<lparr>op_arr = v - p, op_op = m\<rparr>] else [])
     @ row_ops r v ((if v \<noteq> p then 0 else m) OR push_bit (unat k) 1)"
  by (cases r) (auto simp: row_ops_def Let_def case_prod_beta)

lemma row_ops_time:
  assumes "sorted (map snd kvs)" "\<forall>v \<in> snd ` set kvs. p \<le> v"
  shows "row_time (row_ops kvs p m) = 255 - unat p"
  using assms
proof (induction kvs arbitrary: p m)
  case Nil
  have "unat p \<le> 255" using unat_less_256 [of p] by linarith
  then have "unat (255 - p) = 255 - unat p" using unat_sub [of p 255] by (simp add: word_le_nat_alt)
  moreover have "unat p = 255 \<longleftrightarrow> p = 255" by (simp add: word_unat_eq_iff)
  ultimately show ?case by (auto simp: row_ops_Nil)
next
  case (Cons kv r)
  obtain k v where kv: "kv = (k, v)" by (cases kv)
  have "unat (v - p) = unat v - unat p" "unat p \<le> unat v" using Cons.prems(2) kv by (auto simp: unat_sub word_le_nat_alt)
  moreover have "unat v \<le> 255" using unat_less_256 [of v] by linarith
  moreover have "row_time (row_ops r v m') = 255 - unat v" for m' using Cons.IH [of v m'] Cons.prems kv by auto
  ultimately show ?case using kv by (simp add: row_ops_Cons)
qed

lemma row_ops_off:
  assumes "bit m c"
  shows "on_time c (row_ops kvs p m) = 0"
  using assms
proof (induction kvs arbitrary: p m)
  case (Cons kv r)
  then show ?case by (cases kv) (auto simp: row_ops_Cons bit_simps)
qed (simp add: row_ops_Nil bit_simps)

lemma row_ops_on:
  assumes "sorted (map snd kvs)" "\<forall>v \<in> snd ` set kvs. p \<le> v" "distinct (map fst kvs)"
    "\<forall>k \<in> fst ` set kvs. unat k < 6 \<and> \<not> bit m (unat k)" "(k, v) \<in> set kvs"
  shows "on_time (unat k) (row_ops kvs p m) = unat v - unat p"
  using assms
proof (induction kvs arbitrary: p m)
  case (Cons kv r)
  obtain k' v' where kv: "kv = (k', v')" by (cases kv)
  let ?m = "(if v' \<noteq> p then 0 else m) OR push_bit (unat k') 1"
  have diff: "unat (v' - p) = unat v' - unat p" "unat p \<le> unat v'"
    using Cons.prems(2) kv by (auto simp: unat_sub word_le_nat_alt)
  show ?case
  proof (cases "k = k'")
    case True
    then have "v = v'" using Cons.prems(3,5) kv by (auto simp: image_iff)
    moreover have "on_time (unat k) (row_ops r v' ?m) = 0"
      using True Cons.prems(4) kv by (intro row_ops_off) (auto simp: bit_simps)
    ultimately show ?thesis
      using True diff Cons.prems(4) kv by (cases "v' = p") (simp_all add: row_ops_Cons)
  next
    case False
    then have kr: "(k, v) \<in> set r" using Cons.prems(5) kv by auto
    then have "unat v' \<le> unat v" using Cons.prems(1) kv by (auto simp: word_le_nat_alt)
    have "\<not> bit ?m (unat k2)" "unat k2 < 6" if "k2 \<in> fst ` set r" for k2
    proof -
      have "k2 \<noteq> k'" using that Cons.prems(3) kv by auto
      then have "unat k2 \<noteq> unat k'" by (simp add: word_unat_eq_iff)
      then show "\<not> bit ?m (unat k2)" "unat k2 < 6" using that Cons.prems(4) kv by (auto simp: bit_simps)
    qed
    then have "on_time (unat k) (row_ops r v' ?m) = unat v - unat v'"
      using Cons.prems kv kr by (intro Cons.IH) auto
    moreover have "\<not> bit m (unat k)" using Cons.prems(4) kr by force
    ultimately show ?thesis
      using diff \<open>unat v' \<le> unat v\<close> kv by (cases "v' = p") (simp_all add: row_ops_Cons)
  qed
qed simp

lemma row_ops_nonzero: "op \<in> set (row_ops kvs p m) \<Longrightarrow> op_arr op \<noteq> 0"
proof (induction kvs arbitrary: p m)
  case (Cons kv r)
  then show ?case by (cases kv) (auto simp: row_ops_Cons split: if_splits)
qed (auto simp: row_ops_Nil split: if_splits)

lemma row_ops_length: "length (row_ops kvs p m) \<le> length kvs + 1"
proof (induction kvs arbitrary: p m)
  case (Cons kv r)
  then show ?case by (cases kv) (auto simp: row_ops_Cons intro: le_SucI)
qed (simp add: row_ops_Nil)

lemma row_plan_masks:
  assumes "\<forall>k \<in> fst ` set kvs. unat k < 6" "\<forall>n \<ge> 6. \<not> bit m n" "op \<in> set (fst (row_plan kvs p m))" "6 \<le> n"
  shows "\<not> bit (op_op op) n"
  using assms
proof (induction kvs arbitrary: p m)
  case (Cons kv r)
  obtain k v where kv: "kv = (k, v)" by (cases kv)
  let ?m = "(if v \<noteq> p then 0 else m) OR push_bit (unat k) 1"
  have "\<forall>n \<ge> 6. \<not> bit ?m n" using Cons.prems(1,2) kv by (auto simp: bit_simps)
  moreover have "\<forall>k \<in> fst ` set r. unat k < 6" using Cons.prems(1) by simp
  ultimately show ?case
    using Cons.IH [of ?m v] Cons.prems kv by (auto simp: case_prod_beta Let_def split: if_splits)
qed simp

lemma row_plan_mask:
  assumes "\<forall>k \<in> fst ` set kvs. unat k < 6" "\<forall>n \<ge> 6. \<not> bit m n" "6 \<le> n"
  shows "\<not> bit (snd (row_plan kvs p m)) n"
  using assms
proof (induction kvs arbitrary: p m)
  case (Cons kv r)
  obtain k v where kv: "kv = (k, v)" by (cases kv)
  let ?m = "(if v \<noteq> p then 0 else m) OR push_bit (unat k) 1"
  have "\<forall>n \<ge> 6. \<not> bit ?m n" using Cons.prems(1,2) kv by (auto simp: bit_simps)
  then show ?case using Cons.IH [of ?m v] Cons.prems kv by (auto simp: case_prod_beta Let_def)
qed simp

lemma bit_row_inc: "bit (0x40 :: u8) n \<longleftrightarrow> n = 6" "bit (0x80 :: u8) n \<longleftrightarrow> n = 7"
proof -
  have "bit (2 ^ k :: u8) n \<longleftrightarrow> n = k \<and> k < 8" for k by (auto simp: bit_simps)
  from this [of 6] this [of 7] show "bit (0x40 :: u8) n \<longleftrightarrow> n = 6" "bit (0x80 :: u8) n \<longleftrightarrow> n = 7" by simp_all
qed

lemma flag_bits:
  assumes "c < 6"
  shows "\<not> bit (0x40 :: u8) c" "\<not> bit (0x80 :: u8) c"
proof -
  have "c \<noteq> 6" "c \<noteq> 7" using assms by simp_all
  then show "\<not> bit (0x40 :: u8) c" "\<not> bit (0x80 :: u8) c" using bit_row_inc [of c] by blast+
qed

section \<open>A row of the schedule\<close>

text \<open>The operations \<open>ops\<close> play one row of LEDs with the PWM values \<open>v\<close>.\<close>

definition row_shows :: "(nat \<Rightarrow> u8) \<Rightarrow> LedArrayOp list \<Rightarrow> bool" where
  "row_shows v ops \<longleftrightarrow> ops \<noteq> [] \<and> length ops \<le> LED_COL_SIZE + 1 \<and> row_time ops = 255
     \<and> (\<forall>op \<in> set ops. op_arr op \<noteq> 0) \<and> (\<forall>c < LED_COL_SIZE. on_time c ops = unat (v c))
     \<and> (\<forall>op \<in> set (butlast ops). \<not> bit (op_op op) 6 \<and> \<not> bit (op_op op) 7) \<and> bit (op_op (last ops)) 6"

lemma on_time_or_last:
  "\<not> bit flag c \<Longrightarrow> on_time c (or_last flag ops) = on_time c ops"
proof (cases "ops = []")
  case False
  assume f: "\<not> bit flag c"
  have "on_time c (xs @ [x\<lparr>op_op := op_op x OR flag\<rparr>]) = on_time c (xs @ [x])" for xs x
    using f by (induction xs) (auto simp: bit_simps)
  from this [of "butlast ops" "last ops"] False show ?thesis by (simp add: or_last_def)
qed (simp add: or_last_def)

lemma row_time_or_last [simp]: "row_time (or_last flag ops) = row_time ops"
proof (cases "ops = []")
  case False
  have "row_time (butlast ops @ [last ops]) = row_time (butlast ops) + unat (op_arr (last ops))"
    by (subst row_time_simps(3)) simp
  with False show ?thesis by (simp add: or_last_def)
qed (simp add: or_last_def)

lemma or_last_simps [simp]:
  "or_last flag [] = []" "or_last flag ops = [] \<longleftrightarrow> ops = []" "length (or_last flag ops) = length ops"
  "butlast (or_last flag ops) = butlast ops"
  by (simp_all add: or_last_def)

lemma last_or_last: "ops \<noteq> [] \<Longrightarrow> op_op (last (or_last flag ops)) = op_op (last ops) OR flag"
  by (simp add: or_last_def)

lemma or_last_append: "ys \<noteq> [] \<Longrightarrow> or_last flag (xs @ ys) = xs @ or_last flag ys"
  by (simp add: or_last_def butlast_append)

lemma set_or_last_arr: "op \<in> set (or_last flag ops) \<Longrightarrow> \<exists>op' \<in> set ops. op_arr op = op_arr op'"
  by (cases "ops = []") (auto simp: or_last_def dest: in_set_butlastD intro!: last_in_set)

lemma row_shows_or_last:
  "row_shows v ops \<Longrightarrow> \<forall>c < 6. \<not> bit flag c \<Longrightarrow> row_shows v (or_last flag ops)"
  unfolding row_shows_def by (auto simp: on_time_or_last last_or_last bit_simps dest!: set_or_last_arr)

definition led_idx :: "bytes \<Rightarrow> bytes" where
  "led_idx arr = swap_row arr [0, 1, 2, 3, 4, 5]"

lemma led_idx_facts:
  shows "length (led_idx arr) = 6" "distinct (led_idx arr)" "set (led_idx arr) = {0, 1, 2, 3, 4, 5}"
    "sorted (row_vals arr (led_idx arr))"
proof -
  have m: "mset (led_idx arr) = mset [0, 1, 2, 3, 4, 5]" by (simp add: led_idx_def mset_swap_row)
  show "length (led_idx arr) = 6" by (simp add: led_idx_def)
  show "distinct (led_idx arr)" using mset_eq_imp_distinct_iff [OF m] by simp
  show "set (led_idx arr) = {0, 1, 2, 3, 4, 5}" using mset_eq_setD [OF m] by simp
  show "sorted (row_vals arr (led_idx arr))" unfolding led_idx_def by (rule swap_row_sorted) simp
qed

definition led_kvs :: "bytes \<Rightarrow> (u8 \<times> u8) list" where
  "led_kvs arr = map (\<lambda>k. (k, arr ! unat k)) (led_idx arr)"

lemma led_kvs_last:
  "snd (last ((0, 0) # led_kvs arr)) = arr ! unat (led_idx arr ! 5)"
proof -
  have l: "led_idx arr \<noteq> []" using led_idx_facts(1) [of arr] by auto
  then have "last (led_kvs arr) = (led_idx arr ! 5, arr ! unat (led_idx arr ! 5))"
    by (simp add: led_kvs_def last_map last_conv_nth led_idx_facts(1))
  with l show ?thesis by (simp add: led_kvs_def)
qed

lemma schedule_row_eq:
  assumes "length arr = 6"
  shows "\<exists>ops. schedule_row (led_idx arr) (delta_row (led_idx arr) (combine_row (led_idx arr) arr 0) 0)
      (255 - arr ! unat (led_idx arr ! 5)) p = p @ ops
    \<and> row_shows (\<lambda>c. arr ! c) ops \<and> \<not> bit (op_op (last ops)) 7"
proof -
  let ?kvs = "led_kvs arr" and ?v = "arr ! unat (led_idx arr ! 5)"
  let ?ops = "row_ops ?kvs 0 0"
  note idx = led_idx_facts [of arr]
  have small: "unat k < 6" if "k \<in> set (led_idx arr)" for k using that idx(3) by auto
  have snd_kvs: "map snd ?kvs = row_vals arr (led_idx arr)" "map fst ?kvs = led_idx arr"
    by (simp_all add: led_kvs_def row_vals_def o_def)
  have "combine_row (led_idx arr) arr 0 = arr"
    using idx(4) small assms by (intro combine_row_sorted) auto
  then have plan: "ops_row (led_idx arr) (delta_row (led_idx arr) (combine_row (led_idx arr) arr 0) 0) 0 = row_plan ?kvs 0 0"
    using ops_row_delta [OF idx(2), of arr] small assms by (simp add: led_kvs_def)
  have ops: "?ops = fst (row_plan ?kvs 0 0) @ (if ?v \<noteq> 255 then [\<lparr>op_arr = 255 - ?v, op_op = 0x40 OR snd (row_plan ?kvs 0 0)\<rparr>] else [])"
    using led_kvs_last [of arr] by (simp add: row_ops_def)
  have time: "row_time ?ops = 255" using row_ops_time [of ?kvs 0 0] snd_kvs idx(4) by simp
  then have ne: "?ops \<noteq> []" by auto
  have on: "on_time c ?ops = unat (arr ! c)" if "c < 6" for c
  proof -
    have "c = 0 \<or> c = 1 \<or> c = 2 \<or> c = 3 \<or> c = 4 \<or> c = 5" using that by linarith
    then have "of_nat c \<in> set (led_idx arr)" unfolding idx(3) by (elim disjE) simp_all
    then have "(of_nat c, arr ! c) \<in> set ?kvs" using that by (auto simp: led_kvs_def unat_of_nat image_iff intro!: bexI [of _ "of_nat c"])
    from row_ops_on [OF _ _ _ _ this, of 0 0] show ?thesis
      using snd_kvs idx(2,4) small that by (auto simp: led_kvs_def unat_of_nat o_def)
  qed
  have len: "length ?ops \<le> 7" using row_ops_length [of ?kvs 0 0] idx(1) by (simp add: led_kvs_def)
  have masks: "\<not> bit (op_op op) n" if "op \<in> set (fst (row_plan ?kvs 0 0))" "6 \<le> n" for op n
    using row_plan_masks [OF _ _ that(1) that(2)] small snd_kvs by (auto simp: led_kvs_def)
  show ?thesis
  proof (cases "?v = 255")
    case True
    then have "schedule_row (led_idx arr) (delta_row (led_idx arr) (combine_row (led_idx arr) arr 0) 0) (255 - ?v) p = p @ or_last 0x40 ?ops"
      using plan ops ne by (simp add: schedule_row_def case_prod_beta or_last_append)
    moreover have "\<forall>op \<in> set (or_last 0x40 ?ops). op_arr op \<noteq> 0"
      using row_ops_nonzero [of _ ?kvs 0 0] set_or_last_arr [of _ "0x40" ?ops] by metis
    moreover have "\<forall>op \<in> set (butlast ?ops). \<not> bit (op_op op) 6 \<and> \<not> bit (op_op op) 7"
      using masks True ops by (auto dest!: in_set_butlastD)
    moreover have "bit (op_op (last (or_last 0x40 ?ops))) 6"
      using ne by (simp add: last_or_last bit_simps bit_row_inc)
    moreover have last7: "\<not> bit (op_op (last (or_last 0x40 ?ops))) 7"
    proof -
      have "last ?ops \<in> set (fst (row_plan ?kvs 0 0))" using ne ops True last_in_set [OF ne] by simp
      then show ?thesis using masks ne bit_row_inc(1) [of 7] by (simp add: last_or_last bit_or_iff)
    qed
    moreover have "on_time c (or_last 0x40 ?ops) = unat (arr ! c)" if "c < 6" for c
      using that on [OF that] on_time_or_last [OF flag_bits(1) [OF that]] by (simp only:)
    ultimately have "row_shows (\<lambda>c. arr ! c) (or_last 0x40 ?ops)"
      using time ne len by (simp add: row_shows_def)
    moreover note last7 \<open>schedule_row _ _ _ _ = _\<close>
    ultimately show ?thesis by blast
  next
    case False
    then have "255 - ?v \<noteq> 0" by simp
    then have "schedule_row (led_idx arr) (delta_row (led_idx arr) (combine_row (led_idx arr) arr 0) 0) (255 - ?v) p = p @ ?ops"
      using plan ops False by (simp add: schedule_row_def case_prod_beta)
    moreover have "\<forall>op \<in> set (butlast ?ops). \<not> bit (op_op op) 6 \<and> \<not> bit (op_op op) 7"
      using masks False ops by simp
    moreover have "bit (op_op (last ?ops)) 6"
      using False by (simp add: ops bit_simps bit_row_inc)
    moreover have last7: "\<not> bit (op_op (last ?ops)) 7"
    proof -
      have "\<not> bit (snd (row_plan ?kvs 0 0)) 7" using small by (intro row_plan_mask) (auto simp: led_kvs_def)
      moreover have "op_op (last ?ops) = 0x40 OR snd (row_plan ?kvs 0 0)" using False ops by simp
      ultimately show ?thesis using bit_row_inc(1) [of 7] by (simp add: bit_or_iff)
    qed
    ultimately have "row_shows (\<lambda>c. arr ! c) ?ops"
      using time ne len on row_ops_nonzero [of _ ?kvs 0 0] by (simp add: row_shows_def)
    moreover note last7 \<open>schedule_row _ _ _ _ = _\<close>
    ultimately show ?thesis by blast
  qed
qed

section \<open>The whole schedule\<close>

definition schedule_shows :: "(nat \<Rightarrow> nat \<Rightarrow> u8) \<Rightarrow> LedArrayOp list \<Rightarrow> bool" where
  "schedule_shows v ops \<longleftrightarrow> (\<exists>rows. length rows = LED_ROW_SIZE \<and> ops = concat rows
     \<and> (\<forall>i < LED_ROW_SIZE. row_shows (v i) (rows ! i) \<and> (bit (op_op (last (rows ! i))) 7 \<longleftrightarrow> i = LED_ROW_SIZE - 1)))"

lemma less_4_cases: "i < 4 \<Longrightarrow> (i = 0 \<Longrightarrow> P) \<Longrightarrow> (i = 1 \<Longrightarrow> P) \<Longrightarrow> (i = 2 \<Longrightarrow> P) \<Longrightarrow> (i = 3 \<Longrightarrow> P) \<Longrightarrow> P" for i :: nat
  by linarith

lemma led_row_concat:
  assumes "\<And>i. i < 4 \<Longrightarrow> length (f i) = 6" "i < 4"
  shows "led_row i (concat (map f [0..<4])) = f i"
proof -
  have c: "concat (map f [0..<4]) = f 0 @ f 1 @ f 2 @ f 3" by (simp add: upt_rec numeral_2_eq_2 numeral_3_eq_3)
  from assms(2) show ?thesis by (rule less_4_cases) (simp_all add: c assms(1) led_row_def get_at_def)
qed

lemma length_combine_row [simp]: "length (combine_row ks arr t) = length arr"
  by (induction ks arr t rule: combine_row.induct) auto

lemma led_row_idx0: "i < 4 \<Longrightarrow> led_row i (map (\<lambda>i. of_nat (i mod 6)) [0..<24]) = [0, 1, 2, 3, 4, 5 :: u8]"
  by (elim less_4_cases) (simp_all add: led_row_def get_at_def upt_rec)

lemma led_row_map:
  assumes "i < 4"
  shows "led_row i (map f [0..<24]) = map (\<lambda>c. f (6 * i + c)) [0..<6]"
proof -
  have "i * 6 + 6 \<le> 24" using assms by simp
  then show ?thesis by (auto simp: led_row_def get_at_def take_map drop_map algebra_simps intro!: nth_equalityI)
qed

definition led_schedule :: "bytes \<Rightarrow> LedArrayOp list" where
  "led_schedule pwm = (let row = (\<lambda>i. map (\<lambda>c. pwm ! (led_lut ! (6 * i + c))) [0..<6]) in
     or_last LED_OP_LOOP (fold (\<lambda>i. schedule_row (led_idx (row i)) (delta_row (led_idx (row i)) (combine_row (led_idx (row i)) (row i) 0) 0)
       (255 - row i ! unat (led_idx (row i) ! 5))) [0..<4] []))"

lemma led_update_arr_eq:
  "led_update_arr s = (let t = led_other (led_ops_table s); calc = led_calc_table (led_update_arr s); s1 = s\<lparr>led_calc_table := calc\<rparr> in
     (set_led_ops t (put_at 0 (led_schedule (led_pwm_table s)) (led_ops t s1)) s1)\<lparr>led_state := led_state s OR LED_STATE_OPS_READY\<rparr>)"
proof -
  define arr0 where "arr0 = map (\<lambda>i. led_pwm_table s ! (led_lut ! i)) [0..<LED_TOT_SIZE]"
  define idx0 :: bytes where "idx0 = map (\<lambda>i. of_nat (i mod LED_COL_SIZE)) [0..<LED_TOT_SIZE]"
  define idx where "idx = concat (map (\<lambda>i. swap_row (led_row i arr0) (led_row i idx0)) [0..<LED_ROW_SIZE])"
  define rarr where "rarr = map (\<lambda>i. LED_MAX_ROW_ARR - led_row i arr0 ! unat (led_row i idx ! (LED_COL_SIZE - 1))) [0..<LED_ROW_SIZE]"
  define arr1 where "arr1 = concat (map (\<lambda>i. combine_row (led_row i idx) (led_row i arr0) 0) [0..<LED_ROW_SIZE])"
  define arr2 where "arr2 = concat (map (\<lambda>i. delta_row (led_row i idx) (led_row i arr1) 0) [0..<LED_ROW_SIZE])"
  let ?row = "\<lambda>i. map (\<lambda>c. led_pwm_table s ! (led_lut ! (6 * i + c))) [0..<6]"
  have r0: "led_row i arr0 = ?row i" if "i < 4" for i using led_row_map [OF that] by (simp add: arr0_def)
  have ri: "led_row i idx = led_idx (?row i)" if "i < 4" for i
    unfolding idx_def using that by (subst led_row_concat) (simp_all add: led_row_idx0 idx0_def r0 led_idx_def)
  have r1: "led_row i arr1 = combine_row (led_idx (?row i)) (?row i) 0" if "i < 4" for i
    unfolding arr1_def using that by (subst led_row_concat) (simp_all add: r0 ri)
  have r2: "led_row i arr2 = delta_row (led_idx (?row i)) (combine_row (led_idx (?row i)) (?row i) 0) 0" if "i < 4" for i
    unfolding arr2_def using that by (subst led_row_concat) (simp_all add: r1 ri)
  have ra: "rarr ! i = 255 - ?row i ! unat (led_idx (?row i) ! 5)" if "i < 4" for i
    using that by (simp add: rarr_def r0 ri)
  have sched: "or_last LED_OP_LOOP (fold (\<lambda>i. schedule_row (led_row i idx) (led_row i arr2) (rarr ! i)) [0..<LED_ROW_SIZE] [])
      = led_schedule (led_pwm_table s)"
    unfolding led_schedule_def Let_def by (intro arg_cong [of _ _ "or_last LED_OP_LOOP"] fold_cong refl) (simp_all add: ri r2 ra)
  show ?thesis
    unfolding led_update_arr_def Let_def arr0_def [symmetric] idx0_def [symmetric] idx_def [symmetric] rarr_def [symmetric]
      arr1_def [symmetric] arr2_def [symmetric] sched
    by (cases "led_other (led_ops_table s)") (simp_all add: set_led_ops_def)
qed

lemma led_schedule_shows:
  "schedule_shows (\<lambda>i c. pwm ! (led_lut ! (6 * i + c))) (led_schedule pwm)"
proof -
  let ?row = "\<lambda>i. map (\<lambda>c. pwm ! (led_lut ! (6 * i + c))) [0..<6]"
  let ?sched = "\<lambda>i. schedule_row (led_idx (?row i)) (delta_row (led_idx (?row i)) (combine_row (led_idx (?row i)) (?row i) 0) 0)
      (255 - ?row i ! unat (led_idx (?row i) ! 5))"
  have "\<exists>ops. \<forall>p. ?sched i p = p @ ops \<and> row_shows (\<lambda>c. ?row i ! c) ops \<and> \<not> bit (op_op (last ops)) 7" for i
  proof -
    obtain ops where o: "?sched i [] = [] @ ops" "row_shows (\<lambda>c. ?row i ! c) ops" "\<not> bit (op_op (last ops)) 7"
      using schedule_row_eq [of "?row i" "[]"] by auto
    have "?sched i p = p @ ops" for p
    proof -
      obtain ops' where o': "?sched i p = p @ ops'" "row_shows (\<lambda>c. ?row i ! c) ops'"
        using schedule_row_eq [of "?row i" p] by auto
      have "ops' = ops" using o(1,2) o' unfolding schedule_row_def
        by (auto simp: case_prod_beta row_shows_def or_last_append split: if_splits)
      with o' show ?thesis by simp
    qed
    with o show ?thesis by blast
  qed
  then obtain R where R: "\<And>i p. ?sched i p = p @ R i" "\<And>i. row_shows (\<lambda>c. ?row i ! c) (R i)" "\<And>i. \<not> bit (op_op (last (R i))) 7"
    by metis
  have fold4: "fold f [0..<4] ([] :: LedArrayOp list) = f 3 (f 2 (f 1 (f 0 [])))" for f
    by (simp add: upt_rec numeral_2_eq_2 numeral_3_eq_3)
  let ?rows = "[R 0, R 1, R 2, or_last LED_OP_LOOP (R 3)]"
  have ne: "R i \<noteq> []" for i using R(2) [of i] by (simp add: row_shows_def)
  have "led_schedule pwm = concat ?rows"
    unfolding led_schedule_def Let_def fold4 R(1) by (simp add: or_last_append ne flip: append_assoc)
  moreover have sh: "row_shows (\<lambda>c. pwm ! (led_lut ! (6 * i + c))) (R i)" for i
    using R(2) [of i] by (simp add: row_shows_def)
  moreover have "row_shows (\<lambda>c. pwm ! (led_lut ! (6 * 3 + c))) (or_last LED_OP_LOOP (R 3))"
    using sh [of 3] flag_bits(2) by (intro row_shows_or_last) blast+
  moreover have "bit (op_op (last (or_last LED_OP_LOOP (R 3)))) 7"
    using ne [of 3] bit_row_inc(2) [of 7] by (simp add: last_or_last bit_or_iff)
  ultimately show ?thesis
    unfolding schedule_shows_def using R(3) sh [of 0] sh [of 1] sh [of 2]
    by (intro exI [of _ ?rows]) (auto elim!: less_4_cases)
qed

lemma schedule_shows_length: "schedule_shows v ops \<Longrightarrow> 0 < length ops \<and> length ops \<le> LED_OP_COUNT"
proof -
  assume "schedule_shows v ops"
  then obtain rows where r: "length rows = 4" "ops = concat rows" "\<forall>i < 4. row_shows (v i) (rows ! i)"
    unfolding schedule_shows_def by blast
  from r(1) have "length rows = Suc (Suc (Suc (Suc 0)))" by simp
  then obtain a b c d where rows: "rows = [a, b, c, d]" by (auto simp: length_Suc_conv)
  have "row_shows (v 0) a" "row_shows (v 1) b" "row_shows (v 2) c" "row_shows (v 3) d"
    using r(3) [rule_format, of 0] r(3) [rule_format, of 1] r(3) [rule_format, of 2] r(3) [rule_format, of 3] rows by simp_all
  then show ?thesis using r(2) rows by (simp add: row_shows_def)
qed

end
