(* ===== verification/Ctrl_Playback.thy ===== *)
theory Ctrl_Playback
  imports Ctrl_Schedule
begin

text \<open>
  What the TIM4 interrupt does with a schedule: every pass starts an operation or the dark time
  between two rows, and over one frame every LED is lit for its PWM value.
\<close>

section \<open>States of the playback\<close>

definition led_lit :: "led \<Rightarrow> nat \<Rightarrow> nat \<Rightarrow> bool" where
  "led_lit s r c \<longleftrightarrow> bit (led_rows s) r \<and> \<not> bit (led_cols s) c"

fun row_mask :: "LedArrayOp list \<Rightarrow> u8" where
  "row_mask [] = 0"
| "row_mask (op # ops) = (op_op op AND LED_OP_COL_MASK) OR row_mask ops"

lemma row_mask_append [simp]: "row_mask (xs @ ys) = row_mask xs OR row_mask ys"
  by (induction xs) (simp_all add: or.assoc)

lemma bit_col_mask: "bit (0x3f :: u8) n \<longleftrightarrow> n < 6"
proof -
  have "bit (mask 6 :: u8) n \<longleftrightarrow> n < 6 \<and> n < 8" by (auto simp: bit_mask_iff)
  moreover have "mask 6 = (0x3f :: u8)" by (simp add: mask_eq_exp_minus_1)
  ultimately show ?thesis by auto
qed

lemma bit_row_mask: "bit (row_mask ops) c \<longleftrightarrow> c < 6 \<and> (\<exists>op \<in> set ops. bit (op_op op) c)"
  by (induction ops) (auto simp: bit_and_iff bit_or_iff bit_col_mask simp del: bit_numeral_word_iff)

text \<open>The rows are dark, except possibly row \<open>i\<close>.\<close>

definition only_row :: "nat \<Rightarrow> led \<Rightarrow> bool" where
  "only_row i s \<longleftrightarrow> (\<forall>r < LED_ROW_SIZE. bit (led_rows s) r \<longrightarrow> r = i)"

text \<open>
  Operation \<open>j\<close> of the row \<open>ops\<close>, which begins at index \<open>b\<close> of table \<open>t\<close> and drives LED row
  \<open>i\<close>, is running.
\<close>

definition at_op :: "led_table \<Rightarrow> nat \<Rightarrow> LedArrayOp list \<Rightarrow> nat \<Rightarrow> nat \<Rightarrow> led \<Rightarrow> bool" where
  "at_op t b ops i j s \<longleftrightarrow> led_current_op s = (t, int (b + j)) \<and> j < length ops \<and> active_row s = push_bit i 1
     \<and> inactive_cols s = row_mask (take (Suc j) ops) \<and> (\<forall>c < LED_COL_SIZE. bit (led_cols s) c = bit (inactive_cols s) c)
     \<and> only_row i s \<and> (bit (led_rows s) i \<longleftrightarrow> inactive_cols s \<noteq> CTRL_LED_COL_ALL)
     \<and> led_state s AND LED_STATE_OFF_TIME = 0"

text \<open>The dark time after that row.\<close>

definition after_row :: "led_table \<Rightarrow> nat \<Rightarrow> LedArrayOp list \<Rightarrow> nat \<Rightarrow> led \<Rightarrow> bool" where
  "after_row t b ops i s \<longleftrightarrow> led_current_op s = (t, int (b + length ops - 1)) \<and> ops \<noteq> [] \<and> active_row s = push_bit i 1
     \<and> (\<forall>c < LED_COL_SIZE. bit (led_cols s) c) \<and> (\<forall>r < LED_ROW_SIZE. \<not> bit (led_rows s) r)
     \<and> led_state s AND LED_STATE_OFF_TIME \<noteq> 0"

definition row_at :: "led \<Rightarrow> led_table \<Rightarrow> nat \<Rightarrow> LedArrayOp list \<Rightarrow> bool" where
  "row_at s t b ops \<longleftrightarrow> (\<forall>j < length ops. led_ops t s ! (b + j) = ops ! j)"

lemma and_flag_iff: "x AND 0x40 \<noteq> 0 \<longleftrightarrow> bit (x :: u8) 6" "x AND 0x80 \<noteq> 0 \<longleftrightarrow> bit (x :: u8) 7"
  using and_exp_eq_0_iff_not_bit [of x 6] and_exp_eq_0_iff_not_bit [of x 7] by simp_all

lemma mask_all: "c < 6 \<Longrightarrow> m = 0x3f \<Longrightarrow> bit (m :: u8) c"
  by (simp only: bit_col_mask)

lemma led_lit_at_op:
  assumes "at_op t b ops i j s" "i < LED_ROW_SIZE" "r < LED_ROW_SIZE" "c < LED_COL_SIZE"
  shows "led_lit s r c \<longleftrightarrow> r = i \<and> \<not> bit (row_mask (take (Suc j) ops)) c"
  using assms mask_all [of c "inactive_cols s"] unfolding at_op_def led_lit_def only_row_def by metis

lemma led_lit_after_row: "after_row t b ops i s \<Longrightarrow> r < LED_ROW_SIZE \<Longrightarrow> \<not> led_lit s r c"
  by (simp add: after_row_def led_lit_def)

section \<open>Starting an operation\<close>

lemma tim4_start_op_state:
  assumes cur: "led_current_op s = (t, int k - 1)" and op: "led_ops t s ! k = op"
    and row: "active_row s = push_bit i 1" "i < LED_ROW_SIZE" and dark: "\<forall>r < LED_ROW_SIZE. \<not> bit (led_rows s) r"
    and cols: "\<forall>c < LED_COL_SIZE. bit (led_cols s OR op_op op) c = bit (m OR op_op op) c" "inactive_cols s = m"
    and off: "led_state s AND LED_STATE_OFF_TIME = 0"
  defines "s' \<equiv> snd (tim4_start_op s)"
  shows "led_current_op s' = (t, int k)" "active_row s' = push_bit i 1" "inactive_cols s' = m OR (op_op op AND 0x3f)"
    "\<forall>c < LED_COL_SIZE. bit (led_cols s') c = bit (inactive_cols s') c" "only_row i s'"
    "bit (led_rows s') i \<longleftrightarrow> inactive_cols s' \<noteq> CTRL_LED_COL_ALL" "led_state s' AND LED_STATE_OFF_TIME = 0"
    "led_ops u s' = led_ops u s" "led_ops_table s' = led_ops_table s" "led_pwm_table s' = led_pwm_table s" "led_state s' = led_state s"
proof -
  let ?c = "op_op op AND 0x3f"
  define u1 where "u1 = s\<lparr>led_current_op := (t, int k), led_cols := led_cols s OR ?c, inactive_cols := m OR ?c\<rparr>"
  define u2 where "u2 = (if inactive_cols u1 \<noteq> CTRL_LED_COL_ALL then u1\<lparr>led_rows := led_rows u1 OR active_row u1\<rparr> else u1)"
  have ops: "led_ops u (s\<lparr>led_current_op := a\<rparr>) = led_ops u s" for u a by (simp add: led_ops_def split: led_table.split)
  have s': "s' = (if op_arr op \<le> RESTART_INTERRUPT_ARR then u2 else u2\<lparr>tim4_arr := op_arr op\<rparr>)"
    by (simp add: s'_def tim4_start_op_def Let_def cur led_op_at_def ops op cols(2) u2_def u1_def)
  have u2: "led_current_op u2 = (t, int k)" "active_row u2 = push_bit i 1" "inactive_cols u2 = m OR ?c"
    "led_cols u2 = led_cols s OR ?c" "led_state u2 = led_state s" "led_ops_table u2 = led_ops_table s"
    "led_pwm_table u2 = led_pwm_table s"
    "led_rows u2 = (if m OR ?c \<noteq> CTRL_LED_COL_ALL then led_rows s OR push_bit i 1 else led_rows s)"
    "led_ops u u2 = led_ops u s" for u
    using row by (simp_all add: u2_def u1_def led_ops_def split: led_table.split)
  have fields: "led_current_op s' = led_current_op u2" "active_row s' = active_row u2" "inactive_cols s' = inactive_cols u2"
    "led_cols s' = led_cols u2" "led_rows s' = led_rows u2" "led_state s' = led_state u2"
    "led_ops_table s' = led_ops_table u2" "led_pwm_table s' = led_pwm_table u2" "led_ops u s' = led_ops u u2" for u
    by (simp_all add: s' led_ops_def split: led_table.split)
  show "led_current_op s' = (t, int k)" "active_row s' = push_bit i 1" "inactive_cols s' = m OR ?c"
    "led_ops u s' = led_ops u s" "led_ops_table s' = led_ops_table s" "led_pwm_table s' = led_pwm_table s"
    "led_state s' = led_state s"
    by (simp_all only: fields u2)
  show "led_state s' AND LED_STATE_OFF_TIME = 0" using off by (simp only: fields u2)
  show "\<forall>c < LED_COL_SIZE. bit (led_cols s') c = bit (inactive_cols s') c"
    using cols(1) by (auto simp: fields u2 bit_or_iff bit_and_iff bit_col_mask simp del: bit_numeral_word_iff)
  have b: "bit (2 ^ i :: u8) r \<longleftrightarrow> r = i" for r
    using row(2) by (auto simp: bit_exp_iff)
  show "only_row i s'" using dark by (auto simp: only_row_def fields u2 bit_or_iff b split: if_splits)
  show "bit (led_rows s') i \<longleftrightarrow> inactive_cols s' \<noteq> CTRL_LED_COL_ALL"
    using dark row(2) by (auto simp: fields u2 bit_or_iff b)
qed

section \<open>The passes\<close>

lemma led_ops_upd [simp]:
  "led_ops u (s\<lparr>led_rows := a\<rparr>) = led_ops u s" "led_ops u (s\<lparr>led_cols := a\<rparr>) = led_ops u s"
  "led_ops u (s\<lparr>led_state := a\<rparr>) = led_ops u s" "led_ops u (s\<lparr>tim4_arr := a\<rparr>) = led_ops u s"
  "led_ops u (s\<lparr>led_current_op := p\<rparr>) = led_ops u s" "led_ops u (s\<lparr>active_row := a\<rparr>) = led_ops u s"
  "led_ops u (s\<lparr>inactive_cols := a\<rparr>) = led_ops u s" "led_ops u (s\<lparr>led_ops_table := t\<rparr>) = led_ops u s"
  by (simp_all add: led_ops_def split: led_table.split)

lemma rows_off:
  assumes "\<forall>r < 4. bit w r \<longrightarrow> r = i" "r < 4"
  shows "\<not> bit (w AND NOT (2 ^ i) :: u8) r"
proof
  assume "bit (w AND NOT (2 ^ i)) r"
  then have "bit w r" "\<not> bit (2 ^ i :: u8) r" by (auto simp only: bit_and_iff bit_not_iff)
  moreover from this(1) assms have "r = i" by blast
  ultimately show False using assms(2) by (simp add: bit_exp_iff)
qed

lemma pass_same_row:
  assumes at: "at_op t b ops i j s" and row: "row_at s t b ops" "i < LED_ROW_SIZE"
    and more: "Suc j < length ops" "\<not> bit (op_op (ops ! j)) 6"
  defines "s' \<equiv> snd (tim4_pass s)"
  shows "at_op t b ops i (Suc j) s'" "led_ops u s' = led_ops u s" "led_state s' = led_state s" "led_ops_table s' = led_ops_table s"
proof -
  define s1 where "s1 = s\<lparr>led_rows := led_rows s AND NOT (active_row s)\<rparr>"
  have cur: "led_op_at s1 (led_current_op s1) = ops ! j"
    using at row(1) by (simp add: s1_def led_op_at_def at_op_def row_at_def nat_int_add)
  have s': "s' = snd (tim4_start_op s1)"
    using cur more(2) and_flag_iff(1) [of "op_op (ops ! j)"] by (simp add: s'_def tim4_pass_def Let_def s1_def)
  have "led_ops t s ! (b + Suc j) = ops ! Suc j" using row(1) more(1) unfolding row_at_def by blast
  then have k: "led_current_op s1 = (t, int (b + Suc j) - 1)" "led_ops t s1 ! (b + Suc j) = ops ! Suc j"
    "active_row s1 = push_bit i 1" "led_state s1 AND LED_STATE_OFF_TIME = 0"
    using at row(1) more(1) by (simp_all add: s1_def at_op_def row_at_def)
  have dark: "\<forall>r < LED_ROW_SIZE. \<not> bit (led_rows s1) r"
    using at row(2) rows_off [of "led_rows s" i] by (auto simp: s1_def at_op_def only_row_def)
  have cols: "\<forall>c < LED_COL_SIZE. bit (led_cols s1 OR op_op (ops ! Suc j)) c = bit (row_mask (take (Suc j) ops) OR op_op (ops ! Suc j)) c"
    "inactive_cols s1 = row_mask (take (Suc j) ops)"
    using at by (auto simp: s1_def at_op_def bit_or_iff)
  note st = tim4_start_op_state [OF k(1) k(2) k(3) row(2) dark cols k(4), folded s']
  have "row_mask (take (Suc (Suc j)) ops) = row_mask (take (Suc j) ops) OR (op_op (ops ! Suc j) AND 0x3f)"
    using more(1) by (simp add: take_Suc_conv_app_nth or.assoc)
  then show "at_op t b ops i (Suc j) s'"
    using st more(1) by (simp add: at_op_def)
  show "led_ops u s' = led_ops u s" "led_state s' = led_state s" "led_ops_table s' = led_ops_table s"
    using st by (simp_all add: s1_def)
qed

lemma pass_row_end:
  assumes at: "at_op t b ops i j s" and row: "row_at s t b ops" "i < LED_ROW_SIZE"
    and last: "Suc j = length ops" "bit (op_op (ops ! j)) 6"
  defines "s' \<equiv> snd (tim4_pass s)"
  shows "after_row t b ops i s'" "led_ops u s' = led_ops u s" "led_state s' = led_state s OR LED_STATE_OFF_TIME"
    "led_ops_table s' = led_ops_table s"
    "fst (tim4_pass s) = TIM4_RETURN"
proof -
  have cur: "led_op_at (s\<lparr>led_rows := led_rows s AND NOT (active_row s)\<rparr>) (led_current_op s) = ops ! j"
    using at row(1) by (simp add: led_op_at_def at_op_def row_at_def nat_int_add)
  have off: "led_state s AND LED_STATE_OFF_TIME = 0" using at by (simp add: at_op_def)
  define arr where "arr = (if op_arr (ops ! j) < LED_OFF_TIME_ARR then op_arr (ops ! j) else LED_OFF_TIME_ARR)"
  have p: "tim4_pass s = (TIM4_RETURN, s\<lparr>led_rows := led_rows s AND NOT (active_row s), led_cols := led_cols s OR CTRL_LED_COL_ALL,
      led_state := led_state s OR LED_STATE_OFF_TIME, tim4_arr := arr\<rparr>)"
    using cur off last(2) and_flag_iff(1) [of "op_op (ops ! j)"] by (simp add: tim4_pass_def Let_def arr_def)
  have dark: "\<forall>r < LED_ROW_SIZE. \<not> bit (led_rows s AND NOT (active_row s)) r"
    using at row(2) rows_off [of "led_rows s" i] by (auto simp: at_op_def only_row_def)
  have "\<forall>c < LED_COL_SIZE. bit (led_cols s OR CTRL_LED_COL_ALL) c"
    by (simp add: bit_or_iff bit_col_mask del: bit_numeral_word_iff)
  moreover have "(led_state s OR LED_STATE_OFF_TIME) AND LED_STATE_OFF_TIME \<noteq> 0"
    by (simp add: bit.conj_disj_distrib2 off)
  moreover have "ops \<noteq> []" "int (b + j) = int (b + length ops - 1)" using last(1) by auto
  ultimately show "after_row t b ops i s'"
    using at dark by (simp add: after_row_def at_op_def s'_def p)
  show "led_ops u s' = led_ops u s" "led_state s' = led_state s OR LED_STATE_OFF_TIME" "led_ops_table s' = led_ops_table s"
    "fst (tim4_pass s) = TIM4_RETURN"
    by (simp_all add: s'_def p)
qed

text \<open>The table the next frame is played from.\<close>

definition next_table :: "led \<Rightarrow> led_table" where
  "next_table s = (if led_state s AND (LED_STATE_PWM_READY OR LED_STATE_OPS_READY) = LED_STATE_PWM_READY OR LED_STATE_OPS_READY
     then led_other (led_ops_table s) else led_ops_table s)"

lemma led_other_neq: "led_other t \<noteq> t" "led_other (led_other t) = t"
  by (cases t; simp add: led_other_def)+

lemma pass_next:
  assumes after: "after_row t b ops i s" and row: "row_at s t b ops" and inc: "bit (op_op (last ops)) 6"
    and next_row: "row_at s t' b' ops'" "ops' \<noteq> []" "i' < LED_ROW_SIZE"
    and whichever: "if bit (op_op (last ops)) 7 then t' = next_table s \<and> b' = 0 \<and> i' = 0 else t' = t \<and> b' = b + length ops \<and> i' = Suc i"
  defines "s' \<equiv> snd (tim4_pass s)"
  shows "at_op t' b' ops' i' 0 s'" "led_ops u s' = led_ops u s"
    "led_ops_table s' = (if bit (op_op (last ops)) 7 then t' else led_ops_table s)"
    "led_state s' = (if bit (op_op (last ops)) 7 \<and> t' \<noteq> led_ops_table s then 0 else led_state s AND NOT LED_STATE_OFF_TIME)"
proof -
  have ne: "ops \<noteq> []" using after by (simp add: after_row_def)
  define s1 where "s1 = s\<lparr>led_rows := led_rows s AND NOT (active_row s)\<rparr>"
  have cur: "led_op_at s1 (led_current_op s1) = last ops"
  proof -
    have "led_ops t s ! (b + (length ops - 1)) = ops ! (length ops - 1)" using row ne unfolding row_at_def by simp
    moreover have "nat (int (b + length ops - 1)) = b + (length ops - 1)" using ne by (cases ops) auto
    ultimately show ?thesis using after ne by (simp add: s1_def led_op_at_def after_row_def last_conv_nth nat_int_add)
  qed
  have off: "led_state s1 AND LED_STATE_OFF_TIME \<noteq> 0" using after by (simp add: s1_def after_row_def)
  have s': "s' = snd (tim4_start_op (tim4_next_row s1))"
    using cur off inc and_flag_iff(1) [of "op_op (last ops)"] by (simp add: s'_def tim4_pass_def Let_def s1_def)
  define st where "st = led_state s AND NOT LED_STATE_OFF_TIME"
  have ready: "st AND (LED_STATE_PWM_READY OR LED_STATE_OPS_READY) = led_state s AND (LED_STATE_PWM_READY OR LED_STATE_OPS_READY)"
    by (simp add: st_def and.assoc)
  have rows: "active_row s1 = push_bit i 1" using after by (simp add: s1_def after_row_def)
  have hd_op: "led_ops t' s ! b' = hd ops'"
    using next_row(1,2) unfolding row_at_def by (metis add.right_neutral length_greater_0_conv hd_conv_nth)
  define n where "n = tim4_next_row s1"
  have off_clear: "(led_state s AND NOT LED_STATE_OFF_TIME) AND LED_STATE_OFF_TIME = 0" by (simp add: and.assoc)
  have n: "led_current_op n = (t', int b' - 1) \<and> active_row n = push_bit i' 1 \<and> inactive_cols n = 0
    \<and> led_state n AND LED_STATE_OFF_TIME = 0 \<and> led_rows n = led_rows s1
    \<and> led_cols n = led_cols s1 AND NOT (NOT (op_op (hd ops')) AND LED_OP_COL_MASK) \<and> (\<forall>u. led_ops u n = led_ops u s)
    \<and> led_ops_table n = (if bit (op_op (last ops)) 7 then t' else led_ops_table s)
    \<and> led_state n = (if bit (op_op (last ops)) 7 \<and> t' \<noteq> led_ops_table s then 0 else led_state s AND NOT LED_STATE_OFF_TIME)"
  proof (cases "bit (op_op (last ops)) 7")
    case True
    then have w: "t' = next_table s" "b' = 0" "i' = 0" using whichever by auto
    have loop: "op_op (last ops) AND LED_OP_LOOP \<noteq> 0" using True and_flag_iff(2) by blast
    show ?thesis
    proof (cases "led_state s AND (LED_STATE_PWM_READY OR LED_STATE_OPS_READY) = LED_STATE_PWM_READY OR LED_STATE_OPS_READY")
      case swap: True
      then show ?thesis
        using True loop w hd_op cur ready off_clear
        by (simp add: n_def tim4_next_row_def Let_def s1_def LED_TABLE_OPS_SWAP_def next_table_def led_op_at_def st_def led_other_neq)
    next
      case False
      then show ?thesis
        using True loop w hd_op cur ready off_clear
        by (simp add: n_def tim4_next_row_def Let_def s1_def next_table_def led_op_at_def st_def)
    qed
  next
    case False
    then have w: "t' = t" "b' = b + length ops" "i' = Suc i" using whichever by auto
    have loop: "op_op (last ops) AND LED_OP_LOOP = 0" using False and_flag_iff(2) by blast
    have cu: "led_current_op s = (t, int b' - 1)" using after ne w by (cases ops) (auto simp: after_row_def)
    show ?thesis
      using False loop w hd_op cur cu rows off_clear
      by (simp add: n_def tim4_next_row_def Let_def s1_def led_op_at_def nat_int_add)
  qed
  have dark: "\<forall>r < LED_ROW_SIZE. \<not> bit (led_rows n) r"
    using after n by (simp add: s1_def after_row_def bit_and_iff)
  have hd: "led_ops t' n ! b' = hd ops'" using hd_op n by simp
  have cols: "\<forall>c < LED_COL_SIZE. bit (led_cols n OR op_op (hd ops')) c = bit (0 OR op_op (hd ops')) c"
  proof (intro allI impI)
    fix c assume c: "c < LED_COL_SIZE"
    from n have e: "led_cols n = led_cols s1 AND NOT (NOT (op_op (hd ops')) AND LED_OP_COL_MASK)" by blast
    have "bit (led_cols s1) c" using after c by (simp add: s1_def after_row_def)
    then have "bit (led_cols n) c = bit (op_op (hd ops')) c"
      unfolding e using c by (simp only: bit_and_iff bit_not_iff bit_col_mask) simp
    then show "bit (led_cols n OR op_op (hd ops')) c = bit (0 OR op_op (hd ops')) c" by (simp add: bit_or_iff)
  qed
  have n': "led_current_op n = (t', int b' - 1)" "active_row n = push_bit i' 1" "inactive_cols n = 0"
    "led_state n AND LED_STATE_OFF_TIME = 0" using n by blast+
  note so = tim4_start_op_state [OF n'(1) hd n'(2) next_row(3) dark cols n'(3) n'(4)]
  show "at_op t' b' ops' i' 0 s'"
    using so next_row(2) by (simp add: at_op_def s' n_def take_Suc)
  show "led_ops u s' = led_ops u s" "led_ops_table s' = (if bit (op_op (last ops)) 7 then t' else led_ops_table s)"
    "led_state s' = (if bit (op_op (last ops)) 7 \<and> t' \<noteq> led_ops_table s then 0 else led_state s AND NOT LED_STATE_OFF_TIME)"
    using so n by (simp_all add: s' n_def)
qed

section \<open>Frames\<close>

text \<open>
  The time a pass waits before the next one: the dark time, or the time of the operation it
  started. (Operations of at most five ticks are waited for in a calibrated loop.)
\<close>

definition tim4_ticks :: "led \<Rightarrow> nat" where
  "tim4_ticks s = (if led_state s AND LED_STATE_OFF_TIME \<noteq> 0 then unat (tim4_arr s) else unat (op_arr (led_op_at s (led_current_op s))))"

fun tim4_play :: "nat \<Rightarrow> led \<Rightarrow> (nat \<times> led) list" where
  "tim4_play 0 s = []"
| "tim4_play (Suc n) s = (let s' = snd (tim4_pass s) in (tim4_ticks s', s') # tim4_play n s')"

definition play_end :: "nat \<Rightarrow> led \<Rightarrow> led" where
  "play_end n s = ((\<lambda>s. snd (tim4_pass s)) ^^ n) s"

definition lit_time :: "nat \<Rightarrow> nat \<Rightarrow> (nat \<times> led) list \<Rightarrow> nat" where
  "lit_time r c tr = (\<Sum>(d, s) \<leftarrow> tr. if led_lit s r c then d else 0)"

lemma lit_time_simps [simp]: "lit_time r c [] = 0"
  "lit_time r c ((d, s) # tr) = (if led_lit s r c then d else 0) + lit_time r c tr"
  "lit_time r c (xs @ ys) = lit_time r c xs + lit_time r c ys"
  by (simp_all add: lit_time_def)

lemma play_end_simps: "play_end 0 s = s" "play_end (Suc n) s = play_end n (snd (tim4_pass s))"
  by (simp_all add: play_end_def funpow_Suc_right del: funpow.simps(2))

lemma tim4_play_append: "tim4_play (m + n) s = tim4_play m s @ tim4_play n (play_end m s)"
  by (induction m arbitrary: s) (simp_all add: Let_def play_end_simps)

lemma play_end_add: "play_end (m + n) s = play_end n (play_end m s)"
  by (induction m arbitrary: s) (simp_all add: play_end_simps)

lemma row_at_cong: "led_ops t s' = led_ops t s \<Longrightarrow> row_at s' t b ops = row_at s t b ops"
  by (simp add: row_at_def)

text \<open>How long column \<open>c\<close> is lit by operation \<open>k\<close> of a row.\<close>

definition op_time :: "nat \<Rightarrow> LedArrayOp list \<Rightarrow> nat \<Rightarrow> nat" where
  "op_time c ops k = (if \<exists>op \<in> set (take (Suc k) ops). bit (op_op op) c then 0 else unat (op_arr (ops ! k)))"

lemma on_time_split: "on_time c ops = (\<Sum>k < length ops. op_time c ops k)"
proof (induction ops)
  case (Cons op ops)
  have "op_time c (op # ops) (Suc k) = (if bit (op_op op) c then 0 else op_time c ops k)" for k
    by (simp add: op_time_def)
  then show ?case
    using Cons by (simp only: length_Cons sum.lessThan_Suc_shift) (simp add: op_time_def [of c _ 0])
qed simp

lemma ticks_at_op:
  "at_op t b ops i j s \<Longrightarrow> row_at s t b ops \<Longrightarrow> tim4_ticks s = unat (op_arr (ops ! j))"
  by (simp add: tim4_ticks_def at_op_def row_at_def led_op_at_def nat_int_add)

lemma lit_at_op:
  assumes "at_op t b ops i j s" "row_at s t b ops" "i < LED_ROW_SIZE" "r < LED_ROW_SIZE" "c < LED_COL_SIZE"
  shows "(if led_lit s r c then tim4_ticks s else 0) = (if r = i then op_time c ops j else 0)"
  using assms led_lit_at_op [OF assms(1,3,4,5)] ticks_at_op [OF assms(1,2)] by (simp add: bit_row_mask op_time_def)

text \<open>The rest of a row from operation \<open>j\<close> on: its operations and the dark time.\<close>

lemma play_row_rest:
  assumes "at_op t b ops i j s" "row_at s t b ops" "i < LED_ROW_SIZE" "r < LED_ROW_SIZE" "c < LED_COL_SIZE"
    "\<forall>op \<in> set (butlast ops). \<not> bit (op_op op) 6" "bit (op_op (last ops)) 6" "length ops = j + n + 1"
  shows "after_row t b ops i (play_end (Suc n) s) \<and> (\<forall>u. led_ops u (play_end (Suc n) s) = led_ops u s)
    \<and> led_ops_table (play_end (Suc n) s) = led_ops_table s
    \<and> led_state (play_end (Suc n) s) = led_state s OR LED_STATE_OFF_TIME
    \<and> lit_time r c (tim4_play (Suc n) s) = (if r = i then \<Sum>k = Suc j..<length ops. op_time c ops k else 0)"
  using assms
proof (induction n arbitrary: j s)
  case 0
  have "ops ! j = last ops" using 0 by (cases ops rule: rev_cases) (auto simp: nth_append)
  then show ?case
    using pass_row_end [OF 0(1,2,3)] led_lit_after_row [of t b ops i _ r c] 0 by (auto simp: play_end_simps Let_def)
next
  case (Suc n)
  let ?s = "snd (tim4_pass s)"
  have "ops ! j = butlast ops ! j" "j < length (butlast ops)" using Suc.prems(8) by (simp_all add: nth_butlast)
  then have nb: "\<not> bit (op_op (ops ! j)) 6" using Suc.prems(6) by simp
  have "Suc j < length ops" using Suc.prems(8) by simp
  note ps = pass_same_row [OF Suc.prems(1,2,3) this nb]
  have at: "at_op t b ops i (Suc j) ?s" and ra: "row_at ?s t b ops" and st: "led_state ?s = led_state s"
    "led_ops_table ?s = led_ops_table s" and lo: "led_ops u ?s = led_ops u s" for u
    using ps Suc.prems(2) row_at_cong [of t ?s s b ops] by simp_all
  have "length ops = Suc j + n + 1" using Suc.prems(8) by simp
  note ih = Suc.IH [OF at ra Suc.prems(3-7) this]
  have sum: "(\<Sum>k = Suc j..<length ops. f k) = f (Suc j) + (\<Sum>k = Suc (Suc j)..<length ops. f k)" for f :: "nat \<Rightarrow> nat"
    using Suc.prems(8) by (intro sum.atLeast_Suc_lessThan) simp
  have "lit_time r c (tim4_play (Suc (Suc n)) s) = (if led_lit ?s r c then tim4_ticks ?s else 0) + lit_time r c (tim4_play (Suc n) ?s)"
    by (simp add: Let_def)
  moreover have "play_end (Suc (Suc n)) s = play_end (Suc n) ?s" by (rule play_end_simps(2))
  ultimately show ?case
    using ih lit_at_op [OF at ra Suc.prems(3-5)] st lo sum by simp
qed

text \<open>A whole row, from the dark time before it to the dark time after it.\<close>

lemma play_row:
  assumes after: "after_row t b ops i s" "row_at s t b ops" "bit (op_op (last ops)) 6"
    and row: "row_at s t' b' ops'" "row_shows v ops'" "i' < LED_ROW_SIZE"
    and whichever: "if bit (op_op (last ops)) 7 then t' = next_table s \<and> b' = 0 \<and> i' = 0 else t' = t \<and> b' = b + length ops \<and> i' = Suc i"
    and led: "r < LED_ROW_SIZE" "c < LED_COL_SIZE"
  defines "n \<equiv> Suc (length ops')"
  shows "after_row t' b' ops' i' (play_end n s) \<and> (\<forall>u. led_ops u (play_end n s) = led_ops u s)
    \<and> led_ops_table (play_end n s) = (if bit (op_op (last ops)) 7 then t' else led_ops_table s)
    \<and> lit_time r c (tim4_play n s) = (if r = i' then unat (v c) else 0)"
proof -
  let ?s = "snd (tim4_pass s)"
  have shown: "ops' \<noteq> []" "\<forall>op \<in> set (butlast ops'). \<not> bit (op_op op) 6" "bit (op_op (last ops')) 6" "on_time c ops' = unat (v c)"
    using row(2) led(2) by (simp_all add: row_shows_def)
  note pn = pass_next [OF after row(1) shown(1) row(3) whichever]
  have ra: "row_at ?s t' b' ops'" using pn(2) row(1) row_at_cong [of t' ?s s b' ops'] by simp
  obtain m where m: "length ops' = Suc m" using shown(1) by (cases ops') auto
  note rest = play_row_rest [OF pn(1) ra row(3) led shown(2,3), of m]
  have "on_time c ops' = op_time c ops' 0 + (\<Sum>k = Suc 0..<length ops'. op_time c ops' k)"
    unfolding on_time_split m lessThan_atLeast0 by (subst sum.atLeast_Suc_lessThan) simp_all
  moreover have "lit_time r c (tim4_play n s) = (if led_lit ?s r c then tim4_ticks ?s else 0) + lit_time r c (tim4_play (Suc m) ?s)"
    by (simp add: n_def m Let_def)
  moreover have "play_end n s = play_end (Suc m) ?s" unfolding n_def m by (rule play_end_simps(2))
  ultimately show ?thesis
    using rest m lit_at_op [OF pn(1) ra row(3) led] pn(2,3) shown(4) by simp
qed

text \<open>An operation table whose rows show \<open>v\<close>.\<close>

definition row_base :: "LedArrayOp list list \<Rightarrow> nat \<Rightarrow> nat" where
  "row_base rows i = length (concat (take i rows))"

definition table_rows :: "led \<Rightarrow> led_table \<Rightarrow> (nat \<Rightarrow> nat \<Rightarrow> u8) \<Rightarrow> LedArrayOp list list \<Rightarrow> bool" where
  "table_rows s t v rows \<longleftrightarrow> length rows = LED_ROW_SIZE
     \<and> (\<forall>i < LED_ROW_SIZE. row_shows (v i) (rows ! i) \<and> (bit (op_op (last (rows ! i))) 7 \<longleftrightarrow> i = LED_ROW_SIZE - 1)
          \<and> row_at s t (row_base rows i) (rows ! i))"

definition table_shows :: "led \<Rightarrow> led_table \<Rightarrow> (nat \<Rightarrow> nat \<Rightarrow> u8) \<Rightarrow> bool" where
  "table_shows s t v \<longleftrightarrow> (\<exists>ops. schedule_shows v ops \<and> take (length ops) (led_ops t s) = ops)"

lemma row_base_Suc: "i < length rows \<Longrightarrow> row_base rows (Suc i) = row_base rows i + length (rows ! i)"
  by (simp add: row_base_def take_Suc_conv_app_nth)

lemma nth_concat_row:
  "i < length rows \<Longrightarrow> j < length (rows ! i) \<Longrightarrow>
   row_base rows i + j < length (concat rows) \<and> concat rows ! (row_base rows i + j) = rows ! i ! j"
proof (induction rows arbitrary: i)
  case (Cons r rows)
  show ?case
  proof (cases i)
    case 0
    then show ?thesis using Cons.prems by (simp add: row_base_def nth_append)
  next
    case (Suc k)
    then show ?thesis using Cons.IH [of k] Cons.prems by (simp add: row_base_def nth_append add.assoc)
  qed
qed simp

lemma table_shows_rows:
  assumes "table_shows s t v"
  obtains rows where "table_rows s t v rows"
proof -
  obtain rows where r: "length rows = LED_ROW_SIZE" "take (length (concat rows)) (led_ops t s) = concat rows"
    "\<forall>i < LED_ROW_SIZE. row_shows (v i) (rows ! i) \<and> (bit (op_op (last (rows ! i))) 7 \<longleftrightarrow> i = LED_ROW_SIZE - 1)"
    using assms by (auto simp: table_shows_def schedule_shows_def)
  have "led_ops t s ! k = concat rows ! k" if "k < length (concat rows)" for k
    using that r(2) by (metis nth_take)
  then have "\<forall>i < LED_ROW_SIZE. row_at s t (row_base rows i) (rows ! i)"
    using nth_concat_row r(1) unfolding row_at_def by metis
  then have "table_rows s t v rows" using r by (simp add: table_rows_def)
  then show ?thesis by (rule that)
qed

text \<open>The end of a frame: the dark time after a row that closes a table.\<close>

definition frame_end :: "led \<Rightarrow> bool" where
  "frame_end s \<longleftrightarrow> (\<exists>t b i op. after_row t b [op] i s \<and> row_at s t b [op] \<and> bit (op_op op) 6 \<and> bit (op_op op) 7)"

lemma play_rows:
  assumes "frame_end s" "table_rows s (next_table s) v rows" "i < LED_ROW_SIZE" "r < LED_ROW_SIZE" "c < LED_COL_SIZE"
  defines "n k \<equiv> row_base rows (Suc k) + Suc k"
  shows "after_row (next_table s) (row_base rows i) (rows ! i) i (play_end (n i) s)
    \<and> (\<forall>u. led_ops u (play_end (n i) s) = led_ops u s) \<and> led_ops_table (play_end (n i) s) = next_table s
    \<and> lit_time r c (tim4_play (n i) s) = (if r \<le> i then unat (v r c) else 0)"
  using assms(3)
proof (induction i)
  case 0
  obtain t b k op where f: "after_row t b [op] k s" "row_at s t b [op]" "bit (op_op op) 6" "bit (op_op op) 7"
    using assms(1) by (auto simp: frame_end_def)
  have rows: "row_at s (next_table s) 0 (rows ! 0)" "row_shows (v 0) (rows ! 0)" "length rows = LED_ROW_SIZE"
    using assms(2) by (simp_all add: table_rows_def) (metis concat.simps(1) list.size(3) row_base_def take0 zero_less_numeral)
  have "n 0 = Suc (length (rows ! 0))" using rows(3) by (simp add: n_def row_base_Suc) (simp add: row_base_def)
  then show ?case
    using play_row [OF f(1,2) _ rows(1,2) _ _ assms(4,5), of 0] f(3,4) by (simp add: row_base_def)
next
  case (Suc i)
  let ?s = "play_end (n i) s"
  let ?t = "next_table s"
  have ih: "after_row ?t (row_base rows i) (rows ! i) i ?s" "\<And>u. led_ops u ?s = led_ops u s" "led_ops_table ?s = ?t"
    "lit_time r c (tim4_play (n i) s) = (if r \<le> i then unat (v r c) else 0)"
    using Suc by simp_all
  have rows: "length rows = LED_ROW_SIZE" "row_at s ?t (row_base rows k) (rows ! k)" "row_shows (v k) (rows ! k)"
    "bit (op_op (last (rows ! k))) 7 \<longleftrightarrow> k = LED_ROW_SIZE - 1" "bit (op_op (last (rows ! k))) 6" if "k < LED_ROW_SIZE" for k
    using assms(2) that by (auto simp: table_rows_def row_shows_def)
  have i: "i < LED_ROW_SIZE" "i \<noteq> LED_ROW_SIZE - 1" using Suc.prems by simp_all
  have ra: "row_at ?s ?t (row_base rows k) (rows ! k)" if "k < LED_ROW_SIZE" for k
    using rows(2) [OF that] row_at_cong [of ?t ?s s] ih(2) by simp
  have b: "row_base rows (Suc k) = row_base rows k + length (rows ! k)" if "k < LED_ROW_SIZE" for k
    using that rows(1) by (simp add: row_base_Suc)
  have w: "if bit (op_op (last (rows ! i))) 7 then ?t = next_table ?s \<and> row_base rows (Suc i) = 0 \<and> Suc i = 0
    else ?t = ?t \<and> row_base rows (Suc i) = row_base rows i + length (rows ! i) \<and> Suc i = Suc i"
    using rows(4) [OF i(1)] i b by simp
  note pr = play_row [OF ih(1) ra [OF i(1)] rows(5) [OF i(1)] ra [OF Suc.prems] rows(3) [OF Suc.prems] Suc.prems w assms(4,5)]
  have n: "n (Suc i) = n i + Suc (length (rows ! Suc i))" using b [OF Suc.prems] by (simp add: n_def)
  have e: "play_end (n (Suc i)) s = play_end (Suc (length (rows ! Suc i))) ?s"
    "lit_time r c (tim4_play (n (Suc i)) s) = lit_time r c (tim4_play (n i) s) + lit_time r c (tim4_play (Suc (length (rows ! Suc i))) ?s)"
    by (simp_all only: n play_end_add tim4_play_append lit_time_simps(3))
  show ?case
    unfolding e using pr ih(2,3,4) rows(4) [OF i(1)] i(2) by (auto simp: le_Suc_eq simp del: tim4_play.simps)
qed

lemma row_base_bound:
  assumes "table_rows s t v rows" "i \<le> LED_ROW_SIZE"
  shows "row_base rows i \<le> 7 * i"
  using assms(2)
proof (induction i)
  case (Suc i)
  then have "length (rows ! i) \<le> 7" "i < length rows" using assms(1) by (auto simp: table_rows_def row_shows_def)
  then show ?case using Suc by (simp add: row_base_Suc)
qed (simp add: row_base_def)

lemma after_row_last:
  assumes "after_row t b ops i s" "row_at s t b ops"
  shows "after_row t (b + length ops - 1) [last ops] i s" "row_at s t (b + length ops - 1) [last ops]"
proof -
  have ne: "ops \<noteq> []" using assms(1) by (simp add: after_row_def)
  then show "after_row t (b + length ops - 1) [last ops] i s" using assms(1) by (auto simp: after_row_def)
  have "led_ops t s ! (b + (length ops - 1)) = ops ! (length ops - 1)" using assms(2) ne unfolding row_at_def by simp
  moreover have "b + (length ops - 1) = b + length ops - 1" using ne by (cases ops) auto
  ultimately show "row_at s t (b + length ops - 1) [last ops]" using ne by (simp add: row_at_def last_conv_nth)
qed

lemma play_frame:
  assumes "frame_end s" "table_shows s (next_table s) v"
  shows "\<exists>n \<le> LED_OP_COUNT + LED_ROW_SIZE. frame_end (play_end n s) \<and> (\<forall>u. led_ops u (play_end n s) = led_ops u s)
    \<and> led_ops_table (play_end n s) = next_table s
    \<and> (\<forall>r c. r < LED_ROW_SIZE \<and> c < LED_COL_SIZE \<longrightarrow> lit_time r c (tim4_play n s) = unat (v r c))"
proof -
  obtain rows where rows: "table_rows s (next_table s) v rows" using assms(2) by (rule table_shows_rows)
  define n where "n = row_base rows (Suc 3) + Suc 3"
  note pr = play_rows [OF assms(1) rows, of 3, folded n_def]
  have a: "after_row (next_table s) (row_base rows 3) (rows ! 3) 3 (play_end n s)" and lo: "led_ops u (play_end n s) = led_ops u s"
    and lt: "led_ops_table (play_end n s) = next_table s" for u
    using pr [of 0 0] by auto
  have l: "row_at s (next_table s) (row_base rows 3) (rows ! 3)" "bit (op_op (last (rows ! 3))) 6" "bit (op_op (last (rows ! 3))) 7"
    using rows by (auto simp: table_rows_def row_shows_def)
  have "row_at (play_end n s) (next_table s) (row_base rows 3) (rows ! 3)"
    using l(1) lo row_at_cong [of "next_table s" "play_end n s" s] by simp
  then have "frame_end (play_end n s)"
    using after_row_last [OF a] l(2,3) unfolding frame_end_def by blast
  moreover have "n \<le> LED_OP_COUNT + LED_ROW_SIZE" using row_base_bound [OF rows, of 4] by (simp add: n_def)
  moreover have "lit_time r c (tim4_play n s) = unat (v r c)" if "r < LED_ROW_SIZE" "c < LED_COL_SIZE" for r c
    using pr [OF _ that] that by simp
  ultimately show ?thesis using lo lt by blast
qed

end
