(* ===== verification/Ctrl_Display.thy ===== *)
theory Ctrl_Display
  imports Ctrl_Playback
begin

text \<open>
  The LED display as a whole: the invariant of the timer interrupt and the table builder, that
  the interrupt returns, and that a new PWM table is shown in the frame after the one that is
  playing.
\<close>

section \<open>The invariant of the playback\<close>

definition playing :: "led_table \<Rightarrow> LedArrayOp list list \<Rightarrow> nat \<Rightarrow> led \<Rightarrow> bool" where
  "playing t rows i s \<longleftrightarrow> i < LED_ROW_SIZE
     \<and> ((\<exists>j. at_op t (row_base rows i) (rows ! i) i j s) \<or> after_row t (row_base rows i) (rows ! i) i s)"

definition led_inv :: "led \<Rightarrow> bool" where
  "led_inv s \<longleftrightarrow> (\<forall>t. length (led_ops t s) = LED_OP_COUNT)
     \<and> (\<exists>v rows i. table_rows s (led_ops_table s) v rows \<and> playing (led_ops_table s) rows i s)
     \<and> (led_state s AND LED_STATE_OPS_READY \<noteq> 0 \<longrightarrow> (\<exists>v. table_shows s (led_other (led_ops_table s)) v))"

lemma table_rows_cong: "led_ops t s' = led_ops t s \<Longrightarrow> table_rows s' t v rows = table_rows s t v rows"
  by (simp add: table_rows_def row_at_def)

lemma table_shows_cong: "led_ops t s' = led_ops t s \<Longrightarrow> table_shows s' t v = table_shows s t v"
  by (simp add: table_shows_def)

lemma table_rowsD:
  assumes "table_rows s t v rows" "i < LED_ROW_SIZE"
  shows "row_at s t (row_base rows i) (rows ! i)" "row_shows (v i) (rows ! i)"
    "bit (op_op (last (rows ! i))) 7 \<longleftrightarrow> i = LED_ROW_SIZE - 1" "bit (op_op (last (rows ! i))) 6" "rows ! i \<noteq> []"
    "length (rows ! i) \<le> 7" "row_base rows (Suc i) = row_base rows i + length (rows ! i)"
    "\<And>op. op \<in> set (butlast (rows ! i)) \<Longrightarrow> \<not> bit (op_op op) 6"
  using assms by (auto simp: table_rows_def row_shows_def row_base_Suc)

lemma off_time_ops_ready: "(x OR LED_STATE_OFF_TIME) AND LED_STATE_OPS_READY = x AND LED_STATE_OPS_READY"
  "(x AND NOT LED_STATE_OFF_TIME) AND LED_STATE_OPS_READY = x AND LED_STATE_OPS_READY"
  "(x AND - 5) AND LED_STATE_OPS_READY = x AND LED_STATE_OPS_READY"
  by (simp_all add: bit.conj_disj_distrib2 and.assoc)

text \<open>One pass from operation \<open>j\<close> of a row.\<close>

lemma pass_at_op:
  assumes rows: "table_rows s t v rows" "i < LED_ROW_SIZE" and at: "at_op t (row_base rows i) (rows ! i) i j s"
  defines "s' \<equiv> snd (tim4_pass s)"
  shows "led_ops u s' = led_ops u s" "led_ops_table s' = led_ops_table s"
    "led_state s' = (if Suc j < length (rows ! i) then led_state s else led_state s OR LED_STATE_OFF_TIME)"
    "if Suc j < length (rows ! i) then at_op t (row_base rows i) (rows ! i) i (Suc j) s'
     else after_row t (row_base rows i) (rows ! i) i s' \<and> fst (tim4_pass s) = TIM4_RETURN"
proof -
  note r = table_rowsD [OF rows]
  have j: "j < length (rows ! i)" using at by (simp add: at_op_def)
  have "led_ops u s' = led_ops u s \<and> led_ops_table s' = led_ops_table s
    \<and> led_state s' = (if Suc j < length (rows ! i) then led_state s else led_state s OR LED_STATE_OFF_TIME)
    \<and> (if Suc j < length (rows ! i) then at_op t (row_base rows i) (rows ! i) i (Suc j) s'
     else after_row t (row_base rows i) (rows ! i) i s' \<and> fst (tim4_pass s) = TIM4_RETURN)"
  proof (cases "Suc j < length (rows ! i)")
    case True
    then have "\<not> bit (op_op (rows ! i ! j)) 6" using r(8) [of "rows ! i ! j"]
      by (metis length_butlast less_diff_conv nth_butlast nth_mem Suc_eq_plus1)
    then show ?thesis using pass_same_row [OF at r(1) rows(2) True] True by (simp add: s'_def)
  next
    case False
    then have l: "Suc j = length (rows ! i)" using j by simp
    then have "rows ! i ! j = last (rows ! i)" using r(5) by (simp add: last_conv_nth flip: l)
    then show ?thesis using pass_row_end [OF at r(1) rows(2) l] r(4) False by (simp add: s'_def)
  qed
  then show "led_ops u s' = led_ops u s" "led_ops_table s' = led_ops_table s"
    "led_state s' = (if Suc j < length (rows ! i) then led_state s else led_state s OR LED_STATE_OFF_TIME)"
    "if Suc j < length (rows ! i) then at_op t (row_base rows i) (rows ! i) i (Suc j) s'
     else after_row t (row_base rows i) (rows ! i) i s' \<and> fst (tim4_pass s) = TIM4_RETURN"
    by blast+
qed

lemma row_base_0 [simp]: "row_base rows 0 = 0"
  by (simp add: row_base_def)

text \<open>One pass from the dark time after a row; \<open>rows'\<close> are the rows of the next table when the
  frame is over.\<close>

lemma pass_dark:
  assumes rows: "table_rows s t v rows" "i < LED_ROW_SIZE" and after: "after_row t (row_base rows i) (rows ! i) i s"
    and nxt: "table_rows s t' v' rows'" "i' < LED_ROW_SIZE"
      "if i = LED_ROW_SIZE - 1 then t' = next_table s \<and> i' = 0 else t' = t \<and> rows' = rows \<and> i' = Suc i"
  defines "s' \<equiv> snd (tim4_pass s)"
  shows "at_op t' (row_base rows' i') (rows' ! i') i' 0 s'" "led_ops u s' = led_ops u s"
    "led_ops_table s' = (if i = LED_ROW_SIZE - 1 then t' else led_ops_table s)"
    "led_state s' = (if i = LED_ROW_SIZE - 1 \<and> t' \<noteq> led_ops_table s then 0 else led_state s AND NOT LED_STATE_OFF_TIME)"
proof -
  note r = table_rowsD [OF rows] and r' = table_rowsD [OF nxt(1,2)]
  have "if bit (op_op (last (rows ! i))) 7 then t' = next_table s \<and> row_base rows' i' = 0 \<and> i' = 0
    else t' = t \<and> row_base rows' i' = row_base rows i + length (rows ! i) \<and> i' = Suc i"
    using nxt(3) r(3,7) by (auto split: if_splits)
  note pn = pass_next [OF after r(1,4) r'(1,5) nxt(2) this]
  show "at_op t' (row_base rows' i') (rows' ! i') i' 0 s'" "led_ops u s' = led_ops u s"
    "led_ops_table s' = (if i = LED_ROW_SIZE - 1 then t' else led_ops_table s)"
    "led_state s' = (if i = LED_ROW_SIZE - 1 \<and> t' \<noteq> led_ops_table s then 0 else led_state s AND NOT LED_STATE_OFF_TIME)"
    using pn r(3) by (simp_all add: s'_def)
qed

text \<open>The table that is played after the dark time, whichever it is, holds a schedule.\<close>

lemma led_inv_next:
  assumes "led_inv s"
  obtains v' rows' where "table_rows s (next_table s) v' rows'"
proof (cases "next_table s = led_ops_table s")
  case False
  then have "led_state s AND (LED_STATE_PWM_READY OR LED_STATE_OPS_READY) = LED_STATE_PWM_READY OR LED_STATE_OPS_READY"
    and n: "next_table s = led_other (led_ops_table s)"
    by (auto simp: next_table_def split: if_splits)
  then have "(led_state s AND (LED_STATE_PWM_READY OR LED_STATE_OPS_READY)) AND LED_STATE_OPS_READY \<noteq> 0" by simp
  then have "led_state s AND LED_STATE_OPS_READY \<noteq> 0" by (simp add: and.assoc)
  then show ?thesis using assms n that by (auto simp: led_inv_def elim: table_shows_rows)
qed (use assms that in \<open>auto simp: led_inv_def\<close>)

lemma led_inv_pass:
  assumes inv: "led_inv s"
  shows "led_inv (snd (tim4_pass s))"
proof -
  let ?s = "snd (tim4_pass s)"
  let ?t = "led_ops_table s"
  obtain v rows i where rows: "table_rows s ?t v rows" and pl: "playing ?t rows i s" and i: "i < LED_ROW_SIZE"
    using inv by (auto simp: led_inv_def playing_def)
  have len: "length (led_ops u s) = LED_OP_COUNT" for u using inv by (simp add: led_inv_def)
  from pl consider (op) j where "at_op ?t (row_base rows i) (rows ! i) i j s" | (dark) "after_row ?t (row_base rows i) (rows ! i) i s"
    by (auto simp: playing_def)
  then show ?thesis
  proof cases
    case op
    note p = pass_at_op [OF rows i op]
    have "playing ?t rows i ?s" using p(4) i by (auto simp: playing_def split: if_splits)
    moreover have "led_state ?s AND LED_STATE_OPS_READY = led_state s AND LED_STATE_OPS_READY"
      using p(3) by (simp add: off_time_ops_ready)
    ultimately show ?thesis
      using inv rows p(1,2) len table_rows_cong [of ?t ?s s] table_shows_cong [of "led_other ?t" ?s s]
      unfolding led_inv_def by metis
  next
    case dark
    define t' where "t' = (if i = LED_ROW_SIZE - 1 then next_table s else ?t)"
    obtain v' rows' where r': "table_rows s t' v' rows'" "i \<noteq> LED_ROW_SIZE - 1 \<longrightarrow> rows' = rows"
      using led_inv_next [OF inv] rows unfolding t'_def by metis
    define i' where "i' = (if i = LED_ROW_SIZE - 1 then 0 else Suc i)"
    have i': "i' < LED_ROW_SIZE" using i by (auto simp: i'_def)
    note p = pass_dark [OF rows i dark r'(1) i']
    have w: "if i = LED_ROW_SIZE - 1 then t' = next_table s \<and> i' = 0 else t' = ?t \<and> rows' = rows \<and> i' = Suc i"
      using r'(2) by (simp add: t'_def i'_def)
    have tab: "led_ops_table ?s = t'" using p(3) [OF w] by (simp add: t'_def split: if_splits)
    have "led_state ?s AND LED_STATE_OPS_READY \<noteq> 0 \<Longrightarrow> t' = ?t \<and> led_state s AND LED_STATE_OPS_READY \<noteq> 0"
      using p(4) [OF w] by (auto simp: t'_def off_time_ops_ready split: if_splits)
    moreover have "playing t' rows' i' ?s" using p(1) [OF w] i' by (auto simp: playing_def)
    moreover have "led_ops u ?s = led_ops u s" for u by (rule p(2) [OF w])
    ultimately show ?thesis
      using inv r'(1) tab len table_rows_cong [of t' ?s s] table_shows_cong [of "led_other ?t" ?s s]
      unfolding led_inv_def by metis
  qed
qed

section \<open>The interrupt returns\<close>

lemma tim4_exit_cases: "fst (tim4_pass s) = TIM4_RETURN \<or> (\<exists>b. fst (tim4_pass s) = TIM4_AGAIN b)"
  by (cases "fst (tim4_pass s)") auto

lemma handler_unfold:
  "TIM4_UPD_OVF_TRG_IRQHandler (Suc n) s = (if fst (tim4_pass s) = TIM4_RETURN then Some (snd (tim4_pass s))
     else TIM4_UPD_OVF_TRG_IRQHandler n (snd (tim4_pass s)))"
  by (cases "tim4_pass s") (auto split: tim4_exit.split)

lemma handler_keeps: "TIM4_UPD_OVF_TRG_IRQHandler n s = Some s' \<Longrightarrow> led_inv s \<Longrightarrow> led_inv s'"
proof (induction n arbitrary: s)
  case (Suc n)
  then show ?case using led_inv_pass [of s] by (auto simp: handler_unfold simp del: TIM4_UPD_OVF_TRG_IRQHandler.simps split: if_splits)
qed simp

lemma handler_at_op:
  assumes "table_rows s t v rows" "i < LED_ROW_SIZE" "at_op t (row_base rows i) (rows ! i) i j s" "length (rows ! i) - j \<le> n"
  shows "TIM4_UPD_OVF_TRG_IRQHandler n s \<noteq> None"
  using assms
proof (induction n arbitrary: j s)
  case 0
  then show ?case by (simp add: at_op_def)
next
  case (Suc n)
  let ?s = "snd (tim4_pass s)"
  note p = pass_at_op [OF Suc.prems(1-3)]
  have "table_rows ?s t v rows" using Suc.prems(1) p(1) table_rows_cong [of t ?s s] by simp
  note ih = Suc.IH [OF this Suc.prems(2), of "Suc j"]
  show ?case
    using ih p(4) Suc.prems(4) by (auto simp: handler_unfold simp del: TIM4_UPD_OVF_TRG_IRQHandler.simps split: if_splits)
qed

lemma handler_returns:
  assumes inv: "led_inv s"
  shows "TIM4_UPD_OVF_TRG_IRQHandler (LED_COL_SIZE + 2) s \<noteq> None"
proof -
  let ?s = "snd (tim4_pass s)"
  obtain v rows i where rows: "table_rows s (led_ops_table s) v rows" and pl: "playing (led_ops_table s) rows i s" and i: "i < LED_ROW_SIZE"
    using inv by (auto simp: led_inv_def playing_def)
  from pl consider (op) j where "at_op (led_ops_table s) (row_base rows i) (rows ! i) i j s"
    | (dark) "after_row (led_ops_table s) (row_base rows i) (rows ! i) i s"
    by (auto simp: playing_def)
  then show ?thesis
  proof cases
    case op
    show ?thesis using handler_at_op [OF rows i op] table_rowsD(6) [OF rows i] by simp
  next
    case dark
    define t' where "t' = (if i = LED_ROW_SIZE - 1 then next_table s else led_ops_table s)"
    obtain v' rows' where r': "table_rows s t' v' rows'" "i \<noteq> LED_ROW_SIZE - 1 \<longrightarrow> rows' = rows"
      using led_inv_next [OF inv] rows unfolding t'_def by metis
    define i' where "i' = (if i = LED_ROW_SIZE - 1 then 0 else Suc i)"
    have i': "i' < LED_ROW_SIZE" using i by (auto simp: i'_def)
    have w: "if i = LED_ROW_SIZE - 1 then t' = next_table s \<and> i' = 0 else t' = led_ops_table s \<and> rows' = rows \<and> i' = Suc i"
      using r'(2) by (simp add: t'_def i'_def)
    note p = pass_dark [OF rows i dark r'(1) i' w]
    have "table_rows ?s t' v' rows'" using r'(1) p(2) table_rows_cong [of t' ?s s] by simp
    from handler_at_op [OF this i' p(1), of 7] table_rowsD(6) [OF r'(1) i']
    have "TIM4_UPD_OVF_TRG_IRQHandler 7 ?s \<noteq> None" by simp
    moreover have "LED_COL_SIZE + 2 = Suc 7" by simp
    ultimately show ?thesis by (simp only: handler_unfold) simp
  qed
qed

section \<open>Reaching the end of a frame\<close>

definition ready_flags :: "led \<Rightarrow> u8" where
  "ready_flags s = led_state s AND (LED_STATE_PWM_READY OR LED_STATE_OPS_READY)"

lemma next_table_ready:
  "next_table s = (if ready_flags s = LED_STATE_PWM_READY OR LED_STATE_OPS_READY then led_other (led_ops_table s) else led_ops_table s)"
  by (simp add: next_table_def ready_flags_def)

definition kept :: "led \<Rightarrow> led \<Rightarrow> bool" where
  "kept s s' \<longleftrightarrow> (\<forall>u. led_ops u s' = led_ops u s) \<and> led_ops_table s' = led_ops_table s \<and> ready_flags s' = ready_flags s"

lemma kept_trans: "kept s s' \<Longrightarrow> kept s' s'' \<Longrightarrow> kept s s''"
  by (simp add: kept_def)

lemma ready_off_time: "(x OR LED_STATE_OFF_TIME) AND 3 = x AND 3" "(x AND NOT LED_STATE_OFF_TIME) AND 3 = x AND 3"
  "(x AND - 5) AND 3 = x AND (3 :: u8)"
  by (simp_all add: bit.conj_disj_distrib2 and.assoc)

lemma reach_dark:
  assumes "table_rows s t v rows" "i < LED_ROW_SIZE" "at_op t (row_base rows i) (rows ! i) i j s"
  shows "after_row t (row_base rows i) (rows ! i) i (play_end (length (rows ! i) - j) s) \<and> kept s (play_end (length (rows ! i) - j) s)"
  using assms
proof (induction "length (rows ! i) - Suc j" arbitrary: j s)
  case 0
  let ?s = "snd (tim4_pass s)"
  have "length (rows ! i) - j = Suc 0" using 0 by (auto simp: at_op_def)
  then show ?case
    using pass_at_op [OF 0(2-4)] 0(1) by (auto simp: play_end_simps kept_def ready_flags_def ready_off_time)
next
  case (Suc n)
  let ?s = "snd (tim4_pass s)"
  note p = pass_at_op [OF Suc.prems]
  have j: "Suc j < length (rows ! i)" "length (rows ! i) - j = Suc (length (rows ! i) - Suc j)" using Suc.hyps(2) by simp_all
  have r: "table_rows ?s t v rows" using Suc.prems(1) p(1) table_rows_cong [of t ?s s] by simp
  have at: "at_op t (row_base rows i) (rows ! i) i (Suc j) ?s" using p(4) j by simp
  have "kept s ?s" using p(1-3) j(1) by (simp add: kept_def ready_flags_def)
  then show ?case
    using Suc.hyps(1) [OF _ r Suc.prems(2) at] Suc.hyps(2) kept_trans [of s ?s] by (simp add: j(2) play_end_simps)
qed

lemma reach_frame_end:
  assumes "table_rows s t v rows" "i < LED_ROW_SIZE" "after_row t (row_base rows i) (rows ! i) i s"
  shows "\<exists>m \<le> 8 * (3 - i). frame_end (play_end m s) \<and> kept s (play_end m s)"
  using assms
proof (induction "3 - i" arbitrary: i s)
  case 0
  then have "i = 3" by simp
  then have "frame_end s"
    using after_row_last [OF 0(4) table_rowsD(1) [OF 0(2,3)]] table_rowsD(3,4) [OF 0(2,3)] unfolding frame_end_def by auto
  then show ?case by (intro exI [of _ 0]) (simp add: play_end_simps kept_def)
next
  case (Suc n)
  let ?s = "snd (tim4_pass s)"
  have i: "Suc i < LED_ROW_SIZE" "i \<noteq> LED_ROW_SIZE - 1" using Suc.hyps(2) by simp_all
  note p = pass_dark [OF Suc.prems Suc.prems(1) i(1)]
  have k: "kept s ?s" "at_op t (row_base rows (Suc i)) (rows ! Suc i) (Suc i) 0 ?s"
    using p i(2) by (simp_all add: kept_def ready_flags_def ready_off_time)
  have r: "table_rows ?s t v rows" using Suc.prems(1) k(1) table_rows_cong [of t ?s s] by (simp add: kept_def)
  define s2 where "s2 = play_end (length (rows ! Suc i)) ?s"
  have d: "after_row t (row_base rows (Suc i)) (rows ! Suc i) (Suc i) s2" "kept ?s s2"
    using reach_dark [OF r i(1) k(2)] by (simp_all add: s2_def)
  have r2: "table_rows s2 t v rows" using r d(2) table_rows_cong [of t s2 ?s] by (simp add: kept_def)
  have "n = 3 - Suc i" using Suc.hyps(2) by simp
  from Suc.hyps(1) [OF this r2 i(1) d(1)] obtain m where m: "m \<le> 8 * (3 - Suc i)" "frame_end (play_end m s2)" "kept s2 (play_end m s2)"
    by blast
  have e: "play_end m s2 = play_end (Suc (length (rows ! Suc i)) + m) s"
    by (simp only: play_end_add play_end_simps s2_def)
  have "Suc (length (rows ! Suc i)) + m \<le> 8 * (3 - i)" using m(1) table_rowsD(6) [OF Suc.prems(1) i(1)] i(1) by simp
  then show ?case using m(2,3) k(1) d(2) kept_trans unfolding e by blast
qed

lemma led_inv_frame_end:
  assumes inv: "led_inv s"
  shows "\<exists>m \<le> LED_OP_COUNT + LED_ROW_SIZE. frame_end (play_end m s) \<and> kept s (play_end m s)"
proof -
  obtain v rows i where rows: "table_rows s (led_ops_table s) v rows" and pl: "playing (led_ops_table s) rows i s" and i: "i < LED_ROW_SIZE"
    using inv by (auto simp: led_inv_def playing_def)
  from pl consider (op) j where "at_op (led_ops_table s) (row_base rows i) (rows ! i) i j s"
    | (dark) "after_row (led_ops_table s) (row_base rows i) (rows ! i) i s"
    by (auto simp: playing_def)
  then show ?thesis
  proof cases
    case op
    define s2 where "s2 = play_end (length (rows ! i) - j) s"
    have d: "after_row (led_ops_table s) (row_base rows i) (rows ! i) i s2" "kept s s2"
      using reach_dark [OF rows i op] by (simp_all add: s2_def)
    have "table_rows s2 (led_ops_table s) v rows" using rows d(2) table_rows_cong [of "led_ops_table s" s2 s] by (simp add: kept_def)
    from reach_frame_end [OF this i d(1)] obtain m where m: "m \<le> 8 * (3 - i)" "frame_end (play_end m s2)" "kept s2 (play_end m s2)"
      by blast
    have "length (rows ! i) - j + m \<le> LED_OP_COUNT + LED_ROW_SIZE" using m(1) table_rowsD(6) [OF rows i] by simp
    then show ?thesis using m d(2) kept_trans unfolding s2_def play_end_add [symmetric] by blast
  next
    case dark
    have "8 * (3 - i) \<le> LED_OP_COUNT + LED_ROW_SIZE" by simp
    then show ?thesis using reach_frame_end [OF rows i dark] by (meson le_trans)
  qed
qed

section \<open>New tables\<close>

definition led_target :: "led \<Rightarrow> nat \<Rightarrow> nat \<Rightarrow> u8" where
  "led_target s r c = led_pwm_table s ! (led_lut ! (LED_COL_SIZE * r + c))"

lemma led_ops_set: "led_ops u (set_led_ops t ops s) = (if u = t then ops else led_ops u s)"
  by (cases t; cases u) (simp_all add: set_led_ops_def led_ops_def)

lemma led_ops_calc [simp]: "led_ops u (s\<lparr>led_calc_table := x\<rparr>) = led_ops u s"
  by (simp add: led_ops_def split: led_table.split)

lemma set_led_ops_fields:
  "led_state (set_led_ops t ops s) = led_state s" "led_ops_table (set_led_ops t ops s) = led_ops_table s"
  "led_current_op (set_led_ops t ops s) = led_current_op s" "active_row (set_led_ops t ops s) = active_row s"
  "inactive_cols (set_led_ops t ops s) = inactive_cols s" "led_rows (set_led_ops t ops s) = led_rows s"
  "led_cols (set_led_ops t ops s) = led_cols s" "led_pwm_table (set_led_ops t ops s) = led_pwm_table s"
  by (simp_all add: set_led_ops_def split: led_table.split)

lemma led_update_arr_fields:
  fixes s :: led
  defines "s' \<equiv> led_update_arr s"
  shows "led_ops u s' = (if u = led_other (led_ops_table s)
      then put_at 0 (led_schedule (led_pwm_table s)) (led_ops u s) else led_ops u s)"
    "led_state s' = led_state s OR LED_STATE_OPS_READY" "led_ops_table s' = led_ops_table s"
    "led_current_op s' = led_current_op s" "active_row s' = active_row s" "inactive_cols s' = inactive_cols s"
    "led_rows s' = led_rows s" "led_cols s' = led_cols s" "led_pwm_table s' = led_pwm_table s"
  unfolding s'_def by (subst led_update_arr_eq, simp add: Let_def led_ops_set set_led_ops_fields)+

lemma led_update_arr_shows:
  assumes "length (led_ops (led_other (led_ops_table s)) s) = LED_OP_COUNT"
  shows "table_shows (led_update_arr s) (led_other (led_ops_table s)) (led_target s)"
proof -
  have sh: "schedule_shows (led_target s) (led_schedule (led_pwm_table s))"
    using led_schedule_shows [of "led_pwm_table s"] unfolding led_target_def .
  then show ?thesis
    unfolding table_shows_def using schedule_shows_length [OF sh] assms
    by (intro exI [of _ "led_schedule (led_pwm_table s)"]) (simp add: led_update_arr_fields put_at_def)
qed

lemma off_time_ops: "(x OR LED_STATE_OPS_READY) AND LED_STATE_OFF_TIME = x AND LED_STATE_OFF_TIME"
  by (simp add: bit.conj_disj_distrib2)

lemma playing_update: "playing t rows i (led_update_arr s) = playing t rows i s"
  by (simp add: playing_def at_op_def after_row_def only_row_def led_update_arr_fields off_time_ops)

lemma led_inv_update:
  assumes "led_inv s"
  shows "led_inv (led_update_arr s)"
proof -
  let ?t = "led_ops_table s"
  let ?s = "led_update_arr s"
  have len: "length (led_ops u s) = LED_OP_COUNT" for u using assms by (simp add: led_inv_def)
  have l: "length (led_schedule (led_pwm_table s)) \<le> LED_OP_COUNT" using schedule_shows_length [OF led_schedule_shows] by blast
  have "length (led_ops u ?s) = LED_OP_COUNT" for u using len l by (simp add: led_update_arr_fields put_at_def)
  moreover have "led_ops ?t ?s = led_ops ?t s" using led_other_neq(1) [of ?t] by (simp add: led_update_arr_fields)
  moreover have "table_shows ?s (led_other ?t) (led_target s)" using led_update_arr_shows len by blast
  ultimately show ?thesis
    using assms table_rows_cong [of ?t ?s s] unfolding led_inv_def playing_update led_update_arr_fields(3) by blast
qed

section \<open>Start\<close>

text \<open>The LED globals after reset, with the ports as \<open>led_hw_init\<close> leaves them: rows low and
  columns high, all LEDs off.\<close>

definition led_reset :: led where
  "led_reset = \<lparr>led_state = 0, led_calc_table = \<lparr>calc_idx = replicate LED_TOT_SIZE 0, calc_arr = replicate LED_TOT_SIZE 0, calc_rarr = replicate LED_ROW_SIZE 0\<rparr>,
     led_pwm_table = replicate (LED_TOT_SIZE + 1) 0, led_ops_a = replicate LED_OP_COUNT \<lparr>op_arr = 0, op_op = 0\<rparr>,
     led_ops_b = replicate LED_OP_COUNT \<lparr>op_arr = 0, op_op = 0\<rparr>, led_ops_table = LED_TABLE_OPS_A,
     led_current_op = (LED_TABLE_OPS_A, 0), active_row = CTRL_LED_ROW_0, inactive_cols = 0, led_rows = 0, led_cols = CTRL_LED_COL_ALL,
     tim4_arr = 255\<rparr>"

definition splash_rows :: "LedArrayOp list list" where
  "splash_rows = [[\<lparr>op_arr = 255, op_op = 0x74\<rparr>], [\<lparr>op_arr = 255, op_op = 0x78\<rparr>],
                  [\<lparr>op_arr = 255, op_op = 0x78\<rparr>], [\<lparr>op_arr = 255, op_op = 0xd9\<rparr>]]"

definition splash :: "nat \<Rightarrow> nat \<Rightarrow> u8" where
  "splash r c = (if bit (op_op (splash_rows ! r ! 0)) c then 0 else 255)"

lemma splash_table:
  assumes "take 4 (led_ops t s) = concat splash_rows"
  shows "table_rows s t splash splash_rows"
proof -
  have n: "led_ops t s ! k = concat splash_rows ! k" if "k < 4" for k
    using that assms by (metis nth_take)
  have "row_shows (splash i) (splash_rows ! i)" if "i < LED_ROW_SIZE" for i
    using that by (rule less_4_cases) (simp_all add: row_shows_def splash_def splash_rows_def)
  moreover have "bit (op_op (last (splash_rows ! i))) 7 \<longleftrightarrow> i = LED_ROW_SIZE - 1" if "i < LED_ROW_SIZE" for i
    using that by (rule less_4_cases) (simp_all add: splash_rows_def)
  moreover have "row_base splash_rows i = i" if "i < LED_ROW_SIZE" for i
    using that by (rule less_4_cases) (simp_all add: row_base_def splash_rows_def)
  moreover have "row_at s t i (splash_rows ! i)" if "i < LED_ROW_SIZE" for i
    using that by (rule less_4_cases) (insert n [of 0] n [of 1] n [of 2] n [of 3], simp_all add: row_at_def splash_rows_def)
  ultimately have "\<forall>i < LED_ROW_SIZE. row_shows (splash i) (splash_rows ! i) \<and> (bit (op_op (last (splash_rows ! i))) 7 \<longleftrightarrow> i = LED_ROW_SIZE - 1)
    \<and> row_at s t (row_base splash_rows i) (splash_rows ! i)" by simp
  then show ?thesis by (simp add: table_rows_def splash_rows_def)
qed

lemma boot_dark:
  fixes s' :: led
  defines "s' \<equiv> snd (tim4_pass (led_data_init led_reset))"
  shows "fst (tim4_pass (led_data_init led_reset)) = TIM4_RETURN" "led_inv s'" "table_shows s' LED_TABLE_OPS_B splash"
proof -
  have p: "tim4_pass (led_data_init led_reset) = (TIM4_RETURN, (led_data_init led_reset)\<lparr>led_rows := 0, led_cols := 0x3f, led_state := 4, tim4_arr := 25\<rparr>)"
    by (simp add: tim4_pass_def Let_def led_data_init_def led_reset_def led_op_at_def led_ops_def put_at_def)
  show "fst (tim4_pass (led_data_init led_reset)) = TIM4_RETURN" by (simp add: p)
  have eq: "s' = (led_data_init led_reset)\<lparr>led_rows := 0, led_cols := 0x3f, led_state := 4, tim4_arr := 25\<rparr>" by (simp add: s'_def p)
  have s': "led_ops_table s' = LED_TABLE_OPS_B" "led_current_op s' = (LED_TABLE_OPS_B, 0)" "active_row s' = 1" "led_rows s' = 0"
    "led_cols s' = 0x3f" "led_state s' = 4"
    unfolding eq by (simp_all add: led_data_init_def led_reset_def Let_def)
  have ops: "led_ops LED_TABLE_OPS_B s' = concat splash_rows @ replicate 24 \<lparr>op_arr = 0, op_op = 0\<rparr>" "led_ops LED_TABLE_OPS_A s' = replicate 28 \<lparr>op_arr = 0, op_op = 0\<rparr>"
    unfolding eq by (simp_all add: led_data_init_def led_reset_def Let_def led_ops_def put_at_def splash_rows_def)
  have "take 4 (led_ops LED_TABLE_OPS_B s') = concat splash_rows" by (simp add: ops(1)) (simp add: splash_rows_def)
  then have rows: "table_rows s' LED_TABLE_OPS_B splash splash_rows" by (rule splash_table)
  have "after_row LED_TABLE_OPS_B (row_base splash_rows 0) (splash_rows ! 0) 0 s'"
    by (simp add: after_row_def s' bit_col_mask del: bit_numeral_word_iff) (simp add: splash_rows_def)
  moreover have "length (led_ops u s') = LED_OP_COUNT" for u by (cases u) (simp_all add: ops splash_rows_def)
  ultimately show "led_inv s'" using rows unfolding led_inv_def s' playing_def by (auto intro!: exI [of _ splash] exI [of _ splash_rows] exI [of _ "0 :: nat"])
  have "schedule_shows splash (concat splash_rows)"
    using rows unfolding schedule_shows_def table_rows_def by blast
  then show "table_shows s' LED_TABLE_OPS_B splash" unfolding table_shows_def
    by (intro exI [of _ "concat splash_rows"]) (simp add: ops(1))
qed

lemma pwm_ops_ready:
  assumes "x AND 1 \<noteq> 0"
  shows "(x OR 2) AND 3 = (3 :: u8)"
proof -
  have "x AND 1 = 1" using assms by (simp add: and_one_eq mod2_eq_if split: if_splits)
  moreover have "(x OR 2) AND (1 OR 2) = (x AND 1) OR 2"
    by (simp only: bit.conj_disj_distrib bit.conj_disj_distrib2 or.assoc and.idem) simp
  ultimately show ?thesis by simp
qed

lemma pwm_table_displayed:
  assumes "led_inv s" "led_state s AND LED_STATE_PWM_READY \<noteq> 0"
  defines "s' \<equiv> led_update_arr s"
  shows "\<exists>m n. m \<le> LED_OP_COUNT + LED_ROW_SIZE \<and> n \<le> LED_OP_COUNT + LED_ROW_SIZE
    \<and> frame_end (play_end m s') \<and> frame_end (play_end (m + n) s')
    \<and> (\<forall>r c. r < LED_ROW_SIZE \<and> c < LED_COL_SIZE \<longrightarrow>
         lit_time r c (tim4_play n (play_end m s')) = unat (led_pwm_table s ! (led_lut ! (LED_COL_SIZE * r + c))))"
proof -
  have inv: "led_inv s'" using assms led_inv_update by simp
  obtain m where m: "m \<le> LED_OP_COUNT + LED_ROW_SIZE" "frame_end (play_end m s')" "kept s' (play_end m s')"
    using led_inv_frame_end [OF inv] by blast
  have "ready_flags s' = LED_STATE_PWM_READY OR LED_STATE_OPS_READY"
    using pwm_ops_ready [OF assms(2)] by (simp add: ready_flags_def s'_def led_update_arr_fields)
  then have nt: "next_table (play_end m s') = led_other (led_ops_table s)"
    using m(3) by (simp add: next_table_ready kept_def s'_def led_update_arr_fields)
  have "table_shows s' (led_other (led_ops_table s)) (led_target s)"
    using led_update_arr_shows assms(1) by (simp add: s'_def led_inv_def)
  then have sh: "table_shows (play_end m s') (next_table (play_end m s')) (led_target s)"
    using m(3) table_shows_cong [of _ "play_end m s'" s'] by (simp add: nt kept_def)
  obtain n where n: "n \<le> LED_OP_COUNT + LED_ROW_SIZE" "frame_end (play_end n (play_end m s'))"
    "\<forall>r c. r < LED_ROW_SIZE \<and> c < LED_COL_SIZE \<longrightarrow> lit_time r c (tim4_play n (play_end m s')) = unat (led_target s r c)"
    using play_frame [OF m(2) sh] by blast
  show ?thesis using m(1,2) n unfolding led_target_def by (intro exI [of _ m] exI [of _ n]) (simp add: play_end_add)
qed

section \<open>Properties\<close>


text \<open>A state with a PWM table to show: the first dark time after power-up.\<close>

definition led_started :: led where
  "led_started = (snd (tim4_pass (led_data_init led_reset)))\<lparr>led_pwm_table := map of_nat [0..<25], led_state := 5\<rparr>"

lemma led_started_inv: "led_inv led_started" "led_state led_started AND LED_STATE_PWM_READY \<noteq> 0"
  "led_pwm_table led_started = map of_nat [0..<25]"
proof -
  define s where "s = snd (tim4_pass (led_data_init led_reset))"
  have d: "led_started = s\<lparr>led_pwm_table := map of_nat [0..<25], led_state := 5\<rparr>" by (simp add: led_started_def s_def)
  have st: "led_state s = 4"
    by (simp add: s_def tim4_pass_def Let_def led_data_init_def led_reset_def led_op_at_def led_ops_def put_at_def)
  have ops: "led_ops u led_started = led_ops u s" for u by (simp add: d led_ops_def split: led_table.split)
  have pl: "playing t rows i led_started = playing t rows i s" for t rows i
    by (simp add: playing_def at_op_def after_row_def only_row_def d st)
  have "led_inv s" using boot_dark(2) by (simp add: s_def)
  then show "led_inv led_started"
    using table_rows_cong [OF ops] unfolding led_inv_def ops pl by (simp add: d st)
  show "led_state led_started AND LED_STATE_PWM_READY \<noteq> 0" "led_pwm_table led_started = map of_nat [0..<25]"
    by (simp_all add: d)
qed


text \<open>
  C13: The timer interrupt always returns. In every state the LED code can be in, whatever the
  PWM values, at most eight passes through the handler are made before it returns (a pass ends
  with a jump back to its start when the next operation is too short for the timer), and the
  invariant of the display holds again.
\<close>

theorem tim4_interrupt_returns:
  assumes "led_inv s"
  shows "\<exists>s'. TIM4_UPD_OVF_TRG_IRQHandler (LED_COL_SIZE + 2) s = Some s' \<and> led_inv s'"
  using handler_returns [OF assms] handler_keeps [OF _ assms] by blast

theorem tim4_interrupt_returns_witness:
  "\<exists>s'. TIM4_UPD_OVF_TRG_IRQHandler 8 led_started = Some s' \<and> led_inv s'"
  using tim4_interrupt_returns [OF led_started_inv(1)] by simp


text \<open>
  C15: The sorting network of a row sorts: after \<open>swap_row\<close> the index array is a permutation
  of what it was, and the values read through it ascend, for every row of values.
\<close>

theorem swap_row_sorts:
  assumes "length idx = LED_COL_SIZE"
  shows "mset (swap_row arr idx) = mset idx \<and> sorted (map (\<lambda>k. arr ! unat k) (swap_row arr idx))"
  using swap_row_sorted [OF assms, of arr] mset_swap_row [OF assms] by (simp add: row_vals_def)

theorem swap_row_sorts_witness:
  "sorted (map (\<lambda>k. [9, 3, 255, 0, 3, 7 :: u8] ! unat k) (swap_row [9, 3, 255, 0, 3, 7] [0, 1, 2, 3, 4, 5]))"
  using swap_row_sorts [of "[0, 1, 2, 3, 4, 5]" "[9, 3, 255, 0, 3, 7]"] by simp

end
