(* ===== verification/Ctrl_Knob.thy ===== *)
theory Ctrl_Knob
  imports Beep_Prelude
begin

text \<open>
  The knob of the controller (\<open>iomcu/controller/knob.c\<close>): the push button is sampled by a
  timer, the optical encoder through the analog converter. Signed 8 bit variables are bytes read
  with \<^term>\<open>sint\<close>.
\<close>

section \<open>State\<close>

abbreviation KNOB_SWITCH_DOWN :: nat where "KNOB_SWITCH_DOWN \<equiv> 0"
abbreviation KNOB_SWITCH_UP :: nat where "KNOB_SWITCH_UP \<equiv> 1"
abbreviation UP_VAL_THRESHOLD :: u8 where "UP_VAL_THRESHOLD \<equiv> 100"
abbreviation DOWN_SEQ_THRESHOLD :: u32 where "DOWN_SEQ_THRESHOLD \<equiv> 40"
abbreviation UP_SEQ_THRESHOLD :: u32 where "UP_SEQ_THRESHOLD \<equiv> 10"
abbreviation KNOB_PSENSE_DMA_BUF_SIZE :: nat where "KNOB_PSENSE_DMA_BUF_SIZE \<equiv> 240"

record knob =
  knob_switch_state :: u8
  knob_switch_count :: bytes
  knob_encoder_count :: u8
  prev_up :: bytes
  run_count :: "u32 list"
  sending_up :: bytes
  channel_vals :: bytes
  prev_encoder_state :: u8
  encoder_armed :: u8
  direction :: u8

definition knob_reset :: knob where
  "knob_reset = \<lparr>knob_switch_state = 0xff, knob_switch_count = [0, 0], knob_encoder_count = 0, prev_up = [0, 0],
     run_count = [0, 0], sending_up = [0, 0], channel_vals = [0, 0], prev_encoder_state = 0, encoder_armed = 0, direction = 0\<rparr>"

section \<open>The push button\<close>

text \<open>\<open>level\<close>: the state of the pin.\<close>

definition knob_switch_read :: "bool \<Rightarrow> knob \<Rightarrow> knob" where
  "knob_switch_read level s =
     (let st = push_bit 1 (knob_switch_state s) OR (if level then 1 else 0);
          s1 = s\<lparr>knob_switch_state := st\<rparr>
      in if st AND 0xf = 0x3 then
           s1\<lparr>knob_switch_count := (knob_switch_count s1)[KNOB_SWITCH_UP := knob_switch_count s1 ! KNOB_SWITCH_UP + 1]\<rparr>
         else if st AND 0xf = 0xc then
           s1\<lparr>knob_switch_count := (knob_switch_count s1)[KNOB_SWITCH_DOWN := knob_switch_count s1 ! KNOB_SWITCH_DOWN + 1]\<rparr>
         else s1)"

definition knob_switch_read_down_count :: "knob \<Rightarrow> u8 \<times> knob" where
  "knob_switch_read_down_count s =
     (let ret = knob_switch_count s ! KNOB_SWITCH_DOWN
      in (ret, s\<lparr>knob_switch_count := (knob_switch_count s)[KNOB_SWITCH_DOWN := knob_switch_count s ! KNOB_SWITCH_DOWN - ret]\<rparr>))"

definition knob_switch_read_up_count :: "knob \<Rightarrow> u8 \<times> knob" where
  "knob_switch_read_up_count s =
     (let ret = knob_switch_count s ! KNOB_SWITCH_UP
      in (ret, s\<lparr>knob_switch_count := (knob_switch_count s)[KNOB_SWITCH_UP := knob_switch_count s ! KNOB_SWITCH_UP - ret]\<rparr>))"

section \<open>The encoder\<close>

definition find_turns :: "nat \<Rightarrow> u8 \<Rightarrow> knob \<Rightarrow> u8 \<times> knob" where
  "find_turns channel level s =
     (let s1 = s\<lparr>channel_vals := (channel_vals s)[channel := level]\<rparr>;
          encoder_state = push_bit 1 (channel_vals s1 ! 1) OR channel_vals s1 ! 0
      in if encoder_state = prev_encoder_state s1 then (0, s1)
         else let s2 = s1\<lparr>prev_encoder_state := encoder_state\<rparr>
              in if encoder_state = 0 then
                   (if encoder_armed s2 \<noteq> 0 then (direction s2, s2\<lparr>encoder_armed := 0\<rparr>) else (0, s2))
                 else if encoder_state = 1 then
                   (0, if encoder_armed s2 = 0 then s2\<lparr>direction := - 1\<rparr>
                       else if direction s2 \<noteq> 1 then s2\<lparr>encoder_armed := 0\<rparr> else s2)
                 else if encoder_state = 2 then
                   (0, if encoder_armed s2 = 0 then s2\<lparr>direction := 1\<rparr>
                       else if direction s2 \<noteq> - 1 then s2\<lparr>encoder_armed := 0\<rparr> else s2)
                 else if encoder_state = 3 then (0, s2\<lparr>encoder_armed := 1\<rparr>)
                 else (0, s2))"

definition add_point :: "nat \<Rightarrow> u8 \<Rightarrow> knob \<Rightarrow> u8 \<times> knob" where
  "add_point channel val s =
     (let up = (if val > UP_VAL_THRESHOLD then 1 else 0);
          s1 = s\<lparr>run_count := (run_count s)[channel := (if prev_up s ! channel \<noteq> up then 0 else run_count s ! channel + 1)]\<rparr>;
          s2 = s1\<lparr>prev_up := (prev_up s1)[channel := up]\<rparr>;
          s3 = (if up \<noteq> 0 \<and> run_count s2 ! channel > UP_SEQ_THRESHOLD then s2\<lparr>sending_up := (sending_up s2)[channel := 1]\<rparr>
                else if up = 0 \<and> run_count s2 ! channel > DOWN_SEQ_THRESHOLD then s2\<lparr>sending_up := (sending_up s2)[channel := 0]\<rparr>
                else s2)
      in find_turns channel (sending_up s3 ! channel) s3)"

definition proc_point :: "bytes \<Rightarrow> nat \<Rightarrow> knob \<Rightarrow> knob" where
  "proc_point buf i s =
     (let (val, s1) = add_point (i mod 2) (buf ! i) s
      in if val \<noteq> 0 then s1\<lparr>knob_encoder_count := knob_encoder_count s1 + val\<rparr> else s1)"

definition knob_encoder_proc_data :: "bytes \<Rightarrow> u8 \<Rightarrow> knob \<Rightarrow> knob" where
  "knob_encoder_proc_data buf half s =
     (let i = (if half \<noteq> 0 then 0 else 120); last = (if half \<noteq> 0 then 120 else 240)
      in fold (proc_point buf) [i..<last] s)"

definition knob_encoder_read_count :: "knob \<Rightarrow> u8 \<times> knob" where
  "knob_encoder_read_count s =
     (let ret = knob_encoder_count s
      in (ret, if ret \<noteq> 0 then s\<lparr>knob_encoder_count := knob_encoder_count s - ret\<rparr> else s))"

section \<open>Compressed samples\<close>

text \<open>\<open>knob_encoder_compress_data\<close> of the encoder debug configuration: four samples in three bytes.\<close>

definition compress_block :: "bytes \<Rightarrow> nat \<Rightarrow> bytes \<Rightarrow> bytes" where
  "compress_block buf i cbuf =
     (let o4 = i * 4; o3 = i * 3;
          c1 = cbuf[o3 := (buf ! o4 AND 0xfc) OR drop_bit 6 (buf ! (o4 + 1))];
          c2 = c1[o3 + 1 := (push_bit 2 (buf ! (o4 + 1)) AND 0xf0) OR drop_bit 4 (buf ! (o4 + 2))]
      in c2[o3 + 2 := (push_bit 4 (buf ! (o4 + 2)) AND 0xc0) OR drop_bit 2 (buf ! (o4 + 3))])"

definition knob_encoder_compress_data :: "bytes \<Rightarrow> u8 \<Rightarrow> bytes \<times> u8 \<times> u8 \<Rightarrow> bytes \<times> u8 \<times> u8" where
  "knob_encoder_compress_data buf half c =
     (let i = (if half \<noteq> 0 then 0 else 30); last = (if half \<noteq> 0 then 30 else 60);
          cbuf = fold (compress_block buf) [i..<last] (fst c)
      in if half \<noteq> 0 then (cbuf, 0, 1) else (cbuf, 1, 0))"

section \<open>The button counts presses and releases\<close>

text \<open>Windows of four samples, oldest first.\<close>

fun windows :: "bool list \<Rightarrow> bool list \<Rightarrow> nat" where
  "windows w (a # b # c # d # xs) = (if [a, b, c, d] = w then 1 else 0) + windows w (b # c # d # xs)"
| "windows w xs = 0"

definition bit_of :: "bool \<Rightarrow> u8" where "bit_of b = (if b then 1 else 0)"

definition last_four :: "bool \<Rightarrow> bool \<Rightarrow> bool \<Rightarrow> bool \<Rightarrow> u8" where
  "last_four a b c d = push_bit 3 (bit_of a) OR push_bit 2 (bit_of b) OR push_bit 1 (bit_of c) OR bit_of d"

lemma nibble_shift:
  assumes "st AND 0xf = last_four a b c d"
  shows "(push_bit 1 st OR bit_of e) AND 0xf = last_four b c d e"
proof -
  have m: "(0xf :: u8) = mask 4" by (simp add: mask_eq_exp_minus_1)
  have "(push_bit 1 st OR bit_of e) AND 0xf = (push_bit 1 (st AND 0xf) OR bit_of e) AND 0xf"
    unfolding m by (rule bit_word_eqI) (auto simp: bit_simps simp del: push_bit_Suc One_nat_def)
  also have "\<dots> = last_four b c d e"
    unfolding assms by (cases a; cases b; cases c; cases d; cases e) (simp_all add: last_four_def bit_of_def)
  finally show ?thesis .
qed

lemma last_four_eq:
  "last_four a b c d = 0x3 \<longleftrightarrow> [a, b, c, d] = [False, False, True, True]"
  "last_four a b c d = 0xc \<longleftrightarrow> [a, b, c, d] = [True, True, False, False]"
  by (cases a; cases b; cases c; cases d; simp add: last_four_def bit_of_def)+

lemma knob_switch_read_last:
  fixes e :: bool
  assumes "knob_switch_state s AND 0xf = last_four a b c d" "length (knob_switch_count s) = 2"
  defines "s' \<equiv> knob_switch_read e s"
  shows "knob_switch_state s' AND 0xf = last_four b c d e" "length (knob_switch_count s') = 2"
    "knob_switch_count s' ! KNOB_SWITCH_DOWN = knob_switch_count s ! KNOB_SWITCH_DOWN + (if [b, c, d, e] = [True, True, False, False] then 1 else 0)"
    "knob_switch_count s' ! KNOB_SWITCH_UP = knob_switch_count s ! KNOB_SWITCH_UP + (if [b, c, d, e] = [False, False, True, True] then 1 else 0)"
proof -
  define st where "st = push_bit 1 (knob_switch_state s) OR (if e then 1 else 0)"
  have n: "st AND 0xf = last_four b c d e" using nibble_shift [OF assms(1), of e] by (simp add: st_def bit_of_def)
  have s': "s' = (if [b, c, d, e] = [False, False, True, True]
      then s\<lparr>knob_switch_state := st, knob_switch_count := (knob_switch_count s)[KNOB_SWITCH_UP := knob_switch_count s ! KNOB_SWITCH_UP + 1]\<rparr>
    else if [b, c, d, e] = [True, True, False, False]
      then s\<lparr>knob_switch_state := st, knob_switch_count := (knob_switch_count s)[KNOB_SWITCH_DOWN := knob_switch_count s ! KNOB_SWITCH_DOWN + 1]\<rparr>
    else s\<lparr>knob_switch_state := st\<rparr>)"
    unfolding s'_def knob_switch_read_def Let_def st_def [symmetric] n last_four_eq by simp
  show "knob_switch_state s' AND 0xf = last_four b c d e" "length (knob_switch_count s') = 2"
    "knob_switch_count s' ! KNOB_SWITCH_DOWN = knob_switch_count s ! KNOB_SWITCH_DOWN + (if [b, c, d, e] = [True, True, False, False] then 1 else 0)"
    "knob_switch_count s' ! KNOB_SWITCH_UP = knob_switch_count s ! KNOB_SWITCH_UP + (if [b, c, d, e] = [False, False, True, True] then 1 else 0)"
    using n assms(2) unfolding s' by simp_all
qed

lemma knob_switch_fold:
  assumes "knob_switch_state s AND 0xf = last_four z a b c" "length (knob_switch_count s) = 2"
  defines "s' levels \<equiv> fold knob_switch_read levels s"
  shows "knob_switch_count (s' levels) ! KNOB_SWITCH_DOWN
      = knob_switch_count s ! KNOB_SWITCH_DOWN + of_nat (windows [True, True, False, False] (a # b # c # levels))
    \<and> knob_switch_count (s' levels) ! KNOB_SWITCH_UP
      = knob_switch_count s ! KNOB_SWITCH_UP + of_nat (windows [False, False, True, True] (a # b # c # levels))"
  using assms(1,2) unfolding s'_def
proof (induction levels arbitrary: s z a b c)
  case (Cons e levels)
  note k = knob_switch_read_last [OF Cons.prems, of e]
  show ?case using Cons.IH [OF k(1,2)] k(3,4) by (simp add: add.assoc)
qed simp

text \<open>A signal without runs of a single sample, and its edges.\<close>

fun debounced :: "bool list \<Rightarrow> bool" where
  "debounced (a # b # xs) = (a = b \<and> (case xs of [] \<Rightarrow> True | c # ys \<Rightarrow> if c = b then debounced (b # xs) else debounced xs))"
| "debounced xs = (xs = [])"

fun falling :: "bool list \<Rightarrow> nat" where
  "falling (a # b # xs) = (if a \<and> \<not> b then 1 else 0) + falling (b # xs)"
| "falling xs = 0"

lemma falling_windows: "debounced xs \<Longrightarrow> windows [True, True, False, False] xs = falling xs"
proof (induction xs rule: debounced.induct)
  case (1 a b xs)
  show ?case
  proof (cases xs)
    case Nil
    then show ?thesis using 1 by auto
  next
    case (Cons c ys)
    show ?thesis
    proof (cases "c = b")
      case True
      then show ?thesis using 1 Cons by (cases ys) auto
    next
      case False
      then have d: "debounced (c # ys)" "a = b" using 1 Cons by auto
      then obtain e zs where ys: "ys = e # zs" "e = c" by (cases ys) auto
      have "windows [True, True, False, False] (c # ys) = falling (c # ys)" using 1 Cons False d by auto
      then show ?thesis using d(2) Cons False ys by (cases zs) auto
    qed
  qed
qed auto

end
