(* ===== verification/Ctrl_Encoder.thy ===== *)
theory Ctrl_Encoder
  imports Ctrl_Knob
begin

text \<open>
  The rotary encoder: the filter of each channel against a run-length specification, and the turn
  detector against the number of cycles the filtered signals have made.
\<close>

section \<open>Quarter turns\<close>

text \<open>The encoder passes its states in the order 0, 2, 3, 1; \<open>quad\<close> is the place in that cycle.\<close>

definition quad :: "u8 \<Rightarrow> int" where
  "quad e = (if e = 0 then 0 else if e = 2 then 1 else if e = 3 then 2 else 3)"

definition quarter :: "u8 \<Rightarrow> u8 \<Rightarrow> int" where
  "quarter e e' = (if quad e' = (quad e + 1) mod 4 then 1 else if quad e = (quad e' + 1) mod 4 then - 1 else 0)"

definition encoder_phase :: "bytes \<Rightarrow> u8" where
  "encoder_phase vals = push_bit 1 (vals ! 1) OR vals ! 0"

lemma encoder_phase_bits: "encoder_phase [bit_of x, bit_of y] = (if y then if x then 3 else 2 else if x then 1 else 0)"
  by (cases x; cases y) (simp_all add: encoder_phase_def bit_of_def)

lemma quarter_simps [simp]:
  "quarter 0 1 = - 1" "quarter 0 2 = 1" "quarter 1 0 = 1" "quarter 1 3 = - 1" "quarter 2 0 = - 1" "quarter 2 3 = 1"
  "quarter 3 1 = 1" "quarter 3 2 = - 1" "quarter e e = 0"
  by (simp_all add: quarter_def quad_def)

text \<open>The turn detector on a new phase: phase, armed flag and direction before, and the value
  returned, armed flag and direction after.\<close>

definition turn_core :: "u8 \<Rightarrow> u8 \<Rightarrow> u8 \<Rightarrow> u8 \<Rightarrow> u8 \<times> u8 \<times> u8" where
  "turn_core e' e a d = (if e' = e then (0, a, d)
     else if e' = 0 then (if a \<noteq> 0 then d else 0, 0, d)
     else if e' = 1 then (0, if a \<noteq> 0 \<and> d \<noteq> 1 then 0 else a, if a = 0 then - 1 else d)
     else if e' = 2 then (0, if a \<noteq> 0 \<and> d \<noteq> - 1 then 0 else a, if a = 0 then 1 else d)
     else if e' = 3 then (0, 1, d)
     else (0, a, d))"

definition core_inv :: "u8 \<Rightarrow> u8 \<Rightarrow> u8 \<Rightarrow> bool" where
  "core_inv e a d \<longleftrightarrow> e = 0 \<and> a = 0 \<or> e = 1 \<and> a = 0 \<and> d = - 1 \<or> e = 1 \<and> a = 1 \<and> d = 1
     \<or> e = 2 \<and> a = 0 \<and> d = 1 \<or> e = 2 \<and> a = 1 \<and> d = - 1 \<or> e = 3 \<and> a = 1 \<and> (d = 1 \<or> d = - 1)"

definition core_pending :: "u8 \<Rightarrow> u8 \<Rightarrow> u8 \<Rightarrow> int" where
  "core_pending e a d = (if e = 0 then 0 else if e = 3 then (if d = 1 then 2 else - 2)
     else if e = 2 then (if a = 0 then 1 else - 3) else (if a = 0 then - 1 else 3))"

text \<open>One signal at a time changes, so the phase moves to a neighbour in the cycle or stays.\<close>

definition near :: "u8 \<Rightarrow> u8 \<Rightarrow> bool" where
  "near e e' \<longleftrightarrow> (e, e') \<in> {(0, 0), (0, 1), (0, 2), (1, 1), (1, 0), (1, 3), (2, 2), (2, 0), (2, 3), (3, 3), (3, 1), (3, 2)}"

lemma turn_core_step:
  assumes "core_inv e a d" "near e e'" "turn_core e' e a d = (r, a', d')"
  shows "core_inv e' a' d' \<and> 4 * sint r + core_pending e' a' d' = core_pending e a d + quarter e e'"
proof -
  have n: "e' = e \<or> e = 0 \<and> (e' = 1 \<or> e' = 2) \<or> e = 1 \<and> (e' = 0 \<or> e' = 3) \<or> e = 2 \<and> (e' = 0 \<or> e' = 3) \<or> e = 3 \<and> (e' = 1 \<or> e' = 2)"
    using assms(2) by (auto simp: near_def)
  have r: "r = fst (turn_core e' e a d)" "a' = fst (snd (turn_core e' e a d))" "d' = snd (snd (turn_core e' e a d))"
    using assms(3) by simp_all
  from n show ?thesis
  proof (elim disjE conjE)
    assume "e' = e"
    then show ?thesis using assms(1) r by (simp add: turn_core_def)
  qed (use assms(1) in \<open>auto simp: r turn_core_def core_inv_def core_pending_def\<close>)
qed

definition turns_inv :: "knob \<Rightarrow> bool" where
  "turns_inv s \<longleftrightarrow> (\<exists>x y. channel_vals s = [bit_of x, bit_of y]) \<and> prev_encoder_state s = encoder_phase (channel_vals s)
     \<and> core_inv (prev_encoder_state s) (encoder_armed s) (direction s)"

text \<open>The quarter turns made since the last turn that was counted.\<close>

definition pending_quarters :: "knob \<Rightarrow> int" where
  "pending_quarters s = core_pending (prev_encoder_state s) (encoder_armed s) (direction s)"

lemma find_turns_eq:
  assumes "vals = (channel_vals s)[ch := lv]" "turn_core (encoder_phase vals) (prev_encoder_state s) (encoder_armed s) (direction s) = (r, a', d')"
  shows "find_turns ch lv s = (r, s\<lparr>channel_vals := vals, prev_encoder_state := encoder_phase vals, encoder_armed := a', direction := d'\<rparr>)"
proof -
  have "find_turns ch lv s = (fst (turn_core e (prev_encoder_state s) (encoder_armed s) (direction s)),
      s\<lparr>channel_vals := vals, prev_encoder_state := e, encoder_armed := fst (snd (turn_core e (prev_encoder_state s) (encoder_armed s) (direction s))),
        direction := snd (snd (turn_core e (prev_encoder_state s) (encoder_armed s) (direction s)))\<rparr>)"
    if "e = encoder_phase vals" for e
    unfolding find_turns_def Let_def using assms(1) that
    by (cases s) (auto simp: turn_core_def simp del: push_bit_Suc One_nat_def simp flip: encoder_phase_def)
  then show ?thesis using assms(2) by simp
qed

lemma find_turns_step:
  fixes l :: bool
  assumes inv: "turns_inv s" and ch: "ch < 2"
  defines "r \<equiv> find_turns ch (bit_of l) s"
  shows "turns_inv (snd r)" "channel_vals (snd r) = (channel_vals s)[ch := bit_of l]"
    "4 * sint (fst r) + pending_quarters (snd r) = pending_quarters s + quarter (prev_encoder_state s) (prev_encoder_state (snd r))"
    "run_count (snd r) = run_count s" "prev_up (snd r) = prev_up s" "sending_up (snd r) = sending_up s"
    "knob_encoder_count (snd r) = knob_encoder_count s" "knob_switch_count (snd r) = knob_switch_count s"
proof -
  obtain x y where v: "channel_vals s = [bit_of x, bit_of y]" using inv by (auto simp: turns_inv_def)
  define vals where "vals = (channel_vals s)[ch := bit_of l]"
  have c: "ch = 0 \<or> ch = 1" using ch by auto
  then obtain x' y' where v': "vals = [bit_of x', bit_of y']" "x' = x \<or> y' = y" using v by (auto simp: vals_def)
  obtain k a' d' where k: "turn_core (encoder_phase vals) (prev_encoder_state s) (encoder_armed s) (direction s) = (k, a', d')"
    by (metis prod_cases3)
  have n: "near (prev_encoder_state s) (encoder_phase vals)"
    using inv v v' by (cases x; cases y; cases x'; cases y') (simp_all add: turns_inv_def encoder_phase_bits near_def)
  have r: "r = (k, s\<lparr>channel_vals := vals, prev_encoder_state := encoder_phase vals, encoder_armed := a', direction := d'\<rparr>)"
    unfolding r_def by (rule find_turns_eq [OF vals_def k])
  have "core_inv (prev_encoder_state s) (encoder_armed s) (direction s)" using inv unfolding turns_inv_def by blast
  note core = turn_core_step [OF this n k]
  show "turns_inv (snd r)" using core v'(1) by (auto simp: turns_inv_def r)
  show "4 * sint (fst r) + pending_quarters (snd r) = pending_quarters s + quarter (prev_encoder_state s) (prev_encoder_state (snd r))"
    using core by (simp add: r pending_quarters_def)
  show "channel_vals (snd r) = (channel_vals s)[ch := bit_of l]" "run_count (snd r) = run_count s" "prev_up (snd r) = prev_up s"
    "sending_up (snd r) = sending_up s" "knob_encoder_count (snd r) = knob_encoder_count s" "knob_switch_count (snd r) = knob_switch_count s"
    by (simp_all add: r vals_def)
qed

section \<open>The filter of a channel\<close>

text \<open>The filtered signal for the samples of a channel, latest first: it follows twelve samples
  above the threshold and forty-two below it, and otherwise stays.\<close>

definition lead :: "bool \<Rightarrow> bool list \<Rightarrow> nat" where
  "lead u hist = length (takeWhile (\<lambda>x. x = u) hist)"

fun filtered :: "bool list \<Rightarrow> bool" where
  "filtered [] = False"
| "filtered (u # hist) = (if 12 \<le> lead True (u # hist) then True else if 42 \<le> lead False (u # hist) then False else filtered hist)"

lemma lead_simps [simp]: "lead u [] = 0" "lead u (v # hist) = (if v = u then Suc (lead u hist) else 0)"
  by (simp_all add: lead_def)

lemma lead_append: "lead u (hist @ [v]) = lead u hist + (if v = u \<and> (\<forall>x \<in> set hist. x = u) then 1 else 0)"
  by (induction hist) auto

lemma filtered_run: "12 \<le> lead True hist \<Longrightarrow> filtered hist" "42 \<le> lead False hist \<Longrightarrow> \<not> filtered hist"
  by (cases hist; simp split: if_splits)+

lemma filtered_down: "\<forall>x \<in> set hist. \<not> x \<Longrightarrow> \<not> filtered hist"
  by (induction hist) auto

lemma of_nat_gt: "of_nat n > (of_nat k :: u32) \<longleftrightarrow> k < n" if "n < 2 ^ 32" "k < 2 ^ 32"
  using that by (simp add: word_less_nat_alt take_bit_nat_eq_self unsigned_of_nat)

text \<open>The variables of channel \<open>c\<close> after the samples \<open>hist\<close>; the reset values are those of one
  sample below the threshold.\<close>

definition chan_inv :: "nat \<Rightarrow> bool list \<Rightarrow> knob \<Rightarrow> bool" where
  "chan_inv c hist s \<longleftrightarrow> (let h = hist @ [False] in
     prev_up s ! c = bit_of (hd h) \<and> run_count s ! c = of_nat (lead (hd h) h - 1) \<and> sending_up s ! c = bit_of (filtered hist))"

definition knob_lists :: "knob \<Rightarrow> bool" where
  "knob_lists s \<longleftrightarrow> length (prev_up s) = 2 \<and> length (run_count s) = 2 \<and> length (sending_up s) = 2"

lemma run_up: "filtered (True # hist) = ((10 :: u32) < of_nat (lead True (True # hist) - 1) \<or> filtered hist)"
proof -
  define n where "n = lead True hist"
  show ?thesis
  proof (cases "n < 2 ^ 32")
    case True
    then have "(10 :: u32) < of_nat n \<longleftrightarrow> 10 < n" using of_nat_gt [of n 10] by simp
    then show ?thesis by (auto simp: n_def)
  next
    case False
    then have "12 \<le> lead True hist" by (simp add: n_def)
    then show ?thesis using filtered_run(1) [of hist] by simp
  qed
qed

lemma run_down: "\<not> filtered (False # hist) \<longleftrightarrow> (40 :: u32) < of_nat (lead False (False # hist @ [False]) - 1) \<or> \<not> filtered hist"
proof (cases "\<forall>x \<in> set hist. \<not> x")
  case True
  then show ?thesis using filtered_down [of hist] filtered_down [of "False # hist"] by simp
next
  case False
  define n where "n = lead False hist"
  have l: "lead False (hist @ [False]) = n" using False by (simp add: lead_append n_def)
  show ?thesis
  proof (cases "n < 2 ^ 32")
    case True
    then have "(40 :: u32) < of_nat n \<longleftrightarrow> 40 < n" using of_nat_gt [of n 40] by simp
    then show ?thesis by (auto simp: l n_def)
  next
    case False
    then have "42 \<le> lead False hist" by (simp add: n_def)
    then show ?thesis using filtered_run(2) [of hist] by simp
  qed
qed

text \<open>The state before the turn detector is called.\<close>

definition filter_point :: "nat \<Rightarrow> u8 \<Rightarrow> knob \<Rightarrow> knob" where
  "filter_point c val s =
     (let up = bit_of (UP_VAL_THRESHOLD < val);
          rc = (if prev_up s ! c \<noteq> up then 0 else run_count s ! c + 1);
          su = (if up \<noteq> 0 \<and> rc > UP_SEQ_THRESHOLD then 1 else if up = 0 \<and> rc > DOWN_SEQ_THRESHOLD then 0 else sending_up s ! c)
      in s\<lparr>run_count := (run_count s)[c := rc], prev_up := (prev_up s)[c := up], sending_up := (sending_up s)[c := su]\<rparr>)"

lemma add_point_eq:
  assumes "knob_lists s" "c < 2"
  shows "add_point c val s = find_turns c (sending_up (filter_point c val s) ! c) (filter_point c val s)"
  using assms unfolding add_point_def filter_point_def Let_def knob_lists_def bit_of_def by (cases s) auto

lemma filter_point_inv:
  assumes "knob_lists s" "c < 2" "chan_inv c hist s"
  shows "chan_inv c ((UP_VAL_THRESHOLD < val) # hist) (filter_point c val s)"
proof -
  define u where "u = (UP_VAL_THRESHOLD < val)"
  define h where "h = hist @ [False]"
  have h: "h \<noteq> []" by (simp add: h_def)
  have inv: "prev_up s ! c = bit_of (hd h)" "run_count s ! c = of_nat (lead (hd h) h - 1)" "sending_up s ! c = bit_of (filtered hist)"
    using assms(3) by (simp_all add: chan_inv_def Let_def h_def)
  define rc where "rc = (if prev_up s ! c \<noteq> bit_of u then 0 else run_count s ! c + 1)"
  have "lead (hd h) h = Suc (lead (hd h) h - 1)" using h by (cases h) simp_all
  then have rc: "rc = of_nat (lead u (u # h) - 1)"
    using h unfolding rc_def inv by (cases h) (auto simp: bit_of_def split: if_splits)
  have su: "(if bit_of u \<noteq> 0 \<and> rc > UP_SEQ_THRESHOLD then 1 else if bit_of u = 0 \<and> rc > DOWN_SEQ_THRESHOLD then 0 else sending_up s ! c)
    = bit_of (filtered (u # hist))"
  proof (cases u)
    case True
    then show ?thesis using run_up [of hist] unfolding rc inv by (auto simp: bit_of_def h_def lead_append simp del: filtered.simps split: if_splits)
  next
    case False
    then show ?thesis using run_down [of hist] unfolding rc inv by (auto simp: bit_of_def h_def simp del: filtered.simps split: if_splits)
  qed
  show ?thesis
    using assms(1,2) rc su unfolding chan_inv_def filter_point_def Let_def u_def [symmetric] rc_def [symmetric]
    by (simp add: knob_lists_def h_def del: filtered.simps)
qed

section \<open>Turns of the filtered signals\<close>

definition hist_add :: "nat \<times> u8 \<Rightarrow> bool list \<times> bool list \<Rightarrow> bool list \<times> bool list" where
  "hist_add p h = (if fst p = 0 then ((UP_VAL_THRESHOLD < snd p) # fst h, snd h) else (fst h, (UP_VAL_THRESHOLD < snd p) # snd h))"

definition hist_phase :: "bool list \<times> bool list \<Rightarrow> u8" where
  "hist_phase h = encoder_phase [bit_of (filtered (fst h)), bit_of (filtered (snd h))]"

text \<open>The net number of quarter turns the two filtered signals make over a sequence of samples
  (channel and value), from the samples \<open>h\<close> already seen.\<close>

fun encoder_quarters :: "bool list \<times> bool list \<Rightarrow> (nat \<times> u8) list \<Rightarrow> int" where
  "encoder_quarters h [] = 0"
| "encoder_quarters h (p # ps) = quarter (hist_phase h) (hist_phase (hist_add p h)) + encoder_quarters (hist_add p h) ps"

definition half_samples :: "bytes \<times> u8 \<Rightarrow> (nat \<times> u8) list" where
  "half_samples c = map (\<lambda>i. (i mod 2, fst c ! i)) [if snd c \<noteq> 0 then 0 else 120..<if snd c \<noteq> 0 then 120 else 240]"

definition knob_inv :: "bool list \<times> bool list \<Rightarrow> knob \<Rightarrow> bool" where
  "knob_inv h s \<longleftrightarrow> knob_lists s \<and> turns_inv s \<and> chan_inv 0 (fst h) s \<and> chan_inv 1 (snd h) s \<and> channel_vals s = sending_up s"

lemma knob_inv_phase: "knob_inv h s \<Longrightarrow> prev_encoder_state s = hist_phase h"
proof -
  assume inv: "knob_inv h s"
  then have "length (sending_up s) = 2" "sending_up s ! 0 = bit_of (filtered (fst h))" "sending_up s ! 1 = bit_of (filtered (snd h))"
    by (auto simp: knob_inv_def knob_lists_def chan_inv_def Let_def)
  then have "sending_up s = [bit_of (filtered (fst h)), bit_of (filtered (snd h))]"
    by (intro nth_equalityI) (auto simp: less_Suc_eq numeral_2_eq_2)
  then show ?thesis using inv by (simp add: knob_inv_def turns_inv_def hist_phase_def)
qed

lemma knob_inv_reset: "knob_inv ([], []) knob_reset"
proof -
  have "channel_vals knob_reset = [bit_of False, bit_of False]" by (simp add: knob_reset_def bit_of_def)
  then have "turns_inv knob_reset" unfolding turns_inv_def by (auto simp: knob_reset_def core_inv_def encoder_phase_bits bit_of_def encoder_phase_def)
  then show ?thesis by (simp add: knob_inv_def knob_lists_def chan_inv_def knob_reset_def bit_of_def)
qed

lemma chan_inv_cong:
  "prev_up s' ! c = prev_up s ! c \<Longrightarrow> run_count s' ! c = run_count s ! c \<Longrightarrow> sending_up s' ! c = sending_up s ! c
   \<Longrightarrow> chan_inv c hist s' = chan_inv c hist s"
  by (simp add: chan_inv_def)

lemma add_point_inv:
  fixes val :: u8
  assumes inv: "knob_inv h s" and c: "c < 2"
  defines "r \<equiv> add_point c val s"
  shows "knob_inv (hist_add (c, val) h) (snd r)"
    "4 * sint (fst r) + pending_quarters (snd r) = pending_quarters s + quarter (hist_phase h) (hist_phase (hist_add (c, val) h))"
    "knob_encoder_count (snd r) = knob_encoder_count s"
proof -
  define f where "f = filter_point c val s"
  define hc where "hc = (if c = 0 then fst h else snd h)"
  have lists: "knob_lists s" and tinv: "turns_inv s" and cv: "channel_vals s = sending_up s" and ch: "chan_inv 0 (fst h) s" "chan_inv 1 (snd h) s"
    using inv by (simp_all add: knob_inv_def)
  have c2: "c = 0 \<or> c = 1" using c by auto
  have f: "channel_vals f = sending_up s" "knob_lists f" "turns_inv f" "pending_quarters f = pending_quarters s" "prev_encoder_state f = prev_encoder_state s"
    "knob_encoder_count f = knob_encoder_count s" "\<And>d. d \<noteq> c \<Longrightarrow> chan_inv d hist f = chan_inv d hist s"
    "sending_up f = (sending_up s)[c := sending_up f ! c]" for hist
  proof -
    obtain rc up su where e: "f = s\<lparr>run_count := (run_count s)[c := rc], prev_up := (prev_up s)[c := up], sending_up := (sending_up s)[c := su]\<rparr>"
      unfolding f_def filter_point_def Let_def by blast
    have "turns_inv f = turns_inv s" unfolding e by (simp add: turns_inv_def)
    then show "turns_inv f" using tinv by simp
    show "channel_vals f = sending_up s" "knob_lists f" "pending_quarters f = pending_quarters s" "prev_encoder_state f = prev_encoder_state s"
      "knob_encoder_count f = knob_encoder_count s" "\<And>d. d \<noteq> c \<Longrightarrow> chan_inv d hist f = chan_inv d hist s"
      "sending_up f = (sending_up s)[c := sending_up f ! c]"
      using lists cv c unfolding e by (simp_all add: knob_lists_def pending_quarters_def chan_inv_def)
  qed
  have "chan_inv c hc s" using ch c2 by (auto simp: hc_def)
  then have fc: "chan_inv c ((UP_VAL_THRESHOLD < val) # hc) f" unfolding f_def by (rule filter_point_inv [OF lists c])
  then have lv: "sending_up f ! c = bit_of (filtered ((UP_VAL_THRESHOLD < val) # hc))" by (simp add: chan_inv_def Let_def del: filtered.simps)
  have r: "r = find_turns c (bit_of (filtered ((UP_VAL_THRESHOLD < val) # hc))) f"
    unfolding r_def lv [symmetric] f_def by (rule add_point_eq [OF lists c])
  note st = find_turns_step [OF f(3) c, of "filtered ((UP_VAL_THRESHOLD < val) # hc)", folded r]
  have "channel_vals (snd r) = sending_up (snd r)" using st(2,6) f(1,8) lv by (simp del: filtered.simps)
  moreover have "chan_inv 0 (fst (hist_add (c, val) h)) (snd r) \<and> chan_inv 1 (snd (hist_add (c, val) h)) (snd r)"
    using c2 fc ch f(7) chan_inv_cong [of "snd r" _ f] st(4-6) by (auto simp: hist_add_def hc_def)
  moreover have "knob_lists (snd r)" using f(2) st by (simp add: knob_lists_def)
  ultimately show inv': "knob_inv (hist_add (c, val) h) (snd r)" using st(1) by (simp add: knob_inv_def)
  show "4 * sint (fst r) + pending_quarters (snd r) = pending_quarters s + quarter (hist_phase h) (hist_phase (hist_add (c, val) h))"
    using st(3) f(4,5) knob_inv_phase [OF inv] knob_inv_phase [OF inv'] by simp
  show "knob_encoder_count (snd r) = knob_encoder_count s" using st(7) f(6) by simp
qed

definition proc_sample :: "nat \<times> u8 \<Rightarrow> knob \<Rightarrow> knob" where
  "proc_sample p s = (let (val, s1) = add_point (fst p) (snd p) s
     in if val \<noteq> 0 then s1\<lparr>knob_encoder_count := knob_encoder_count s1 + val\<rparr> else s1)"

lemma proc_data_samples: "knob_encoder_proc_data buf half s = fold proc_sample (half_samples (buf, half)) s"
  unfolding knob_encoder_proc_data_def half_samples_def fold_map Let_def
  by (intro arg_cong2 [of _ _ _ _ "\<lambda>f xs. fold f xs s"]) (auto simp: proc_point_def proc_sample_def fun_eq_iff)

lemma proc_sample_inv:
  assumes inv: "knob_inv h s" and c: "fst p < 2"
  shows "knob_inv (hist_add p h) (proc_sample p s)"
    "\<exists>n. knob_encoder_count (proc_sample p s) = knob_encoder_count s + of_int n
      \<and> 4 * n + pending_quarters (proc_sample p s) = pending_quarters s + quarter (hist_phase h) (hist_phase (hist_add p h))"
proof -
  define r where "r = add_point (fst p) (snd p) s"
  note a = add_point_inv [OF inv c, of "snd p", folded r_def, unfolded prod.collapse]
  have ps: "proc_sample p s = (snd r)\<lparr>knob_encoder_count := knob_encoder_count s + fst r\<rparr>"
    using a(3) unfolding proc_sample_def r_def [symmetric] by (cases r) (auto intro: knob.equality)
  have "knob_inv (hist_add p h) (t\<lparr>knob_encoder_count := k\<rparr>) = knob_inv (hist_add p h) t" for t k
    by (simp add: knob_inv_def knob_lists_def turns_inv_def chan_inv_def)
  then show "knob_inv (hist_add p h) (proc_sample p s)" using a(1) unfolding ps by blast
  have "pending_quarters (t\<lparr>knob_encoder_count := k\<rparr>) = pending_quarters t" for t k by (simp add: pending_quarters_def)
  then show "\<exists>n. knob_encoder_count (proc_sample p s) = knob_encoder_count s + of_int n
      \<and> 4 * n + pending_quarters (proc_sample p s) = pending_quarters s + quarter (hist_phase h) (hist_phase (hist_add p h))"
    using a(2) unfolding ps by (intro exI [of _ "sint (fst r)"]) simp
qed

lemma proc_samples:
  assumes "knob_inv h s" "\<forall>p \<in> set ps. fst p < 2"
  shows "knob_inv (fold hist_add ps h) (fold proc_sample ps s) \<and>
    (\<exists>n. knob_encoder_count (fold proc_sample ps s) = knob_encoder_count s + of_int n
      \<and> 4 * n + pending_quarters (fold proc_sample ps s) = pending_quarters s + encoder_quarters h ps)"
  using assms
proof (induction ps arbitrary: h s)
  case Nil
  then show ?case by (auto intro: exI [of _ 0])
next
  case (Cons p ps)
  note st = proc_sample_inv [OF Cons.prems(1), of p]
  from st(2) Cons.prems(2) obtain m where m: "knob_encoder_count (proc_sample p s) = knob_encoder_count s + of_int m"
    "4 * m + pending_quarters (proc_sample p s) = pending_quarters s + quarter (hist_phase h) (hist_phase (hist_add p h))" by auto
  from Cons.IH [OF st(1)] Cons.prems(2) obtain n where
    "knob_inv (fold hist_add (p # ps) h) (fold proc_sample (p # ps) s)"
    "knob_encoder_count (fold proc_sample (p # ps) s) = knob_encoder_count (proc_sample p s) + of_int n"
    "4 * n + pending_quarters (fold proc_sample (p # ps) s) = pending_quarters (proc_sample p s) + encoder_quarters (hist_add p h) ps" by auto
  then show ?case using m by (intro conjI exI [of _ "m + n"]) simp_all
qed

lemma pending_bound: "turns_inv s \<Longrightarrow> \<bar>pending_quarters s\<bar> \<le> 3 \<and> (prev_encoder_state s = 0 \<longrightarrow> pending_quarters s = 0)"
  by (simp add: pending_quarters_def core_pending_def)

section \<open>Compressed samples\<close>

text \<open>The host's inverse, \<open>write_data\<close> of \<open>ioutil/i2c_encdata.c\<close>: the bytes it writes to the file.\<close>

definition write_data :: "bytes \<Rightarrow> bytes" where
  "write_data cdata = concat (map (\<lambda>i. let c_off = i * 3 in
     [cdata ! c_off AND 0xfc,
      push_bit 6 (cdata ! c_off) OR drop_bit 2 (cdata ! (c_off + 1) AND 0xf0),
      push_bit 4 (cdata ! (c_off + 1)) OR drop_bit 4 (cdata ! (c_off + 2) AND 0xc0),
      push_bit 2 (cdata ! (c_off + 2))]) [0..<30])"

definition packed :: "bytes \<Rightarrow> nat \<Rightarrow> bytes" where
  "packed buf i = [(buf ! (4 * i) AND 0xfc) OR drop_bit 6 (buf ! (4 * i + 1)),
     (push_bit 2 (buf ! (4 * i + 1)) AND 0xf0) OR drop_bit 4 (buf ! (4 * i + 2)),
     (push_bit 4 (buf ! (4 * i + 2)) AND 0xc0) OR drop_bit 2 (buf ! (4 * i + 3))]"

lemma masks_u8:
  "(0xfc :: u8) = NOT (mask 2)" "(0xf0 :: u8) = NOT (mask 4)" "(0xc0 :: u8) = NOT (mask 6)"
  by (simp_all add: mask_eq_exp_minus_1)

lemma unpack_block:
  fixes a b c d :: u8
  defines "x \<equiv> (a AND 0xfc) OR drop_bit 6 b" and "y \<equiv> (push_bit 2 b AND 0xf0) OR drop_bit 4 c"
    and "z \<equiv> (push_bit 4 c AND 0xc0) OR drop_bit 2 d"
  shows "x AND 0xfc = a AND 0xfc" "push_bit 6 x OR drop_bit 2 (y AND 0xf0) = b AND 0xfc"
    "push_bit 4 y OR drop_bit 4 (z AND 0xc0) = c AND 0xfc" "push_bit 2 z = d AND 0xfc"
proof -
  have lt: "\<not> bit w n" if "8 \<le> n" for w :: u8 and n
    using that bit_imp_le_length [of w n] by auto
  show "x AND 0xfc = a AND 0xfc" unfolding x_def masks_u8 by (rule bit_word_eqI) (auto simp: bit_simps lt simp del: push_bit_numeral)
  show "push_bit 6 x OR drop_bit 2 (y AND 0xf0) = b AND 0xfc"
    unfolding x_def y_def masks_u8
  proof (rule bit_word_eqI)
    fix n assume "n < LENGTH(8)"
    then show "bit (push_bit 6 ((a AND NOT (mask 2)) OR drop_bit 6 b) OR drop_bit 2 (((push_bit 2 b AND NOT (mask 4)) OR drop_bit 4 c) AND NOT (mask 4))) n
      = bit (b AND NOT (mask 2)) n"
      by (cases "n < 6") (auto simp: bit_simps lt simp del: push_bit_numeral)
  qed
  show "push_bit 4 y OR drop_bit 4 (z AND 0xc0) = c AND 0xfc"
    unfolding y_def z_def masks_u8
  proof (rule bit_word_eqI)
    fix n assume "n < LENGTH(8)"
    then show "bit (push_bit 4 ((push_bit 2 b AND NOT (mask 4)) OR drop_bit 4 c) OR drop_bit 4 (((push_bit 4 c AND NOT (mask 6)) OR drop_bit 2 d) AND NOT (mask 6))) n
      = bit (c AND NOT (mask 2)) n"
      by (cases "n < 4") (auto simp: bit_simps lt simp del: push_bit_numeral)
  qed
  show "push_bit 2 z = d AND 0xfc"
    unfolding z_def masks_u8
  proof (rule bit_word_eqI)
    fix n assume n: "n < LENGTH(8)"
    show "bit (push_bit 2 ((push_bit 4 c AND NOT (mask 6)) OR drop_bit 2 d)) n = bit (d AND NOT (mask 2)) n"
    proof (cases "n < 2")
      case False
      then obtain k where "n = k + 2" by (metis add.commute le_Suc_ex not_less)
      then show ?thesis using n by (auto simp: bit_simps add.commute simp del: push_bit_numeral)
    qed (simp add: bit_simps)
  qed
qed

lemma compress_block_at:
  assumes "i < 60" "length cbuf = 180"
  shows "compress_block buf i cbuf = put_at (3 * i) (packed buf i) cbuf"
proof -
  have "3 * i + 2 < length cbuf" using assms by simp
  then have "put_at (3 * i) [x, y, z] cbuf = cbuf[3 * i := x, 3 * i + 1 := y, 3 * i + 2 := z]" for x y z
    by (intro nth_equalityI) (auto simp: put_at_nth nth_list_update nth_Cons split: nat.split)
  then show ?thesis by (simp add: compress_block_def packed_def Let_def mult.commute)
qed

lemma compress_blocks:
  assumes "length cbuf = 180" "distinct is" "\<forall>i \<in> set is. i < 60"
  shows "length (fold (compress_block buf) is cbuf) = 180
    \<and> (\<forall>i \<in> set is. get_at (3 * i) 3 (fold (compress_block buf) is cbuf) = packed buf i)
    \<and> (\<forall>k < 180. k div 3 \<notin> set is \<longrightarrow> fold (compress_block buf) is cbuf ! k = cbuf ! k)"
  using assms
proof (induction "is" rule: rev_induct)
  case (snoc j js)
  define c where "c = fold (compress_block buf) js cbuf"
  have ih: "length c = 180" "\<And>i. i \<in> set js \<Longrightarrow> get_at (3 * i) 3 c = packed buf i" "\<And>k. k < 180 \<Longrightarrow> k div 3 \<notin> set js \<Longrightarrow> c ! k = cbuf ! k"
    using snoc by (auto simp: c_def)
  have p: "length (packed buf j) = 3" by (simp add: packed_def)
  have e: "fold (compress_block buf) (js @ [j]) cbuf = put_at (3 * j) (packed buf j) c"
    using compress_block_at [of j c buf] snoc.prems(3) ih(1) by (simp add: c_def)
  have j: "3 * j + 3 \<le> length c" using snoc.prems(3) ih(1) by simp
  have "get_at (3 * i) 3 (put_at (3 * j) (packed buf j) c) = packed buf i" if "i \<in> set (js @ [j])" for i
  proof (cases "i = j")
    case True
    then show ?thesis using j p by simp
  next
    case False
    then have "get_at (3 * i) 3 c = packed buf i" "i < 60" using that ih(2) snoc.prems(3) by auto
    moreover have "get_at (3 * i) 3 (put_at (3 * j) (packed buf j) c) = get_at (3 * i) 3 c"
    proof (rule nth_equalityI)
      show "length (get_at (3 * i) 3 (put_at (3 * j) (packed buf j) c)) = length (get_at (3 * i) 3 c)" using j p by (simp add: get_at_def)
    next
      fix k assume k: "k < length (get_at (3 * i) 3 (put_at (3 * j) (packed buf j) c))"
      then have "3 * i + k < length c" "k < 3" using j p by (auto simp: get_at_def)
      moreover have "\<not> (3 * j \<le> 3 * i + k \<and> 3 * i + k < 3 * j + 3)" using False \<open>k < 3\<close> by linarith
      ultimately show "get_at (3 * i) 3 (put_at (3 * j) (packed buf j) c) ! k = get_at (3 * i) 3 c ! k"
        using j p by (auto simp: get_at_def put_at_nth)
    qed
    ultimately show ?thesis by simp
  qed
  moreover have "put_at (3 * j) (packed buf j) c ! k = cbuf ! k" if "k < 180" "k div 3 \<notin> set (js @ [j])" for k
    using that ih(1,3) j p by (auto simp: put_at_nth)
  ultimately show ?case using ih(1) j p unfolding e by simp
qed simp

lemma concat_quads: "concat (map (\<lambda>i. [g (4 * i), g (4 * i + 1), g (4 * i + 2), g (4 * i + 3)]) [0..<n]) = map g [0..<4 * n]"
proof (induction n)
  case (Suc n)
  have "[0..<4 * Suc n] = [0..<4 * n] @ [4 * n, 4 * n + 1, 4 * n + 2, 4 * n + 3]" by (simp add: numeral_eq_Suc)
  then show ?case using Suc by simp
qed simp

lemma get_at_trans: "n + k \<le> m \<Longrightarrow> get_at n k (get_at b m xs) = get_at (b + n) k xs"
  by (simp add: get_at_def drop_take min_def add.commute)

lemma compressed_half:
  assumes "length cbuf = 180" "length buf = KNOB_PSENSE_DMA_BUF_SIZE" "b = 0 \<or> b = 30"
  shows "write_data (get_at (3 * b) 90 (fold (compress_block buf) [b..<b + 30] cbuf)) = map (\<lambda>x. x AND 0xfc) (get_at (4 * b) 120 buf)"
proof -
  define F where "F = fold (compress_block buf) [b..<b + 30] cbuf"
  define c where "c = get_at (3 * b) 90 F"
  define g where "g k = buf ! (4 * b + k) AND 0xfc" for k
  have all: "length F = 180" "\<And>i. b \<le> i \<Longrightarrow> i < b + 30 \<Longrightarrow> get_at (3 * i) 3 F = packed buf i"
    using compress_blocks [of cbuf "[b..<b + 30]" buf] assms(1,3) unfolding F_def by auto
  have c: "get_at (3 * i) 3 c = packed buf (b + i)" "length c = 90" if "i < 30" for i
  proof -
    have "get_at (3 * i) 3 c = get_at (3 * (b + i)) 3 F" unfolding c_def distrib_left using that by (intro get_at_trans) simp
    then show "get_at (3 * i) 3 c = packed buf (b + i)" using all(2) [of "b + i"] that by simp
    show "length c = 90" using all(1) assms(3) by (auto simp: c_def)
  qed
  have nth: "c ! (3 * i + k) = packed buf (b + i) ! k" if "i < 30" "k < 3" for i k
    using c [OF that(1)] that get_at_nth [of "3 * i" 3 c k] by simp
  have "write_data c = concat (map (\<lambda>i. [g (4 * i), g (4 * i + 1), g (4 * i + 2), g (4 * i + 3)]) [0..<30])"
    unfolding write_data_def Let_def
  proof (rule arg_cong [of _ _ concat], rule map_cong [OF refl])
    fix i assume "i \<in> set [0..<30]"
    then have i: "i < 30" by simp
    show "[c ! (i * 3) AND 0xfc, push_bit 6 (c ! (i * 3)) OR drop_bit 2 (c ! (i * 3 + 1) AND 0xf0),
        push_bit 4 (c ! (i * 3 + 1)) OR drop_bit 4 (c ! (i * 3 + 2) AND 0xc0), push_bit 2 (c ! (i * 3 + 2))]
      = [g (4 * i), g (4 * i + 1), g (4 * i + 2), g (4 * i + 3)]"
    proof -
      have p: "c ! (i * 3) = packed buf (b + i) ! 0" "c ! (i * 3 + 1) = packed buf (b + i) ! 1" "c ! (i * 3 + 2) = packed buf (b + i) ! 2"
        using nth [OF i, of 0] nth [OF i, of 1] nth [OF i, of 2] by (simp_all add: mult.commute)
      have q: "g (4 * i) = buf ! (4 * (b + i)) AND 0xfc" "g (4 * i + k) = buf ! (4 * (b + i) + k) AND 0xfc" for k
        by (simp_all only: g_def distrib_left add.assoc)
      have r: "packed buf (b + i) ! 0 = (buf ! (4 * (b + i)) AND 0xfc) OR drop_bit 6 (buf ! (4 * (b + i) + 1))"
        "packed buf (b + i) ! 1 = (push_bit 2 (buf ! (4 * (b + i) + 1)) AND 0xf0) OR drop_bit 4 (buf ! (4 * (b + i) + 2))"
        "packed buf (b + i) ! 2 = (push_bit 4 (buf ! (4 * (b + i) + 2)) AND 0xc0) OR drop_bit 2 (buf ! (4 * (b + i) + 3))"
        unfolding packed_def by (simp_all only: nth_Cons_0 nth_Cons_Suc One_nat_def numeral_2_eq_2)
      show ?thesis unfolding p q r unpack_block ..
    qed
  qed
  also have "\<dots> = map g [0..<120]" unfolding concat_quads by simp
  also have "\<dots> = map (\<lambda>x. x AND 0xfc) (get_at (4 * b) 120 buf)"
    using assms(2,3) by (intro nth_equalityI) (auto simp: g_def get_at_nth)
  finally show ?thesis by (simp add: c_def F_def)
qed

section \<open>Properties\<close>

lemma half_samples_channels: "\<forall>p \<in> set (half_samples c). fst p < 2"
  by (simp add: half_samples_def)

lemma fold_halves: "fold (\<lambda>(buf, half). knob_encoder_proc_data buf half) calls s = fold proc_sample (concat (map half_samples calls)) s"
  by (induction calls arbitrary: s) (auto simp: proc_data_samples)

text \<open>
  C16: The encoder counts turns exactly. For every sequence of sample buffers, let \<open>q\<close> be the
  net number of quarter turns the two channels make once each is filtered (it rises after twelve
  samples above the threshold in a row, falls after forty-two below). The counter is, modulo 256,
  a number \<open>n\<close> with \<open>q\<close> within three quarters of \<open>4 * n\<close>, and \<open>q = 4 * n\<close> whenever both channels
  are low: no turn is lost, invented or counted in the wrong direction, whatever back and forth
  the knob makes.
\<close>

theorem encoder_counts_turns:
  "let samples = concat (map half_samples calls);
       s = fold (\<lambda>(buf, half). knob_encoder_proc_data buf half) calls knob_reset;
       q = encoder_quarters ([], []) samples
   in \<exists>n. knob_encoder_count s = of_int n \<and> \<bar>q - 4 * n\<bar> \<le> 3 \<and> (channel_vals s = [0, 0] \<longrightarrow> q = 4 * n)"
proof -
  define samples where "samples = concat (map half_samples calls)"
  define s where "s = fold proc_sample samples knob_reset"
  have "\<forall>p \<in> set samples. fst p < 2" using half_samples_channels by (auto simp: samples_def)
  from proc_samples [OF knob_inv_reset this] obtain n where n: "turns_inv s" "knob_encoder_count s = of_int n"
    "4 * n + pending_quarters s = encoder_quarters ([], []) samples"
    by (auto simp: s_def knob_inv_def knob_reset_def pending_quarters_def core_pending_def)
  have "channel_vals s = [0, 0] \<Longrightarrow> prev_encoder_state s = 0"
    using n(1) by (simp add: turns_inv_def encoder_phase_def)
  then have "\<bar>encoder_quarters ([], []) samples - 4 * n\<bar> \<le> 3 \<and> (channel_vals s = [0, 0] \<longrightarrow> encoder_quarters ([], []) samples = 4 * n)"
    using pending_bound [OF n(1)] n(3) by auto
  then show ?thesis using n(2) unfolding Let_def fold_halves samples_def [symmetric] s_def [symmetric] by blast
qed

lemma hist_quiet:
  "\<forall>p \<in> set ps. snd p = 0 \<Longrightarrow> \<forall>x \<in> set (fst h) \<union> set (snd h). \<not> x \<Longrightarrow>
   \<forall>x \<in> set (fst (fold hist_add ps h)) \<union> set (snd (fold hist_add ps h)). \<not> x"
proof (induction ps arbitrary: h)
  case (Cons p ps)
  have "\<forall>x \<in> set (fst (hist_add p h)) \<union> set (snd (hist_add p h)). \<not> x"
    using Cons.prems by (cases p) (auto simp: hist_add_def)
  then show ?case using Cons.IH [of "hist_add p h"] Cons.prems(1) by simp
qed simp

lemma quiet_channels:
  assumes "\<forall>p \<in> set ps. fst p < 2 \<and> snd p = 0"
  shows "channel_vals (fold proc_sample ps knob_reset) = [0, 0]"
proof -
  define s where "s = fold proc_sample ps knob_reset"
  define h where "h = fold hist_add ps ([], [])"
  have inv: "knob_inv h s" using proc_samples [OF knob_inv_reset, of ps] assms by (simp add: s_def h_def)
  have "\<not> filtered (fst h)" "\<not> filtered (snd h)"
    using hist_quiet [of ps "([], [])"] assms by (auto simp: h_def intro!: filtered_down)
  then have "length (sending_up s) = 2 \<and> sending_up s ! 0 = 0 \<and> sending_up s ! 1 = 0" "channel_vals s = sending_up s"
    using inv by (simp_all add: knob_inv_def knob_lists_def chan_inv_def Let_def bit_of_def)
  then show ?thesis unfolding s_def [symmetric] by (auto intro!: nth_equalityI simp: less_Suc_eq numeral_2_eq_2)
qed

theorem encoder_counts_turns_witness:
  "\<exists>n. knob_encoder_count (knob_encoder_proc_data (replicate 240 0) 1 knob_reset) = of_int n
     \<and> encoder_quarters ([], []) (half_samples (replicate 240 0, 1)) = 4 * n"
proof -
  have "\<forall>p \<in> set (half_samples (replicate 240 0, 1)). fst p < 2 \<and> snd p = 0"
    unfolding half_samples_def by (auto simp del: upt_Suc upt_rec_numeral)
  then have "channel_vals (knob_encoder_proc_data (replicate 240 0) 1 knob_reset) = [0, 0]"
    unfolding proc_data_samples by (rule quiet_channels)
  then show ?thesis using encoder_counts_turns [of "[(replicate 240 0, 1)]"] by (auto simp: Let_def)
qed

text \<open>
  C17: The push button. For every sequence of samples of the pin, the two counters are (modulo
  256) the numbers of times the last four samples were high, high, low, low and low, low, high,
  high; for a signal whose runs all have at least two samples that is the number of presses,
  i.e. of falling edges.
\<close>

theorem switch_counts_presses:
  "let s = fold knob_switch_read levels knob_reset; signal = [True, True, True] @ levels
   in knob_switch_count s ! KNOB_SWITCH_DOWN = of_nat (windows [True, True, False, False] signal)
     \<and> knob_switch_count s ! KNOB_SWITCH_UP = of_nat (windows [False, False, True, True] signal)
     \<and> (debounced signal \<longrightarrow> knob_switch_count s ! KNOB_SWITCH_DOWN = of_nat (falling signal))"
proof -
  have "knob_switch_state knob_reset AND 0xf = last_four True True True True" "length (knob_switch_count knob_reset) = 2"
    by (simp_all add: knob_reset_def last_four_def bit_of_def)
  from knob_switch_fold [OF this, of levels] falling_windows [of "[True, True, True] @ levels"]
  show ?thesis by (simp add: Let_def knob_reset_def)
qed

theorem switch_counts_presses_witness:
  "knob_switch_count (fold knob_switch_read [True, False, False, True, True, False, False, False] knob_reset) ! KNOB_SWITCH_DOWN = 2"
  using switch_counts_presses [of "[True, False, False, True, True, False, False, False]"] by (simp add: Let_def)

text \<open>
  C18: Compressed encoder samples. What the host writes for the compressed half of the buffer is
  that half of the samples with the two low bits of each cleared.
\<close>

theorem compressed_samples_roundtrip:
  assumes "length buf = KNOB_PSENSE_DMA_BUF_SIZE" "length cbuf = 180"
  shows "write_data (get_at (if half \<noteq> 0 then 0 else 90) 90 (fst (knob_encoder_compress_data buf half (cbuf, ready))))
    = map (\<lambda>x. x AND 0xfc) (get_at (if half \<noteq> 0 then 0 else 120) 120 buf)"
  using compressed_half [OF assms(2,1), of 0] compressed_half [OF assms(2,1), of 30]
  by (simp add: knob_encoder_compress_data_def Let_def)

theorem compressed_samples_roundtrip_witness:
  "write_data (get_at 0 90 (fst (knob_encoder_compress_data (map of_nat [0..<240]) 1 (replicate 180 0, 0, 0))))
    = map (\<lambda>x. of_nat x AND 0xfc) [0..<120]"
  using compressed_samples_roundtrip [of "map of_nat [0..<240]" "replicate 180 0" 1 "(0, 0)"]
  by (simp add: get_at_def take_map drop_map comp_def)

end
