(* ===== verification/Ctrl_App.thy ===== *)
theory Ctrl_App
  imports Ctrl_Display Ctrl_Encoder Iomcu_Checksum
begin

text \<open>
  The controller application as a whole: the I2C registers served by DMA, the interrupt handlers
  of \<open>stm8l15x_it.c\<close>, the start-up and standalone animations and the main loop. The hardware
  enters as events: a byte written or read by the bus master, a timer tick, a finished half of the
  sample buffer, an iteration of the main loop.
\<close>

section \<open>Constants and state\<close>

abbreviation I2C_DMA_STATE_WAIT_FOR_REG :: u8 where "I2C_DMA_STATE_WAIT_FOR_REG \<equiv> 1"
abbreviation I2C_DMA_STATE_RECEIVING :: u8 where "I2C_DMA_STATE_RECEIVING \<equiv> 2"
abbreviation I2C_DMA_STATE_TRANSMITTING :: u8 where "I2C_DMA_STATE_TRANSMITTING \<equiv> 4"
abbreviation I2C_REG_RW_MASK :: u8 where "I2C_REG_RW_MASK \<equiv> 0x80"
abbreviation I2C_REG_RW_WRITE :: u8 where "I2C_REG_RW_WRITE \<equiv> 0x80"
abbreviation I2C_REG_READ_SYS_STAT :: u8 where "I2C_REG_READ_SYS_STAT \<equiv> 0x00"
abbreviation I2C_REG_READ_SYS_STAT_SIZE :: nat where "I2C_REG_READ_SYS_STAT_SIZE \<equiv> 3"
abbreviation I2C_REG_READ_KNOB_STAT :: u8 where "I2C_REG_READ_KNOB_STAT \<equiv> 0x01"
abbreviation I2C_REG_READ_KNOB_STAT_SIZE :: nat where "I2C_REG_READ_KNOB_STAT_SIZE \<equiv> 5"
abbreviation I2C_REG_WRITE_PWM :: u8 where "I2C_REG_WRITE_PWM \<equiv> 0x80"
abbreviation I2C_REG_WRITE_PWM_SIZE :: nat where "I2C_REG_WRITE_PWM_SIZE \<equiv> 25"
abbreviation I2C_REG_WRITE_RESTART_KEY :: u8 where "I2C_REG_WRITE_RESTART_KEY \<equiv> 0x81"
abbreviation I2C_REG_WRITE_RESTART_KEY_SIZE :: nat where "I2C_REG_WRITE_RESTART_KEY_SIZE \<equiv> 5"
abbreviation I2C_REG_ENTER_STANDALONE_MODE :: u8 where "I2C_REG_ENTER_STANDALONE_MODE \<equiv> 0x82"
abbreviation I2C_REG_EXIT_STANDALONE_MODE :: u8 where "I2C_REG_EXIT_STANDALONE_MODE \<equiv> 0x83"
abbreviation I2C_REG_WRITE_STANDALONE_BUF_SIZE :: nat where "I2C_REG_WRITE_STANDALONE_BUF_SIZE \<equiv> 4"
abbreviation I2C_REG_RESERVED :: u8 where "I2C_REG_RESERVED \<equiv> 0xff"
abbreviation I2C_RECV_BUF_SIZE :: nat where "I2C_RECV_BUF_SIZE \<equiv> 1"
abbreviation I2C_SEND_BUF_SIZE :: nat where "I2C_SEND_BUF_SIZE \<equiv> 4"
abbreviation I2C_RESTART_KEY_READY :: u8 where "I2C_RESTART_KEY_READY \<equiv> 1"
abbreviation I2C_STANDALONE_MODE_READY :: u8 where "I2C_STANDALONE_MODE_READY \<equiv> 1"
abbreviation I2C_READ_KNOB_BUF_READY :: u8 where "I2C_READ_KNOB_BUF_READY \<equiv> 1"
abbreviation I2C_READ_KNOB_ACK :: u8 where "I2C_READ_KNOB_ACK \<equiv> 0xaa"
abbreviation STARTUP_TIMER_SECOND :: u16 where "STARTUP_TIMER_SECOND \<equiv> 61"
abbreviation STARTUP_MODE_ENABLE :: u8 where "STARTUP_MODE_ENABLE \<equiv> 1"
abbreviation LED_STARTUP_BLINK :: nat where "LED_STARTUP_BLINK \<equiv> 3"
abbreviation LED_BLINK_SEQUENCE_NUM :: u8 where "LED_BLINK_SEQUENCE_NUM \<equiv> 5"
abbreviation I2C_CONTROLLER_RESTART_KEY_0 :: u8 where "I2C_CONTROLLER_RESTART_KEY_0 \<equiv> 0xa4"
abbreviation I2C_CONTROLLER_RESTART_KEY_1 :: u8 where "I2C_CONTROLLER_RESTART_KEY_1 \<equiv> 0xaa"
abbreviation I2C_CONTROLLER_RESTART_KEY_2 :: u8 where "I2C_CONTROLLER_RESTART_KEY_2 \<equiv> 0xaa"
abbreviation I2C_CONTROLLER_RESTART_KEY_3 :: u8 where "I2C_CONTROLLER_RESTART_KEY_3 \<equiv> 0xc0"
abbreviation I2C_CONTROLLER_RESTART_KEY_CHECKSUM :: u8 where "I2C_CONTROLLER_RESTART_KEY_CHECKSUM \<equiv> 0xed"

text \<open>The buffers a DMA channel can point to, and the channel as it is programmed: size, buffer and
  the number of bytes transferred since.\<close>

datatype dma_addr = DMA_RECV_BUF | DMA_PWM_A | DMA_RESTART_KEY_BUF | DMA_STANDALONE_BUF | DMA_SEND_BUF | DMA_READ_KNOB_BUF

record dma_chan =
  CNBTR :: nat
  CM0AR :: dma_addr
  dma_pos :: nat

text \<open>Where \<open>main\<close> is: the two statements of the start-up loop and the three of the main loop.\<close>

datatype ctrl_pc = PC_STARTUP_DRAW | PC_STARTUP_LED | PC_RESTART | PC_LED | PC_KNOB

text \<open>\<open>bus_out\<close> are the bytes the master has read.\<close>

record ctrl =
  ctrl_led :: led
  ctrl_knob :: knob
  knob_psense_dma_buf :: bytes
  adc_proc_state :: u8
  dropped_adc_frames :: u8
  i2c_dma_state :: u8
  ctrl_reg :: u8
  i2c_dma_recv_buf :: bytes
  i2c_dma_send_buf :: bytes
  i2c_restart_key_buf :: bytes
  i2c_restart_key_state :: u8
  i2c_standalone_mode_buf :: bytes
  i2c_standalone_mode_state :: u8
  i2c_read_knob_buf :: bytes
  i2c_read_knob_state :: u8
  dma0 :: dma_chan
  dma3 :: dma_chan
  startup_mode :: u8
  led_startup_lut :: bytes
  quadrant :: u8
  standalone_animation_timer :: u8
  startup_animation_timer :: u16
  startup_animation_timeout :: u16
  blink_index :: u8
  tim3_enabled :: bool
  wwdg_reset :: bool
  main_pc :: ctrl_pc
  bus_out :: bytes

definition i2c_dma_read_params :: "nat \<Rightarrow> nat \<times> dma_addr" where
  "i2c_dma_read_params i = [(I2C_REG_READ_SYS_STAT_SIZE, DMA_SEND_BUF), (I2C_REG_READ_KNOB_STAT_SIZE, DMA_READ_KNOB_BUF)] ! i"

definition i2c_dma_write_params :: "nat \<Rightarrow> nat \<times> dma_addr" where
  "i2c_dma_write_params i = [(I2C_REG_WRITE_PWM_SIZE, DMA_PWM_A), (I2C_REG_WRITE_RESTART_KEY_SIZE, DMA_RESTART_KEY_BUF),
     (I2C_REG_WRITE_STANDALONE_BUF_SIZE, DMA_STANDALONE_BUF), (I2C_REG_WRITE_STANDALONE_BUF_SIZE, DMA_STANDALONE_BUF)] ! i"

definition led_startup_blink_ontime :: bytes where "led_startup_blink_ontime = [16, 8, 24, 1, 24]"
definition led_startup_blink_offtime :: bytes where "led_startup_blink_offtime = [125, 250, 65, 65, 125]"

definition ctrl_startup_lut :: bytes where
  "ctrl_startup_lut = [0, 0, 0, 255, 0, 0, 0, 255, 255, 255, 255, 255, 255, 255, 255, 255, 255, 0, 0, 0, 255, 0, 0, 0]"

section \<open>Knob register\<close>

text \<open>The CRC-8 of \<open>controller/i2c.c\<close>.\<close>

fun ctrl_crc8_bits :: "nat \<Rightarrow> u8 \<Rightarrow> u8" where
  "ctrl_crc8_bits 0 crc = crc"
| "ctrl_crc8_bits (Suc n) crc = ctrl_crc8_bits n (if crc AND 0x80 \<noteq> 0 then push_bit 1 crc XOR 0xd5 else push_bit 1 crc)"

fun ctrl_crc8 :: "u8 \<Rightarrow> bytes \<Rightarrow> u8" where
  "ctrl_crc8 crc [] = crc"
| "ctrl_crc8 crc (b # buf) = ctrl_crc8 (ctrl_crc8_bits 8 (crc XOR b)) buf"

definition i2c_update_read_knob_buf :: "ctrl \<Rightarrow> ctrl" where
  "i2c_update_read_knob_buf s =
     (if I2C_READ_KNOB_BUF_READY AND i2c_read_knob_state s \<noteq> 0 then s
      else let (enc, k1) = knob_encoder_read_count (ctrl_knob s);
               (down, k2) = knob_switch_read_down_count k1;
               (up, k3) = knob_switch_read_up_count k2;
               buf = (i2c_read_knob_buf s)[0 := enc, 1 := down, 2 := up, 3 := dropped_adc_frames s];
               buf' = buf[4 := (if buf ! 0 \<noteq> 0 \<or> buf ! 1 \<noteq> 0 \<or> buf ! 2 \<noteq> 0 \<or> buf ! 3 \<noteq> 0 then ctrl_crc8 0 (take 4 buf) else 0)]
           in s\<lparr>ctrl_knob := k3, dropped_adc_frames := dropped_adc_frames s - buf ! 3, i2c_read_knob_buf := buf',
                i2c_read_knob_state := i2c_read_knob_state s OR I2C_READ_KNOB_BUF_READY\<rparr>)"

section \<open>DMA interrupts\<close>

text \<open>\<open>adc_half\<close>: the two sample buffer interrupts of DMA channel 1.\<close>

definition adc_half :: "u8 \<Rightarrow> ctrl \<Rightarrow> ctrl" where
  "adc_half st s = (if adc_proc_state s = 0 then s\<lparr>adc_proc_state := st\<rparr> else s\<lparr>dropped_adc_frames := dropped_adc_frames s + 1\<rparr>)"

definition i2c_reg_setup :: "ctrl \<Rightarrow> ctrl" where
  "i2c_reg_setup s0 =
     (let s = s0\<lparr>ctrl_reg := i2c_dma_recv_buf s0 ! 0\<rparr>; reg = ctrl_reg s
      in if reg = I2C_REG_READ_SYS_STAT then s\<lparr>i2c_dma_send_buf := (i2c_dma_send_buf s)[0 := 0, 1 := 0, 2 := 1]\<rparr>
         else if reg = I2C_REG_READ_KNOB_STAT then i2c_update_read_knob_buf s
         else if reg \<in> {I2C_REG_WRITE_RESTART_KEY, I2C_REG_WRITE_PWM, I2C_REG_ENTER_STANDALONE_MODE, I2C_REG_EXIT_STANDALONE_MODE} then s
         else s\<lparr>ctrl_reg := I2C_REG_RESERVED\<rparr>)"

definition i2c_dma_program :: "ctrl \<Rightarrow> ctrl" where
  "i2c_dma_program s =
     (if ctrl_reg s \<noteq> I2C_REG_RESERVED then
        if ctrl_reg s AND I2C_REG_RW_MASK = I2C_REG_RW_WRITE then
          let (n, a) = i2c_dma_write_params (unat (ctrl_reg s AND NOT I2C_REG_RW_MASK))
          in s\<lparr>i2c_dma_state := I2C_DMA_STATE_RECEIVING, dma0 := \<lparr>CNBTR = n, CM0AR = a, dma_pos = 0\<rparr>\<rparr>
        else
          let (n, a) = i2c_dma_read_params (unat (ctrl_reg s))
          in s\<lparr>i2c_dma_state := I2C_DMA_STATE_TRANSMITTING, dma3 := \<lparr>CNBTR = n, CM0AR = a, dma_pos = 0\<rparr>\<rparr>
      else s)"

text \<open>A complete write: leave the start-up and standalone modes, rearm the channel for the next
  register and act on the register.\<close>

definition i2c_leave_modes :: "ctrl \<Rightarrow> ctrl" where
  "i2c_leave_modes s =
     (let s1 = (if startup_mode s AND STARTUP_MODE_ENABLE = STARTUP_MODE_ENABLE
                then s\<lparr>startup_mode := startup_mode s AND NOT STARTUP_MODE_ENABLE\<rparr> else s)
      in if i2c_standalone_mode_state s1 AND I2C_STANDALONE_MODE_READY = I2C_STANDALONE_MODE_READY
         then s1\<lparr>i2c_standalone_mode_state := i2c_standalone_mode_state s1 AND NOT I2C_STANDALONE_MODE_READY, tim3_enabled := False\<rparr>
         else s1)"

definition i2c_standalone_mode :: "ctrl \<Rightarrow> ctrl" where
  "i2c_standalone_mode s =
     (let s1 = (if ctrl_reg s = I2C_REG_ENTER_STANDALONE_MODE
                then s\<lparr>i2c_standalone_mode_state := i2c_standalone_mode_state s OR I2C_STANDALONE_MODE_READY, tim3_enabled := True\<rparr> else s)
      in if ctrl_reg s1 = I2C_REG_EXIT_STANDALONE_MODE
         then s1\<lparr>i2c_standalone_mode_state := i2c_standalone_mode_state s1 AND NOT I2C_STANDALONE_MODE_READY, tim3_enabled := False\<rparr>
         else s1)"

definition i2c_received :: "ctrl \<Rightarrow> ctrl" where
  "i2c_received s0 =
     (let s1 = i2c_standalone_mode (i2c_leave_modes s0);
          s2 = s1\<lparr>dma0 := \<lparr>CNBTR = 1, CM0AR = DMA_RECV_BUF, dma_pos = 0\<rparr>, i2c_dma_state := I2C_DMA_STATE_WAIT_FOR_REG\<rparr>;
          s3 = (if ctrl_reg s2 = I2C_REG_WRITE_PWM
                   \<and> i2c_standalone_mode_state s2 AND I2C_STANDALONE_MODE_READY \<noteq> I2C_STANDALONE_MODE_READY then
                  let s' = s2\<lparr>ctrl_led := (ctrl_led s2)\<lparr>led_state := led_state (ctrl_led s2) OR LED_STATE_PWM_READY\<rparr>\<rparr>
                  in if led_pwm_table (ctrl_led s') ! LED_TOT_SIZE = I2C_READ_KNOB_ACK
                     then s'\<lparr>i2c_read_knob_state := i2c_read_knob_state s' AND NOT I2C_READ_KNOB_BUF_READY\<rparr> else s'
                else if ctrl_reg s2 = I2C_REG_WRITE_RESTART_KEY
                then s2\<lparr>i2c_restart_key_state := i2c_restart_key_state s2 OR I2C_RESTART_KEY_READY\<rparr>
                else s2)
      in s3\<lparr>ctrl_reg := I2C_REG_RESERVED\<rparr>)"

definition DMA1_CHANNEL0_1_IRQHandler :: "bool \<Rightarrow> bool \<Rightarrow> ctrl \<Rightarrow> ctrl" where
  "DMA1_CHANNEL0_1_IRQHandler ht1 tc1 s =
     (if ht1 then adc_half 1 s
      else if tc1 then adc_half 2 s
      else if i2c_dma_state s = I2C_DMA_STATE_WAIT_FOR_REG then i2c_dma_program (i2c_reg_setup s)
      else if i2c_dma_state s = I2C_DMA_STATE_RECEIVING then i2c_received s
      else s\<lparr>i2c_dma_state := I2C_DMA_STATE_WAIT_FOR_REG\<rparr>)"

definition DMA1_CHANNEL2_3_IRQHandler :: "ctrl \<Rightarrow> ctrl" where
  "DMA1_CHANNEL2_3_IRQHandler s =
     (if i2c_dma_state s = I2C_DMA_STATE_TRANSMITTING
      then s\<lparr>dma3 := \<lparr>CNBTR = 1, CM0AR = DMA_SEND_BUF, dma_pos = 0\<rparr>, i2c_dma_state := I2C_DMA_STATE_WAIT_FOR_REG, ctrl_reg := I2C_REG_RESERVED\<rparr>
      else s\<lparr>i2c_dma_state := I2C_DMA_STATE_WAIT_FOR_REG\<rparr>)"

section \<open>Animations\<close>

definition enter_startup_mode :: "ctrl \<Rightarrow> ctrl" where
  "enter_startup_mode s = s\<lparr>startup_mode := startup_mode s OR STARTUP_MODE_ENABLE\<rparr>"

definition exit_startup_mode :: "ctrl \<Rightarrow> ctrl" where
  "exit_startup_mode s = s\<lparr>tim3_enabled := False\<rparr>"

definition draw_startup_pattern :: "ctrl \<Rightarrow> ctrl" where
  "draw_startup_pattern s = s\<lparr>ctrl_led := (ctrl_led s)
     \<lparr>led_pwm_table := put_at 0 (take LED_TOT_SIZE (led_startup_lut s)) (led_pwm_table (ctrl_led s)),
      led_state := led_state (ctrl_led s) OR LED_STATE_PWM_READY\<rparr>\<rparr>"

definition update_standalone_leds :: "ctrl \<Rightarrow> ctrl" where
  "update_standalone_leds s =
     (let s1 = (if quadrant s > 3 then s\<lparr>quadrant := 0\<rparr> else s);
          q = unat (quadrant s1);
          pwm = fold (\<lambda>i p. p[i := 255]) [q * 6..<(q + 1) * 6] (fold (\<lambda>i p. p[i := 0]) [0..<24] (led_pwm_table (ctrl_led s1)))
      in s1\<lparr>ctrl_led := (ctrl_led s1)\<lparr>led_pwm_table := pwm, led_state := led_state (ctrl_led s1) OR LED_STATE_PWM_READY\<rparr>\<rparr>)"

text \<open>The blink of the start-up pattern.\<close>

definition startup_blink :: "ctrl \<Rightarrow> ctrl" where
  "startup_blink s =
     (let i = unat (blink_index s);
          s1 = (if led_startup_lut s ! LED_STARTUP_BLINK \<noteq> 0
                then s\<lparr>led_startup_lut := (led_startup_lut s)[LED_STARTUP_BLINK := 0], startup_animation_timeout := ucast (led_startup_blink_offtime ! i)\<rparr>
                else s\<lparr>led_startup_lut := (led_startup_lut s)[LED_STARTUP_BLINK := 255],
                       startup_animation_timeout := ucast (led_startup_blink_ontime ! i) * STARTUP_TIMER_SECOND\<rparr>)
      in s1\<lparr>startup_animation_timer := 0,
            blink_index := (if uint (blink_index s1) + 1 = uint LED_BLINK_SEQUENCE_NUM then 0 else blink_index s1 + 1)\<rparr>)"

definition TIM3_UPD_OVF_TRG_BRK_USART3_TX_IRQHandler :: "ctrl \<Rightarrow> ctrl" where
  "TIM3_UPD_OVF_TRG_BRK_USART3_TX_IRQHandler s =
     (let on = startup_mode s AND STARTUP_MODE_ENABLE = STARTUP_MODE_ENABLE;
          over = on \<and> startup_animation_timer s > startup_animation_timeout s;
          s1 = (if on then s\<lparr>startup_animation_timer := startup_animation_timer s + 1\<rparr> else s)
      in if over then startup_blink s1
         else let t = standalone_animation_timer s1;
                  s2 = s1\<lparr>standalone_animation_timer := t + 1\<rparr>
              in if t > 162 \<and> i2c_standalone_mode_state s2 AND I2C_STANDALONE_MODE_READY = I2C_STANDALONE_MODE_READY
                 then (update_standalone_leds (s2\<lparr>quadrant := quadrant s2 + 1\<rparr>))\<lparr>standalone_animation_timer := 0\<rparr>
                 else s2)"

section \<open>The button timer\<close>

definition TIM2_UPD_OVF_TRG_BRK_USART2_TX_IRQHandler :: "bool \<Rightarrow> ctrl \<Rightarrow> ctrl" where
  [simp]: "TIM2_UPD_OVF_TRG_BRK_USART2_TX_IRQHandler level s = s\<lparr>ctrl_knob := knob_switch_read level (ctrl_knob s)\<rparr>"

section \<open>The I2C event interrupt\<close>

text \<open>\<open>I2C1_SPI2_IRQHandler\<close> only acknowledges the peripheral: the control register 2 and the
  status register 2 it leaves, from the registers it reads.\<close>

abbreviation I2C_CR2_STOP :: u8 where "I2C_CR2_STOP \<equiv> 0x02"
abbreviation I2C_CR2_ACK :: u8 where "I2C_CR2_ACK \<equiv> 0x04"
abbreviation I2C_SR2_ERRORS :: u8 where "I2C_SR2_ERRORS \<equiv> 0x2b"
abbreviation I2C_SR2_AF :: u8 where "I2C_SR2_AF \<equiv> 0x04"
abbreviation I2C_SR1_STOPF :: u8 where "I2C_SR1_STOPF \<equiv> 0x10"

definition I2C1_SPI2_IRQHandler :: "u8 \<Rightarrow> u8 \<Rightarrow> u8 \<Rightarrow> u8 \<times> u8" where
  "I2C1_SPI2_IRQHandler sr1 sr2 cr2 =
     (let (cr2a, sr2a) = (if sr2 AND I2C_SR2_ERRORS \<noteq> 0 then (cr2 OR I2C_CR2_STOP, 0) else (cr2, sr2));
          sr2b = (if sr2 AND I2C_SR2_AF \<noteq> 0 then sr2a AND NOT I2C_SR2_AF else sr2a);
          cr2b = (if sr1 AND I2C_SR1_STOPF \<noteq> 0 then cr2a OR I2C_CR2_ACK else cr2a)
      in (cr2b, sr2b))"

section \<open>Main\<close>

definition ctrl_reset :: ctrl where
  "ctrl_reset = \<lparr>ctrl_led = led_data_init led_reset, ctrl_knob = knob_reset, knob_psense_dma_buf = replicate KNOB_PSENSE_DMA_BUF_SIZE 0,
     adc_proc_state = 0, dropped_adc_frames = 0, i2c_dma_state = I2C_DMA_STATE_WAIT_FOR_REG, ctrl_reg = 0,
     i2c_dma_recv_buf = replicate I2C_RECV_BUF_SIZE 0, i2c_dma_send_buf = replicate I2C_SEND_BUF_SIZE 0,
     i2c_restart_key_buf = replicate I2C_REG_WRITE_RESTART_KEY_SIZE 0, i2c_restart_key_state = 0,
     i2c_standalone_mode_buf = replicate I2C_REG_WRITE_STANDALONE_BUF_SIZE 0, i2c_standalone_mode_state = 0,
     i2c_read_knob_buf = replicate I2C_REG_READ_KNOB_STAT_SIZE 0, i2c_read_knob_state = 0,
     dma0 = \<lparr>CNBTR = 1, CM0AR = DMA_RECV_BUF, dma_pos = 0\<rparr>, dma3 = \<lparr>CNBTR = 1, CM0AR = DMA_SEND_BUF, dma_pos = 0\<rparr>,
     startup_mode = 0, led_startup_lut = ctrl_startup_lut, quadrant = 0, standalone_animation_timer = 0, startup_animation_timer = 0,
     startup_animation_timeout = 3 * STARTUP_TIMER_SECOND, blink_index = 0, tim3_enabled = True, wwdg_reset = False,
     main_pc = PC_STARTUP_DRAW, bus_out = []\<rparr>"

definition ctrl_start :: ctrl where
  "ctrl_start = enter_startup_mode ctrl_reset"

definition main_led :: "ctrl \<Rightarrow> ctrl" where
  "main_led s = (if led_state (ctrl_led s) AND (LED_STATE_PWM_READY OR LED_STATE_OPS_READY) = LED_STATE_PWM_READY
     then s\<lparr>ctrl_led := led_update_arr (ctrl_led s)\<rparr> else s)"

definition main_restart :: "ctrl \<Rightarrow> ctrl" where
  "main_restart s =
     (if i2c_restart_key_state s AND I2C_RESTART_KEY_READY = I2C_RESTART_KEY_READY then
        let s1 = s\<lparr>i2c_restart_key_state := i2c_restart_key_state s AND NOT I2C_RESTART_KEY_READY\<rparr>; b = i2c_restart_key_buf s1
        in if b ! 0 = I2C_CONTROLLER_RESTART_KEY_3 \<and> b ! 1 = I2C_CONTROLLER_RESTART_KEY_2 \<and> b ! 2 = I2C_CONTROLLER_RESTART_KEY_1
              \<and> b ! 3 = I2C_CONTROLLER_RESTART_KEY_0 \<and> b ! 4 = I2C_CONTROLLER_RESTART_KEY_CHECKSUM
           then s1\<lparr>wwdg_reset := True\<rparr> else s1
      else s)"

definition main_knob :: "ctrl \<Rightarrow> ctrl" where
  "main_knob s = (if adc_proc_state s \<noteq> 0
     then s\<lparr>ctrl_knob := knob_encoder_proc_data (knob_psense_dma_buf s) (drop_bit 1 (adc_proc_state s)) (ctrl_knob s), adc_proc_state := 0\<rparr>
     else s)"

definition ctrl_main :: "ctrl \<Rightarrow> ctrl" where
  "ctrl_main s = (case main_pc s of
     PC_STARTUP_DRAW \<Rightarrow> if startup_mode s AND STARTUP_MODE_ENABLE = STARTUP_MODE_ENABLE
                         then (draw_startup_pattern s)\<lparr>main_pc := PC_STARTUP_LED\<rparr>
                         else (exit_startup_mode s)\<lparr>main_pc := PC_RESTART\<rparr>
   | PC_STARTUP_LED \<Rightarrow> (main_led s)\<lparr>main_pc := PC_STARTUP_DRAW\<rparr>
   | PC_RESTART \<Rightarrow> (main_restart s)\<lparr>main_pc := PC_LED\<rparr>
   | PC_LED \<Rightarrow> (main_led s)\<lparr>main_pc := PC_KNOB\<rparr>
   | PC_KNOB \<Rightarrow> (main_knob s)\<lparr>main_pc := PC_RESTART\<rparr>)"

section \<open>Events\<close>

text \<open>
  The DMA controller: a byte from the bus goes to the buffer channel 0 points to, a byte to the bus
  comes from the buffer of channel 3; after \<open>CNBTR\<close> bytes the channel starts over (circular mode)
  and its interrupt is raised.
\<close>

definition dma_store :: "dma_addr \<Rightarrow> nat \<Rightarrow> u8 \<Rightarrow> ctrl \<Rightarrow> ctrl" where
  "dma_store a i b s = (case a of
     DMA_RECV_BUF \<Rightarrow> s\<lparr>i2c_dma_recv_buf := (i2c_dma_recv_buf s)[i := b]\<rparr>
   | DMA_PWM_A \<Rightarrow> s\<lparr>ctrl_led := (ctrl_led s)\<lparr>led_pwm_table := (led_pwm_table (ctrl_led s))[i := b]\<rparr>\<rparr>
   | DMA_RESTART_KEY_BUF \<Rightarrow> s\<lparr>i2c_restart_key_buf := (i2c_restart_key_buf s)[i := b]\<rparr>
   | DMA_STANDALONE_BUF \<Rightarrow> s\<lparr>i2c_standalone_mode_buf := (i2c_standalone_mode_buf s)[i := b]\<rparr>
   | DMA_SEND_BUF \<Rightarrow> s\<lparr>i2c_dma_send_buf := (i2c_dma_send_buf s)[i := b]\<rparr>
   | DMA_READ_KNOB_BUF \<Rightarrow> s\<lparr>i2c_read_knob_buf := (i2c_read_knob_buf s)[i := b]\<rparr>)"

definition dma_buf :: "dma_addr \<Rightarrow> ctrl \<Rightarrow> bytes" where
  "dma_buf a s = (case a of
     DMA_RECV_BUF \<Rightarrow> i2c_dma_recv_buf s | DMA_PWM_A \<Rightarrow> led_pwm_table (ctrl_led s) | DMA_RESTART_KEY_BUF \<Rightarrow> i2c_restart_key_buf s
   | DMA_STANDALONE_BUF \<Rightarrow> i2c_standalone_mode_buf s | DMA_SEND_BUF \<Rightarrow> i2c_dma_send_buf s | DMA_READ_KNOB_BUF \<Rightarrow> i2c_read_knob_buf s)"

definition bus_rx :: "u8 \<Rightarrow> ctrl \<Rightarrow> ctrl" where
  "bus_rx b s = (let ch = dma0 s; s1 = dma_store (CM0AR ch) (dma_pos ch) b s
     in if dma_pos ch + 1 < CNBTR ch then s1\<lparr>dma0 := ch\<lparr>dma_pos := dma_pos ch + 1\<rparr>\<rparr>
        else DMA1_CHANNEL0_1_IRQHandler False False (s1\<lparr>dma0 := ch\<lparr>dma_pos := 0\<rparr>\<rparr>))"

definition bus_tx :: "ctrl \<Rightarrow> ctrl" where
  "bus_tx s = (let ch = dma3 s; s1 = s\<lparr>bus_out := bus_out s @ [dma_buf (CM0AR ch) s ! dma_pos ch]\<rparr>
     in if dma_pos ch + 1 < CNBTR ch then s1\<lparr>dma3 := ch\<lparr>dma_pos := dma_pos ch + 1\<rparr>\<rparr>
        else DMA1_CHANNEL2_3_IRQHandler (s1\<lparr>dma3 := ch\<lparr>dma_pos := 0\<rparr>\<rparr>))"

datatype ctrl_event = EV_RX u8 | EV_TX | EV_TIM2 bool | EV_TIM3 | EV_TIM4 | EV_ADC_HT bytes | EV_ADC_TC bytes | EV_MAIN

definition ctrl_step :: "ctrl_event \<Rightarrow> ctrl \<Rightarrow> ctrl option" where
  "ctrl_step ev s = (case ev of
     EV_RX b \<Rightarrow> Some (bus_rx b s)
   | EV_TX \<Rightarrow> Some (bus_tx s)
   | EV_TIM2 level \<Rightarrow> Some (TIM2_UPD_OVF_TRG_BRK_USART2_TX_IRQHandler level s)
   | EV_TIM3 \<Rightarrow> Some (if tim3_enabled s then TIM3_UPD_OVF_TRG_BRK_USART3_TX_IRQHandler s else s)
   | EV_TIM4 \<Rightarrow> map_option (\<lambda>l. s\<lparr>ctrl_led := l\<rparr>) (TIM4_UPD_OVF_TRG_IRQHandler (LED_COL_SIZE + 2) (ctrl_led s))
   | EV_ADC_HT vs \<Rightarrow> Some (DMA1_CHANNEL0_1_IRQHandler True False (s\<lparr>knob_psense_dma_buf := put_at 0 (take 120 vs) (knob_psense_dma_buf s)\<rparr>))
   | EV_ADC_TC vs \<Rightarrow> Some (DMA1_CHANNEL0_1_IRQHandler False True (s\<lparr>knob_psense_dma_buf := put_at 120 (take 120 vs) (knob_psense_dma_buf s)\<rparr>))
   | EV_MAIN \<Rightarrow> Some (ctrl_main s))"

fun ctrl_run :: "ctrl_event list \<Rightarrow> ctrl \<Rightarrow> ctrl option" where
  "ctrl_run [] s = Some s"
| "ctrl_run (ev # evs) s = (case ctrl_step ev s of None \<Rightarrow> None | Some s' \<Rightarrow> ctrl_run evs s')"

end
