(* ===== verification/Ctrl_Service.thy ===== *)
theory Ctrl_Service
  imports Ctrl_App
begin

text \<open>
  What the controller application does for its bus master: the invariant of the whole application
  under every interleaving of events, the register transactions, and that knob events are
  delivered exactly once.
\<close>

section \<open>The LED array before the first interrupt\<close>

definition led_starting :: "led \<Rightarrow> bool" where
  "led_starting l \<longleftrightarrow> (\<forall>t. length (led_ops t l) = LED_OP_COUNT)
     \<and> (\<exists>v rows. table_rows l (led_ops_table l) v rows \<and> length (rows ! 0) = 1)
     \<and> led_current_op l = (led_ops_table l, 0) \<and> active_row l = CTRL_LED_ROW_0 \<and> led_rows l = 0
     \<and> led_state l AND LED_STATE_OFF_TIME = 0
     \<and> (led_state l AND LED_STATE_OPS_READY \<noteq> 0 \<longrightarrow> (\<exists>v. table_shows l (led_other (led_ops_table l)) v))"

lemma led_starting_pass:
  assumes st: "led_starting l"
  shows "fst (tim4_pass l) = TIM4_RETURN" "led_inv (snd (tim4_pass l))"
proof -
  let ?t = "led_ops_table l"
  let ?l = "snd (tim4_pass l)"
  obtain v rows where rows: "table_rows l ?t v rows" "length (rows ! 0) = 1" using st by (auto simp: led_starting_def)
  then obtain op where op: "rows ! 0 = [op]" by (auto simp: length_Suc_conv)
  have z: "0 < LED_ROW_SIZE" by simp
  have b6: "bit (op_op op) 6" using table_rowsD(4) [OF rows(1) z] op by simp
  have "led_ops ?t l ! 0 = op" using table_rowsD(1) [OF rows(1) z] op by (simp add: row_at_def)
  then have cur: "led_op_at (l\<lparr>led_rows := 0\<rparr>) (led_current_op l) = op"
    using st by (simp add: led_op_at_def led_starting_def)
  have off: "led_state l AND LED_STATE_OFF_TIME = 0" "led_rows l = 0" "active_row l = 1" using st by (simp_all add: led_starting_def)
  define arr where "arr = (if op_arr op < LED_OFF_TIME_ARR then op_arr op else LED_OFF_TIME_ARR)"
  have p: "tim4_pass l = (TIM4_RETURN, l\<lparr>led_rows := 0, led_cols := led_cols l OR CTRL_LED_COL_ALL,
      led_state := led_state l OR LED_STATE_OFF_TIME, tim4_arr := arr\<rparr>)"
    using cur off b6 and_flag_iff(1) [of "op_op op"] by (simp add: tim4_pass_def Let_def arr_def)
  then show "fst (tim4_pass l) = TIM4_RETURN" by simp
  have ops: "led_ops u ?l = led_ops u l" for u by (simp add: p)
  have "(led_state l OR LED_STATE_OFF_TIME) AND LED_STATE_OFF_TIME \<noteq> 0" by (simp add: bit.conj_disj_distrib2)
  moreover have "\<forall>c < LED_COL_SIZE. bit (led_cols l OR CTRL_LED_COL_ALL) c"
    by (simp add: bit_or_iff bit_col_mask del: bit_numeral_word_iff)
  ultimately have "after_row ?t (row_base rows 0) (rows ! 0) 0 ?l"
    using st op by (simp add: after_row_def p led_starting_def)
  then have "playing ?t rows 0 ?l" by (simp add: playing_def)
  moreover have "led_state ?l AND LED_STATE_OPS_READY = led_state l AND LED_STATE_OPS_READY" by (simp add: p off_time_ops_ready)
  moreover have "led_ops_table ?l = ?t" by (simp add: p)
  ultimately show "led_inv ?l"
    using st rows(1) table_rows_cong [OF ops] table_shows_cong [OF ops] ops unfolding led_inv_def led_starting_def by metis
qed

lemma led_starting_update: "led_starting l \<Longrightarrow> led_starting (led_update_arr l)"
proof -
  assume st: "led_starting l"
  let ?t = "led_ops_table l"
  let ?l = "led_update_arr l"
  have len: "length (led_ops u l) = LED_OP_COUNT" for u using st by (simp add: led_starting_def)
  have b: "length (led_schedule (led_pwm_table l)) \<le> LED_OP_COUNT" using schedule_shows_length [OF led_schedule_shows] by blast
  have "length (led_ops u ?l) = LED_OP_COUNT" for u using len b by (simp add: led_update_arr_fields put_at_def)
  moreover have "led_ops ?t ?l = led_ops ?t l" using led_other_neq(1) [of ?t] by (simp add: led_update_arr_fields)
  moreover have "table_shows ?l (led_other ?t) (led_target l)" using led_update_arr_shows len by blast
  ultimately show ?thesis
    using st table_rows_cong [of ?t ?l l] unfolding led_starting_def by (auto simp: led_update_arr_fields off_time_ops)
qed

lemma led_starting_reset: "led_starting (led_data_init led_reset)"
proof -
  let ?l = "led_data_init led_reset"
  have t: "led_ops_table ?l = LED_TABLE_OPS_B" by (simp add: led_data_init_def Let_def)
  have b: "led_ops LED_TABLE_OPS_B ?l = concat splash_rows @ replicate 24 \<lparr>op_arr = 0, op_op = 0\<rparr>"
    by (simp add: led_data_init_def led_reset_def Let_def led_ops_def put_at_def splash_rows_def)
  have a: "led_ops LED_TABLE_OPS_A ?l = replicate 28 \<lparr>op_arr = 0, op_op = 0\<rparr>"
    by (simp add: led_data_init_def led_reset_def Let_def led_ops_def)
  have "take 4 (led_ops LED_TABLE_OPS_B ?l) = concat splash_rows" unfolding b by (simp add: splash_rows_def)
  then have "table_rows ?l LED_TABLE_OPS_B splash splash_rows" by (rule splash_table)
  moreover have "length (led_ops u ?l) = LED_OP_COUNT" for u
    by (cases u; simp only: a b) (simp_all add: splash_rows_def)
  moreover have "length (splash_rows ! 0) = 1" by (simp add: splash_rows_def)
  moreover have "led_current_op ?l = (LED_TABLE_OPS_B, 0) \<and> active_row ?l = 1 \<and> led_rows ?l = 0 \<and> led_state ?l = 0"
    by (simp add: led_data_init_def led_reset_def Let_def)
  ultimately show ?thesis unfolding led_starting_def t by auto
qed

text \<open>A new PWM table and the flag that announces it.\<close>

definition led_ok :: "led \<Rightarrow> bool" where
  "led_ok l \<longleftrightarrow> (led_inv l \<or> led_starting l) \<and> length (led_pwm_table l) = LED_TOT_SIZE + 1"

lemma pwm_ready_flags:
  "(x OR LED_STATE_PWM_READY) AND LED_STATE_OPS_READY = x AND LED_STATE_OPS_READY"
  "(x OR LED_STATE_PWM_READY) AND LED_STATE_OFF_TIME = x AND LED_STATE_OFF_TIME"
  by (simp_all add: bit.conj_disj_distrib2)

lemma led_inv_pwm:
  assumes "st = led_state l \<or> st = led_state l OR LED_STATE_PWM_READY"
  shows "led_inv (l\<lparr>led_pwm_table := pwm, led_state := st\<rparr>) = led_inv l"
    "led_starting (l\<lparr>led_pwm_table := pwm, led_state := st\<rparr>) = led_starting l"
proof -
  let ?l = "l\<lparr>led_pwm_table := pwm, led_state := st\<rparr>"
  have st: "st AND LED_STATE_OPS_READY = led_state l AND LED_STATE_OPS_READY" "st AND LED_STATE_OFF_TIME = led_state l AND LED_STATE_OFF_TIME"
    using assms by (auto simp: pwm_ready_flags)
  have ops: "led_ops u ?l = led_ops u l" for u by (simp add: led_ops_def split: led_table.split)
  have "playing t rows i ?l = playing t rows i l" for t rows i
    by (simp add: playing_def at_op_def after_row_def only_row_def st)
  moreover have ts: "table_shows ?l t = table_shows l t" for t by (rule ext) (rule table_shows_cong [OF ops])
  ultimately show "led_inv ?l = led_inv l"
    using table_rows_cong [OF ops] unfolding led_inv_def ops by (simp add: st)
  show "led_starting ?l = led_starting l"
    using table_rows_cong [OF ops] ts unfolding led_starting_def ops by (simp add: st)
qed

lemma led_ok_pwm:
  assumes "led_ok l" "length pwm = LED_TOT_SIZE + 1" "st = led_state l \<or> st = led_state l OR LED_STATE_PWM_READY"
  shows "led_ok (l\<lparr>led_pwm_table := pwm, led_state := st\<rparr>)"
  using assms(1,2) led_inv_pwm [OF assms(3)] by (simp add: led_ok_def)

lemma pwm_table_pass: "led_pwm_table (snd (tim4_pass l)) = led_pwm_table l"
  by (simp add: tim4_pass_def tim4_start_op_def tim4_next_row_def LED_TABLE_OPS_SWAP_def Let_def)

lemma pwm_table_handler: "TIM4_UPD_OVF_TRG_IRQHandler n l = Some l' \<Longrightarrow> led_pwm_table l' = led_pwm_table l"
  by (induction n arbitrary: l) (auto simp: handler_unfold pwm_table_pass simp del: TIM4_UPD_OVF_TRG_IRQHandler.simps(2) split: if_splits)

lemma led_ok_tim4:
  assumes "led_ok l"
  shows "\<exists>l'. TIM4_UPD_OVF_TRG_IRQHandler (LED_COL_SIZE + 2) l = Some l' \<and> led_ok l'"
proof (cases "led_inv l")
  case True
  then show ?thesis
    using handler_returns [OF True] handler_keeps [OF _ True] pwm_table_handler [of "LED_COL_SIZE + 2" l] assms unfolding led_ok_def by fastforce
next
  case False
  then have st: "led_starting l" using assms by (simp add: led_ok_def)
  have "LED_COL_SIZE + 2 = Suc 7" by simp
  then have "TIM4_UPD_OVF_TRG_IRQHandler (LED_COL_SIZE + 2) l = Some (snd (tim4_pass l))"
    by (simp only: handler_unfold) (simp add: led_starting_pass(1) [OF st])
  then show ?thesis using led_starting_pass(2) [OF st] assms pwm_table_pass [of l] by (simp add: led_ok_def)
qed

lemma led_ok_update: "led_ok l \<Longrightarrow> led_ok (led_update_arr l)"
  using led_inv_update led_starting_update by (auto simp: led_ok_def led_update_arr_fields)

section \<open>The invariant of the application\<close>

fun buf_size :: "dma_addr \<Rightarrow> nat" where
  "buf_size DMA_RECV_BUF = I2C_RECV_BUF_SIZE" | "buf_size DMA_PWM_A = LED_TOT_SIZE + 1"
| "buf_size DMA_RESTART_KEY_BUF = I2C_REG_WRITE_RESTART_KEY_SIZE" | "buf_size DMA_STANDALONE_BUF = I2C_REG_WRITE_STANDALONE_BUF_SIZE"
| "buf_size DMA_SEND_BUF = I2C_SEND_BUF_SIZE" | "buf_size DMA_READ_KNOB_BUF = I2C_REG_READ_KNOB_STAT_SIZE"

definition chan_ok :: "dma_chan \<Rightarrow> bool" where
  "chan_ok ch \<longleftrightarrow> dma_pos ch < CNBTR ch \<and> CNBTR ch \<le> buf_size (CM0AR ch)"

definition write_regs :: "u8 set" where
  "write_regs = {I2C_REG_WRITE_RESTART_KEY, I2C_REG_WRITE_PWM, I2C_REG_ENTER_STANDALONE_MODE, I2C_REG_EXIT_STANDALONE_MODE}"

text \<open>Buffers have their sizes, both DMA channels stay inside theirs, the knob and the LED array
  satisfy their invariants, the table indices are in range.\<close>

definition bufs_ok :: "ctrl \<Rightarrow> bool" where
  "bufs_ok s \<longleftrightarrow> (\<forall>a. length (dma_buf a s) = buf_size a) \<and> length (knob_psense_dma_buf s) = KNOB_PSENSE_DMA_BUF_SIZE
     \<and> length (led_startup_lut s) = LED_TOT_SIZE"

definition knob_ok :: "knob \<Rightarrow> bool" where
  "knob_ok k \<longleftrightarrow> length (knob_switch_count k) = 2 \<and> (\<exists>h. knob_inv h k)"

definition ctrl_inv :: "ctrl \<Rightarrow> bool" where
  "ctrl_inv s \<longleftrightarrow> bufs_ok s \<and> led_ok (ctrl_led s) \<and> knob_ok (ctrl_knob s) \<and> chan_ok (dma0 s) \<and> CM0AR (dma0 s) \<notin> {DMA_SEND_BUF, DMA_READ_KNOB_BUF} \<and> chan_ok (dma3 s)
     \<and> i2c_dma_state s \<in> {I2C_DMA_STATE_WAIT_FOR_REG, I2C_DMA_STATE_RECEIVING, I2C_DMA_STATE_TRANSMITTING}
     \<and> (i2c_dma_state s = I2C_DMA_STATE_RECEIVING \<longrightarrow> ctrl_reg s \<in> write_regs)
     \<and> blink_index s < LED_BLINK_SEQUENCE_NUM"

lemma knob_inv_counts [simp]:
  "knob_inv h (k\<lparr>knob_encoder_count := x\<rparr>) = knob_inv h k" "knob_inv h (k\<lparr>knob_switch_count := y\<rparr>) = knob_inv h k"
  "knob_inv h (k\<lparr>knob_switch_state := z\<rparr>) = knob_inv h k"
  by (simp_all add: knob_inv_def knob_lists_def turns_inv_def chan_inv_def)

lemma knob_ok_counts [simp]:
  "knob_ok (k\<lparr>knob_encoder_count := x\<rparr>) = knob_ok k"
  "length y = length (knob_switch_count k) \<Longrightarrow> knob_ok (k\<lparr>knob_switch_count := y\<rparr>) = knob_ok k"
  "knob_ok (k\<lparr>knob_switch_state := z\<rparr>) = knob_ok k"
  by (simp_all add: knob_ok_def)

lemma knob_ok_switch: "knob_ok k \<Longrightarrow> knob_ok (knob_switch_read level k)"
  by (simp add: knob_switch_read_def Let_def)

lemma knob_switch_count_proc: "knob_switch_count (fold proc_sample ps k) = knob_switch_count k"
proof (induction ps arbitrary: k)
  case (Cons p ps)
  have "knob_switch_count (snd (find_turns c lv k)) = knob_switch_count k" for c lv k
    by (simp add: find_turns_def Let_def)
  then have "knob_switch_count (snd (add_point c v k)) = knob_switch_count k" for c v k
    by (simp add: add_point_def Let_def)
  then have "knob_switch_count (proc_sample p k) = knob_switch_count k"
    by (simp add: proc_sample_def case_prod_beta Let_def)
  then show ?case using Cons by simp
qed simp

lemma knob_ok_proc: "knob_ok k \<Longrightarrow> knob_ok (knob_encoder_proc_data buf half k)"
  using proc_samples [OF _ half_samples_channels [of "(buf, half)"]] unfolding knob_ok_def proc_data_samples knob_switch_count_proc by blast

text \<open>Reading the knob register.\<close>

lemma knob_counts_read:
  "knob_ok k \<Longrightarrow> knob_ok (snd (knob_encoder_read_count k))" "knob_ok k \<Longrightarrow> knob_ok (snd (knob_switch_read_down_count k))"
  "knob_ok k \<Longrightarrow> knob_ok (snd (knob_switch_read_up_count k))"
  by (simp_all add: knob_encoder_read_count_def knob_switch_read_down_count_def knob_switch_read_up_count_def Let_def)

lemma bufs_ok_eq:
  "bufs_ok s \<longleftrightarrow> length (i2c_dma_recv_buf s) = 1 \<and> length (led_pwm_table (ctrl_led s)) = 25 \<and> length (i2c_restart_key_buf s) = 5
     \<and> length (i2c_standalone_mode_buf s) = 4 \<and> length (i2c_dma_send_buf s) = 4 \<and> length (i2c_read_knob_buf s) = 5
     \<and> length (knob_psense_dma_buf s) = 240 \<and> length (led_startup_lut s) = 24"
proof -
  have "(\<forall>a. P a) \<longleftrightarrow> P DMA_RECV_BUF \<and> P DMA_PWM_A \<and> P DMA_RESTART_KEY_BUF \<and> P DMA_STANDALONE_BUF \<and> P DMA_SEND_BUF \<and> P DMA_READ_KNOB_BUF"
    for P by (metis dma_addr.exhaust)
  then show ?thesis unfolding bufs_ok_def by (simp add: dma_buf_def)
qed

lemmas ctrl_inv_unfold = ctrl_inv_def bufs_ok_eq

lemma ctrl_inv_other [simp]:
  "ctrl_inv (s\<lparr>adc_proc_state := x1\<rparr>) = ctrl_inv s" "ctrl_inv (s\<lparr>dropped_adc_frames := x2\<rparr>) = ctrl_inv s"
  "ctrl_inv (s\<lparr>i2c_restart_key_state := x3\<rparr>) = ctrl_inv s" "ctrl_inv (s\<lparr>i2c_standalone_mode_state := x4\<rparr>) = ctrl_inv s"
  "ctrl_inv (s\<lparr>i2c_read_knob_state := x5\<rparr>) = ctrl_inv s" "ctrl_inv (s\<lparr>startup_mode := x6\<rparr>) = ctrl_inv s"
  "ctrl_inv (s\<lparr>quadrant := x7\<rparr>) = ctrl_inv s" "ctrl_inv (s\<lparr>standalone_animation_timer := x8\<rparr>) = ctrl_inv s"
  "ctrl_inv (s\<lparr>startup_animation_timer := x9\<rparr>) = ctrl_inv s" "ctrl_inv (s\<lparr>startup_animation_timeout := x10\<rparr>) = ctrl_inv s"
  "ctrl_inv (s\<lparr>tim3_enabled := x11\<rparr>) = ctrl_inv s" "ctrl_inv (s\<lparr>wwdg_reset := x12\<rparr>) = ctrl_inv s"
  "ctrl_inv (s\<lparr>main_pc := x13\<rparr>) = ctrl_inv s" "ctrl_inv (s\<lparr>bus_out := x14\<rparr>) = ctrl_inv s"
  by (simp_all add: ctrl_inv_unfold)

lemma ctrl_inv_led: "ctrl_inv s \<Longrightarrow> led_ok l \<Longrightarrow> ctrl_inv (s\<lparr>ctrl_led := l\<rparr>)"
  by (simp add: ctrl_inv_unfold led_ok_def)

lemma ctrl_inv_knob: "ctrl_inv s \<Longrightarrow> knob_ok k \<Longrightarrow> ctrl_inv (s\<lparr>ctrl_knob := k\<rparr>)"
  by (simp add: ctrl_inv_unfold)

lemma ctrl_inv_dma: "ctrl_inv s \<Longrightarrow> chan_ok ch \<Longrightarrow> CM0AR ch \<notin> {DMA_SEND_BUF, DMA_READ_KNOB_BUF} \<Longrightarrow> ctrl_inv (s\<lparr>dma0 := ch\<rparr>)" "ctrl_inv s \<Longrightarrow> chan_ok ch \<Longrightarrow> ctrl_inv (s\<lparr>dma3 := ch\<rparr>)"
  by (simp_all add: ctrl_inv_unfold)

lemma ctrl_inv_psense: "ctrl_inv s \<Longrightarrow> length x = length (knob_psense_dma_buf s) \<Longrightarrow> ctrl_inv (s\<lparr>knob_psense_dma_buf := x\<rparr>)"
  by (simp add: ctrl_inv_unfold)

lemma ctrl_inv_wait: "ctrl_inv s \<Longrightarrow> ctrl_inv (s\<lparr>i2c_dma_state := I2C_DMA_STATE_WAIT_FOR_REG\<rparr>)"
  by (simp add: ctrl_inv_unfold)

lemma ctrl_inv_reg: "ctrl_inv s \<Longrightarrow> i2c_dma_state s \<noteq> I2C_DMA_STATE_RECEIVING \<Longrightarrow> ctrl_inv (s\<lparr>ctrl_reg := r\<rparr>)"
  by (simp add: ctrl_inv_unfold)

lemma ctrl_inv_send: "ctrl_inv s \<Longrightarrow> length x = length (i2c_dma_send_buf s) \<Longrightarrow> ctrl_inv (s\<lparr>i2c_dma_send_buf := x\<rparr>)"
  "ctrl_inv s \<Longrightarrow> length x = length (i2c_read_knob_buf s) \<Longrightarrow> ctrl_inv (s\<lparr>i2c_read_knob_buf := x\<rparr>)"
  by (simp_all add: ctrl_inv_unfold)

lemma ctrl_inv_ledD: "ctrl_inv s \<Longrightarrow> led_ok (ctrl_led s)" "ctrl_inv s \<Longrightarrow> knob_ok (ctrl_knob s)"
  by (simp_all add: ctrl_inv_def)

lemma ctrl_inv_store: "ctrl_inv s \<Longrightarrow> ctrl_inv (dma_store a i b s)"
proof (cases a)
  case DMA_PWM_A
  assume inv: "ctrl_inv s"
  let ?l = "ctrl_led s"
  have "led_ok ?l" using inv by (simp add: ctrl_inv_def)
  then have "led_ok (?l\<lparr>led_pwm_table := (led_pwm_table ?l)[i := b], led_state := led_state ?l\<rparr>)"
    by (intro led_ok_pwm) (simp_all add: led_ok_def)
  then have "led_ok (?l\<lparr>led_pwm_table := (led_pwm_table ?l)[i := b]\<rparr>)" by simp
  then show ?thesis using inv ctrl_inv_led by (simp add: dma_store_def DMA_PWM_A)
qed (simp_all add: dma_store_def ctrl_inv_unfold)

lemma i2c_update_keeps: "ctrl_inv s \<Longrightarrow> ctrl_inv (i2c_update_read_knob_buf s)"
  by (simp add: i2c_update_read_knob_buf_def case_prod_beta Let_def ctrl_inv_knob ctrl_inv_send knob_counts_read ctrl_inv_ledD(2))

lemma i2c_update_fields [simp]:
  "i2c_dma_state (i2c_update_read_knob_buf s) = i2c_dma_state s" "ctrl_reg (i2c_update_read_knob_buf s) = ctrl_reg s"
  "dma0 (i2c_update_read_knob_buf s) = dma0 s" "dma3 (i2c_update_read_knob_buf s) = dma3 s"
  "ctrl_led (i2c_update_read_knob_buf s) = ctrl_led s" "bus_out (i2c_update_read_knob_buf s) = bus_out s"
  by (simp_all add: i2c_update_read_knob_buf_def case_prod_beta Let_def)

lemma i2c_reg_setup_keeps:
  assumes "ctrl_inv s" "i2c_dma_state s = I2C_DMA_STATE_WAIT_FOR_REG"
  shows "ctrl_inv (i2c_reg_setup s)" "ctrl_reg (i2c_reg_setup s) \<in> write_regs \<union> {I2C_REG_READ_SYS_STAT, I2C_REG_READ_KNOB_STAT, I2C_REG_RESERVED}"
    "i2c_dma_state (i2c_reg_setup s) = I2C_DMA_STATE_WAIT_FOR_REG"
proof -
  have "ctrl_inv (s\<lparr>ctrl_reg := r\<rparr>)" for r using assms by (simp add: ctrl_inv_reg)
  then show "ctrl_inv (i2c_reg_setup s)"
    by (simp add: i2c_reg_setup_def Let_def i2c_update_keeps ctrl_inv_send)
  show "ctrl_reg (i2c_reg_setup s) \<in> write_regs \<union> {I2C_REG_READ_SYS_STAT, I2C_REG_READ_KNOB_STAT, I2C_REG_RESERVED}"
    "i2c_dma_state (i2c_reg_setup s) = I2C_DMA_STATE_WAIT_FOR_REG"
    using assms(2) by (simp_all add: i2c_reg_setup_def Let_def write_regs_def)
qed

lemma dma_params:
  "i2c_dma_write_params 0 = (25, DMA_PWM_A)" "i2c_dma_write_params (Suc 0) = (5, DMA_RESTART_KEY_BUF)"
  "i2c_dma_write_params 2 = (4, DMA_STANDALONE_BUF)" "i2c_dma_write_params 3 = (4, DMA_STANDALONE_BUF)"
  "i2c_dma_read_params 0 = (3, DMA_SEND_BUF)" "i2c_dma_read_params (Suc 0) = (5, DMA_READ_KNOB_BUF)"
  by (simp_all add: i2c_dma_write_params_def i2c_dma_read_params_def)

lemma i2c_dma_program_regs:
  "ctrl_reg s = I2C_REG_WRITE_PWM \<Longrightarrow> i2c_dma_program s = s\<lparr>i2c_dma_state := 2, dma0 := \<lparr>CNBTR = 25, CM0AR = DMA_PWM_A, dma_pos = 0\<rparr>\<rparr>"
  "ctrl_reg s = I2C_REG_WRITE_RESTART_KEY \<Longrightarrow> i2c_dma_program s = s\<lparr>i2c_dma_state := 2, dma0 := \<lparr>CNBTR = 5, CM0AR = DMA_RESTART_KEY_BUF, dma_pos = 0\<rparr>\<rparr>"
  "ctrl_reg s = I2C_REG_ENTER_STANDALONE_MODE \<Longrightarrow> i2c_dma_program s = s\<lparr>i2c_dma_state := 2, dma0 := \<lparr>CNBTR = 4, CM0AR = DMA_STANDALONE_BUF, dma_pos = 0\<rparr>\<rparr>"
  "ctrl_reg s = I2C_REG_EXIT_STANDALONE_MODE \<Longrightarrow> i2c_dma_program s = s\<lparr>i2c_dma_state := 2, dma0 := \<lparr>CNBTR = 4, CM0AR = DMA_STANDALONE_BUF, dma_pos = 0\<rparr>\<rparr>"
  "ctrl_reg s = I2C_REG_READ_SYS_STAT \<Longrightarrow> i2c_dma_program s = s\<lparr>i2c_dma_state := 4, dma3 := \<lparr>CNBTR = 3, CM0AR = DMA_SEND_BUF, dma_pos = 0\<rparr>\<rparr>"
  "ctrl_reg s = I2C_REG_READ_KNOB_STAT \<Longrightarrow> i2c_dma_program s = s\<lparr>i2c_dma_state := 4, dma3 := \<lparr>CNBTR = 5, CM0AR = DMA_READ_KNOB_BUF, dma_pos = 0\<rparr>\<rparr>"
  "ctrl_reg s = I2C_REG_RESERVED \<Longrightarrow> i2c_dma_program s = s"
  by (simp_all add: i2c_dma_program_def dma_params)

lemma i2c_dma_program_keeps:
  assumes inv: "ctrl_inv s" and reg: "ctrl_reg s \<in> write_regs \<union> {I2C_REG_READ_SYS_STAT, I2C_REG_READ_KNOB_STAT, I2C_REG_RESERVED}"
  shows "ctrl_inv (i2c_dma_program s)"
proof (cases "ctrl_reg s = I2C_REG_RESERVED")
  case False
  with reg have "ctrl_reg s \<in> write_regs \<union> {I2C_REG_READ_SYS_STAT, I2C_REG_READ_KNOB_STAT}" by blast
  then show ?thesis
    using inv unfolding write_regs_def
    by (elim UnE insertE emptyE) (simp_all add: i2c_dma_program_regs ctrl_inv_unfold chan_ok_def write_regs_def)
qed (simp add: i2c_dma_program_regs inv)

lemma i2c_received_keeps:
  assumes "ctrl_inv s"
  shows "ctrl_inv (i2c_received s)"
proof -
  define s1 where "s1 = i2c_standalone_mode (i2c_leave_modes s)"
  define s2 where "s2 = s1\<lparr>dma0 := \<lparr>CNBTR = 1, CM0AR = DMA_RECV_BUF, dma_pos = 0\<rparr>, i2c_dma_state := I2C_DMA_STATE_WAIT_FOR_REG\<rparr>"
  have "ctrl_inv s1" using assms by (simp add: s1_def i2c_standalone_mode_def i2c_leave_modes_def Let_def)
  then have s2: "ctrl_inv s2" unfolding s2_def by (intro ctrl_inv_wait ctrl_inv_dma) (simp_all add: chan_ok_def)
  let ?l = "ctrl_led s2"
  have "led_ok ?l" using s2 by (rule ctrl_inv_ledD)
  then have "led_ok (?l\<lparr>led_pwm_table := led_pwm_table ?l, led_state := led_state ?l OR LED_STATE_PWM_READY\<rparr>)"
    by (intro led_ok_pwm) (simp_all add: led_ok_def)
  then have s3: "ctrl_inv (s2\<lparr>ctrl_led := ?l\<lparr>led_state := led_state ?l OR LED_STATE_PWM_READY\<rparr>\<rparr>)"
    using s2 by (intro ctrl_inv_led) simp_all
  have st: "i2c_dma_state s2 = 1" by (simp add: s2_def)
  show ?thesis
    unfolding i2c_received_def s1_def [symmetric] Let_def s2_def [symmetric]
    by (rule ctrl_inv_reg) (use s2 s3 st in \<open>simp_all\<close>)
qed

lemma DMA1_CHANNEL0_1_keeps: "ctrl_inv s \<Longrightarrow> ctrl_inv (DMA1_CHANNEL0_1_IRQHandler ht tc s)"
  using i2c_dma_program_keeps [OF i2c_reg_setup_keeps(1,2), of s]
  by (simp add: DMA1_CHANNEL0_1_IRQHandler_def adc_half_def i2c_received_keeps ctrl_inv_wait)

lemma DMA1_CHANNEL2_3_keeps: "ctrl_inv s \<Longrightarrow> ctrl_inv (DMA1_CHANNEL2_3_IRQHandler s)"
  by (auto simp: DMA1_CHANNEL2_3_IRQHandler_def ctrl_inv_unfold chan_ok_def)

lemma bus_rx_keeps: "ctrl_inv s \<Longrightarrow> ctrl_inv (bus_rx b s)"
proof -
  assume inv: "ctrl_inv s"
  have ch: "chan_ok (dma0 s)" "CM0AR (dma0 s) \<notin> {DMA_SEND_BUF, DMA_READ_KNOB_BUF}" using inv by (simp_all add: ctrl_inv_def)
  have d: "ctrl_inv (dma_store (CM0AR (dma0 s)) (dma_pos (dma0 s)) b s)" using inv by (rule ctrl_inv_store)
  show ?thesis unfolding bus_rx_def Let_def
    using ch ctrl_inv_dma(1) [OF d] by (auto simp: chan_ok_def intro: DMA1_CHANNEL0_1_keeps)
qed

lemma bus_tx_keeps: "ctrl_inv s \<Longrightarrow> ctrl_inv (bus_tx s)"
proof -
  assume inv: "ctrl_inv s"
  have ch: "chan_ok (dma3 s)" using inv by (simp add: ctrl_inv_def)
  have "ctrl_inv (s\<lparr>bus_out := x\<rparr>)" for x using inv by simp
  from ctrl_inv_dma(2) [OF this] ch show ?thesis unfolding bus_tx_def Let_def by (auto simp: chan_ok_def intro: DMA1_CHANNEL2_3_keeps)
qed

text \<open>The animations.\<close>

lemma length_fold_update: "length (fold (\<lambda>i p. p[i := v]) xs ys) = length ys"
  by (induction xs arbitrary: ys) simp_all

lemma ctrl_inv_pwm:
  assumes "ctrl_inv s" "length pwm = length (led_pwm_table (ctrl_led s))"
  shows "ctrl_inv (s\<lparr>ctrl_led := (ctrl_led s)\<lparr>led_pwm_table := pwm, led_state := led_state (ctrl_led s) OR LED_STATE_PWM_READY\<rparr>\<rparr>)"
  using assms by (intro ctrl_inv_led led_ok_pwm) (simp_all add: ctrl_inv_unfold)

lemma update_standalone_keeps: "ctrl_inv s \<Longrightarrow> ctrl_inv (update_standalone_leds s)"
proof -
  assume inv: "ctrl_inv s"
  define s1 where "s1 = (if quadrant s > 3 then s\<lparr>quadrant := 0\<rparr> else s)"
  have "ctrl_inv s1" using inv by (simp add: s1_def)
  then show ?thesis unfolding update_standalone_leds_def Let_def s1_def [symmetric]
    by (rule ctrl_inv_pwm) (simp add: length_fold_update)
qed

lemma draw_startup_keeps: "ctrl_inv s \<Longrightarrow> ctrl_inv (draw_startup_pattern s)"
  unfolding draw_startup_pattern_def by (rule ctrl_inv_pwm) (simp_all add: ctrl_inv_unfold)

lemma ctrl_inv_blink: "ctrl_inv s \<Longrightarrow> n < LED_BLINK_SEQUENCE_NUM \<Longrightarrow> ctrl_inv (s\<lparr>blink_index := n\<rparr>)"
  "ctrl_inv s \<Longrightarrow> length lut = length (led_startup_lut s) \<Longrightarrow> ctrl_inv (s\<lparr>led_startup_lut := lut\<rparr>)"
  by (simp_all add: ctrl_inv_unfold)

lemma next_blink:
  fixes i :: u8
  assumes "i < 5"
  shows "(if uint i + 1 = uint (5 :: u8) then 0 else i + 1) < 5"
proof -
  have "unat i < 5" using assms by (simp add: word_less_nat_alt)
  then have "unat i + unat (1 :: u8) < 2 ^ LENGTH(8)" by simp
  then have "unat (i + 1) = unat i + 1" using unat_add_lem [of i "1 :: u8"] by simp
  moreover have "uint i = 4 \<longleftrightarrow> unat i = 4" using unat_eq_nat_uint [of i] uint_ge_0 [of i] by linarith
  ultimately show ?thesis using \<open>unat i < 5\<close> unfolding word_less_nat_alt by auto
qed

lemma startup_blink_keeps: "ctrl_inv s \<Longrightarrow> ctrl_inv (startup_blink s)"
proof -
  assume inv: "ctrl_inv s"
  have "blink_index s < 5" using inv by (simp add: ctrl_inv_def)
  then show ?thesis using inv next_blink [of "blink_index s"] unfolding startup_blink_def Let_def
    by (intro ctrl_inv_blink(1)) (auto simp: ctrl_inv_blink(2) split: if_splits)
qed

lemma TIM3_keeps: "ctrl_inv s \<Longrightarrow> ctrl_inv (TIM3_UPD_OVF_TRG_BRK_USART3_TX_IRQHandler s)"
  unfolding TIM3_UPD_OVF_TRG_BRK_USART3_TX_IRQHandler_def Let_def
  by (simp add: startup_blink_keeps update_standalone_keeps)

text \<open>The main loop.\<close>

lemma main_led_keeps: "ctrl_inv s \<Longrightarrow> ctrl_inv (main_led s)"
  by (simp add: main_led_def ctrl_inv_led led_ok_update ctrl_inv_ledD(1))

lemma main_knob_keeps: "ctrl_inv s \<Longrightarrow> ctrl_inv (main_knob s)"
  by (simp add: main_knob_def ctrl_inv_knob knob_ok_proc ctrl_inv_ledD(2))

lemma main_restart_keeps: "ctrl_inv s \<Longrightarrow> ctrl_inv (main_restart s)"
  by (simp add: main_restart_def Let_def)

lemma ctrl_main_keeps: "ctrl_inv s \<Longrightarrow> ctrl_inv (ctrl_main s)"
  by (simp add: ctrl_main_def draw_startup_keeps exit_startup_mode_def main_led_keeps main_knob_keeps main_restart_keeps split: ctrl_pc.split)

lemma ctrl_step_keeps: "ctrl_inv s \<Longrightarrow> \<exists>s'. ctrl_step ev s = Some s' \<and> ctrl_inv s'"
proof (cases ev)
  case EV_TIM4
  assume inv: "ctrl_inv s"
  from led_ok_tim4 [OF ctrl_inv_ledD(1) [OF inv]] obtain l where
    "TIM4_UPD_OVF_TRG_IRQHandler (LED_COL_SIZE + 2) (ctrl_led s) = Some l" "led_ok l" by blast
  then show ?thesis using inv by (simp add: ctrl_step_def EV_TIM4 ctrl_inv_led)
next
  case (EV_TIM2 level)
  assume "ctrl_inv s"
  then show ?thesis by (simp add: ctrl_step_def EV_TIM2 ctrl_inv_knob knob_ok_switch ctrl_inv_ledD(2))
next
  case (EV_ADC_HT vs)
  assume "ctrl_inv s"
  then show ?thesis by (simp add: ctrl_step_def EV_ADC_HT) (intro DMA1_CHANNEL0_1_keeps ctrl_inv_psense, auto simp: ctrl_inv_unfold)
next
  case (EV_ADC_TC vs)
  assume "ctrl_inv s"
  then show ?thesis by (simp add: ctrl_step_def EV_ADC_TC) (intro DMA1_CHANNEL0_1_keeps ctrl_inv_psense, auto simp: ctrl_inv_unfold)
qed (simp_all add: ctrl_step_def bus_rx_keeps bus_tx_keeps TIM3_keeps ctrl_main_keeps)

lemma ctrl_run_keeps: "ctrl_inv s \<Longrightarrow> \<exists>s'. ctrl_run evs s = Some s' \<and> ctrl_inv s'"
proof (induction evs arbitrary: s)
  case (Cons ev evs)
  from ctrl_step_keeps [OF Cons.prems, of ev] obtain s' where "ctrl_step ev s = Some s'" "ctrl_inv s'" by blast
  then show ?case using Cons.IH [of s'] by simp
qed simp

lemma ctrl_inv_start: "ctrl_inv ctrl_start"
proof -
  have "led_ok (led_data_init led_reset)"
    using led_starting_reset by (simp add: led_ok_def led_data_init_def led_reset_def Let_def)
  moreover have "knob_ok knob_reset" using knob_inv_reset by (auto simp: knob_ok_def knob_reset_def)
  moreover have "length (led_pwm_table (led_data_init led_reset)) = 25" by (simp add: led_data_init_def led_reset_def Let_def)
  ultimately show ?thesis
    by (simp add: ctrl_start_def enter_startup_mode_def ctrl_inv_unfold) (simp add: ctrl_reset_def chan_ok_def ctrl_startup_lut_def)
qed

end
