(* ===== verification/Ctrl_Protocol.thy ===== *)
theory Ctrl_Protocol
  imports Ctrl_Service
begin

text \<open>
  The register transactions of the controller, seen from the bus master, and the properties of the
  application.
\<close>

section \<open>DMA transfers\<close>

definition buf_map :: "dma_addr \<Rightarrow> (bytes \<Rightarrow> bytes) \<Rightarrow> ctrl \<Rightarrow> ctrl" where
  "buf_map a f s = (case a of
     DMA_RECV_BUF \<Rightarrow> s\<lparr>i2c_dma_recv_buf := f (i2c_dma_recv_buf s)\<rparr>
   | DMA_PWM_A \<Rightarrow> s\<lparr>ctrl_led := (ctrl_led s)\<lparr>led_pwm_table := f (led_pwm_table (ctrl_led s))\<rparr>\<rparr>
   | DMA_RESTART_KEY_BUF \<Rightarrow> s\<lparr>i2c_restart_key_buf := f (i2c_restart_key_buf s)\<rparr>
   | DMA_STANDALONE_BUF \<Rightarrow> s\<lparr>i2c_standalone_mode_buf := f (i2c_standalone_mode_buf s)\<rparr>
   | DMA_SEND_BUF \<Rightarrow> s\<lparr>i2c_dma_send_buf := f (i2c_dma_send_buf s)\<rparr>
   | DMA_READ_KNOB_BUF \<Rightarrow> s\<lparr>i2c_read_knob_buf := f (i2c_read_knob_buf s)\<rparr>)"

lemma dma_store_map: "dma_store a i b s = buf_map a (\<lambda>x. x[i := b]) s"
  by (simp add: dma_store_def buf_map_def)

lemma buf_map_cong: "f (dma_buf a s) = g (dma_buf a s) \<Longrightarrow> buf_map a f s = buf_map a g s"
  by (cases a) (simp_all add: buf_map_def dma_buf_def)

lemma buf_map_map: "buf_map a f (buf_map a g s) = buf_map a (\<lambda>x. f (g x)) s"
  by (cases a) (simp_all add: buf_map_def)

lemma buf_map_dma0: "buf_map a f (s\<lparr>dma0 := ch\<rparr>) = (buf_map a f s)\<lparr>dma0 := ch\<rparr>" "dma0 (buf_map a f s) = dma0 s"
  "dma_buf a (s\<lparr>dma0 := ch\<rparr>) = dma_buf a s" "dma_buf a (buf_map a f s) = f (dma_buf a s)"
  by (cases a; simp add: buf_map_def dma_buf_def)+

lemma buf_map_id: "buf_map a (put_at p []) s = s"
  by (cases a) (simp_all add: buf_map_def put_at_def)

lemma put_at_Cons: "p < length x \<Longrightarrow> put_at (Suc p) bs (x[p := b]) = put_at p (b # bs) x"
  by (simp add: put_at_def take_Suc_conv_app_nth)

lemma rx_partial:
  assumes "dma0 s = \<lparr>CNBTR = n, CM0AR = a, dma_pos = p\<rparr>" "p + length bs < n" "n \<le> length (dma_buf a s)"
  shows "fold bus_rx bs s = (buf_map a (put_at p bs) s)\<lparr>dma0 := \<lparr>CNBTR = n, CM0AR = a, dma_pos = p + length bs\<rparr>\<rparr>"
  using assms
proof (induction bs arbitrary: s p)
  case Nil
  then show ?case by (simp add: buf_map_id)
next
  case (Cons b bs)
  define t where "t = (buf_map a (\<lambda>x. x[p := b]) s)\<lparr>dma0 := \<lparr>CNBTR = n, CM0AR = a, dma_pos = Suc p\<rparr>\<rparr>"
  have b: "bus_rx b s = t"
    using Cons.prems by (simp add: bus_rx_def Let_def dma_store_map t_def)
  have "fold bus_rx bs t = (buf_map a (put_at (Suc p) bs) t)\<lparr>dma0 := \<lparr>CNBTR = n, CM0AR = a, dma_pos = Suc p + length bs\<rparr>\<rparr>"
    using Cons.prems by (intro Cons.IH) (simp_all add: t_def buf_map_dma0)
  moreover have "buf_map a (\<lambda>x. put_at (Suc p) bs (x[p := b])) s = buf_map a (put_at p (b # bs)) s"
    using Cons.prems(2,3) by (intro buf_map_cong put_at_Cons) simp
  ultimately show ?case by (simp add: b t_def buf_map_dma0 buf_map_map)
qed

lemma rx_complete:
  assumes "dma0 s = \<lparr>CNBTR = n, CM0AR = a, dma_pos = 0\<rparr>" "length bs = n" "0 < n" "length (dma_buf a s) = n"
  shows "fold bus_rx bs s = DMA1_CHANNEL0_1_IRQHandler False False ((buf_map a (\<lambda>_. bs) s)\<lparr>dma0 := \<lparr>CNBTR = n, CM0AR = a, dma_pos = 0\<rparr>\<rparr>)"
proof -
  obtain cs b where bs: "bs = cs @ [b]" using assms(2,3) by (cases bs rule: rev_cases) auto
  define t where "t = (buf_map a (put_at 0 cs) s)\<lparr>dma0 := \<lparr>CNBTR = n, CM0AR = a, dma_pos = length cs\<rparr>\<rparr>"
  have "fold bus_rx cs s = t"
    using rx_partial [OF assms(1), of cs] assms bs by (simp add: t_def)
  moreover have "(put_at 0 cs (dma_buf a s))[length cs := b] = bs"
  proof -
    have "length (drop (length cs) (dma_buf a s)) = 1" using assms bs by simp
    then obtain y where "drop (length cs) (dma_buf a s) = [y]" by (metis One_nat_def length_0_conv length_Suc_conv)
    then show ?thesis by (simp add: put_at_def bs)
  qed
  then have "buf_map a (\<lambda>x. (put_at 0 cs x)[length cs := b]) s = buf_map a (\<lambda>_. bs) s" by (intro buf_map_cong) simp
  ultimately show ?thesis
    using assms(2) bs by (simp add: bus_rx_def Let_def t_def dma_store_map buf_map_dma0 buf_map_map)
qed

text \<open>Ready for a register byte.\<close>

definition bus_idle :: "ctrl \<Rightarrow> bool" where
  "bus_idle s \<longleftrightarrow> i2c_dma_state s = I2C_DMA_STATE_WAIT_FOR_REG \<and> dma0 s = \<lparr>CNBTR = 1, CM0AR = DMA_RECV_BUF, dma_pos = 0\<rparr>"

lemma rx_register:
  assumes "bus_idle s" "length (i2c_dma_recv_buf s) = 1"
  shows "bus_rx r s = i2c_dma_program (i2c_reg_setup (s\<lparr>i2c_dma_recv_buf := [r]\<rparr>))"
proof -
  obtain x where x: "i2c_dma_recv_buf s = [x]" using assms(2) by (auto simp: length_Suc_conv)
  have "bus_rx r s = DMA1_CHANNEL0_1_IRQHandler False False (s\<lparr>i2c_dma_recv_buf := [r], dma0 := dma0 s\<rparr>)"
    using assms(1) x by (simp add: bus_rx_def Let_def bus_idle_def dma_store_def)
  moreover have "s\<lparr>i2c_dma_recv_buf := [r], dma0 := dma0 s\<rparr> = s\<lparr>i2c_dma_recv_buf := [r]\<rparr>"
    by (intro ctrl.equality) simp_all
  ultimately show ?thesis using assms(1) by (simp add: bus_idle_def DMA1_CHANNEL0_1_IRQHandler_def)
qed

lemma tx_partial:
  assumes "dma3 s = \<lparr>CNBTR = n, CM0AR = a, dma_pos = p\<rparr>" "p + k < n" "n \<le> length (dma_buf a s)"
  shows "(bus_tx ^^ k) s = s\<lparr>bus_out := bus_out s @ get_at p k (dma_buf a s), dma3 := \<lparr>CNBTR = n, CM0AR = a, dma_pos = p + k\<rparr>\<rparr>"
  using assms(2)
proof (induction k)
  case 0
  then show ?case using assms(1) by (simp add: get_at_def)
next
  case (Suc k)
  define t where "t = s\<lparr>bus_out := bus_out s @ get_at p k (dma_buf a s), dma3 := \<lparr>CNBTR = n, CM0AR = a, dma_pos = p + k\<rparr>\<rparr>"
  have "(bus_tx ^^ k) s = t" using Suc by (simp add: t_def)
  then have "(bus_tx ^^ Suc k) s = bus_tx t" by simp
  moreover have "dma_buf a t = dma_buf a s" by (cases a) (simp_all add: t_def dma_buf_def)
  moreover have "get_at p (Suc k) (dma_buf a s) = get_at p k (dma_buf a s) @ [dma_buf a s ! (p + k)]"
    using Suc.prems assms(3) by (simp add: get_at_def take_Suc_conv_app_nth)
  ultimately show ?case using Suc.prems by (simp only:) (simp add: bus_tx_def Let_def t_def)
qed

lemma tx_complete:
  assumes "dma3 s = \<lparr>CNBTR = n, CM0AR = a, dma_pos = 0\<rparr>" "0 < n" "n \<le> length (dma_buf a s)"
  shows "(bus_tx ^^ n) s = DMA1_CHANNEL2_3_IRQHandler
    (s\<lparr>bus_out := bus_out s @ take n (dma_buf a s), dma3 := \<lparr>CNBTR = n, CM0AR = a, dma_pos = 0\<rparr>\<rparr>)"
proof -
  obtain k where k: "n = Suc k" using assms(2) by (cases n) auto
  define t where "t = s\<lparr>bus_out := bus_out s @ get_at 0 k (dma_buf a s), dma3 := \<lparr>CNBTR = n, CM0AR = a, dma_pos = k\<rparr>\<rparr>"
  have "(bus_tx ^^ k) s = t" using tx_partial [OF assms(1), of k] assms(3) k by (simp add: t_def)
  then have "(bus_tx ^^ n) s = bus_tx t" by (simp add: k)
  moreover have "dma_buf a t = dma_buf a s" by (cases a) (simp_all add: t_def dma_buf_def)
  moreover have "take n (dma_buf a s) = get_at 0 k (dma_buf a s) @ [dma_buf a s ! k]"
    using assms(3) k by (simp add: get_at_def take_Suc_conv_app_nth)
  ultimately show ?thesis by (simp only:) (simp add: bus_tx_def Let_def t_def k)
qed

section \<open>Write transactions\<close>

lemma bit0_cleared: "(x AND NOT 1) AND 1 \<noteq> (1 :: u8)"
  by (simp add: and.assoc)

lemma leave_modes_eq:
  obtains x y z where "i2c_leave_modes s = s\<lparr>startup_mode := x, i2c_standalone_mode_state := y, tim3_enabled := z\<rparr>"
    "x AND STARTUP_MODE_ENABLE \<noteq> STARTUP_MODE_ENABLE" "y AND I2C_STANDALONE_MODE_READY \<noteq> I2C_STANDALONE_MODE_READY"
proof -
  define x where "x = (if startup_mode s AND 1 = 1 then startup_mode s AND NOT 1 else startup_mode s)"
  define y where "y = (if i2c_standalone_mode_state s AND 1 = 1 then i2c_standalone_mode_state s AND NOT 1 else i2c_standalone_mode_state s)"
  define z where "z = (if i2c_standalone_mode_state s AND 1 = 1 then False else tim3_enabled s)"
  have "i2c_leave_modes s = s\<lparr>startup_mode := x, i2c_standalone_mode_state := y, tim3_enabled := z\<rparr>"
    unfolding i2c_leave_modes_def Let_def x_def y_def z_def by (cases s) simp
  moreover have "x AND 1 \<noteq> 1" "y AND 1 \<noteq> 1" unfolding x_def y_def using bit0_cleared by (auto simp del: not_one_eq)
  ultimately show ?thesis by (rule that)
qed

text \<open>A register byte followed by all its data.\<close>

lemma write_transaction:
  assumes "bus_idle s" "ctrl_inv s"
    and reg: "(r, a, n) \<in> {(I2C_REG_WRITE_PWM, DMA_PWM_A, 25), (I2C_REG_WRITE_RESTART_KEY, DMA_RESTART_KEY_BUF, 5),
      (I2C_REG_ENTER_STANDALONE_MODE, DMA_STANDALONE_BUF, 4), (I2C_REG_EXIT_STANDALONE_MODE, DMA_STANDALONE_BUF, 4)}"
    and len: "length bs = n"
  shows "fold bus_rx (r # bs) s = i2c_received (buf_map a (\<lambda>_. bs)
    (s\<lparr>i2c_dma_recv_buf := [r], ctrl_reg := r, i2c_dma_state := I2C_DMA_STATE_RECEIVING, dma0 := \<lparr>CNBTR = n, CM0AR = a, dma_pos = 0\<rparr>\<rparr>))"
proof -
  let ?ch = "\<lparr>CNBTR = n, CM0AR = a, dma_pos = 0\<rparr>"
  let ?t = "s\<lparr>i2c_dma_recv_buf := [r], ctrl_reg := r, i2c_dma_state := I2C_DMA_STATE_RECEIVING, dma0 := ?ch\<rparr>"
  have bufs: "length (dma_buf b s) = buf_size b" for b using assms(2) by (simp add: ctrl_inv_def bufs_ok_def)
  then have "length (i2c_dma_recv_buf s) = 1" using bufs [of DMA_RECV_BUF] by (simp add: dma_buf_def)
  note rx = rx_register [OF assms(1) this]
  have w: "r \<in> write_regs" using reg by (auto simp: write_regs_def)
  have "i2c_reg_setup (s\<lparr>i2c_dma_recv_buf := [r]\<rparr>) = s\<lparr>i2c_dma_recv_buf := [r], ctrl_reg := r\<rparr>"
  proof -
    have "r \<noteq> 0" "r \<noteq> 1" using w by (auto simp: write_regs_def)
    then show ?thesis using w unfolding i2c_reg_setup_def Let_def write_regs_def by simp
  qed
  moreover have "i2c_dma_program u = u\<lparr>i2c_dma_state := I2C_DMA_STATE_RECEIVING, dma0 := ?ch\<rparr>" if "ctrl_reg u = r" for u
    using reg that by (elim insertE emptyE Pair_inject) (simp_all add: i2c_dma_program_regs)
  ultimately have t: "bus_rx r s = ?t" by (simp add: rx)
  have "length (dma_buf a ?t) = n" using reg bufs [of a] by (auto simp: dma_buf_def)
  moreover have "0 < n" using reg by auto
  ultimately have "fold bus_rx bs ?t = DMA1_CHANNEL0_1_IRQHandler False False ((buf_map a (\<lambda>_. bs) ?t)\<lparr>dma0 := ?ch\<rparr>)"
    using rx_complete [of ?t n a bs] len by simp
  also have "(buf_map a (\<lambda>_. bs) ?t)\<lparr>dma0 := ?ch\<rparr> = buf_map a (\<lambda>_. bs) ?t"
    by (cases a) (simp_all add: buf_map_def)
  also have "DMA1_CHANNEL0_1_IRQHandler False False (buf_map a (\<lambda>_. bs) ?t) = i2c_received (buf_map a (\<lambda>_. bs) ?t)"
    by (cases a) (simp_all add: DMA1_CHANNEL0_1_IRQHandler_def buf_map_def)
  finally show ?thesis by (simp add: t)
qed

lemma write_pwm:
  fixes ack :: u8
  assumes "bus_idle s" "ctrl_inv s" "length pwm = LED_TOT_SIZE"
  defines "s' \<equiv> fold bus_rx (I2C_REG_WRITE_PWM # pwm @ [ack]) s"
  shows "bus_idle s'" "ctrl_led s' = (ctrl_led s)\<lparr>led_pwm_table := pwm @ [ack], led_state := led_state (ctrl_led s) OR LED_STATE_PWM_READY\<rparr>"
    "i2c_read_knob_state s' = (if ack = I2C_READ_KNOB_ACK then i2c_read_knob_state s AND NOT I2C_READ_KNOB_BUF_READY else i2c_read_knob_state s)"
    "ctrl_knob s' = ctrl_knob s" "i2c_read_knob_buf s' = i2c_read_knob_buf s" "main_pc s' = main_pc s" "bus_out s' = bus_out s"
    "dropped_adc_frames s' = dropped_adc_frames s" "wwdg_reset s' = wwdg_reset s" "startup_mode s' AND STARTUP_MODE_ENABLE \<noteq> STARTUP_MODE_ENABLE"
    "i2c_standalone_mode_state s' AND I2C_STANDALONE_MODE_READY \<noteq> I2C_STANDALONE_MODE_READY"
proof -
  define t where "t = buf_map DMA_PWM_A (\<lambda>_. pwm @ [ack]) (s\<lparr>i2c_dma_recv_buf := [I2C_REG_WRITE_PWM], ctrl_reg := I2C_REG_WRITE_PWM,
    i2c_dma_state := I2C_DMA_STATE_RECEIVING, dma0 := \<lparr>CNBTR = 25, CM0AR = DMA_PWM_A, dma_pos = 0\<rparr>\<rparr>)"
  have s': "s' = i2c_received t"
    unfolding s'_def t_def using assms(1-3) by (intro write_transaction) simp_all
  have t: "ctrl_reg t = I2C_REG_WRITE_PWM" "ctrl_led t = (ctrl_led s)\<lparr>led_pwm_table := pwm @ [ack]\<rparr>" "i2c_read_knob_state t = i2c_read_knob_state s"
    "ctrl_knob t = ctrl_knob s" "i2c_read_knob_buf t = i2c_read_knob_buf s" "main_pc t = main_pc s" "bus_out t = bus_out s" "dropped_adc_frames t = dropped_adc_frames s"
    "wwdg_reset t = wwdg_reset s"
    by (simp_all add: t_def buf_map_def)
  obtain x y z where m: "i2c_leave_modes t = t\<lparr>startup_mode := x, i2c_standalone_mode_state := y, tim3_enabled := z\<rparr>"
    "x AND 1 \<noteq> 1" "y AND 1 \<noteq> 1" by (rule leave_modes_eq)
  have n: "(pwm @ [ack]) ! 24 = ack" using assms(3) by (simp add: nth_append)
  note unf = s' i2c_received_def m(1) i2c_standalone_mode_def Let_def t
  show "bus_idle s'" "ctrl_led s' = (ctrl_led s)\<lparr>led_pwm_table := pwm @ [ack], led_state := led_state (ctrl_led s) OR LED_STATE_PWM_READY\<rparr>"
    "i2c_read_knob_state s' = (if ack = I2C_READ_KNOB_ACK then i2c_read_knob_state s AND NOT I2C_READ_KNOB_BUF_READY else i2c_read_knob_state s)"
    "ctrl_knob s' = ctrl_knob s" "i2c_read_knob_buf s' = i2c_read_knob_buf s" "main_pc s' = main_pc s" "bus_out s' = bus_out s"
    "dropped_adc_frames s' = dropped_adc_frames s" "wwdg_reset s' = wwdg_reset s" "startup_mode s' AND STARTUP_MODE_ENABLE \<noteq> STARTUP_MODE_ENABLE"
    "i2c_standalone_mode_state s' AND I2C_STANDALONE_MODE_READY \<noteq> I2C_STANDALONE_MODE_READY"
    using m(2,3) n by (simp_all add: unf bus_idle_def)
qed

lemma ctrl_run_rx: "ctrl_run (map EV_RX bs @ evs) s = ctrl_run evs (fold bus_rx bs s)"
  by (induction bs arbitrary: s) (simp_all add: ctrl_step_def)

lemma ctrl_run_tx: "ctrl_run (replicate n EV_TX @ evs) s = ctrl_run evs ((bus_tx ^^ n) s)"
  by (induction n arbitrary: s) (simp_all add: ctrl_step_def funpow_swap1)

lemma rx_run_inv: "ctrl_inv s \<Longrightarrow> ctrl_inv (fold bus_rx bs s)"
  by (induction bs arbitrary: s) (simp_all add: bus_rx_keeps)

section \<open>Knob events are delivered exactly once\<close>

definition knob_ready :: "ctrl \<Rightarrow> bool" where
  "knob_ready s \<longleftrightarrow> i2c_read_knob_state s AND I2C_READ_KNOB_BUF_READY \<noteq> 0"

text \<open>The four counters the register reports, in the order of its bytes, and what the device owes its
  master: what it has counted and what is in a report not yet acknowledged (modulo 256).\<close>

definition knob_vals :: "ctrl \<Rightarrow> bytes" where
  "knob_vals s = [knob_encoder_count (ctrl_knob s), knob_switch_count (ctrl_knob s) ! KNOB_SWITCH_DOWN,
     knob_switch_count (ctrl_knob s) ! KNOB_SWITCH_UP, dropped_adc_frames s]"

definition knob_owed :: "nat \<Rightarrow> ctrl \<Rightarrow> u8" where
  "knob_owed i s = knob_vals s ! i + (if knob_ready s then i2c_read_knob_buf s ! i else 0)"

definition knob_part :: "ctrl \<Rightarrow> knob \<times> u8 \<times> bytes \<times> u8" where
  "knob_part s = (ctrl_knob s, dropped_adc_frames s, i2c_read_knob_buf s, i2c_read_knob_state s)"

lemma knob_part_cong:
  assumes "knob_part s' = knob_part s"
  shows "knob_vals s' = knob_vals s" "knob_owed i s' = knob_owed i s" "knob_ready s' = knob_ready s" "i2c_read_knob_buf s' = i2c_read_knob_buf s"
  using assms by (simp_all add: knob_part_def knob_vals_def knob_owed_def knob_ready_def)

lemma update_knob:
  assumes inv: "ctrl_inv s" and i: "i < 4"
  defines "s' \<equiv> i2c_update_read_knob_buf s"
  shows "knob_ready s'" "knob_owed i s' = knob_owed i s"
    "i2c_read_knob_buf s' = (if knob_ready s then i2c_read_knob_buf s
       else knob_vals s @ [if knob_vals s = [0, 0, 0, 0] then 0 else ctrl_crc8 0 (knob_vals s)])"
    "\<not> knob_ready s \<Longrightarrow> knob_vals s' = [0, 0, 0, 0]"
proof -
  have len: "length (i2c_read_knob_buf s) = 5" "length (knob_switch_count (ctrl_knob s)) = 2"
    using inv by (simp_all add: ctrl_inv_unfold knob_ok_def)
  then obtain b0 b1 b2 b3 b4 where b: "i2c_read_knob_buf s = [b0, b1, b2, b3, b4]" by (auto simp: length_Suc_conv numeral_eq_Suc)
  obtain d u where c: "knob_switch_count (ctrl_knob s) = [d, u]" using len(2) by (auto simp: length_Suc_conv numeral_eq_Suc)
  have one: "I2C_READ_KNOB_BUF_READY AND x = x AND I2C_READ_KNOB_BUF_READY" for x by (simp add: and.commute)
  have set: "(x OR I2C_READ_KNOB_BUF_READY) AND I2C_READ_KNOB_BUF_READY \<noteq> 0" for x by (simp add: bit.conj_disj_distrib2)
  show "knob_ready s'" "i2c_read_knob_buf s' = (if knob_ready s then i2c_read_knob_buf s
       else knob_vals s @ [if knob_vals s = [0, 0, 0, 0] then 0 else ctrl_crc8 0 (knob_vals s)])"
    and zero: "\<not> knob_ready s \<Longrightarrow> knob_vals s' = [0, 0, 0, 0]"
    unfolding s'_def i2c_update_read_knob_buf_def knob_ready_def one knob_vals_def
    by (auto simp: set b c Let_def knob_encoder_read_count_def knob_switch_read_down_count_def knob_switch_read_up_count_def)
  then show "knob_owed i s' = knob_owed i s"
  proof (cases "knob_ready s")
    case True
    then have "s' = s" unfolding s'_def i2c_update_read_knob_buf_def knob_ready_def one by simp
    then show ?thesis by simp
  next
    case False
    have "knob_vals s ! i = i2c_read_knob_buf s' ! i" "knob_vals s' ! i = 0"
    proof -
      have "length (knob_vals s) = 4" by (simp add: knob_vals_def)
      then show "knob_vals s ! i = i2c_read_knob_buf s' ! i" using \<open>i2c_read_knob_buf s' = _\<close> False i by (simp add: nth_append)
      have "[0, 0, 0, 0] = replicate 4 (0 :: u8)" by (simp add: numeral_eq_Suc)
      then show "knob_vals s' ! i = 0" using zero [OF False] i by (metis nth_replicate)
    qed
    then show ?thesis using \<open>knob_ready s'\<close> False by (simp add: knob_owed_def)
  qed
qed

lemma modes_knob: "knob_part (i2c_standalone_mode (i2c_leave_modes s)) = knob_part s"
  by (simp add: knob_part_def i2c_leave_modes_def i2c_standalone_mode_def Let_def)

lemma received_knob:
  shows "ctrl_knob (i2c_received s) = ctrl_knob s" "dropped_adc_frames (i2c_received s) = dropped_adc_frames s"
    "i2c_read_knob_buf (i2c_received s) = i2c_read_knob_buf s"
    "i2c_read_knob_state (i2c_received s) = i2c_read_knob_state s
      \<or> i2c_read_knob_state (i2c_received s) = i2c_read_knob_state s AND NOT I2C_READ_KNOB_BUF_READY"
proof -
  define m where "m = i2c_standalone_mode (i2c_leave_modes s)"
  have m: "ctrl_knob m = ctrl_knob s" "dropped_adc_frames m = dropped_adc_frames s" "i2c_read_knob_buf m = i2c_read_knob_buf s"
    "i2c_read_knob_state m = i2c_read_knob_state s"
    using modes_knob [of s] by (simp_all add: m_def knob_part_def)
  show "ctrl_knob (i2c_received s) = ctrl_knob s" "dropped_adc_frames (i2c_received s) = dropped_adc_frames s"
    "i2c_read_knob_buf (i2c_received s) = i2c_read_knob_buf s"
    "i2c_read_knob_state (i2c_received s) = i2c_read_knob_state s
      \<or> i2c_read_knob_state (i2c_received s) = i2c_read_knob_state s AND NOT I2C_READ_KNOB_BUF_READY"
    unfolding i2c_received_def m_def [symmetric] Let_def by (simp_all add: m)
qed

text \<open>What an event adds to the counters, and what an acknowledgement takes out of the device.\<close>

definition knob_made :: "nat \<Rightarrow> ctrl_event \<Rightarrow> ctrl \<Rightarrow> ctrl \<Rightarrow> u8" where
  "knob_made i ev s s' = (case ev of EV_RX b \<Rightarrow> 0 | EV_TX \<Rightarrow> 0 | _ \<Rightarrow> knob_vals s' ! i - knob_vals s ! i)"

definition knob_taken :: "nat \<Rightarrow> ctrl \<Rightarrow> ctrl \<Rightarrow> u8" where
  "knob_taken i s s' = (if knob_ready s \<and> \<not> knob_ready s' then i2c_read_knob_buf s ! i else 0)"

fun knob_produced :: "nat \<Rightarrow> ctrl_event list \<Rightarrow> ctrl \<Rightarrow> u8" where
  "knob_produced i [] s = 0"
| "knob_produced i (ev # evs) s = (case ctrl_step ev s of None \<Rightarrow> 0 | Some s' \<Rightarrow> knob_made i ev s s' + knob_produced i evs s')"

fun knob_acked :: "nat \<Rightarrow> ctrl_event list \<Rightarrow> ctrl \<Rightarrow> u8" where
  "knob_acked i [] s = 0"
| "knob_acked i (ev # evs) s = (case ctrl_step ev s of None \<Rightarrow> 0 | Some s' \<Rightarrow> knob_taken i s s' + knob_acked i evs s')"

lemma store_knob: "a \<noteq> DMA_READ_KNOB_BUF \<Longrightarrow> knob_part (dma_store a i b s) = knob_part s"
  by (cases a) (simp_all add: dma_store_def knob_part_def)

lemma setup_knob:
  "knob_part (i2c_reg_setup s) = knob_part s
   \<or> knob_part (i2c_reg_setup s) = knob_part (i2c_update_read_knob_buf (s\<lparr>ctrl_reg := i2c_dma_recv_buf s ! 0\<rparr>))"
  by (simp add: i2c_reg_setup_def Let_def) (simp add: knob_part_def)

lemma program_knob: "knob_part (i2c_dma_program s) = knob_part s"
  by (simp add: i2c_dma_program_def Let_def case_prod_beta knob_part_def)

lemma handler_knob:
  assumes inv: "ctrl_inv s" and i: "i < 4"
  defines "s' \<equiv> DMA1_CHANNEL0_1_IRQHandler False False s"
  shows "knob_owed i s' + knob_taken i s s' = knob_owed i s"
proof -
  consider (wait) "i2c_dma_state s = 1" | (recv) "i2c_dma_state s = 2" | (other) "i2c_dma_state s \<noteq> 1" "i2c_dma_state s \<noteq> 2" by blast
  then show ?thesis
  proof cases
    case wait
    define u where "u = i2c_update_read_knob_buf (s\<lparr>ctrl_reg := i2c_dma_recv_buf s ! 0\<rparr>)"
    have s': "knob_part s' = knob_part s \<or> knob_part s' = knob_part u"
      using setup_knob [of s] wait by (simp add: s'_def DMA1_CHANNEL0_1_IRQHandler_def program_knob u_def)
    have "ctrl_inv (s\<lparr>ctrl_reg := i2c_dma_recv_buf s ! 0\<rparr>)" using inv wait by (simp add: ctrl_inv_reg)
    note up = update_knob(1,2) [OF this i, folded u_def]
    have "knob_owed i (s\<lparr>ctrl_reg := r\<rparr>) = knob_owed i s" for r by (simp add: knob_owed_def knob_vals_def knob_ready_def)
    then show ?thesis using s' up knob_part_cong(2,3) [of s' s] knob_part_cong(2,3) [of s' u] by (auto simp: knob_taken_def)
  next
    case recv
    have s': "s' = i2c_received s" using recv by (simp add: s'_def DMA1_CHANNEL0_1_IRQHandler_def)
    have v: "knob_vals s' = knob_vals s" unfolding s' by (simp add: knob_vals_def received_knob(1,2))
    have "knob_ready s' \<Longrightarrow> knob_ready s"
      using received_knob(4) [of s] unfolding s' knob_ready_def by (auto simp: and.assoc)
    then show ?thesis using v received_knob(3) [of s] unfolding s' by (simp add: knob_owed_def knob_taken_def)
  next
    case other
    then have "knob_part s' = knob_part s" by (simp add: s'_def DMA1_CHANNEL0_1_IRQHandler_def knob_part_def)
    then show ?thesis using knob_part_cong(2,3) [of s' s] by (simp add: knob_taken_def)
  qed
qed

lemma bus_rx_knob:
  assumes inv: "ctrl_inv s" and i: "i < 4"
  shows "knob_owed i (bus_rx b s) + knob_taken i s (bus_rx b s) = knob_owed i s"
proof -
  let ?ch = "dma0 s"
  define t where "t = dma_store (CM0AR ?ch) (dma_pos ?ch) b s"
  define u where "u = t\<lparr>dma0 := ?ch\<lparr>dma_pos := 0\<rparr>\<rparr>"
  have ch: "chan_ok ?ch" "CM0AR ?ch \<notin> {DMA_SEND_BUF, DMA_READ_KNOB_BUF}" using inv by (simp_all add: ctrl_inv_def)
  have t: "knob_part t = knob_part s" "ctrl_inv t" using ch(2) inv by (simp_all add: t_def store_knob ctrl_inv_store)
  have pu: "knob_part (t\<lparr>dma0 := c\<rparr>) = knob_part s" for c using t(1) by (simp add: knob_part_def)
  have u: "ctrl_inv u" unfolding u_def using t(2) ch by (intro ctrl_inv_dma) (auto simp: chan_ok_def)
  note k = knob_part_cong [OF pu]
  show ?thesis
  proof (cases "dma_pos ?ch + 1 < CNBTR ?ch")
    case True
    then show ?thesis using k by (simp add: bus_rx_def Let_def t_def [symmetric] knob_taken_def)
  next
    case False
    then have "bus_rx b s = DMA1_CHANNEL0_1_IRQHandler False False u" by (simp add: bus_rx_def Let_def t_def [symmetric] u_def)
    moreover have "knob_taken i u v = knob_taken i s v" for v unfolding knob_taken_def u_def k ..
    moreover have "knob_owed i u = knob_owed i s" unfolding u_def by (rule k)
    ultimately show ?thesis using handler_knob [OF u i] by simp
  qed
qed

lemma bus_tx_knob: "knob_part (bus_tx s) = knob_part s"
  by (simp add: bus_tx_def Let_def DMA1_CHANNEL2_3_IRQHandler_def knob_part_def)

lemma knob_other:
  assumes "i2c_read_knob_state s' = i2c_read_knob_state s" "i2c_read_knob_buf s' = i2c_read_knob_buf s"
  shows "knob_owed i s' + knob_taken i s s' = knob_owed i s + (knob_vals s' ! i - knob_vals s ! i)"
  using assms by (simp add: knob_owed_def knob_taken_def knob_ready_def)

lemma TIM3_knob: "knob_part (TIM3_UPD_OVF_TRG_BRK_USART3_TX_IRQHandler s) = knob_part s"
proof -
  have u: "knob_part (update_standalone_leds s) = knob_part s" for s by (simp add: update_standalone_leds_def Let_def knob_part_def)
  have b: "knob_part (startup_blink s) = knob_part s" for s by (simp add: startup_blink_def Let_def knob_part_def)
  have o: "knob_part (s\<lparr>standalone_animation_timer := x\<rparr>) = knob_part s" "knob_part (s\<lparr>startup_animation_timer := y\<rparr>) = knob_part s"
    "knob_part (s\<lparr>quadrant := z\<rparr>) = knob_part s" for s x y z by (simp_all add: knob_part_def)
  show ?thesis unfolding TIM3_UPD_OVF_TRG_BRK_USART3_TX_IRQHandler_def Let_def by (simp add: u b o)
qed

lemma main_report: "i2c_read_knob_state (ctrl_main s) = i2c_read_knob_state s" "i2c_read_knob_buf (ctrl_main s) = i2c_read_knob_buf s"
  by (simp_all add: ctrl_main_def draw_startup_pattern_def exit_startup_mode_def main_led_def main_restart_def main_knob_def Let_def split: ctrl_pc.split)

lemma step_knob:
  assumes inv: "ctrl_inv s" and step: "ctrl_step ev s = Some s'" and i: "i < 4"
  shows "knob_owed i s' + knob_taken i s s' = knob_owed i s + knob_made i ev s s'"
proof (cases ev)
  case (EV_RX b)
  then have "s' = bus_rx b s" using step by (simp add: ctrl_step_def)
  then show ?thesis using EV_RX bus_rx_knob [OF inv i, of b] by (simp add: knob_made_def)
next
  case EV_TX
  then have "s' = bus_tx s" using step by (simp add: ctrl_step_def)
  then show ?thesis using EV_TX knob_part_cong [OF bus_tx_knob [of s]] by (simp add: knob_taken_def knob_made_def)
next
  case EV_TIM3
  then have "knob_part s' = knob_part s" using step TIM3_knob [of s] by (auto simp: ctrl_step_def)
  then show ?thesis using EV_TIM3 knob_other [of s' s i] by (simp add: knob_part_def knob_made_def)
next
  case EV_MAIN
  then show ?thesis using step knob_other [of s' s i] main_report [of s] by (simp add: ctrl_step_def knob_made_def)
qed (use step knob_other [of s' s i] in \<open>auto simp: ctrl_step_def knob_made_def DMA1_CHANNEL0_1_IRQHandler_def adc_half_def\<close>)

lemma run_knob:
  assumes "ctrl_inv s" "ctrl_run evs s = Some s'" "i < 4"
  shows "knob_owed i s' + knob_acked i evs s = knob_owed i s + knob_produced i evs s"
  using assms
proof (induction evs arbitrary: s)
  case (Cons ev evs)
  obtain u where u: "ctrl_step ev s = Some u" "ctrl_inv u" using ctrl_step_keeps [OF Cons.prems(1)] by blast
  have "knob_owed i s' + knob_acked i evs u = knob_owed i u + knob_produced i evs u"
    using Cons u by simp
  then have "knob_owed i s' + (knob_taken i s u + knob_acked i evs u) = (knob_owed i u + knob_taken i s u) + knob_produced i evs u"
    by (metis (no_types, opaque_lifting) add.assoc add.commute)
  also have "\<dots> = knob_owed i s + (knob_made i ev s u + knob_produced i evs u)"
    unfolding step_knob [OF Cons.prems(1) u(1) Cons.prems(3)] by (rule add.assoc)
  finally show ?case using u(1) by simp
qed simp

section \<open>Read transactions\<close>

lemma crc8_bits_eq: "ctrl_crc8_bits n c = (crc8_bit ^^ n) c"
  by (induction n arbitrary: c) (simp_all add: crc8_bit_def funpow_swap1)

lemma ctrl_crc8_eq: "ctrl_crc8 c xs = crc8 c xs"
  by (induction xs arbitrary: c) (simp_all add: crc8_bits_eq crc8_byte_def)

lemma knob_checksum: "(if xs = [0, 0, 0, 0] then 0 else ctrl_crc8 0 xs) = i2c_message_checksum xs I2C_REG_READ_KNOB_STAT"
proof -
  have "IOMCU_CRC8_INIT + 1 = 0" by (simp add: IOMCU_CRC8_INIT_def)
  moreover have "crc8_byte 0 0 = 0" by (simp add: crc8_byte_def crc8_bit_def numeral_eq_Suc)
  ultimately show ?thesis by (simp add: ctrl_crc8_eq i2c_message_checksum_def)
qed

text \<open>The report of the knob register.\<close>

definition knob_report :: "ctrl \<Rightarrow> bytes" where
  "knob_report s = (if knob_ready s then i2c_read_knob_buf s else knob_vals s @ [i2c_message_checksum (knob_vals s) I2C_REG_READ_KNOB_STAT])"

lemma read_knob:
  assumes "bus_idle s" "ctrl_inv s"
  defines "s' \<equiv> (bus_tx ^^ 5) (bus_rx I2C_REG_READ_KNOB_STAT s)"
  shows "bus_out s' = bus_out s @ knob_report s" "bus_idle s'" "knob_ready s'" "i2c_read_knob_buf s' = knob_report s"
    "\<not> knob_ready s \<Longrightarrow> knob_vals s' = [0, 0, 0, 0]" "knob_ready s \<Longrightarrow> knob_vals s' = knob_vals s"
proof -
  define r where "r = s\<lparr>i2c_dma_recv_buf := [I2C_REG_READ_KNOB_STAT], ctrl_reg := I2C_REG_READ_KNOB_STAT\<rparr>"
  define u where "u = i2c_update_read_knob_buf r"
  have recv: "length (i2c_dma_recv_buf s) = 1" using assms(2) by (simp add: ctrl_inv_unfold)
  have ri: "ctrl_inv r" using assms(1,2) by (simp add: r_def ctrl_inv_unfold bus_idle_def)
  have rk: "knob_part r = knob_part s" by (simp add: r_def knob_part_def)
  note up = update_knob [OF ri, of 0, folded u_def, simplified]
  have reg: "ctrl_reg u = I2C_REG_READ_KNOB_STAT" by (simp add: u_def r_def)
  have b: "bus_rx I2C_REG_READ_KNOB_STAT s = u\<lparr>i2c_dma_state := 4, dma3 := \<lparr>CNBTR = 5, CM0AR = DMA_READ_KNOB_BUF, dma_pos = 0\<rparr>\<rparr>"
    unfolding rx_register [OF assms(1) recv] using i2c_dma_program_regs(6) [OF reg] by (simp add: i2c_reg_setup_def Let_def u_def r_def)
  have ub: "i2c_read_knob_buf u = knob_report s"
    using up(3) unfolding knob_part_cong(1,3,4) [OF rk] knob_checksum knob_report_def .
  have len: "length (i2c_read_knob_buf u) = 5" using i2c_update_keeps [OF ri] by (simp add: u_def ctrl_inv_unfold)
  have s': "s' = u\<lparr>bus_out := bus_out u @ knob_report s, dma3 := \<lparr>CNBTR = 1, CM0AR = DMA_SEND_BUF, dma_pos = 0\<rparr>,
      i2c_dma_state := I2C_DMA_STATE_WAIT_FOR_REG, ctrl_reg := I2C_REG_RESERVED\<rparr>"
    unfolding s'_def b
    using tx_complete [of "u\<lparr>i2c_dma_state := 4, dma3 := \<lparr>CNBTR = 5, CM0AR = DMA_READ_KNOB_BUF, dma_pos = 0\<rparr>\<rparr>" 5 DMA_READ_KNOB_BUF] len ub
    by (simp add: dma_buf_def DMA1_CHANNEL2_3_IRQHandler_def)
  show "bus_out s' = bus_out s @ knob_report s" by (simp add: s' u_def r_def)
  show "bus_idle s'" using assms(1) by (simp add: s' bus_idle_def u_def r_def)
  have pu: "knob_part s' = knob_part u" by (simp add: s' knob_part_def)
  show "knob_ready s'" "i2c_read_knob_buf s' = knob_report s" "\<not> knob_ready s \<Longrightarrow> knob_vals s' = [0, 0, 0, 0]"
    using knob_part_cong [OF pu] knob_part_cong [OF rk] up ub by simp_all
  assume "knob_ready s"
  then have "u = r" using knob_part_cong(3) [OF rk] by (simp add: u_def i2c_update_read_knob_buf_def knob_ready_def and.commute)
  then show "knob_vals s' = knob_vals s" using knob_part_cong [OF pu] knob_part_cong [OF rk] by simp
qed

end
