(* ===== verification/Ctrl_Properties.thy ===== *)
theory Ctrl_Properties
  imports Ctrl_Protocol
begin

text \<open>
  The properties of the controller application as a whole, for every interleaving of bus, timer,
  sampling and main loop events.
\<close>

section \<open>Reports carry a valid checksum\<close>

definition report_ok :: "ctrl \<Rightarrow> bool" where
  "report_ok s \<longleftrightarrow> (knob_ready s \<longrightarrow> (\<exists>v. length v = 4 \<and> i2c_read_knob_buf s = v @ [i2c_message_checksum v I2C_REG_READ_KNOB_STAT]))"

lemma report_ok_cong: "knob_part s' = knob_part s \<Longrightarrow> report_ok s' = report_ok s"
  using knob_part_cong(3,4) [of s' s] by (simp add: report_ok_def)

lemma report_ok_update: "ctrl_inv s \<Longrightarrow> report_ok s \<Longrightarrow> report_ok (i2c_update_read_knob_buf s)"
  using update_knob(3) [of s 0] knob_checksum [of "knob_vals s"]
  by (cases "knob_ready s") (auto simp: report_ok_def knob_vals_def)

lemma report_ok_handler:
  assumes inv: "ctrl_inv s" and ok: "report_ok s"
  shows "report_ok (DMA1_CHANNEL0_1_IRQHandler False False s)" (is "report_ok ?s")
proof -
  consider (wait) "i2c_dma_state s = 1" | (recv) "i2c_dma_state s = 2" | (other) "i2c_dma_state s \<noteq> 1" "i2c_dma_state s \<noteq> 2" by blast
  then show ?thesis
  proof cases
    case wait
    define r where "r = s\<lparr>ctrl_reg := i2c_dma_recv_buf s ! 0\<rparr>"
    have "ctrl_inv r" "report_ok r" using inv wait ok by (simp_all add: r_def ctrl_inv_reg report_ok_def knob_ready_def)
    then have "report_ok (i2c_update_read_knob_buf r)" by (rule report_ok_update)
    moreover have "knob_part ?s = knob_part s \<or> knob_part ?s = knob_part (i2c_update_read_knob_buf r)"
      using setup_knob [of s] wait by (simp add: DMA1_CHANNEL0_1_IRQHandler_def program_knob r_def)
    ultimately show ?thesis using ok report_ok_cong by blast
  next
    case recv
    then have s: "?s = i2c_received s" by (simp add: DMA1_CHANNEL0_1_IRQHandler_def)
    have "knob_ready (i2c_received s) \<Longrightarrow> knob_ready s"
      using received_knob(4) [of s] unfolding knob_ready_def by (auto simp: and.assoc)
    then show ?thesis using ok unfolding s report_ok_def received_knob(3) by blast
  next
    case other
    then have "knob_part ?s = knob_part s" by (simp add: DMA1_CHANNEL0_1_IRQHandler_def knob_part_def)
    then show ?thesis using ok report_ok_cong by blast
  qed
qed

lemma report_ok_rx:
  assumes inv: "ctrl_inv s" and ok: "report_ok s"
  shows "report_ok (bus_rx b s)"
proof -
  let ?ch = "dma0 s"
  define t where "t = dma_store (CM0AR ?ch) (dma_pos ?ch) b s"
  have ch: "chan_ok ?ch" "CM0AR ?ch \<notin> {DMA_SEND_BUF, DMA_READ_KNOB_BUF}" using inv by (simp_all add: ctrl_inv_def)
  have t: "knob_part t = knob_part s" "ctrl_inv t" using ch(2) inv by (simp_all add: t_def store_knob ctrl_inv_store)
  have pu: "knob_part (t\<lparr>dma0 := c\<rparr>) = knob_part s" for c using t(1) by (simp add: knob_part_def)
  have u: "ctrl_inv (t\<lparr>dma0 := ?ch\<lparr>dma_pos := 0\<rparr>\<rparr>)" using t(2) ch by (intro ctrl_inv_dma) (auto simp: chan_ok_def)
  show ?thesis
    using report_ok_cong [OF pu] ok report_ok_handler [OF u] unfolding bus_rx_def Let_def t_def [symmetric] by simp
qed

lemma report_ok_other:
  "i2c_read_knob_state s' = i2c_read_knob_state s \<Longrightarrow> i2c_read_knob_buf s' = i2c_read_knob_buf s \<Longrightarrow> report_ok s' = report_ok s"
  by (simp add: report_ok_def knob_ready_def)

lemma report_ok_step:
  assumes inv: "ctrl_inv s" and ok: "report_ok s" and step: "ctrl_step ev s = Some s'"
  shows "report_ok s'"
proof (cases ev)
  case (EV_RX b)
  then show ?thesis using step report_ok_rx [OF inv ok, of b] by (auto simp: ctrl_step_def)
next
  case EV_TX
  then show ?thesis using step ok report_ok_cong [OF bus_tx_knob] by (auto simp: ctrl_step_def)
next
  case EV_TIM3
  then show ?thesis using step ok report_ok_cong [OF TIM3_knob] by (auto simp: ctrl_step_def split: if_splits)
next
  case EV_MAIN
  then show ?thesis using step ok main_report [of s] by (simp add: ctrl_step_def report_ok_def knob_ready_def)
qed (use step ok report_ok_other [of s' s] in \<open>auto simp: ctrl_step_def DMA1_CHANNEL0_1_IRQHandler_def adc_half_def\<close>)

section \<open>Reachable states\<close>

inductive ctrl_reachable :: "ctrl \<Rightarrow> bool" where
  start: "ctrl_reachable ctrl_start"
| step: "ctrl_reachable s \<Longrightarrow> ctrl_step ev s = Some s' \<Longrightarrow> ctrl_reachable s'"

lemma reachable_inv: "ctrl_reachable s \<Longrightarrow> ctrl_inv s \<and> report_ok s"
proof (induction rule: ctrl_reachable.induct)
  case start
  have "report_ok ctrl_start" by (simp add: report_ok_def knob_ready_def ctrl_start_def enter_startup_mode_def) (simp add: ctrl_reset_def)
  then show ?case using ctrl_inv_start by simp
next
  case (step s ev s')
  then show ?case using ctrl_step_keeps [of s ev] report_ok_step [of s ev s'] by auto
qed

lemma run_reachable: "ctrl_reachable s \<Longrightarrow> ctrl_run evs s = Some s' \<Longrightarrow> ctrl_reachable s'"
  by (induction evs arbitrary: s) (auto split: option.splits intro: ctrl_reachable.step)

text \<open>
  C19: The controller application never gets stuck and stays in its memory. Whatever the order of
  bytes on the bus (complete, aborted or meaningless transactions), timer ticks, sample buffers
  and main loop statements, the next event is handled (the LED interrupt returns), both DMA channels
  point inside the buffer they are programmed for, and bus writes never go to the report buffers.
\<close>

theorem ctrl_stays_safe:
  assumes "ctrl_reachable s"
  shows "(\<exists>s'. ctrl_step ev s = Some s')
    \<and> dma_pos (dma0 s) < CNBTR (dma0 s) \<and> CNBTR (dma0 s) \<le> length (dma_buf (CM0AR (dma0 s)) s)
    \<and> dma_pos (dma3 s) < CNBTR (dma3 s) \<and> CNBTR (dma3 s) \<le> length (dma_buf (CM0AR (dma3 s)) s)
    \<and> CM0AR (dma0 s) \<notin> {DMA_SEND_BUF, DMA_READ_KNOB_BUF}"
proof -
  have inv: "ctrl_inv s" using reachable_inv [OF assms] by simp
  then have "length (dma_buf a s) = buf_size a" for a by (simp add: ctrl_inv_def bufs_ok_def)
  then show ?thesis using ctrl_step_keeps [OF inv, of ev] inv by (auto simp: ctrl_inv_def chan_ok_def)
qed

theorem ctrl_stays_safe_witness: "\<exists>s'. ctrl_step EV_TIM4 ctrl_start = Some s'"
  using ctrl_stays_safe [OF ctrl_reachable.start] by blast



text \<open>
  C21: The knob register. A read of the register returns the four counters and a checksum the
  common message check accepts, a second read without an acknowledgement returns the same report,
  and an acknowledgement (in a PWM write) makes the next report one of the counters at that
  time.
\<close>

theorem knob_register_protocol:
  assumes "ctrl_reachable s" "bus_idle s" "length pwm = LED_TOT_SIZE"
  defines "read \<equiv> \<lambda>s. (bus_tx ^^ I2C_REG_READ_KNOB_STAT_SIZE) (bus_rx I2C_REG_READ_KNOB_STAT s)"
  shows "\<exists>v. length v = 4 \<and> bus_out (read s) = bus_out s @ v @ [i2c_message_checksum v I2C_REG_READ_KNOB_STAT]
    \<and> (\<not> knob_ready s \<longrightarrow> v = knob_vals s)
    \<and> bus_out (read (read s)) = bus_out (read s) @ v @ [i2c_message_checksum v I2C_REG_READ_KNOB_STAT]
    \<and> (let a = fold bus_rx (I2C_REG_WRITE_PWM # pwm @ [I2C_READ_KNOB_ACK]) (read s)
       in bus_out (read a) = bus_out (read s) @ knob_vals (read s) @ [i2c_message_checksum (knob_vals (read s)) I2C_REG_READ_KNOB_STAT])"
proof -
  have inv: "ctrl_inv s" "report_ok s" using reachable_inv [OF assms(1)] by simp_all
  have rd: "read t = (bus_tx ^^ 5) (bus_rx 1 t)" for t by (simp add: read_def)
  note r1 = read_knob [OF assms(2) inv(1), folded rd]
  have txi: "ctrl_inv ((bus_tx ^^ n) t)" if "ctrl_inv t" for n t using that by (induction n) (simp_all add: bus_tx_keeps)
  have inv1: "ctrl_inv (read s)" unfolding read_def using inv(1) by (intro txi bus_rx_keeps)
  note r2 = read_knob [OF r1(2) inv1, folded rd]
  obtain v where v: "length v = 4" "knob_report s = v @ [i2c_message_checksum v I2C_REG_READ_KNOB_STAT]"
    "\<not> knob_ready s \<longrightarrow> v = knob_vals s"
    using inv(2) by (cases "knob_ready s") (auto simp: knob_report_def report_ok_def knob_vals_def)
  define a where "a = fold bus_rx (I2C_REG_WRITE_PWM # pwm @ [I2C_READ_KNOB_ACK]) (read s)"
  note w = write_pwm [OF r1(2) inv1 assms(3), of I2C_READ_KNOB_ACK, folded a_def]
  have ai: "ctrl_inv a" unfolding a_def by (rule rx_run_inv [OF inv1])
  have na: "\<not> knob_ready a" using w(3) by (simp add: knob_ready_def and.assoc)
  have va: "knob_vals a = knob_vals (read s)" using w(4,8) by (simp add: knob_vals_def)
  note ra = read_knob [OF w(1) ai, folded rd]
  have "bus_out (read a) = bus_out (read s) @ knob_vals (read s) @ [i2c_message_checksum (knob_vals (read s)) I2C_REG_READ_KNOB_STAT]"
    using ra(1) na va w(7) by (simp add: knob_report_def)
  moreover have "knob_report (read s) = knob_report s" using r1(3,4) by (simp add: knob_report_def)
  ultimately show ?thesis using r1(1) r2(1) v unfolding Let_def a_def [symmetric] by (intro exI [of _ v]) simp
qed

lemma bus_idle_start: "bus_idle ctrl_start"
  by (simp add: bus_idle_def ctrl_start_def enter_startup_mode_def) (simp add: ctrl_reset_def)

theorem knob_register_protocol_witness:
  "bus_out ((bus_tx ^^ 5) (bus_rx 1 ctrl_start)) = [0, 0, 0, 0, i2c_message_checksum [0, 0, 0, 0] 1]"
proof -
  have k: "\<not> knob_ready ctrl_start" "knob_vals ctrl_start = [0, 0, 0, 0]" "bus_out ctrl_start = []"
    by (simp_all add: knob_ready_def knob_vals_def ctrl_start_def enter_startup_mode_def ctrl_reset_def knob_reset_def)
  show ?thesis using knob_register_protocol [OF ctrl_reachable.start bus_idle_start, of "replicate 24 0"] k by auto
qed

lemma pwm_only: "x AND LED_STATE_OPS_READY = 0 \<Longrightarrow> (x OR LED_STATE_PWM_READY) AND 3 = (1 :: u8)"
proof -
  assume a: "x AND 2 = 0"
  have "(x OR 1) AND (1 OR 2) = ((x AND 1) OR 1) OR (x AND 2)"
    by (simp only: bit.conj_disj_distrib bit.conj_disj_distrib2 or.assoc and.idem) simp
  then show "(x OR 1) AND 3 = 1" using a by (simp add: or.commute)
qed


lemma main_bus: "bus_idle (ctrl_main s) = bus_idle s"
  by (simp add: bus_idle_def ctrl_main_def draw_startup_pattern_def exit_startup_mode_def main_led_def main_restart_def main_knob_def Let_def split: ctrl_pc.split)

text \<open>A running controller: first LED interrupt, a PWM table, and the main loop entered.\<close>

definition running_events :: "ctrl_event list" where
  "running_events = EV_TIM4 # map EV_RX (I2C_REG_WRITE_PWM # replicate 24 0 @ [0]) @ [EV_MAIN, EV_MAIN]"

lemma running_state:
  obtains s2 s where "ctrl_reachable s2" "bus_idle s2" "main_pc s2 = PC_RESTART" "\<not> wwdg_reset s2" "ctrl_run running_events ctrl_start = Some s" "ctrl_reachable s" "bus_idle s" "led_inv (ctrl_led s)" "main_pc s = PC_LED"
    "led_state (ctrl_led s) = 5"
proof -
  define l where "l = snd (tim4_pass (led_data_init led_reset))"
  define s0 where "s0 = ctrl_start\<lparr>ctrl_led := l\<rparr>"
  define s1 where "s1 = fold bus_rx (I2C_REG_WRITE_PWM # replicate 24 0 @ [0]) s0"
  define s2 where "s2 = ctrl_main s1"
  define s3 where "s3 = ctrl_main s2"
  have l: "led_inv l" unfolding l_def by (rule boot_dark(2))
  have lst: "led_state l = 4" by (simp add: l_def tim4_pass_def Let_def led_data_init_def led_reset_def led_op_at_def led_ops_def put_at_def)
  have cl: "ctrl_led ctrl_start = led_data_init led_reset" by (simp add: ctrl_start_def enter_startup_mode_def ctrl_reset_def)
  have "LED_COL_SIZE + 2 = Suc 7" by simp
  then have "TIM4_UPD_OVF_TRG_IRQHandler (LED_COL_SIZE + 2) (led_data_init led_reset) = Some l"
    by (simp only: handler_unfold) (simp add: boot_dark(1) l_def)
  then have e0: "ctrl_step EV_TIM4 ctrl_start = Some s0" by (simp add: ctrl_step_def cl s0_def)
  have r0: "ctrl_reachable s0" using ctrl_reachable.step [OF ctrl_reachable.start e0] .
  have i0: "bus_idle s0" "main_pc s0 = PC_STARTUP_DRAW" using bus_idle_start
    by (simp_all add: s0_def bus_idle_def) (simp add: ctrl_start_def enter_startup_mode_def ctrl_reset_def)
  have inv0: "ctrl_inv s0" using reachable_inv [OF r0] by simp
  note w = write_pwm [OF i0(1) inv0, of "replicate 24 0" 0, folded s1_def, simplified]
  have pc2: "main_pc s2 = PC_RESTART" "ctrl_led s2 = ctrl_led s1" using w(6,10) i0(2) by (simp_all add: s2_def ctrl_main_def exit_startup_mode_def)
  then have pc3: "main_pc s3 = PC_LED" "ctrl_led s3 = ctrl_led s1" by (simp_all add: s3_def ctrl_main_def main_restart_def Let_def)
  have run: "ctrl_run running_events ctrl_start = Some s3"
    unfolding running_events_def by (simp only: ctrl_run.simps e0 option.simps ctrl_run_rx s1_def [symmetric]) (simp add: ctrl_step_def s2_def s3_def)
  have "bus_idle s3" using w(1) by (simp add: s3_def s2_def main_bus)
  moreover have "led_inv (ctrl_led s3)" unfolding pc3 w(2) using l by (simp add: s0_def led_inv_pwm)
  moreover have "led_state (ctrl_led s3) = 5" unfolding pc3 w(2) by (simp add: s0_def lst)
  moreover have "bus_idle s2" using w(1) by (simp add: s2_def main_bus)
  moreover have "ctrl_run [] s1 = Some s1" "ctrl_run (map EV_RX (I2C_REG_WRITE_PWM # replicate 24 0 @ [0]) @ [EV_MAIN]) s0 = Some s2"
    unfolding ctrl_run_rx s1_def [symmetric] by (simp_all add: ctrl_step_def s2_def)
  then have "ctrl_reachable s2" using run_reachable [OF r0] by blast
  moreover have "\<not> wwdg_reset s2" using w(9,10) i0(2) w(6)
    by (simp add: s2_def ctrl_main_def exit_startup_mode_def s0_def ctrl_start_def enter_startup_mode_def) (simp add: ctrl_reset_def)
  ultimately show ?thesis using that run run_reachable [OF ctrl_reachable.start run] pc2(1) pc3(1) by blast
qed


lemma write_key:
  assumes "bus_idle s" "ctrl_inv s" "length bs = 5"
  defines "s' \<equiv> fold bus_rx (I2C_REG_WRITE_RESTART_KEY # bs) s"
  shows "i2c_restart_key_buf s' = bs" "i2c_restart_key_state s' AND I2C_RESTART_KEY_READY = I2C_RESTART_KEY_READY"
    "main_pc s' = main_pc s" "wwdg_reset s' = wwdg_reset s"
proof -
  define t where "t = buf_map DMA_RESTART_KEY_BUF (\<lambda>_. bs) (s\<lparr>i2c_dma_recv_buf := [I2C_REG_WRITE_RESTART_KEY], ctrl_reg := I2C_REG_WRITE_RESTART_KEY,
    i2c_dma_state := I2C_DMA_STATE_RECEIVING, dma0 := \<lparr>CNBTR = 5, CM0AR = DMA_RESTART_KEY_BUF, dma_pos = 0\<rparr>\<rparr>)"
  have s': "s' = i2c_received t" unfolding s'_def t_def using assms(1-3) by (intro write_transaction) simp_all
  have t: "ctrl_reg t = I2C_REG_WRITE_RESTART_KEY" "i2c_restart_key_buf t = bs" "main_pc t = main_pc s" "wwdg_reset t = wwdg_reset s"
    by (simp_all add: t_def buf_map_def)
  obtain x y z where m: "i2c_leave_modes t = t\<lparr>startup_mode := x, i2c_standalone_mode_state := y, tim3_enabled := z\<rparr>"
    "x AND 1 \<noteq> 1" "y AND 1 \<noteq> 1" by (rule leave_modes_eq)
  show "i2c_restart_key_buf s' = bs" "i2c_restart_key_state s' AND I2C_RESTART_KEY_READY = I2C_RESTART_KEY_READY"
    "main_pc s' = main_pc s" "wwdg_reset s' = wwdg_reset s"
    by (simp_all add: s' i2c_received_def m(1) i2c_standalone_mode_def Let_def t bit.conj_disj_distrib2)
qed

lemma restart_checksum: "i2c_message_checksum [0xc0, 0xaa, 0xaa, 0xa4] I2C_REG_WRITE_RESTART_KEY = I2C_CONTROLLER_RESTART_KEY_CHECKSUM"
  by (simp add: i2c_message_checksum_def IOMCU_CRC8_INIT_def crc8_byte_unfold crc8_bit_def)

text \<open>
  C23: Restart. After a write of five bytes to the restart register, the main loop resets the
  device exactly when they are the key followed by the checksum of that message.
\<close>

theorem restart_key_resets:
  assumes "ctrl_reachable s" "bus_idle s" "main_pc s = PC_RESTART" "\<not> wwdg_reset s" "length bs = I2C_REG_WRITE_RESTART_KEY_SIZE"
  defines "key \<equiv> [I2C_CONTROLLER_RESTART_KEY_3, I2C_CONTROLLER_RESTART_KEY_2, I2C_CONTROLLER_RESTART_KEY_1, I2C_CONTROLLER_RESTART_KEY_0]"
  shows "\<exists>s'. ctrl_run (map EV_RX (I2C_REG_WRITE_RESTART_KEY # bs) @ [EV_MAIN]) s = Some s'
    \<and> (wwdg_reset s' \<longleftrightarrow> bs = key @ [i2c_message_checksum key I2C_REG_WRITE_RESTART_KEY])"
proof -
  define s1 where "s1 = fold bus_rx (I2C_REG_WRITE_RESTART_KEY # bs) s"
  have inv: "ctrl_inv s" using reachable_inv [OF assms(1)] by simp
  note w = write_key [OF assms(2) inv assms(5), folded s1_def]
  obtain b0 b1 b2 b3 b4 where b: "bs = [b0, b1, b2, b3, b4]" using assms(5) by (auto simp: length_Suc_conv numeral_eq_Suc)
  have "wwdg_reset (ctrl_main s1) \<longleftrightarrow> bs = key @ [i2c_message_checksum key I2C_REG_WRITE_RESTART_KEY]"
    using w assms(3,4) unfolding key_def restart_checksum by (simp add: ctrl_main_def main_restart_def Let_def b)
  moreover have "ctrl_run (map EV_RX (I2C_REG_WRITE_RESTART_KEY # bs) @ [EV_MAIN]) s = Some (ctrl_main s1)"
    unfolding ctrl_run_rx s1_def by (simp add: ctrl_step_def)
  ultimately show ?thesis by blast
qed

theorem restart_key_resets_witness:
  "\<exists>s s'. ctrl_reachable s \<and> ctrl_run (map EV_RX (I2C_REG_WRITE_RESTART_KEY # [0xc0, 0xaa, 0xaa, 0xa4, 0xed]) @ [EV_MAIN]) s = Some s' \<and> wwdg_reset s'"
proof -
  obtain s where s: "ctrl_reachable s" "bus_idle s" "main_pc s = PC_RESTART" "\<not> wwdg_reset s" using running_state by metis
  show ?thesis using s(1) restart_key_resets [OF s, of "[0xc0, 0xaa, 0xaa, 0xa4, 0xed]"] unfolding restart_checksum by auto
qed

section \<open>A PWM table that is never shown\<close>

lemma handler_flags:
  assumes "table_rows l t v rows" "i < LED_ROW_SIZE" "at_op t (row_base rows i) (rows ! i) i j l" "TIM4_UPD_OVF_TRG_IRQHandler n l = Some l'"
  shows "ready_flags l' = ready_flags l"
  using assms
proof (induction n arbitrary: j l)
  case (Suc n)
  let ?l = "snd (tim4_pass l)"
  note p = pass_at_op [OF Suc.prems(1-3)]
  have f: "ready_flags ?l = ready_flags l" using p(3) by (auto simp: ready_flags_def ready_off_time)
  have r: "table_rows ?l t v rows" using Suc.prems(1) p(1) table_rows_cong [of t ?l l] by simp
  show ?case
  proof (cases "fst (tim4_pass l) = TIM4_RETURN")
    case True
    then show ?thesis using Suc.prems(4) f by (simp add: handler_unfold del: TIM4_UPD_OVF_TRG_IRQHandler.simps)
  next
    case False
    then have "at_op t (row_base rows i) (rows ! i) i (Suc j) ?l" using p(4) by (auto split: if_splits)
    then show ?thesis using Suc.IH [OF r Suc.prems(2)] Suc.prems(4) f False by (simp add: handler_unfold del: TIM4_UPD_OVF_TRG_IRQHandler.simps)
  qed
qed simp

lemma swap_clears_flags:
  assumes "led_inv l" "frame_end l" "ready_flags l = LED_STATE_PWM_READY OR LED_STATE_OPS_READY" "TIM4_UPD_OVF_TRG_IRQHandler n l = Some l'"
  shows "ready_flags l' = 0"
proof -
  let ?l = "snd (tim4_pass l)"
  obtain t b i op where f: "after_row t b [op] i l" "row_at l t b [op]" "bit (op_op op) 6" "bit (op_op op) 7"
    using assms(2) by (auto simp: frame_end_def)
  obtain v rows where rows: "table_rows l (next_table l) v rows" using led_inv_next [OF assms(1)] .
  have nt: "next_table l \<noteq> led_ops_table l" using assms(3) led_other_neq by (simp add: next_table_ready)
  have z: "0 < LED_ROW_SIZE" by simp
  have w: "if bit (op_op (last [op])) 7 then next_table l = next_table l \<and> row_base rows 0 = 0 \<and> (0 :: nat) = 0
    else next_table l = t \<and> row_base rows 0 = b + length [op] \<and> 0 = Suc i" using f(4) by simp
  note pn = pass_next [OF f(1,2) _ table_rowsD(1,5) [OF rows z] z w]
  have at: "at_op (next_table l) (row_base rows 0) (rows ! 0) 0 0 ?l" and st: "led_state ?l = 0" and ops: "\<And>u. led_ops u ?l = led_ops u l"
    using pn f(3,4) nt by simp_all
  have "table_rows ?l (next_table l) v rows" using rows ops table_rows_cong [of "next_table l" ?l l] by simp
  note hf = handler_flags [OF this z at]
  obtain k where k: "n = Suc k" using assms(4) by (cases n) auto
  have "ready_flags ?l = 0" by (simp add: ready_flags_def st)
  then show ?thesis using assms(4) hf unfolding k handler_unfold by (auto split: if_splits)
qed

lemma ops_pass: "led_ops u (snd (tim4_pass l)) = led_ops u l"
  by (simp add: tim4_pass_def tim4_start_op_def tim4_next_row_def LED_TABLE_OPS_SWAP_def Let_def led_ops_def split: led_table.split)

lemma ops_handler: "TIM4_UPD_OVF_TRG_IRQHandler n l = Some l' \<Longrightarrow> led_ops u l' = led_ops u l"
  by (induction n arbitrary: l) (auto simp: handler_unfold ops_pass simp del: TIM4_UPD_OVF_TRG_IRQHandler.simps(2) split: if_splits)

lemma frame_end_pwm:
  assumes "st = led_state l OR LED_STATE_PWM_READY"
  shows "frame_end (l\<lparr>led_pwm_table := pwm, led_state := st\<rparr>) = frame_end l"
proof -
  have "led_ops u (l\<lparr>led_pwm_table := pwm, led_state := st\<rparr>) = led_ops u l" for u by (simp add: led_ops_def split: led_table.split)
  then show ?thesis unfolding frame_end_def after_row_def row_at_def by (simp add: assms pwm_ready_flags)
qed

text \<open>
  C24: A PWM table written while an earlier one waits for the end of a frame is lost. At the end
  of the frame the interrupt switches to the earlier table and clears both flags, so the main loop
  has nothing to do and neither operation table is built from the new values.
\<close>

theorem pwm_write_lost:
  assumes "ctrl_reachable s" "bus_idle s" "led_inv (ctrl_led s)" "frame_end (ctrl_led s)" "main_pc s = PC_LED" "length pwm = LED_TOT_SIZE"
    "led_state (ctrl_led s) AND (LED_STATE_PWM_READY OR LED_STATE_OPS_READY) = LED_STATE_PWM_READY OR LED_STATE_OPS_READY"
  shows "\<exists>s'. ctrl_run (map EV_RX (I2C_REG_WRITE_PWM # pwm @ [ack]) @ [EV_TIM4, EV_MAIN]) s = Some s'
    \<and> led_pwm_table (ctrl_led s') = pwm @ [ack] \<and> (\<forall>t. led_ops t (ctrl_led s') = led_ops t (ctrl_led s))
    \<and> led_state (ctrl_led s') AND (LED_STATE_PWM_READY OR LED_STATE_OPS_READY) = 0"
proof -
  define s1 where "s1 = fold bus_rx (I2C_REG_WRITE_PWM # pwm @ [ack]) s"
  have inv: "ctrl_inv s" using reachable_inv [OF assms(1)] by simp
  note w = write_pwm [OF assms(2) inv assms(6), of ack, folded s1_def]
  let ?l = "ctrl_led s1"
  have l: "led_inv ?l" "frame_end ?l" unfolding w(2) using assms(3,4) by (simp_all add: led_inv_pwm frame_end_pwm)
  have fl: "ready_flags ?l = LED_STATE_PWM_READY OR LED_STATE_OPS_READY"
    unfolding w(2) ready_flags_def using assms(7) by (simp add: bit.conj_disj_distrib2)
  obtain l' where l': "TIM4_UPD_OVF_TRG_IRQHandler (LED_COL_SIZE + 2) ?l = Some l'" using handler_returns [OF l(1)] by blast
  have z: "ready_flags l' = 0" by (rule swap_clears_flags [OF l fl l'])
  define s2 where "s2 = s1\<lparr>ctrl_led := l'\<rparr>"
  have "main_pc s2 = PC_LED" using w(6) assms(5) by (simp add: s2_def)
  then have m: "ctrl_led (ctrl_main s2) = l'" using z by (simp add: ctrl_main_def main_led_def s2_def ready_flags_def)
  have "ctrl_run (map EV_RX (I2C_REG_WRITE_PWM # pwm @ [ack]) @ [EV_TIM4, EV_MAIN]) s = Some (ctrl_main s2)"
    unfolding ctrl_run_rx s1_def [symmetric] using l' by (simp add: ctrl_step_def s2_def)
  moreover have "led_ops t l' = led_ops t (ctrl_led s)" for t
    using ops_handler [OF l'] unfolding w(2) by (simp add: led_ops_def split: led_table.split)
  moreover have "led_pwm_table l' = pwm @ [ack]" using pwm_table_handler [OF l'] unfolding w(2) by simp
  ultimately show ?thesis using m z by (auto simp: ready_flags_def)
qed

lemma handler_play:
  "TIM4_UPD_OVF_TRG_IRQHandler n l = Some l' \<Longrightarrow>
   \<exists>p. 0 < p \<and> l' = play_end p l \<and> (\<forall>q < p - 1. fst (tim4_pass (play_end q l)) \<noteq> TIM4_RETURN)"
proof (induction n arbitrary: l)
  case (Suc n)
  let ?l = "snd (tim4_pass l)"
  show ?case
  proof (cases "fst (tim4_pass l) = TIM4_RETURN")
    case True
    then show ?thesis using Suc.prems by (intro exI [of _ 1]) (simp add: handler_unfold play_end_simps del: TIM4_UPD_OVF_TRG_IRQHandler.simps)
  next
    case False
    then obtain p where p: "0 < p" "l' = play_end p ?l" "\<forall>q < p - 1. fst (tim4_pass (play_end q ?l)) \<noteq> TIM4_RETURN"
      using Suc by (auto simp: handler_unfold simp del: TIM4_UPD_OVF_TRG_IRQHandler.simps)
    have "fst (tim4_pass (play_end q l)) \<noteq> TIM4_RETURN" if "q < Suc p - 1" for q
      using that p False by (cases q) (auto simp: play_end_simps)
    then show ?thesis using p(2) by (intro exI [of _ "Suc p"]) (simp add: play_end_simps)
  qed
qed simp

lemma led_inv_play: "led_inv l \<Longrightarrow> led_inv (play_end m l)"
  by (induction m arbitrary: l) (simp_all add: play_end_simps led_inv_pass)

lemma again_not_end:
  assumes "led_inv l" "fst (tim4_pass l) \<noteq> TIM4_RETURN"
  shows "\<not> frame_end (snd (tim4_pass l))"
proof -
  let ?l = "snd (tim4_pass l)"
  obtain v rows i where rows: "table_rows l (led_ops_table l) v rows" and pl: "playing (led_ops_table l) rows i l" and i: "i < LED_ROW_SIZE"
    using assms(1) by (auto simp: led_inv_def playing_def)
  have "led_state ?l AND LED_STATE_OFF_TIME = 0"
  proof -
    from pl consider (op) j where "at_op (led_ops_table l) (row_base rows i) (rows ! i) i j l"
      | (dark) "after_row (led_ops_table l) (row_base rows i) (rows ! i) i l" by (auto simp: playing_def)
    then show ?thesis
    proof cases
      case op
      then show ?thesis using pass_at_op(4) [OF rows i op] assms(2) by (auto simp: at_op_def split: if_splits)
    next
      case dark
      define t' where "t' = (if i = LED_ROW_SIZE - 1 then next_table l else led_ops_table l)"
      obtain v' rows' where r': "table_rows l t' v' rows'" "i \<noteq> LED_ROW_SIZE - 1 \<longrightarrow> rows' = rows"
        using led_inv_next [OF assms(1)] rows unfolding t'_def by metis
      define i' where "i' = (if i = LED_ROW_SIZE - 1 then 0 else Suc i)"
      have i': "i' < LED_ROW_SIZE" using i by (auto simp: i'_def)
      have w: "if i = LED_ROW_SIZE - 1 then t' = next_table l \<and> i' = 0 else t' = led_ops_table l \<and> rows' = rows \<and> i' = Suc i"
        using r'(2) by (simp add: t'_def i'_def)
      show ?thesis using pass_dark(1) [OF rows i dark r'(1) i' w] by (simp add: at_op_def)
    qed
  qed
  then show ?thesis by (auto simp: frame_end_def after_row_def)
qed

fun tim4_irqs :: "nat \<Rightarrow> led \<Rightarrow> led option" where
  "tim4_irqs 0 l = Some l"
| "tim4_irqs (Suc k) l = (case TIM4_UPD_OVF_TRG_IRQHandler (LED_COL_SIZE + 2) l of None \<Rightarrow> None | Some l' \<Rightarrow> tim4_irqs k l')"

lemma irqs_reach:
  assumes "led_inv l" "frame_end (play_end m l)"
  shows "\<exists>k. tim4_irqs k l = Some (play_end m l)"
  using assms
proof (induction m arbitrary: l rule: less_induct)
  case (less m)
  show ?case
  proof (cases "m = 0")
    case True
    then show ?thesis by (intro exI [of _ 0]) (simp add: play_end_simps)
  next
    case False
    obtain l' where l': "TIM4_UPD_OVF_TRG_IRQHandler (LED_COL_SIZE + 2) l = Some l'" using handler_returns [OF less.prems(1)] by blast
    obtain p where p: "0 < p" "l' = play_end p l" "\<forall>q < p - 1. fst (tim4_pass (play_end q l)) \<noteq> TIM4_RETURN" using handler_play [OF l'] by blast
    have "p \<le> m"
    proof (rule ccontr)
      assume "\<not> p \<le> m"
      then have "m - 1 < p - 1" using False by simp
      then have "\<not> frame_end (snd (tim4_pass (play_end (m - 1) l)))" using p(3) again_not_end led_inv_play [OF less.prems(1)] by blast
      moreover have "play_end m l = snd (tim4_pass (play_end (m - 1) l))" using False play_end_add [of "m - 1" 1 l] by (simp add: play_end_simps)
      ultimately show False using less.prems(2) by simp
    qed
    then have e: "play_end m l = play_end (m - p) l'" using p(2) play_end_add [of p "m - p" l] by simp
    have "m - p < m" using p(1) False by simp
    moreover have "led_inv l'" using p(2) led_inv_play [OF less.prems(1)] by simp
    ultimately obtain k where "tim4_irqs k l' = Some (play_end (m - p) l')" using less.IH less.prems(2) e by metis
    then show ?thesis using l' e by (intro exI [of _ "Suc k"]) simp
  qed
qed

lemma run_irqs: "tim4_irqs k (ctrl_led s) = Some l \<Longrightarrow> ctrl_run (replicate k EV_TIM4) s = Some (s\<lparr>ctrl_led := l\<rparr>)"
proof (induction k arbitrary: s)
  case (Suc k)
  then obtain l1 where l1: "TIM4_UPD_OVF_TRG_IRQHandler (LED_COL_SIZE + 2) (ctrl_led s) = Some l1" "tim4_irqs k l1 = Some l"
    by (auto split: option.splits)
  then show ?case using Suc.IH [of "s\<lparr>ctrl_led := l1\<rparr>"] by (simp add: ctrl_step_def)
qed simp

text \<open>A reachable state at the end of a frame with a table waiting.\<close>

lemma waiting_state:
  obtains s where "ctrl_reachable s" "bus_idle s" "led_inv (ctrl_led s)" "frame_end (ctrl_led s)" "main_pc s = PC_LED"
    "ready_flags (ctrl_led s) = LED_STATE_PWM_READY OR LED_STATE_OPS_READY"
proof -
  obtain s where s: "ctrl_reachable s" "bus_idle s" "led_inv (ctrl_led s)" "main_pc s = PC_LED" "led_state (ctrl_led s) = 5"
    using running_state by metis
  define t where "t = ctrl_main (ctrl_main (ctrl_main s))"
  have "ctrl_run [EV_MAIN, EV_MAIN, EV_MAIN] s = Some t" by (simp add: ctrl_step_def t_def)
  then have rt: "ctrl_reachable t" using run_reachable [OF s(1)] by blast
  have bt: "bus_idle t" using s(2) by (simp add: t_def main_bus)
  have lt: "ctrl_led t = led_update_arr (ctrl_led s)" "main_pc t = PC_LED"
    using s(4,5) by (simp_all add: t_def ctrl_main_def main_led_def main_knob_def main_restart_def Let_def)
  have it: "led_inv (ctrl_led t)" unfolding lt using s(3) by (rule led_inv_update)
  have ft: "ready_flags (ctrl_led t) = 3" unfolding lt ready_flags_def by (simp add: led_update_arr_fields s(5))
  obtain m where m: "frame_end (play_end m (ctrl_led t))" "kept (ctrl_led t) (play_end m (ctrl_led t))" using led_inv_frame_end [OF it] by blast
  obtain k where "tim4_irqs k (ctrl_led t) = Some (play_end m (ctrl_led t))" using irqs_reach [OF it m(1)] by blast
  then have "ctrl_run (replicate k EV_TIM4) t = Some (t\<lparr>ctrl_led := play_end m (ctrl_led t)\<rparr>)" by (rule run_irqs)
  then have "ctrl_reachable (t\<lparr>ctrl_led := play_end m (ctrl_led t)\<rparr>)" using run_reachable [OF rt] by blast
  moreover have "led_inv (play_end m (ctrl_led t))" using led_inv_play [OF it] .
  ultimately show ?thesis using that [of "t\<lparr>ctrl_led := play_end m (ctrl_led t)\<rparr>"] bt lt(2) m ft by (simp add: bus_idle_def kept_def)
qed

theorem pwm_write_lost_witness:
  "\<exists>s s'. ctrl_reachable s \<and> ctrl_run (map EV_RX (I2C_REG_WRITE_PWM # replicate 24 255 @ [0]) @ [EV_TIM4, EV_MAIN]) s = Some s'
     \<and> led_pwm_table (ctrl_led s') = replicate 24 255 @ [0] \<and> led_ops LED_TABLE_OPS_A (ctrl_led s') = led_ops LED_TABLE_OPS_A (ctrl_led s)"
proof -
  obtain s where s: "ctrl_reachable s" "bus_idle s" "led_inv (ctrl_led s)" "frame_end (ctrl_led s)" "main_pc s = PC_LED"
    "ready_flags (ctrl_led s) = LED_STATE_PWM_READY OR LED_STATE_OPS_READY" by (rule waiting_state)
  show ?thesis using s(1) pwm_write_lost [OF s(1-5) _ s(6) [unfolded ready_flags_def], of "replicate 24 255" 0] by auto
qed

text \<open>
  C25: The wrong half of the sample buffer. When the first half of the buffer (elements 0 to 119) has
  been filled, the interrupt announces it and the main loop processes elements 120 to 239, the half the
  DMA is about to overwrite; the new samples are not looked at.
\<close>

theorem half_transfer_processes_other_half:
  assumes "adc_proc_state s = 0" "main_pc s = PC_KNOB" "length (knob_psense_dma_buf s) = KNOB_PSENSE_DMA_BUF_SIZE" "length vs = 120"
  shows "\<exists>s'. ctrl_run [EV_ADC_HT vs, EV_MAIN] s = Some s' \<and> get_at 0 120 (knob_psense_dma_buf s') = vs
    \<and> ctrl_knob s' = fold (\<lambda>i k. proc_point (knob_psense_dma_buf s) i k) [120..<240] (ctrl_knob s)"
proof -
  define buf where "buf = put_at 0 vs (knob_psense_dma_buf s)"
  have "buf ! i = knob_psense_dma_buf s ! i" if "120 \<le> i" "i < 240" for i
    using that assms(3,4) by (simp add: buf_def put_at_nth)
  then have "fold (proc_point buf) [120..<240] k = fold (proc_point (knob_psense_dma_buf s)) [120..<240] k" for k
    by (intro fold_cong) (auto simp: proc_point_def fun_eq_iff)
  then show ?thesis using assms
    by (simp add: ctrl_step_def DMA1_CHANNEL0_1_IRQHandler_def adc_half_def ctrl_main_def main_knob_def knob_encoder_proc_data_def buf_def [symmetric])
      (simp add: buf_def)
qed

theorem half_transfer_processes_other_half_witness:
  "\<exists>s'. ctrl_run [EV_ADC_HT (replicate 120 255), EV_MAIN] (ctrl_start\<lparr>main_pc := PC_KNOB\<rparr>) = Some s'
     \<and> ctrl_knob s' = fold (\<lambda>i k. proc_point (replicate 240 0) i k) [120..<240] knob_reset"
  using half_transfer_processes_other_half [of "ctrl_start\<lparr>main_pc := PC_KNOB\<rparr>" "replicate 120 255"]
  by (auto simp: ctrl_start_def enter_startup_mode_def ctrl_reset_def)

end
