(* ===== verification/Ioutil_Properties.thy ===== *)
theory Ioutil_Properties
  imports Ioutil_Device Ctrl_Properties
begin

text \<open>
  The properties of the host tool: what its commands do to a device that runs the bootloader or
  the controller application, that its loops end, and what its command line accepts.
\<close>

section \<open>Installing firmware\<close>

text \<open>Installation as an operation on memory: the padded image at the application base and the
  header that describes it.\<close>

definition install :: "bytes \<Rightarrow> u16 \<Rightarrow> u8 \<Rightarrow> flash_mem \<Rightarrow> flash_mem" where
  "install fw ver autoboot m = flash_put (flash_put m 0xa000 (padded fw)) 0x1000
     (header_block \<lparr>as_size = of_nat (length (padded fw)), as_crc16 = crc16 IOMCU_CRC16_INIT (padded fw), as_app_ver = ver, as_autoboot = autoboot\<rparr>)"

lemma install_eq:
  "mem_with_block (flash_put m (320 * FLASH_BLOCK_SIZE) (padded fw)) 0x1000 (header_block (install_info g fw st))
     = install fw (write_fw_app_ver g) (st AND APP_STATUS_AUTOBOOT_MASK) m"
  by (simp add: install_def install_info_def mem_with_block_put)

lemma header_installed: "header_bytes (flash_put m 0x1000 (header_block p)) = enc_eeprom_data (header_data p)"
  by (rule nth_equalityI) (auto simp: header_bytes_def flash_put_def unat_word_ariths unat_of_nat header_block_def nth_append)

lemma header_valid_installed: "header_valid (flash_put m 0x1000 (header_block p))"
proof -
  have "crc8 IOMCU_CRC8_INIT (take 13 (enc_eeprom_data (header_data p))) = ed_crc8 (header_data p)"
    "ed_magic (header_data p) = BTLDR_EEPROM_DATA_MAGIC"
    by (simp_all add: header_data_def Let_def enc_eeprom_data_def)
  then show ?thesis using dec_enc_eeprom_data [of "header_data p" "[]"] by (simp add: header_valid_def header_installed)
qed

lemma header_data_fields: "ed_app_size (header_data p) = as_size p" "ed_app_crc16 (header_data p) = as_crc16 p"
  by (simp_all add: header_data_def Let_def)

lemma installed_verified:
  assumes "length fw \<le> 0x6000"
  shows "app_verified (install fw ver ab m) \<longleftrightarrow> install fw ver ab m 0xa000 = BTLDR_STM8L15X_INT_OPCODE"
proof -
  let ?m = "install fw ver ab m"
  let ?n = "length (padded fw)"
  let ?p = "\<lparr>as_size = of_nat ?n, as_crc16 = crc16 IOMCU_CRC16_INIT (padded fw), as_app_ver = ver, as_autoboot = ab\<rparr>"
  have n: "?n \<le> 0x6000" using image_blocks_bound [OF assms] by simp
  have un: "unat (of_nat ?n :: u32) = ?n" using n by (intro unat_small) simp
  have d: "dec_eeprom_data (header_bytes ?m) = header_data ?p"
    using dec_enc_eeprom_data [of "header_data ?p" "[]"] by (simp add: install_def header_installed)
  have "?n div 0x80 * 0x80 = ?n" by simp
  moreover have "app_image ?m ?n = padded fw"
  proof (rule nth_equalityI)
    fix i assume "i < length (app_image ?m ?n)"
    then have i: "i < ?n" by (simp add: app_image_def)
    then have "unat (0xa000 + of_nat i :: u16) = 0xa000 + i" using n by (simp add: unat_word_ariths unat_of_nat)
    then show "app_image ?m ?n ! i = padded fw ! i" using i n by (simp add: app_image_def install_def flash_put_def del: length_padded)
  qed (simp add: app_image_def)
  ultimately show ?thesis
    using n un header_valid_installed [of "flash_put m 0xa000 (padded fw)" ?p]
    unfolding app_verified_def Let_def d header_data_fields by (simp add: install_def [symmetric] del: length_padded)
qed

lemma at_btldr_id: "btldr_addr g = I2C_BTLDR_ADDR \<Longrightarrow> at_btldr g = g"
  by (simp add: at_btldr_def)

lemma host_files:
  "env_fopen_w (btldr_host ram fs) path" "env_fwrite (btldr_host ram fs) path buf = length buf"
  "fs path = Some fw \<Longrightarrow> env_fopen_r (btldr_host ram fs) path = Some (length fw)"
  "fs path = Some fw \<Longrightarrow> env_fread (btldr_host ram fs) path (length fw) = fw"
  by (simp_all add: btldr_host_def)

lemma run_write_fw:
  assumes "dev_serving (io_dev s)" "btldr_addr g = I2C_BTLDR_ADDR" "ioutil_cmd g = IOUTIL_CMD_WRITE_FW" "ioutil_path g = Some path"
    "fs path = Some fw" "length fw \<le> 0x6000"
  shows "\<exists>s'. ioutil_run (btldr_host ram fs) g s = Some (0, s') \<and> dev_serving (io_dev s') \<and> io_files s' = io_files s
    \<and> dev_flash (io_dev s') = install fw (write_fw_app_ver g) (ai_status (dev_app_info (io_dev s)) AND APP_STATUS_AUTOBOOT_MASK) (dev_flash (io_dev s))
    \<and> ai_size (dev_app_info (io_dev s')) = of_nat (image_blocks fw * FLASH_BLOCK_SIZE)"
proof -
  note g = at_btldr_id [OF assms(2)]
  obtain s1 st info where s1: "ioutil_run (btldr_host ram fs) g s = ioutil_dispatch (btldr_host ram fs) g st info s1"
    "dev_serving (io_dev s1)" "io_files s1 = io_files s" "dev_flash (io_dev s1) = dev_flash (io_dev s)" "dev_app_info (io_dev s1) = dev_app_info (io_dev s)"
    using bl.run_dispatch [of s g ram fs] assms(1,3) unfolding g bl.goes_def by auto
  obtain s2 where s2: "ioutil_write_fw (btldr_host ram fs) g s1 = Some (0, s2)" "dev_serving (io_dev s2)" "io_files s2 = io_files s"
    "dev_flash (io_dev s2) = install fw (write_fw_app_ver g) (ai_status (dev_app_info (io_dev s)) AND APP_STATUS_AUTOBOOT_MASK) (dev_flash (io_dev s))"
    "ai_size (dev_app_info (io_dev s2)) = of_nat (image_blocks fw * FLASH_BLOCK_SIZE)"
    using bl.write_fw_ok [of s1 g path ram fs fw] s1 assms(4,6) host_files(3,4) [where fs = fs and path = path, OF assms(5)] unfolding g bl.goes_def install_eq by auto
  then show ?thesis using s1(1) assms(3) by (auto simp: ioutil_dispatch_def)
qed

text \<open>
  C26: Installing firmware. With a device that serves commands, \<open>write-fw\<close> succeeds for every file
  that fits, and what it has done to the memory of the device, through some thousand bus events,
  is the abstract installation: the padded file at the application base, a header that describes
  it with the autoboot flag kept, and nothing else. The bootloader then accepts the application
  exactly when its first byte is the opcode of an interrupt vector.
\<close>

theorem write_fw_installs:
  assumes "dev_serving (io_dev s)" "btldr_addr g = I2C_BTLDR_ADDR" "ioutil_cmd g = IOUTIL_CMD_WRITE_FW" "ioutil_path g = Some path"
    "fs path = Some fw" "length fw \<le> 0x6000"
  shows "\<exists>s'. ioutil_run (btldr_host ram fs) g s = Some (0, s') \<and> dev_serving (io_dev s')
    \<and> dev_flash (io_dev s') = install fw (write_fw_app_ver g) (ai_status (dev_app_info (io_dev s)) AND APP_STATUS_AUTOBOOT_MASK) (dev_flash (io_dev s))
    \<and> (app_verified (dev_flash (io_dev s')) \<longleftrightarrow> dev_flash (io_dev s') 0xa000 = BTLDR_STM8L15X_INT_OPCODE)"
  using run_write_fw [where fs = fs, OF assms] installed_verified [OF assms(6)] by metis

text \<open>A host with one firmware file and a device without an application.\<close>

definition sample_io :: "main_config io" where
  "sample_io = \<lparr>io_dev = (MAIN_RUN, sample_dev), io_out = [], io_sleeps = [], io_files = []\<rparr>"

definition sample_fs :: "string \<Rightarrow> bytes option" where
  "sample_fs p = (if p = ''fw.bin'' then Some [0x82, 1, 2] else None)"

definition sample_opts :: "ioutil_cmd \<Rightarrow> string \<Rightarrow> ioutil_opts" where
  "sample_opts cmd path = ioutil_defaults\<lparr>ioutil_cmd := cmd, ioutil_path := Some path, write_fw_app_ver := 7\<rparr>"

lemma sample_io: "dev_serving (io_dev sample_io)"
  using sample_dev_ready by (simp add: sample_io_def dev_serving_def)

lemma sample_opts: "btldr_addr (sample_opts cmd path) = I2C_BTLDR_ADDR" "ioutil_cmd (sample_opts cmd path) = cmd" "ioutil_path (sample_opts cmd path) = Some path"
  by (simp_all add: sample_opts_def ioutil_defaults_def)

theorem write_fw_installs_witness:
  "\<exists>s'. ioutil_run (btldr_host (\<lambda>i. 0) sample_fs) (sample_opts IOUTIL_CMD_WRITE_FW ''fw.bin'') sample_io = Some (0, s')
     \<and> app_verified (dev_flash (io_dev s'))"
proof -
  have fs: "sample_fs ''fw.bin'' = Some [0x82, 1, 2]" "length [0x82, 1, 2 :: u8] \<le> 0x6000" by (simp_all add: sample_fs_def)
  have "install [0x82, 1, 2] v a m 0xa000 = 0x82" for v a m
    by (simp add: install_def flash_put_def padded_def image_blocks_def)
  then show ?thesis using write_fw_installs [where fs = sample_fs and ram = "\<lambda>i. 0", OF sample_io sample_opts fs] by force
qed

section \<open>Reading it back\<close>



section \<open>Dumping and erasing\<close>

text \<open>
  C28: \<open>read-data\<close> and \<open>read-eeprom\<close> write exactly the bytes of the application area and of the
  free EEPROM blocks to the file and leave the memory of the device alone.
\<close>

theorem flash_dumped:
  assumes "dev_serving (io_dev s)" "btldr_addr g = I2C_BTLDR_ADDR" "ioutil_path g = Some path"
    "ioutil_cmd g = IOUTIL_CMD_READ_DATA \<or> ioutil_cmd g = IOUTIL_CMD_READ_EEPROM"
  shows "\<exists>s'. ioutil_run (btldr_host ram fs) g s = Some (0, s') \<and> dev_serving (io_dev s') \<and> dev_flash (io_dev s') = dev_flash (io_dev s)
    \<and> io_files s' = io_files s @ [(path, if ioutil_cmd g = IOUTIL_CMD_READ_DATA then flash_get (dev_flash (io_dev s)) 0xa000 0x6000
        else flash_get (dev_flash (io_dev s)) 0x1080 0x380)]"
proof -
  note g = at_btldr_id [OF assms(2)]
  obtain s1 st info where s1: "ioutil_run (btldr_host ram fs) g s = ioutil_dispatch (btldr_host ram fs) g st info s1"
    "dev_serving (io_dev s1)" "io_files s1 = io_files s" "dev_flash (io_dev s1) = dev_flash (io_dev s)"
    using bl.run_dispatch [of s g ram fs] assms(1,4) unfolding g bl.goes_def by auto
  show ?thesis
    using s1 assms(3,4) bl.read_data_ok [of s1 g path ram fs] bl.read_eeprom_ok [of s1 g path ram fs] host_files(1,2) [of ram fs]
    unfolding g by (auto simp: ioutil_dispatch_def)
qed

theorem flash_dumped_witness:
  "\<exists>s'. ioutil_run (btldr_host (\<lambda>i. 0) sample_fs) (sample_opts IOUTIL_CMD_READ_EEPROM ''out'') sample_io = Some (0, s')
     \<and> map fst (io_files s') = [''out'']"
  using flash_dumped [where fs = sample_fs and ram = "\<lambda>i. 0", OF sample_io sample_opts(1,3) disjI2 [OF sample_opts(2)], of "''out''"]
  by (auto simp: sample_io_def)

text \<open>
  C29: \<open>erase-data\<close> zeroes the application area and nothing else, but \<open>erase-eeprom\<close> never erases
  anything: it sends the EEPROM addresses to the registers of the data flash, the bootloader
  rejects the first one, and the command ends with code 1 and the memory as it was.
\<close>

theorem erase_commands:
  assumes "dev_serving (io_dev s)" "btldr_addr g = I2C_BTLDR_ADDR"
    "ioutil_cmd g = IOUTIL_CMD_ERASE_DATA \<or> ioutil_cmd g = IOUTIL_CMD_ERASE_EEPROM"
  shows "\<exists>s'. ioutil_run (btldr_host ram fs) g s = Some (if ioutil_cmd g = IOUTIL_CMD_ERASE_DATA then 0 else 1, s') \<and> dev_serving (io_dev s')
    \<and> dev_flash (io_dev s') = (if ioutil_cmd g = IOUTIL_CMD_ERASE_DATA then flash_put (dev_flash (io_dev s)) 0xa000 (replicate 0x6000 0)
        else dev_flash (io_dev s))"
proof -
  note g = at_btldr_id [OF assms(2)]
  obtain s1 st info where s1: "ioutil_run (btldr_host ram fs) g s = ioutil_dispatch (btldr_host ram fs) g st info s1"
    "dev_serving (io_dev s1)" "dev_flash (io_dev s1) = dev_flash (io_dev s)"
    using bl.run_dispatch [of s g ram fs] assms(1,3) unfolding g bl.goes_def by auto
  obtain s2 where s2: "ioutil_erase_data (btldr_host ram fs) g s1 = Some (0, s2)" "dev_serving (io_dev s2)"
    "dev_flash (io_dev s2) = flash_put (dev_flash (io_dev s)) 0xa000 (replicate 0x6000 0)"
    using bl.erase_data_ok [of s1 ram fs g] s1 unfolding g bl.goes_def by auto
  obtain s3 where s3: "ioutil_erase_eeprom (btldr_host ram fs) g s1 = Some (1, s3)" "dev_serving (io_dev s3)"
    "dev_flash (io_dev s3) = dev_flash (io_dev s)"
    using bl.erase_eeprom_rejected [of s1 ram fs g] s1 unfolding g bl.goes_def by auto
  show ?thesis using s1(1) assms(3) s2 s3 by (auto simp: ioutil_dispatch_def)
qed

theorem erase_commands_witness:
  "\<exists>s'. ioutil_run (btldr_host (\<lambda>i. 0) sample_fs) (sample_opts IOUTIL_CMD_ERASE_EEPROM ''out'') sample_io = Some (1, s')
     \<and> dev_flash (io_dev s') = dev_flash (io_dev sample_io)"
  using erase_commands [where fs = sample_fs and ram = "\<lambda>i. 0", OF sample_io sample_opts(1) disjI2 [OF sample_opts(2)]]
  by (auto simp: sample_opts(2))

section \<open>The block loop ends\<close>

lemma round_up_dvd:
  assumes "a = ROUND_UP_ADDR a bs" "bs \<noteq> 0" "unat bs \<le> 0xffff"
  shows "unat bs dvd unat a"
proof -
  let ?x = "a + bs - 1"
  have "unat (?x div bs) * unat bs \<le> unat ?x" by (simp add: unat_div)
  then have "unat (?x div bs) * unat bs < 2 ^ 32" using unsigned_less [of ?x, where ?'a = nat] by simp
  then have "unat (?x div bs * bs) = unat (?x div bs) * unat bs" by (simp add: unat_word_ariths)
  then show ?thesis using assms(1) unfolding ROUND_UP_ADDR_def by (metis dvd_triv_right)
qed

lemma loop_returns:
  assumes "unat bs dvd unat left" "bs \<noteq> 0" "unat left \<le> n"
  shows "\<exists>left' buf' s'. rdwr_loop n E g base pos left bs ft delay rd buf s = Some (left', buf', s') \<and> left' \<le> left"
  using assms
proof (induction n arbitrary: base pos left buf s)
  case 0
  then have "left = 0" by (simp add: unsigned_eq_0_iff)
  then show ?case by simp
next
  case (Suc n)
  show ?case
  proof (cases "left = 0")
    case True
    then show ?thesis by simp
  next
    case False
    have pos: "0 < unat bs" "0 < unat left" using False Suc.prems(2) by (simp_all add: unat_gt_0)
    then have le: "unat bs \<le> unat left" using Suc.prems(1) by (auto dest: dvd_imp_le)
    then have u: "unat (left - bs) = unat left - unat bs" by (simp add: unat_sub word_le_nat_alt)
    have dv: "unat bs dvd unat (left - bs)" unfolding u using Suc.prems(1) by (simp add: dvd_diff_nat)
    have fuel: "unat (left - bs) \<le> n" unfolding u using Suc.prems(3) pos by simp
    have sub: "left - bs \<le> left" unfolding word_le_nat_alt u by simp
    obtain ret buf1 s1 where op: "(if rd then (let (ret, blk, s1) = ioutil_read_flash E g base (unat bs) ft delay s
                          in (ret, if ret = 0 then put_at pos blk buf else buf, s1))
              else (let (ret, s1) = ioutil_write_flash E g base (get_at pos (unat bs) buf) ft delay s in (ret, buf, s1))) = (ret, buf1, s1)"
      by (rule prod_cases3)
    show ?thesis
    proof (cases "ret = 0")
      case True
      obtain left' buf' s' where rest: "rdwr_loop n E g (base + bs) (pos + unat bs) (left - bs) bs ft delay rd buf1 s1 = Some (left', buf', s')" "left' \<le> left - bs"
        using Suc.IH [OF dv Suc.prems(2) fuel] by blast
      have "left' \<le> left" using rest(2) sub by (rule order_trans)
      then show ?thesis unfolding rdwr_loop.simps op using False True rest(1) by simp
    next
      case ret: False
      then show ?thesis unfolding rdwr_loop.simps op using False by simp
    qed
  qed
qed

text \<open>
  C30: Whatever the device answers and the host does, the block loop of a transfer returns: with a
  block size other than zero it never runs forever, and reports at most the size it was asked for.
\<close>

theorem block_transfer_returns:
  assumes "blocksize \<noteq> 0"
  shows "\<exists>n buf' s'. ioutil_rdwr_flash_block E g base sz blocksize ft delay buf rd s = Some (n, buf', s') \<and> n \<le> sz"
proof -
  let ?bs = "ucast blocksize :: u32"
  have lt: "unat blocksize < 0x10000" using unsigned_less [of blocksize, where ?'a = nat] by simp
  then have u: "unat ?bs = unat blocksize" by (simp add: unsigned_ucast_eq take_bit_nat_eq_self)
  have bs: "?bs \<noteq> 0" using assms u by (metis unsigned_0 unsigned_word_eqI)
  have small: "unat ?bs \<le> 0xffff" unfolding u using lt by simp
  show ?thesis
  proof (cases "base = ROUND_UP_ADDR base ?bs \<and> sz = ROUND_UP_ADDR sz ?bs")
    case True
    then have "unat ?bs dvd unat sz" using round_up_dvd bs small by blast
    then obtain left' buf' s' where "rdwr_loop (unat sz) E g base 0 sz ?bs ft delay rd buf s = Some (left', buf', s')" "left' \<le> sz"
      using loop_returns [OF _ bs, of sz "unat sz"] by blast
    moreover from this(2) have "sz - left' \<le> sz" by (simp add: word_le_nat_alt unat_sub)
    ultimately show ?thesis unfolding ioutil_rdwr_flash_block_def Let_def using True bs by simp
  next
    case False
    then show ?thesis unfolding ioutil_rdwr_flash_block_def Let_def using bs by auto
  qed
qed

theorem block_transfer_returns_witness:
  "\<exists>n buf' s'. ioutil_rdwr_flash_block (btldr_host (\<lambda>i. 0) sample_fs) ioutil_defaults 0xa000 0x100 0x80 IOUTIL_DATA_FLASH 0 (replicate 256 0) False sample_io
     = Some (n, buf', s') \<and> n \<le> 0x100"
  by (rule block_transfer_returns) simp

section \<open>Autoboot\<close>



section \<open>Stopping the application\<close>

text \<open>The controller application on the bus: it answers to its own address and is only written to.\<close>

definition ctrl_ioctl :: "i2c_msg list \<Rightarrow> ctrl \<Rightarrow> bool \<times> i2c_msg list \<times> ctrl" where
  "ctrl_ioctl msgs c = (if \<exists>m \<in> set msgs. msg_addr m \<noteq> I2C_APP_ADDR then (False, msgs, c) else (True, msgs, fold bus_rx (concat (map msg_buf msgs)) c))"

definition ctrl_host :: "ctrl host" where
  "ctrl_host = \<lparr>env_open = \<lambda>_. True, env_ioctl = ctrl_ioctl, env_malloc = \<lambda>_. True, env_fopen_r = \<lambda>_. None, env_fread = \<lambda>_ _. [],
     env_fopen_w = \<lambda>_. False, env_fwrite = \<lambda>_ _. 0, env_strerror = []\<rparr>"

lemma ctrl_write:
  "ioutil_reg_write ctrl_host g addr reg dat s
     = (if addr = I2C_APP_ADDR then (RW_ACK, s\<lparr>io_dev := fold bus_rx (reg # dat @ [i2c_message_checksum dat reg]) (io_dev s)\<rparr>) else (RW_ERROR_SEND, s))"
  by (simp add: ioutil_reg_write_def i2c_reg_write_def i2c_rw_def ctrl_host_def ctrl_ioctl_def Let_def)

lemma stop_loop_keeps: "btldr_addr g \<noteq> I2C_APP_ADDR \<Longrightarrow> io_dev (snd (stop_loop n ctrl_host g s)) = io_dev s"
proof (induction n arbitrary: s)
  case 0
  then show ?case by (subst stop_loop.simps) (simp add: ioutil_wait_def ioutil_start_def ctrl_write io_usleep_def Let_def)
next
  case (Suc n)
  then show ?case by (subst stop_loop.simps) (simp add: ioutil_wait_def ioutil_start_def ctrl_write io_usleep_def Let_def)
qed

text \<open>
  C32: \<open>stop\<close> against the running controller application: the restart message the tool sends, with
  its default key, is the one the application resets on. At the next pass of the main loop the
  application triggers the watchdog.
\<close>

theorem stop_resets_controller:
  assumes "ctrl_reachable (io_dev s)" "bus_idle (io_dev s)" "main_pc (io_dev s) = PC_RESTART" "app_addr g = I2C_APP_ADDR"
    "btldr_addr g \<noteq> I2C_APP_ADDR" "app_restart_key g = app_restart_key ioutil_defaults"
  shows "\<exists>c. ctrl_run [EV_MAIN] (io_dev (snd (ioutil_stop ctrl_host g s))) = Some c \<and> wwdg_reset c"
proof -
  let ?key = "[0xc0, 0xaa, 0xaa, 0xa4] :: bytes"
  define c where "c = fold bus_rx (I2C_REG_WRITE_RESTART_KEY # ?key @ [i2c_message_checksum ?key I2C_REG_WRITE_RESTART_KEY]) (io_dev s)"
  have key: "app_restart_key g = ?key" using assms(6) by (simp add: ioutil_defaults_def)
  have inv: "ctrl_inv (io_dev s)" using reachable_inv [OF assms(1)] by simp
  have w: "i2c_restart_key_buf c = ?key @ [0xed]" "i2c_restart_key_state c AND I2C_RESTART_KEY_READY = I2C_RESTART_KEY_READY" "main_pc c = main_pc (io_dev s)"
    using write_key [OF assms(2) inv, of "?key @ [i2c_message_checksum ?key I2C_REG_WRITE_RESTART_KEY]"] restart_checksum by (simp_all add: c_def)
  have "io_dev (snd (ioutil_stop ctrl_host g s)) = c"
    using stop_loop_keeps [OF assms(5)] unfolding ioutil_stop_def ctrl_write
    by (simp add: assms(4) key c_def Let_def case_prod_beta printf_def io_usleep_def)
  moreover have "wwdg_reset (ctrl_main c)" using w assms(3) by (simp add: ctrl_main_def main_restart_def Let_def)
  ultimately show ?thesis by (simp add: ctrl_step_def)
qed

theorem stop_resets_controller_witness:
  "\<exists>s c. ctrl_reachable (io_dev s) \<and> ctrl_run [EV_MAIN] (io_dev (snd (ioutil_stop ctrl_host ioutil_defaults s))) = Some c \<and> wwdg_reset c"
proof -
  obtain d where d: "ctrl_reachable d" "bus_idle d" "main_pc d = PC_RESTART" using running_state by metis
  define s where "s = \<lparr>io_dev = d, io_out = [], io_sleeps = [], io_files = []\<rparr>"
  have "\<exists>c. ctrl_run [EV_MAIN] (io_dev (snd (ioutil_stop ctrl_host ioutil_defaults s))) = Some c \<and> wwdg_reset c"
    by (rule stop_resets_controller) (simp_all add: s_def d ioutil_defaults_def)
  then show ?thesis using d(1) by (intro exI [of _ s]) (simp add: s_def)
qed


section \<open>The command line\<close>

text \<open>What the rest of the tool takes for granted of its options.\<close>

definition addr_ok :: "u8 \<Rightarrow> bool" where
  "addr_ok a \<longleftrightarrow> I2C_ADDR_MIN \<le> uint a \<and> uint a \<le> I2C_ADDR_MAX"

definition opts_typed :: "ioutil_opts \<Rightarrow> bool" where
  "opts_typed g \<longleftrightarrow> addr_ok (app_addr g) \<and> addr_ok (btldr_addr g) \<and> length (app_restart_key g) = 4 \<and> length (btldr_start_key g) = 4"

definition needs_path :: "ioutil_cmd \<Rightarrow> bool" where
  "needs_path cmd \<longleftrightarrow> cmd \<in> {IOUTIL_CMD_WRITE_FW, IOUTIL_CMD_READ_FW, IOUTIL_CMD_READ_DATA, IOUTIL_CMD_READ_EEPROM}"

lemma addr_typed: "I2C_ADDR_MIN \<le> v \<Longrightarrow> v \<le> I2C_ADDR_MAX \<Longrightarrow> addr_ok (word_of_int v)"
  by (simp add: addr_ok_def uint_word_of_int)

lemma process_opt_typed: "process_opt c arg g = Inr g' \<Longrightarrow> opts_typed g \<Longrightarrow> opts_typed g' \<and> ioutil_cmd g' = ioutil_cmd g"
  by (cases c) (auto simp: process_opt_def opts_typed_def key_bytes_def Let_def not_less intro!: addr_typed split: prod.splits if_splits)

lemma process_opts_typed: "process_opts es g = Inr g' \<Longrightarrow> opts_typed g \<Longrightarrow> opts_typed g' \<and> ioutil_cmd g' = ioutil_cmd g"
proof (induction es g rule: process_opts.induct)
  case (2 c arg es g)
  then show ?case by (cases "process_opt c arg g") (auto dest: process_opt_typed)
qed simp

lemma find_cmd:
  assumes "List.find P cmd_table = Some p"
  shows "pair_cmd p \<noteq> IOUTIL_CMD_NONE \<and> require_path p = needs_path (pair_cmd p)"
proof -
  have "p \<in> set cmd_table" using assms by (auto simp: find_Some_iff)
  moreover have "\<forall>p \<in> set cmd_table. pair_cmd p \<noteq> IOUTIL_CMD_NONE \<and> require_path p = needs_path (pair_cmd p)"
    by (simp add: cmd_table_def needs_path_def)
  ultimately show ?thesis by blast
qed

lemma process_operands_typed:
  assumes "process_operands ok xs g0 = Inr g" "opts_typed g0" "ioutil_cmd g0 = IOUTIL_CMD_NONE"
  shows "opts_typed g \<and> ioutil_cmd g \<noteq> IOUTIL_CMD_NONE \<and> (needs_path (ioutil_cmd g) \<longrightarrow> ioutil_path g \<noteq> None)"
proof (cases "if xs = [] then None else List.find (\<lambda>p. cmd_str p = hd xs) cmd_table")
  case None
  then show ?thesis using assms by (simp add: process_operands_def)
next
  case (Some p)
  have "pair_cmd p \<noteq> IOUTIL_CMD_NONE" "require_path p = needs_path (pair_cmd p)" using Some find_cmd by (auto split: if_splits)
  then show ?thesis using assms unfolding process_operands_def Some
    by (auto simp: Let_def opts_typed_def split: if_splits prod.splits)
qed

text \<open>
  C34: Every command line the tool accepts gives well-formed options: both I2C addresses in their
  range, both keys of four bytes, a command, and a path for the commands that need one.
\<close>

theorem accepted_options_typed:
  "process_cmd_args ok args = Inr g \<Longrightarrow>
   opts_typed g \<and> ioutil_cmd g \<noteq> IOUTIL_CMD_NONE \<and> (needs_path (ioutil_cmd g) \<longrightarrow> ioutil_path g \<noteq> None)"
proof -
  assume a: "process_cmd_args ok args = Inr g"
  obtain es xs where l: "getopt_long args = (es, xs)" by (cases "getopt_long args")
  obtain g0 where g0: "process_opts es ioutil_defaults = Inr g0" using a l by (cases "process_opts es ioutil_defaults") (auto simp: process_cmd_args_def)
  have "opts_typed ioutil_defaults" by (simp add: opts_typed_def ioutil_defaults_def addr_ok_def)
  from process_opts_typed [OF g0 this] have "opts_typed g0" "ioutil_cmd g0 = IOUTIL_CMD_NONE" by (simp_all add: ioutil_defaults_def)
  then show ?thesis using process_operands_typed [of ok xs g0 g] a l g0 by (simp add: process_cmd_args_def)
qed

theorem accepted_options_typed_witness:
  "\<exists>g. process_cmd_args (\<lambda>n. True) [''--bus'', ''1'', ''write-fw'', ''fw.bin'', ''0x10''] = Inr g \<and> opts_typed g \<and> ioutil_path g \<noteq> None"
proof -
  have e: "process_cmd_args (\<lambda>n. True) [''--bus'', ''1'', ''write-fw'', ''fw.bin'', ''0x10'']
      = Inr (ioutil_defaults\<lparr>i2c_bus := 1, ioutil_cmd := IOUTIL_CMD_WRITE_FW, ioutil_path := Some ''fw.bin'', write_fw_app_ver := 0x10\<rparr>)"
    by code_simp
  from accepted_options_typed [OF e] show ?thesis using e by (simp add: needs_path_def)
qed

section \<open>Keys and bus numbers\<close>

lemma digit_val_hex: "n < 16 \<Longrightarrow> digit_val (hex_char ! n) = n"
proof -
  have "\<forall>n \<in> set [0..<16]. digit_val (hex_char ! n) = n" by code_simp
  then show "n < 16 \<Longrightarrow> digit_val (hex_char ! n) = n" by simp
qed

lemma nibbles: "unat (drop_bit 4 b) < 16" "unat (b AND 0xf) < 16" "unat (drop_bit 4 b) * 16 + unat (b AND 0xf) = unat (b :: u8)"
proof -
  have d: "unat (drop_bit 4 b) = unat b div 16" by (simp only: unsigned_drop_bit_eq) (simp add: drop_bit_eq_div take_bit_nat_eq_self)
  have "x AND 15 = x mod 16" for x :: nat using take_bit_eq_mask [of 4 x] by (simp add: mask_eq_exp_minus_1 take_bit_eq_mod)
  then have m: "unat (b AND 0xf) = unat b mod 16" using unsigned_take_bit_eq [of 4 b, where ?'a = nat] by (simp add: take_bit_eq_mask mask_eq_exp_minus_1 take_bit_eq_mod)
  have "unat b < 256" by simp
  then show "unat (drop_bit 4 b) < 16" "unat (b AND 0xf) < 16" "unat (drop_bit 4 b) * 16 + unat (b AND 0xf) = unat b"
    unfolding d m by (simp_all add: less_mult_imp_div_less)
qed

lemma four_digits:
  fixes a b c d :: nat
  assumes "a < 256" "b < 256" "c < 256" "d < 256"
  defines "v \<equiv> int (((a * 256 + b) * 256 + c) * 256 + d)"
  shows "v \<le> 0xffffffff" "v div 2 ^ 24 mod 256 = int a" "v div 2 ^ 16 mod 256 = int b" "v div 2 ^ 8 mod 256 = int c" "v mod 256 = int d"
proof -
  have step: "y < 256 \<Longrightarrow> (x * 256 + y) div 256 = x" "y < 256 \<Longrightarrow> (x * 256 + y) mod 256 = y" for x y :: nat by simp_all
  let ?n = "((a * 256 + b) * 256 + c) * 256 + d"
  have "?n div 2 ^ 8 = (a * 256 + b) * 256 + c" using step(1) [OF assms(4)] by simp
  moreover have "?n div 2 ^ 16 = ?n div 2 ^ 8 div 256" "?n div 2 ^ 24 = ?n div 2 ^ 8 div 256 div 256" by (simp_all only: div_mult2_eq [symmetric]) simp_all
  ultimately have n: "?n div 2 ^ 8 mod 256 = c" "?n div 2 ^ 16 mod 256 = b" "?n div 2 ^ 24 mod 256 = a" "?n mod 256 = d"
    using step assms(1-4) by (simp_all only: mod_less)
  show "v div 2 ^ 24 mod 256 = int a" "v div 2 ^ 16 mod 256 = int b" "v div 2 ^ 8 mod 256 = int c" "v mod 256 = int d"
    unfolding v_def using n [THEN arg_cong [where f = int]] by (simp_all only: of_nat_div of_nat_mod of_nat_power of_nat_numeral)
  have "?n \<le> 0xffffffff" using assms(1-4) by simp
  then show "v \<le> 0xffffffff" unfolding v_def by (metis of_nat_le_iff of_nat_numeral)
qed

lemma hex_digits: "c \<in> set (hex_chars k) \<Longrightarrow> digit_val c < 16"
  by (induction k) (auto simp: digit_val_hex nibbles)

lemma num_val_hex: "num_val 16 (hex_chars (b # k)) acc = num_val 16 (hex_chars k) (acc * 256 + unat b)"
proof -
  have "(acc * 16 + unat (drop_bit 4 b)) * 16 + unat (b AND 0xf) = acc * 256 + unat b"
    by (simp add: nibbles(3) [of b, symmetric])
  then show ?thesis by (simp only: hex_chars.simps num_val.simps digit_val_hex nibbles)
qed

lemma length_hex_chars [simp]: "length (hex_chars k) = 2 * length k"
  by (induction k) auto

lemma strtol_hex:
  assumes "k \<noteq> []" "int (num_val 16 (hex_chars k) 0) \<le> lim"
  shows "strtol lim (''0x'' @ hex_chars k) = (int (num_val 16 (hex_chars k) 0), [])"
proof -
  obtain b bs where k: "k = b # bs" using assms(1) by (cases k) auto
  have first: "digit_val (hex_chars k ! 0) < 16" by (simp add: k digit_val_hex nibbles)
  have all: "takeWhile (\<lambda>c. digit_val c < 16) (hex_chars k) = hex_chars k" using hex_digits by (simp add: takeWhile_eq_all_conv)
  have ne: "hex_chars k \<noteq> []" by (simp add: k)
  have sp: "dropWhile c_space (''0x'' @ hex_chars k) = ''0x'' @ hex_chars k" by (simp add: c_space_def)
  have pos: "0 \<le> lim" using assms(2) by simp
  show ?thesis unfolding strtol_def sp Let_def using first all ne assms(2) pos by (simp add: k)
qed

text \<open>
  Keys print and parse alike: the hexadecimal form in which the tool shows a key, given back as
  an option with its prefix, sets exactly that key.
\<close>

lemma key_option_roundtrip:
  assumes "length k = 4"
  shows "hex_str k = Some str \<Longrightarrow> process_opt OPT_BTLDR_START_KEY (''0x'' @ str) g = Inr (g\<lparr>btldr_start_key := k\<rparr>)"
proof -
  assume "hex_str k = Some str"
  then have str: "str = hex_chars k" using assms by (simp add: hex_str_def)
  obtain a b c d where k: "k = [a, b, c, d]" using assms by (auto simp: length_Suc_conv numeral_eq_Suc)
  let ?v = "((unat a * 256 + unat b) * 256 + unat c) * 256 + unat d"
  have v: "num_val 16 (hex_chars k) 0 = ?v" unfolding k num_val_hex by simp
  have lt: "unat a < 256" "unat b < 256" "unat c < 256" "unat d < 256" by simp_all
  note four = four_digits [OF lt]
  have range: "int ?v \<le> 0xffffffff" by (rule four(1))
  have p: "strtol LLONG_MAX (''0x'' @ str) = (int ?v, [])" unfolding str v [symmetric]
  proof (rule strtol_hex)
    show "k \<noteq> []" using k by blast
    show "int (num_val 16 (hex_chars k) 0) \<le> LLONG_MAX" unfolding v using range by (rule order.trans) simp
  qed
  have "(x :: int) AND 0xff = x mod 256" for x using take_bit_eq_mask [of 8 x] by (simp add: mask_eq_exp_minus_1 take_bit_eq_mod)
  then have "key_bytes (int ?v) = k" unfolding key_bytes_def k by (simp only: drop_bit_eq_div four(2-5)) simp
  then obtain n where "strtol LLONG_MAX (''0x'' @ str) = (n, [])" "0 \<le> n" "n \<le> 0xffffffff" "key_bytes n = k"
    using p range of_nat_0_le_iff by blast
  then show ?thesis by (simp add: process_opt_def)
qed

lemma key_option_roundtrip_example:
  "process_opt OPT_BTLDR_START_KEY (''0x'' @ ''c0aaaaa4'') ioutil_defaults = Inr (ioutil_defaults\<lparr>btldr_start_key := [0xc0, 0xaa, 0xaa, 0xa4]\<rparr>)"
proof -
  have "hex_str [0xc0, 0xaa, 0xaa, 0xa4] = Some ''c0aaaaa4''" by code_simp
  then show ?thesis by (intro key_option_roundtrip) simp_all
qed

lemma length_digits: "length (digits 10 n) \<le> Suc k \<longleftrightarrow> n < 10 ^ Suc k"
proof (induction k arbitrary: n)
  case 0
  have "digits 10 m \<noteq> []" for m by (subst digits.simps) simp
  then have "0 < length (digits 10 (n div 10))" by blast
  then show ?case by (subst digits.simps) (auto simp: not_le)
next
  case (Suc k)
  show ?case
  proof (cases "n < 10")
    case True
    then have "n < 10 ^ Suc (Suc k)" by (rule less_le_trans) simp
    then show ?thesis using True by (subst digits.simps) simp
  next
    case False
    have "length (digits 10 n) \<le> Suc (Suc k) \<longleftrightarrow> length (digits 10 (n div 10)) \<le> Suc k" using False by (subst digits.simps) simp
    also have "\<dots> \<longleftrightarrow> n div 10 < 10 ^ Suc k" by (rule Suc)
    also have "\<dots> \<longleftrightarrow> n < 10 ^ Suc (Suc k)" by (simp add: div_less_iff_less_mult mult.commute)
    finally show ?thesis .
  qed
qed

text \<open>
  C35: The name of the device file. It fits the 15 characters \<open>i2c_rw\<close> reserves for it exactly for
  bus numbers below 100000, but the command line accepts larger ones: with \<open>--bus=100000\<close> the
  \<open>sprintf\<close> writes past its array.
\<close>

theorem dev_name_overflow:
  "(0 \<le> sint bus \<longrightarrow> (length (i2c_dev_name bus) + 1 \<le> 15 \<longleftrightarrow> sint bus < 100000))
   \<and> process_opt OPT_I2C_BUS ''100000'' g = Inr (g\<lparr>i2c_bus := 100000\<rparr>) \<and> length (i2c_dev_name 100000) + 1 = 16"
proof (intro conjI impI)
  assume "0 \<le> sint bus"
  moreover have "length (digits 10 m) \<le> 5 \<longleftrightarrow> m < 100000" for m using length_digits [of m 4] by simp
  ultimately show "(length (i2c_dev_name bus) + 1 \<le> 15) = (sint bus < 100000)"
    by (simp add: i2c_dev_name_def fmt_d_def) linarith
next
  have "strtol LONG_MAX ''100000'' = (100000, [])" by (simp add: strtol_def c_space_def digit_val_def)
  then show "process_opt OPT_I2C_BUS ''100000'' g = Inr (g\<lparr>i2c_bus := 100000\<rparr>)" by (simp add: process_opt_def)
next
  show "length (i2c_dev_name 100000) + 1 = 16" by (simp add: i2c_dev_name_def fmt_d_def digits.simps)
qed

theorem dev_name_overflow_witness: "length (i2c_dev_name 7) + 1 \<le> 15"
  using dev_name_overflow [of 7 ioutil_defaults] by simp

end
