(* ===== verification/Audio_Fifo.thy ===== *)
theory Audio_Fifo
  imports Beep_Prelude "HOL-Library.Monad_Syntax"
begin

text \<open>
  The ring buffers of the audio player: \<open>lib/audio/fifo.c\<close>, whose data its users copy, and
  \<open>lib/audio/fifo2.c\<close>, which holds the data and keeps what was read until it is discarded. The
  result \<open>None\<close> is a run that does not go on: a failed assertion or an access outside an array.
  \<open>size_t\<close> is 32 bits wide on the device. A mutex protects each buffer; the theory describes what
  its holder does, so the mutex itself is only the flag \<open>lock\<close> the code asserts.
\<close>

section \<open>Arrays\<close>

definition memcpy :: "'a list \<Rightarrow> nat \<Rightarrow> 'a list \<Rightarrow> nat \<Rightarrow> nat \<Rightarrow> 'a list option" where
  "memcpy dst d src s n =
     (if d + n \<le> length dst \<and> s + n \<le> length src then Some (put_at d (get_at s n src) dst) else None)"

definition arr_get :: "'a list \<Rightarrow> u32 \<Rightarrow> 'a option" where
  "arr_get xs i = (if unat i < length xs then Some (xs ! unat i) else None)"

definition arr_set :: "'a list \<Rightarrow> u32 \<Rightarrow> 'a \<Rightarrow> 'a list option" where
  "arr_set xs i v = (if unat i < length xs then Some (xs[unat i := v]) else None)"

lemma memcpy_into [simp]:
  "d + n \<le> length dst \<Longrightarrow> s + n \<le> length src \<Longrightarrow> memcpy dst d src s n = Some (put_at d (get_at s n src) dst)"
  by (simp add: memcpy_def)

section \<open>The ring of \<open>fifo.c\<close>\<close>

record fifo =
  lock :: bool
  rptr :: u32
  wptr :: u32
  fsize :: u32

definition ASSERT_FIFO_LOCKED :: "'a fifo_scheme \<Rightarrow> unit option" where
  "ASSERT_FIFO_LOCKED f = (if lock f then Some () else None)"

definition fifo_init :: "'a fifo_scheme \<Rightarrow> u32 \<Rightarrow> 'a fifo_scheme" where
  "fifo_init f n = f\<lparr>rptr := 0, wptr := 0, fsize := n\<rparr>"

definition fifo_free :: "'a fifo_scheme \<Rightarrow> 'a fifo_scheme" where
  "fifo_free f = f\<lparr>rptr := 0, wptr := 0, fsize := 0\<rparr>"

definition fifo_empty :: "'a fifo_scheme \<Rightarrow> bool option" where
  "fifo_empty f = do { ASSERT_FIFO_LOCKED f; Some (rptr f = wptr f) }"

definition fifo_bytes_used :: "'a fifo_scheme \<Rightarrow> u32 option" where
  "fifo_bytes_used f = do {
     ASSERT_FIFO_LOCKED f;
     Some (if wptr f \<ge> rptr f then wptr f - rptr f else wptr f - rptr f + fsize f) }"

definition fifo_bytes_free :: "'a fifo_scheme \<Rightarrow> u32 option" where
  "fifo_bytes_free f = do {
     ASSERT_FIFO_LOCKED f;
     Some (if rptr f > wptr f then rptr f - wptr f - 1 else rptr f - wptr f + fsize f - 1) }"

definition fifo_bytes_until_rptr_wrap :: "'a fifo_scheme \<Rightarrow> u32 option" where
  "fifo_bytes_until_rptr_wrap f = do { ASSERT_FIFO_LOCKED f; Some (fsize f - rptr f) }"

definition fifo_bytes_until_wptr_wrap :: "'a fifo_scheme \<Rightarrow> u32 option" where
  "fifo_bytes_until_wptr_wrap f = do { ASSERT_FIFO_LOCKED f; Some (fsize f - wptr f) }"

definition fifo_rptr_incby :: "'a fifo_scheme \<Rightarrow> u32 \<Rightarrow> 'a fifo_scheme option" where
  "fifo_rptr_incby f incby = do {
     ASSERT_FIFO_LOCKED f;
     Some (if rptr f + incby = fsize f then f\<lparr>rptr := 0\<rparr> else f\<lparr>rptr := rptr f + incby\<rparr>) }"

definition fifo_wptr_incby :: "'a fifo_scheme \<Rightarrow> u32 \<Rightarrow> 'a fifo_scheme option" where
  "fifo_wptr_incby f incby = do {
     ASSERT_FIFO_LOCKED f;
     Some (if wptr f + incby = fsize f then f\<lparr>wptr := 0\<rparr> else f\<lparr>wptr := wptr f + incby\<rparr>) }"

definition fifo_lock :: "'a fifo_scheme \<Rightarrow> 'a fifo_scheme" where
  "fifo_lock f = f\<lparr>lock := True\<rparr>"

definition fifo_unlock :: "'a fifo_scheme \<Rightarrow> 'a fifo_scheme option" where
  "fifo_unlock f = do { ASSERT_FIFO_LOCKED f; Some (f\<lparr>lock := False\<rparr>) }"

definition fifo_signal :: "'a fifo_scheme \<Rightarrow> unit option" where
  "fifo_signal f = ASSERT_FIFO_LOCKED f"

text \<open>The absolute time at which a wait of \<open>ms\<close> milliseconds ends, from the time of day.\<close>

definition fifo_abstime :: "u32 \<Rightarrow> u32 \<Rightarrow> u32 \<Rightarrow> u32 \<times> u32" where
  "fifo_abstime sec usec ms =
     (let tv_sec = sec + ms div 1000;
          tv_nsec = (usec + (ms mod 1000) * 1000) * 1000
      in if tv_nsec \<ge> 1000000000 then (tv_sec + 1, tv_nsec - 1000000000) else (tv_sec, tv_nsec))"

text \<open>
  Waiting gives up the mutex. \<open>timedwait\<close> is \<open>pthread_cond_timedwait\<close> with the time it ends:
  its result, and the state the other threads have left; it is called again when interrupted.
\<close>

abbreviation EINTR :: int where "EINTR \<equiv> 4"
abbreviation ETIMEDOUT :: int where "ETIMEDOUT \<equiv> 145"

partial_function (option) timedwait_loop :: "('s \<Rightarrow> int \<times> 's) \<Rightarrow> 's \<Rightarrow> (int \<times> 's) option" where
  "timedwait_loop timedwait s = (let (r, s') = timedwait s in if r = EINTR then timedwait_loop timedwait s' else Some (r, s'))"

section \<open>The ring of \<open>fifo2.c\<close>\<close>

text \<open>Bytes from \<open>sptr\<close> to \<open>rptr\<close> are stale (read, not yet discarded), from \<open>rptr\<close> to \<open>wptr\<close> fresh.\<close>

record fifo2 = fifo +
  base :: bytes
  sptr :: u32

definition fifo2_init :: "fifo2 \<Rightarrow> bytes \<Rightarrow> u32 \<Rightarrow> fifo2" where
  "fifo2_init f buf n = f\<lparr>base := buf, sptr := 0, rptr := 0, wptr := 0, fsize := n\<rparr>"

definition fifo2_free :: "fifo2 \<Rightarrow> fifo2" where
  "fifo2_free f = f\<lparr>base := [], sptr := 0, rptr := 0, wptr := 0, fsize := 0\<rparr>"

definition fifo2_empty :: "fifo2 \<Rightarrow> bool option" where
  "fifo2_empty f = do { ASSERT_FIFO_LOCKED f; Some (rptr f = wptr f) }"

definition fifo2_bytes_used :: "fifo2 \<Rightarrow> bool \<Rightarrow> u32 option" where
  "fifo2_bytes_used f stale = do {
     ASSERT_FIFO_LOCKED f;
     Some (if stale then if wptr f \<ge> sptr f then wptr f - sptr f else wptr f - sptr f + fsize f
           else if wptr f \<ge> rptr f then wptr f - rptr f else wptr f - rptr f + fsize f) }"

definition fifo2_bytes_free :: "fifo2 \<Rightarrow> u32 option" where
  "fifo2_bytes_free f = do {
     ASSERT_FIFO_LOCKED f;
     Some (if sptr f > wptr f then sptr f - wptr f - 1 else sptr f - wptr f + fsize f - 1) }"

definition fifo2_bytes_until_rptr_wrap :: "fifo2 \<Rightarrow> u32 option" where
  "fifo2_bytes_until_rptr_wrap f = do { ASSERT_FIFO_LOCKED f; Some (fsize f - rptr f) }"

definition fifo2_bytes_until_wptr_wrap :: "fifo2 \<Rightarrow> u32 option" where
  "fifo2_bytes_until_wptr_wrap f = do { ASSERT_FIFO_LOCKED f; Some (fsize f - wptr f) }"

definition fifo2_rptr_incby :: "fifo2 \<Rightarrow> u32 \<Rightarrow> fifo2 option" where
  "fifo2_rptr_incby f incby = do {
     ASSERT_FIFO_LOCKED f;
     Some (if rptr f + incby = fsize f then f\<lparr>rptr := 0\<rparr> else f\<lparr>rptr := rptr f + incby\<rparr>) }"

definition fifo2_wptr_incby :: "fifo2 \<Rightarrow> u32 \<Rightarrow> fifo2 option" where
  "fifo2_wptr_incby f incby = do {
     ASSERT_FIFO_LOCKED f;
     Some (if wptr f + incby = fsize f then f\<lparr>wptr := 0\<rparr> else f\<lparr>wptr := wptr f + incby\<rparr>) }"

definition fifo2_flush :: "fifo2 \<Rightarrow> fifo2 option" where
  "fifo2_flush f = do { ASSERT_FIFO_LOCKED f; Some (f\<lparr>sptr := 0, rptr := 0, wptr := 0\<rparr>) }"

definition fifo2_bytes_to_ptr_wrap :: "fifo2 \<Rightarrow> u32 \<Rightarrow> u32" where
  "fifo2_bytes_to_ptr_wrap f ptr = fsize f - ptr"

definition fifo2_inc_ptr :: "fifo2 \<Rightarrow> u32 \<Rightarrow> u32 \<Rightarrow> u32" where
  "fifo2_inc_ptr f ptr n = (let ptr = ptr + n in if ptr \<ge> fsize f then ptr - fsize f else ptr)"

text \<open>A destination buffer is \<open>None\<close> for a null pointer.\<close>

definition fifo2_copy_out :: "fifo2 \<Rightarrow> u32 \<Rightarrow> bytes option \<Rightarrow> u32 \<Rightarrow> bytes option option" where
  "fifo2_copy_out f ptr buf n = (case buf of None \<Rightarrow> Some None | Some b \<Rightarrow>
     (let contb = fifo2_bytes_to_ptr_wrap f ptr
      in if contb \<ge> n then do { b \<leftarrow> memcpy b 0 (base f) (unat ptr) (unat n); Some (Some b) }
         else do {
           b \<leftarrow> memcpy b 0 (base f) (unat ptr) (unat contb);
           b \<leftarrow> memcpy b (unat contb) (base f) 0 (unat (n - contb));
           Some (Some b) }))"

definition fifo2_enq :: "fifo2 \<Rightarrow> bytes \<Rightarrow> u32 \<Rightarrow> (u32 \<times> fifo2) option" where
  "fifo2_enq f buf n = do {
     ASSERT_FIFO_LOCKED f;
     free \<leftarrow> fifo2_bytes_free f;
     if free < n then Some (0, f)
     else do {
       contb \<leftarrow> fifo2_bytes_until_wptr_wrap f;
       if contb \<ge> n then do {
         b \<leftarrow> memcpy (base f) (unat (wptr f)) buf 0 (unat n);
         f \<leftarrow> fifo2_wptr_incby (f\<lparr>base := b\<rparr>) n;
         Some (n, f) }
       else do {
         b \<leftarrow> memcpy (base f) (unat (wptr f)) buf 0 (unat contb);
         b \<leftarrow> memcpy b 0 buf (unat contb) (unat (n - contb));
         f \<leftarrow> fifo2_wptr_incby (f\<lparr>base := b\<rparr>) contb;
         f \<leftarrow> fifo2_wptr_incby f (n - contb);
         Some (n, f) } } }"

definition fifo2_deq :: "fifo2 \<Rightarrow> bytes option \<Rightarrow> u32 \<Rightarrow> bool \<Rightarrow> (u32 \<times> bytes option \<times> fifo2) option" where
  "fifo2_deq f buf n auto_discard = do {
     ASSERT_FIFO_LOCKED f;
     used \<leftarrow> fifo2_bytes_used f False;
     if used < n then Some (0, buf, f)
     else do {
       buf \<leftarrow> fifo2_copy_out f (rptr f) buf n;
       let f = f\<lparr>rptr := fifo2_inc_ptr f (rptr f) n\<rparr>;
       let f = (if auto_discard then f\<lparr>sptr := rptr f\<rparr> else f);
       Some (n, buf, f) } }"

definition fifo2_read :: "fifo2 \<Rightarrow> bytes option \<Rightarrow> u32 \<Rightarrow> u32 \<Rightarrow> bool \<Rightarrow> (u32 \<times> bytes option) option" where
  "fifo2_read f buf offset n stale = do {
     ASSERT_FIFO_LOCKED f;
     used \<leftarrow> fifo2_bytes_used f stale;
     if used < n + offset then Some (0, buf)
     else do {
       let offset = fifo2_inc_ptr f (if stale then sptr f else rptr f) offset;
       buf \<leftarrow> fifo2_copy_out f offset buf n;
       Some (n, buf) } }"

definition fifo2_discard :: "fifo2 \<Rightarrow> u32 \<Rightarrow> (u32 \<times> fifo2) option" where
  "fifo2_discard f n = do {
     ASSERT_FIFO_LOCKED f;
     used_stale \<leftarrow> fifo2_bytes_used f True;
     used \<leftarrow> fifo2_bytes_used f False;
     let diff = used_stale - used;
     if diff \<le> n then Some (diff, f\<lparr>sptr := rptr f\<rparr>)
     else Some (n, f\<lparr>sptr := fifo2_inc_ptr f (sptr f) n\<rparr>) }"

definition fifo2_lock :: "fifo2 \<Rightarrow> fifo2" where
  "fifo2_lock f = f\<lparr>lock := True\<rparr>"

definition fifo2_unlock :: "fifo2 \<Rightarrow> fifo2 option" where
  "fifo2_unlock f = do { ASSERT_FIFO_LOCKED f; Some (f\<lparr>lock := False\<rparr>) }"

definition fifo2_signal :: "fifo2 \<Rightarrow> unit option" where
  "fifo2_signal f = ASSERT_FIFO_LOCKED f"

definition fifo2_abstime :: "u32 \<Rightarrow> u32 \<Rightarrow> u32 \<Rightarrow> u32 \<times> u32" where
  "fifo2_abstime sec usec ms =
     (let tv_sec = sec + ms div 1000;
          tv_nsec = (usec + (ms mod 1000) * 1000) * 1000
      in if tv_nsec > 1000000000 then (tv_sec + 1, tv_nsec - 1000000000) else (tv_sec, tv_nsec))"

lemma locked [simp]: "lock f \<Longrightarrow> ASSERT_FIFO_LOCKED f = Some ()"
  by (simp add: ASSERT_FIFO_LOCKED_def)

section \<open>Rings\<close>

text \<open>Positions of a ring of \<open>n\<close> bytes; what it holds is a prefix of its rotation.\<close>

definition ring_dist :: "nat \<Rightarrow> nat \<Rightarrow> nat \<Rightarrow> nat" where
  "ring_dist n a b = (if a \<le> b then b - a else b + n - a)"

lemma ring_dist_less: "a < n \<Longrightarrow> b < n \<Longrightarrow> ring_dist n a b < n"
  by (auto simp: ring_dist_def)

lemma ring_dist_same [simp]: "ring_dist n a a = 0"
  by (simp add: ring_dist_def)

lemma ring_dist_reaches: "a < n \<Longrightarrow> b < n \<Longrightarrow> (a + ring_dist n a b) mod n = b"
  by (simp add: ring_dist_def)

lemma ring_dist_step: "a < n \<Longrightarrow> k < n \<Longrightarrow> ring_dist n a ((a + k) mod n) = k"
proof (cases "a + k < n")
  case False
  assume "a < n" "k < n"
  then have "(a + k) mod n = a + k - n" using False by (simp add: mod_if)
  then show ?thesis using \<open>a < n\<close> \<open>k < n\<close> False by (simp add: ring_dist_def)
qed (simp add: ring_dist_def)

lemma ring_dist_add: "a < n \<Longrightarrow> b < n \<Longrightarrow> ring_dist n a b + k < n \<Longrightarrow> ring_dist n a ((b + k) mod n) = ring_dist n a b + k"
  using ring_dist_step [of a n "ring_dist n a b + k"] ring_dist_reaches [of a n b]
  by (metis add.assoc mod_add_left_eq)

lemma ring_dist_between:
  "a < n \<Longrightarrow> b < n \<Longrightarrow> c < n \<Longrightarrow> ring_dist n a b \<le> ring_dist n a c \<Longrightarrow> ring_dist n b c = ring_dist n a c - ring_dist n a b"
  by (auto simp: ring_dist_def split: if_splits)

lemma ring_dist_advance:
  "a < n \<Longrightarrow> b < n \<Longrightarrow> k \<le> ring_dist n a b \<Longrightarrow> ring_dist n ((a + k) mod n) b = ring_dist n a b - k"
  using ring_dist_between [of a n "(a + k) mod n" b] ring_dist_step [of a n k] ring_dist_less [of a n b] by simp

lemma unat_ring_used:
  fixes a b n :: u32
  assumes "a < n" "b < n"
  shows "unat (if a \<le> b then b - a else b - a + n) = ring_dist (unat n) (unat a) (unat b)"
proof (cases "a \<le> b")
  case True
  then show ?thesis by (simp add: ring_dist_def word_le_nat_alt unat_sub)
next
  case False
  then have le: "b \<le> a" by simp
  have eq: "b - a + n = n - (a - b)" by simp
  moreover have "unat (a - b) = unat a - unat b" using le by (rule unat_sub)
  moreover have "a - b \<le> n" using assms(1) le calculation(2) by (simp add: word_le_nat_alt word_less_nat_alt)
  ultimately have "unat (b - a + n) = unat n - (unat a - unat b)" unfolding eq by (simp only: unat_sub)
  then show ?thesis using False assms by (auto simp: ring_dist_def word_le_nat_alt word_less_nat_alt)
qed

lemma unat_ring_free:
  fixes a b n :: u32
  assumes "a < n" "b < n"
  shows "unat (if a > b then a - b - 1 else a - b + n - 1) = unat n - 1 - ring_dist (unat n) (unat a) (unat b)"
proof (cases "a > b")
  case True
  then have d: "unat (a - b) = unat a - unat b" by (simp add: unat_sub)
  moreover have "1 \<le> a - b" using True d by (simp add: word_le_nat_alt word_less_nat_alt)
  then have "unat (a - b - 1) = unat a - unat b - 1" using d by (simp only: unat_sub unat_1)
  then show ?thesis using True assms by (auto simp: ring_dist_def word_less_nat_alt)
next
  case False
  then have "unat (b - a) = unat b - unat a" by (simp add: unat_sub)
  moreover have eq: "a - b + n - 1 = (n - 1) - (b - a)" by simp
  moreover have "unat (n - 1) = unat n - 1" using assms(1) by (simp add: unat_sub word_le_nat_alt word_less_nat_alt)
  moreover have "b - a \<le> n - 1" using calculation False assms by (simp add: word_le_nat_alt word_less_nat_alt)
  ultimately have "unat (a - b + n - 1) = unat n - 1 - (unat b - unat a)" unfolding eq by (simp only: unat_sub)
  moreover have "unat a \<le> unat b" using False by (simp add: word_less_nat_alt)
  ultimately show ?thesis using False by (simp add: ring_dist_def)
qed

lemma rotate_split: "a < length xs \<Longrightarrow> rotate a xs = drop a xs @ take a xs"
  by (simp add: rotate_drop_take)

lemma rotate_further: "(a + k) mod length xs = b \<Longrightarrow> rotate b xs = rotate k (rotate a xs)"
  by (metis rotate_conv_mod rotate_rotate add.commute)

lemma take_rotate_further:
  assumes "(a + k) mod length xs = b" "k + m \<le> length xs"
  shows "take m (rotate b xs) = take m (drop k (rotate a xs))"
proof (cases "k < length xs")
  case True
  then have "rotate b xs = drop k (rotate a xs) @ take k (rotate a xs)"
    using rotate_further [OF assms(1)] rotate_split [of k "rotate a xs"] by simp
  then show ?thesis using assms(2) True by simp
qed (use assms(2) in simp)

text \<open>Writing \<open>new\<close> behind the \<open>u\<close> bytes the ring holds from \<open>s\<close> on.\<close>

lemma rotate_written:
  assumes "length ys = length xs" "s < length xs" "w < length xs" "rotate w ys = new @ drop (length new) (rotate w xs)"
    "ring_dist (length xs) s w = u" "u + length new \<le> length xs"
  shows "rotate s ys = take u (rotate s xs) @ new @ drop (u + length new) (rotate s xs)"
proof -
  let ?X = "rotate s xs" and ?Y = "rotate s ys" and ?k = "length new"
  have u: "u < length xs" "(s + u) mod length xs = w" using assms ring_dist_less ring_dist_reaches by auto
  have X: "rotate w xs = drop u ?X @ take u ?X" using rotate_further [OF u(2)] rotate_split [of u ?X] u(1) by simp
  have Y: "rotate w ys = drop u ?Y @ take u ?Y"
    using rotate_further [of s u ys w] rotate_split [of u ?Y] u assms(1) by simp
  have "drop ?k (rotate w xs) = drop (u + ?k) ?X @ take u ?X" using X assms(6) by (simp add: add.commute)
  then have "drop u ?Y @ take u ?Y = (new @ drop (u + ?k) ?X) @ take u ?X" using Y assms(4) by simp
  moreover have "length (take u ?Y) = length (take u ?X)" using assms(1) by simp
  ultimately have "drop u ?Y = new @ drop (u + ?k) ?X" "take u ?Y = take u ?X"
    by (metis append_eq_append_conv)+
  then show ?thesis by (metis append_take_drop_id)
qed

lemma put_at_twice: "length x = k \<Longrightarrow> k + length y \<le> length b \<Longrightarrow> put_at k y (put_at 0 x b) = put_at 0 (x @ y) b"
  by (simp add: put_at_def add.commute)

lemma rotate_put_at:
  "w < length xs \<Longrightarrow> w + length new \<le> length xs \<Longrightarrow> rotate w (put_at w new xs) = new @ drop (length new) (rotate w xs)"
  by (simp add: rotate_split put_at_def add.commute)

lemma rotate_put_at_wrapped:
  assumes "w < length xs" "w + length new = length xs" "length rest \<le> w"
  shows "rotate w (put_at 0 rest (put_at w new xs)) = (new @ rest) @ drop (length new + length rest) (rotate w xs)"
proof -
  have "put_at 0 rest (put_at w new xs) = (rest @ drop (length rest) (take w xs)) @ new"
    using assms by (simp add: put_at_def)
  moreover have "length (rest @ drop (length rest) (take w xs)) = w" using assms by simp
  ultimately have "rotate w (put_at 0 rest (put_at w new xs)) = new @ rest @ drop (length rest) (take w xs)"
    using rotate_append [of "rest @ drop (length rest) (take w xs)" new] by simp
  moreover have "drop (length new + length rest) (rotate w xs) = drop (length rest) (take w xs)"
    using assms(1,3) by (simp add: rotate_split assms(2) [symmetric])
  ultimately show ?thesis by simp
qed

end
