(* ===== verification/Audio_Ring.thy ===== *)
theory Audio_Ring
  imports Audio_Fifo
begin

text \<open>
  What the ring of \<open>fifo2.c\<close> promises: it is a queue of fresh bytes behind the stale bytes that
  were read and not yet discarded. \<open>queue_spec\<close> says what each call does to these bytes; the ring
  refines it (interpretation \<open>f2\<close> of \<open>call_refinement\<close>).
\<close>

section \<open>The contents of a ring\<close>

definition fifo2_ok :: "fifo2 \<Rightarrow> bool" where
  "fifo2_ok f \<longleftrightarrow> sptr f < fsize f \<and> rptr f < fsize f \<and> wptr f < fsize f \<and> unat (fsize f) \<le> 2 ^ 31
     \<and> length (base f) = unat (fsize f)
     \<and> ring_dist (unat (fsize f)) (unat (sptr f)) (unat (rptr f)) \<le> ring_dist (unat (fsize f)) (unat (sptr f)) (unat (wptr f))"

definition fifo2_stale :: "fifo2 \<Rightarrow> bytes" where
  "fifo2_stale f = take (ring_dist (unat (fsize f)) (unat (sptr f)) (unat (rptr f))) (rotate (unat (sptr f)) (base f))"

definition fifo2_fresh :: "fifo2 \<Rightarrow> bytes" where
  "fifo2_fresh f = take (ring_dist (unat (fsize f)) (unat (rptr f)) (unat (wptr f))) (rotate (unat (rptr f)) (base f))"

lemma fifo2_okD:
  assumes "fifo2_ok f"
  shows "unat (sptr f) < unat (fsize f)" "unat (rptr f) < unat (fsize f)" "unat (wptr f) < unat (fsize f)"
    "unat (fsize f) \<le> 2 ^ 31" "length (base f) = unat (fsize f)"
    "ring_dist (unat (fsize f)) (unat (sptr f)) (unat (rptr f)) \<le> ring_dist (unat (fsize f)) (unat (sptr f)) (unat (wptr f))"
  using assms by (auto simp: fifo2_ok_def word_less_nat_alt)

lemma ring_dist_sum:
  assumes "fifo2_ok f"
  shows "ring_dist (unat (fsize f)) (unat (sptr f)) (unat (rptr f)) + ring_dist (unat (fsize f)) (unat (rptr f)) (unat (wptr f))
    = ring_dist (unat (fsize f)) (unat (sptr f)) (unat (wptr f))"
  using ring_dist_between [OF fifo2_okD(1) [OF assms] fifo2_okD(2) [OF assms] fifo2_okD(3) [OF assms] fifo2_okD(6) [OF assms]] fifo2_okD(6) [OF assms] by simp

lemma length_fifo2_stale: "fifo2_ok f \<Longrightarrow> length (fifo2_stale f) = ring_dist (unat (fsize f)) (unat (sptr f)) (unat (rptr f))"
  using fifo2_okD(5) [of f] ring_dist_less [of "unat (sptr f)" "unat (fsize f)" "unat (rptr f)"] fifo2_okD(1,2) [of f] by (simp add: fifo2_stale_def)

lemma length_fifo2_fresh: "fifo2_ok f \<Longrightarrow> length (fifo2_fresh f) = ring_dist (unat (fsize f)) (unat (rptr f)) (unat (wptr f))"
  using fifo2_okD(5) [of f] ring_dist_less [of "unat (rptr f)" "unat (fsize f)" "unat (wptr f)"] fifo2_okD(2,3) [of f] by (simp add: fifo2_fresh_def)

lemma length_fifo2:
  assumes "fifo2_ok f"
  shows "length (fifo2_stale f) + length (fifo2_fresh f) = ring_dist (unat (fsize f)) (unat (sptr f)) (unat (wptr f))"
    "length (fifo2_stale f) + length (fifo2_fresh f) < unat (fsize f)"
  using assms ring_dist_sum [OF assms] ring_dist_less [OF fifo2_okD(1) [OF assms] fifo2_okD(3) [OF assms]]
  by (simp_all add: length_fifo2_stale length_fifo2_fresh)

lemma fifo2_contents:
  assumes "fifo2_ok f"
  shows "fifo2_stale f @ fifo2_fresh f = take (ring_dist (unat (fsize f)) (unat (sptr f)) (unat (wptr f))) (rotate (unat (sptr f)) (base f))"
proof -
  note d = fifo2_okD [OF assms]
  let ?n = "unat (fsize f)" and ?k = "ring_dist (unat (fsize f)) (unat (sptr f)) (unat (rptr f))"
    and ?m = "ring_dist (unat (fsize f)) (unat (rptr f)) (unat (wptr f))"
  have "?k + ?m \<le> ?n" using length_fifo2 [OF assms] ring_dist_sum [OF assms] by simp
  then have "fifo2_fresh f = take ?m (drop ?k (rotate (unat (sptr f)) (base f)))"
    unfolding fifo2_fresh_def using d ring_dist_reaches by (intro take_rotate_further) auto
  then show ?thesis unfolding fifo2_stale_def ring_dist_sum [OF assms, symmetric] by (simp add: take_add)
qed

lemma of_nat_unat_eq: "unat a = k \<Longrightarrow> a = of_nat k"
  by (auto simp: of_nat_unat)

lemma fifo2_used_fresh [simp]: "fifo2_ok f \<Longrightarrow> lock f \<Longrightarrow> fifo2_bytes_used f False = Some (of_nat (length (fifo2_fresh f)))"
  unfolding fifo2_bytes_used_def length_fifo2_fresh
  using unat_ring_used [of "rptr f" "fsize f" "wptr f", THEN of_nat_unat_eq] by (simp add: fifo2_ok_def)

lemma fifo2_used_all [simp]:
  "fifo2_ok f \<Longrightarrow> lock f \<Longrightarrow> fifo2_bytes_used f True = Some (of_nat (length (fifo2_stale f) + length (fifo2_fresh f)))"
  unfolding fifo2_bytes_used_def length_fifo2(1)
  using unat_ring_used [of "sptr f" "fsize f" "wptr f", THEN of_nat_unat_eq] by (simp add: fifo2_ok_def)

lemma fifo2_free [simp]:
  "fifo2_ok f \<Longrightarrow> lock f \<Longrightarrow>
   fifo2_bytes_free f = Some (of_nat (unat (fsize f) - 1 - (length (fifo2_stale f) + length (fifo2_fresh f))))"
  unfolding fifo2_bytes_free_def length_fifo2(1)
  using unat_ring_free [of "sptr f" "fsize f" "wptr f", THEN of_nat_unat_eq] by (simp add: fifo2_ok_def)

lemma unat_cap: "k \<le> 2 ^ 31 \<Longrightarrow> unat (of_nat k :: u32) = k"
  by (simp add: unsigned_of_nat take_bit_nat_eq_self)

lemma small_less: "k \<le> 2 ^ 31 \<Longrightarrow> (of_nat k :: u32) < n \<longleftrightarrow> k < unat n"
  by (simp only: word_less_nat_alt unat_cap)

section \<open>The operations\<close>

lemma mod_wrap: "w < N \<Longrightarrow> n < N \<Longrightarrow> N \<le> w + n \<Longrightarrow> (w + n) mod N = w + n - (N :: nat)"
  by (simp add: mod_if)

lemma take_self: "xs = take k ys \<Longrightarrow> take (length xs) ys = xs"
  by (simp add: min_def)

lemma unat_until_wrap: "unat a < unat n \<Longrightarrow> unat (n - a) = unat n - unat (a :: u32)"
  by (simp add: unat_sub word_le_nat_alt)

lemma fifo2_inc_ptr_eq:
  assumes "unat p < unat (fsize f)" "unat n \<le> unat (fsize f)" "unat (fsize f) \<le> 2 ^ 31"
  shows "unat (fifo2_inc_ptr f p n) = (unat p + unat n) mod unat (fsize f)"
proof -
  have sum: "unat (p + n) = unat p + unat n" using assms by (intro unat_add_lem [THEN iffD1]) simp
  show ?thesis
  proof (cases "p + n \<ge> fsize f")
    case True
    then have ge: "unat (fsize f) \<le> unat p + unat n" by (simp add: word_le_nat_alt sum)
    have "unat (p + n - fsize f) = unat p + unat n - unat (fsize f)" using unat_sub [OF True] sum by simp
    moreover have "(unat p + unat n) mod unat (fsize f) = unat p + unat n - unat (fsize f)"
      using ge assms by (subst mod_if) (simp add: mod_if)
    ultimately show ?thesis using True by (simp add: fifo2_inc_ptr_def)
  next
    case False
    then have "unat p + unat n < unat (fsize f)" by (simp add: word_le_nat_alt sum)
    then show ?thesis using False sum by (simp add: fifo2_inc_ptr_def)
  qed
qed

lemma fifo2_copy_out_eq:
  assumes "unat p < unat (fsize f)" "length (base f) = unat (fsize f)" "unat n \<le> unat (fsize f)" "unat n \<le> length b"
  shows "fifo2_copy_out f p (Some b) n = Some (Some (put_at 0 (take (unat n) (rotate (unat p) (base f))) b))"
proof -
  let ?c = "fsize f - p"
  have c: "unat ?c = unat (fsize f) - unat p" using assms(1) by (rule unat_until_wrap)
  show ?thesis
  proof (cases "?c \<ge> n")
    case True
    then have "unat n \<le> unat (fsize f) - unat p" using c by (simp add: word_le_nat_alt)
    then show ?thesis using True assms c
      by (simp add: fifo2_copy_out_def fifo2_bytes_to_ptr_wrap_def Let_def get_at_def rotate_split)
  next
    case False
    then have lt: "unat (fsize f) - unat p < unat n" using c by (simp add: word_le_nat_alt)
    have d: "unat (n - ?c) = unat n - (unat (fsize f) - unat p)" using False c by (simp add: unat_sub)
    have "put_at (unat ?c) (get_at 0 (unat (n - ?c)) (base f)) (put_at 0 (get_at (unat p) (unat ?c) (base f)) b)
        = put_at 0 (get_at (unat p) (unat ?c) (base f) @ get_at 0 (unat (n - ?c)) (base f)) b"
      using assms lt c d by (intro put_at_twice) (auto simp: get_at_def)
    also have "get_at (unat p) (unat ?c) (base f) @ get_at 0 (unat (n - ?c)) (base f) = take (unat n) (rotate (unat p) (base f))"
      using assms lt c d by (simp add: get_at_def rotate_split)
    finally show ?thesis using False assms lt c d
      by (simp add: fifo2_copy_out_def fifo2_bytes_to_ptr_wrap_def Let_def)
  qed
qed

lemma fifo2_enq_base:
  assumes "fifo2_ok f" "lock f" "unat n + length (fifo2_stale f) + length (fifo2_fresh f) < unat (fsize f)" "unat n \<le> length buf"
  shows "\<exists>b w. fifo2_enq f buf n = Some (n, f\<lparr>base := b, wptr := w\<rparr>) \<and> length b = length (base f)
    \<and> rotate (unat (wptr f)) b = take (unat n) buf @ drop (unat n) (rotate (unat (wptr f)) (base f))
    \<and> unat w = (unat (wptr f) + unat n) mod unat (fsize f)"
proof -
  note d = fifo2_okD [OF assms(1)]
  let ?N = "unat (fsize f)" and ?w = "unat (wptr f)" and ?c = "fsize f - wptr f"
  have n: "unat n < ?N" using assms(3) by simp
  have free: "\<not> (of_nat (?N - 1 - (length (fifo2_stale f) + length (fifo2_fresh f))) :: u32) < n"
    using assms(3) d(4) by (subst small_less) auto
  have c: "unat ?c = ?N - ?w" using d(3) by (rule unat_until_wrap)
  show ?thesis
  proof (cases "?c \<ge> n")
    case True
    then have le: "?w + unat n \<le> ?N" using c d(3) by (simp add: word_le_nat_alt)
    let ?b = "put_at ?w (take (unat n) buf) (base f)"
    have sum: "unat (wptr f + n) = ?w + unat n" using le d(4) by (intro unat_add_lem [THEN iffD1]) simp
    have full: "wptr f + n = fsize f \<longleftrightarrow> ?w + unat n = ?N" using sum by (metis word_unat_eq_iff)
    have "fifo2_enq f buf n = Some (n, f\<lparr>base := ?b, wptr := if wptr f + n = fsize f then 0 else wptr f + n\<rparr>)"
      using assms(1,2,4) free True le d(5)
      by (simp add: fifo2_enq_def fifo2_bytes_until_wptr_wrap_def fifo2_wptr_incby_def get_at_def)
    moreover have "rotate ?w ?b = take (unat n) buf @ drop (unat n) (rotate ?w (base f))"
      using rotate_put_at [of ?w "base f" "take (unat n) buf"] d le assms(4) by simp
    moreover have "unat (if wptr f + n = fsize f then 0 else wptr f + n) = (?w + unat n) mod ?N"
      using full sum le d(3) by auto
    moreover have "length ?b = length (base f)" using d(5) le assms(4) by simp
    ultimately show ?thesis by blast
  next
    case False
    then have lt: "?N - ?w < unat n" using c by (simp add: word_le_nat_alt)
    have m: "unat (n - ?c) = unat n - (?N - ?w)" using False c by (simp add: unat_sub)
    let ?x = "take (?N - ?w) buf" and ?y = "take (unat n - (?N - ?w)) (drop (?N - ?w) buf)"
    let ?b = "put_at 0 ?y (put_at ?w ?x (base f))"
    have len: "length ?x = ?N - ?w" "length ?y = unat n - (?N - ?w)" using assms(4) lt by auto
    have "unat (n - ?c) < ?N" using m n d(3) by linarith
    then have ne: "n - ?c \<noteq> fsize f" by (metis less_irrefl)
    have "fifo2_enq f buf n = Some (n, f\<lparr>base := ?b, wptr := n - ?c\<rparr>)"
      using assms(1,2,4) free False lt c m ne d(3,5) n
      by (simp add: fifo2_enq_def fifo2_bytes_until_wptr_wrap_def fifo2_wptr_incby_def get_at_def)
    moreover have "rotate ?w ?b = take (unat n) buf @ drop (unat n) (rotate ?w (base f))"
    proof -
      have "rotate ?w ?b = (?x @ ?y) @ drop (length ?x + length ?y) (rotate ?w (base f))"
        using d(3,5) n len by (intro rotate_put_at_wrapped) auto
      moreover have "?x @ ?y = take (unat n) buf" using lt by (metis add_diff_inverse_nat not_less_iff_gr_or_eq take_add)
      moreover have "length ?x + length ?y = unat n" using len lt by simp
      ultimately show ?thesis by simp
    qed
    moreover have "unat (n - ?c) = (?w + unat n) mod ?N"
    proof -
      have "?N \<le> ?w + unat n" using lt by linarith
      then show ?thesis unfolding m mod_wrap [OF d(3) n \<open>?N \<le> ?w + unat n\<close>] using d(3) by linarith
    qed
    moreover have "length ?b = length (base f)" using d(3,5) len n by simp
    ultimately show ?thesis by blast
  qed
qed

lemma fifo2_enq_ok:
  assumes "fifo2_ok f" "lock f" "unat n + length (fifo2_stale f) + length (fifo2_fresh f) < unat (fsize f)" "unat n \<le> length buf"
  shows "\<exists>f'. fifo2_enq f buf n = Some (n, f') \<and> fifo2_ok f' \<and> lock f' \<and> fsize f' = fsize f
    \<and> fifo2_stale f' = fifo2_stale f \<and> fifo2_fresh f' = fifo2_fresh f @ take (unat n) buf"
proof -
  note d = fifo2_okD [OF assms(1)]
  let ?N = "unat (fsize f)" and ?r = "unat (rptr f)" and ?s = "unat (sptr f)" and ?w = "unat (wptr f)" and ?k = "unat n"
  from fifo2_enq_base [OF assms] obtain b w where
    e: "fifo2_enq f buf n = Some (n, f\<lparr>base := b, wptr := w\<rparr>)" and b: "length b = length (base f)"
    and rot: "rotate ?w b = take ?k buf @ drop ?k (rotate ?w (base f))" and w: "unat w = (?w + ?k) mod ?N" by blast
  let ?f = "f\<lparr>base := b, wptr := w\<rparr>" and ?new = "take ?k buf"
  have len: "length ?new = ?k" using assms(4) by simp
  have sw: "ring_dist ?N ?s ?w + ?k < ?N" using assms(3) length_fifo2(1) [OF assms(1)] by simp
  have rw: "ring_dist ?N ?r ?w + ?k < ?N" using sw ring_dist_sum [OF assms(1)] by simp
  have dist: "ring_dist ?N ?s (unat w) = ring_dist ?N ?s ?w + ?k" "ring_dist ?N ?r (unat w) = ring_dist ?N ?r ?w + ?k"
    unfolding w using ring_dist_add d sw rw by auto
  have "unat w < ?N" using w d(3) by simp
  then have ok: "fifo2_ok ?f" using assms(1) dist b by (simp add: fifo2_ok_def word_less_nat_alt)
  have "rotate ?s b = take (ring_dist ?N ?s ?w) (rotate ?s (base f)) @ ?new @ drop (ring_dist ?N ?s ?w + ?k) (rotate ?s (base f))"
    using rotate_written [of b "base f" ?s ?w ?new] b d rot len sw by simp
  moreover have "rotate ?r b = take (ring_dist ?N ?r ?w) (rotate ?r (base f)) @ ?new @ drop (ring_dist ?N ?r ?w + ?k) (rotate ?r (base f))"
    using rotate_written [of b "base f" ?r ?w ?new] b d rot len rw by simp
  ultimately have "fifo2_stale ?f = fifo2_stale f" "fifo2_fresh ?f = fifo2_fresh f @ ?new"
    using d dist sw rw len by (auto simp: fifo2_stale_def fifo2_fresh_def min_def)
  then show ?thesis using e ok assms(2) by auto
qed

lemma fifo2_enq_full:
  assumes "fifo2_ok f" "lock f" "unat (fsize f) \<le> unat n + length (fifo2_stale f) + length (fifo2_fresh f)"
  shows "fifo2_enq f buf n = Some (0, f)"
proof -
  have "(of_nat (unat (fsize f) - 1 - (length (fifo2_stale f) + length (fifo2_fresh f))) :: u32) < n"
    using assms(3) length_fifo2(2) [OF assms(1)] fifo2_okD(4) [OF assms(1)] by (subst small_less) auto
  then show ?thesis using assms by (simp add: fifo2_enq_def)
qed

lemma fifo2_shift:
  assumes "fifo2_ok f" "unat p = (unat (rptr f) + k) mod unat (fsize f)" "k \<le> length (fifo2_fresh f)"
  shows "fifo2_ok (f\<lparr>rptr := p\<rparr>)" "fifo2_stale (f\<lparr>rptr := p\<rparr>) = fifo2_stale f @ take k (fifo2_fresh f)"
    "fifo2_fresh (f\<lparr>rptr := p\<rparr>) = drop k (fifo2_fresh f)"
proof -
  note d = fifo2_okD [OF assms(1)]
  let ?N = "unat (fsize f)" and ?r = "unat (rptr f)" and ?s = "unat (sptr f)" and ?w = "unat (wptr f)" and ?X = "rotate (unat (sptr f)) (base f)"
  have k: "k \<le> ring_dist ?N ?r ?w" using assms(1,3) by (simp add: length_fifo2_fresh)
  have sum: "ring_dist ?N ?s ?r + ring_dist ?N ?r ?w = ring_dist ?N ?s ?w" by (rule ring_dist_sum [OF assms(1)])
  have lt: "ring_dist ?N ?s ?w < ?N" using d ring_dist_less by blast
  have p: "unat p < ?N" unfolding assms(2) using d(2) by (intro mod_less_divisor) simp
  have sp: "ring_dist ?N ?s (unat p) = ring_dist ?N ?s ?r + k"
    unfolding assms(2) using ring_dist_add [OF d(1,2), of k] k sum lt by linarith
  have pw: "ring_dist ?N (unat p) ?w = ring_dist ?N ?r ?w - k" unfolding assms(2) by (rule ring_dist_advance [OF d(2,3) k])
  have c: "take (ring_dist ?N ?s ?w) ?X = fifo2_stale f @ fifo2_fresh f" using fifo2_contents [OF assms(1)] by simp
  show ok: "fifo2_ok (f\<lparr>rptr := p\<rparr>)" using assms(1) sp sum k p by (simp add: fifo2_ok_def word_less_nat_alt)
  have "fifo2_stale (f\<lparr>rptr := p\<rparr>) = take (ring_dist ?N ?s ?r + k) (take (ring_dist ?N ?s ?w) ?X)"
    using sp sum k by (simp add: fifo2_stale_def min_def)
  also have "\<dots> = fifo2_stale f @ take k (fifo2_fresh f)" unfolding c using length_fifo2_stale [OF assms(1)] by simp
  finally show st: "fifo2_stale (f\<lparr>rptr := p\<rparr>) = fifo2_stale f @ take k (fifo2_fresh f)" .
  have "fifo2_stale (f\<lparr>rptr := p\<rparr>) @ fifo2_fresh (f\<lparr>rptr := p\<rparr>) = fifo2_stale f @ fifo2_fresh f"
    using fifo2_contents [OF ok] c by simp
  then show "fifo2_fresh (f\<lparr>rptr := p\<rparr>) = drop k (fifo2_fresh f)" unfolding st by (metis append.assoc append_take_drop_id same_append_eq)
qed

lemma fifo2_drop_stale:
  assumes "fifo2_ok f" "unat p = (unat (sptr f) + k) mod unat (fsize f)" "k \<le> length (fifo2_stale f)"
  shows "fifo2_ok (f\<lparr>sptr := p\<rparr>)" "fifo2_stale (f\<lparr>sptr := p\<rparr>) = drop k (fifo2_stale f)"
    "fifo2_fresh (f\<lparr>sptr := p\<rparr>) = fifo2_fresh f"
proof -
  note d = fifo2_okD [OF assms(1)]
  let ?N = "unat (fsize f)" and ?r = "unat (rptr f)" and ?s = "unat (sptr f)" and ?w = "unat (wptr f)"
  have k: "k \<le> ring_dist ?N ?s ?r" using assms(1,3) by (simp add: length_fifo2_stale)
  have p: "unat p < ?N" unfolding assms(2) using d(2) by (intro mod_less_divisor) simp
  have pr: "ring_dist ?N (unat p) ?r = ring_dist ?N ?s ?r - k" unfolding assms(2) by (rule ring_dist_advance [OF d(1,2) k])
  have pw: "ring_dist ?N (unat p) ?w = ring_dist ?N ?s ?w - k"
    unfolding assms(2) using k d(6) by (intro ring_dist_advance [OF d(1,3)]) linarith
  show "fifo2_ok (f\<lparr>sptr := p\<rparr>)" using assms(1) pr pw p d(6) by (simp add: fifo2_ok_def word_less_nat_alt diff_le_mono)
  have "take (ring_dist ?N ?s ?r - k) (rotate (unat p) (base f)) = take (ring_dist ?N ?s ?r - k) (drop k (rotate ?s (base f)))"
    using assms(2) d k ring_dist_less [OF d(1,2)] by (intro take_rotate_further) auto
  then show "fifo2_stale (f\<lparr>sptr := p\<rparr>) = drop k (fifo2_stale f)" using pr by (simp add: fifo2_stale_def drop_take)
  show "fifo2_fresh (f\<lparr>sptr := p\<rparr>) = fifo2_fresh f" by (simp add: fifo2_fresh_def)
qed

lemma fifo2_stale_all: "fifo2_ok f \<Longrightarrow> (unat (sptr f) + length (fifo2_stale f)) mod unat (fsize f) = unat (rptr f)"
  using fifo2_okD(1,2) [of f] by (simp add: length_fifo2_stale ring_dist_reaches)

lemma fifo2_fresh_prefix: "fifo2_ok f \<Longrightarrow> k \<le> length (fifo2_fresh f) \<Longrightarrow> take k (rotate (unat (rptr f)) (base f)) = take k (fifo2_fresh f)"
  unfolding length_fifo2_fresh by (simp only: fifo2_fresh_def take_take min_absorb1)

lemma fifo2_copy_fresh:
  assumes "fifo2_ok f" "unat n \<le> length (fifo2_fresh f)" "\<And>b. buf = Some b \<Longrightarrow> unat n \<le> length b"
  shows "fifo2_copy_out f (rptr f) buf n = Some (map_option (put_at 0 (take (unat n) (fifo2_fresh f))) buf)"
proof (cases buf)
  case None
  then show ?thesis by (simp add: fifo2_copy_out_def)
next
  case (Some b)
  have "unat n \<le> unat (fsize f)" using assms(2) length_fifo2(2) [OF assms(1)] by simp
  then show ?thesis
    using Some fifo2_copy_out_eq [of "rptr f" f n b] fifo2_okD [OF assms(1)] assms(3) fifo2_fresh_prefix [OF assms(1,2)] by simp
qed

lemma fifo2_deq_ok:
  assumes "fifo2_ok f" "lock f" "unat n \<le> length (fifo2_fresh f)" "\<And>b. buf = Some b \<Longrightarrow> unat n \<le> length b"
  shows "\<exists>f'. fifo2_deq f buf n discard = Some (n, map_option (put_at 0 (take (unat n) (fifo2_fresh f))) buf, f')
    \<and> fifo2_ok f' \<and> lock f' \<and> fsize f' = fsize f \<and> fifo2_fresh f' = drop (unat n) (fifo2_fresh f)
    \<and> fifo2_stale f' = (if discard then [] else fifo2_stale f @ take (unat n) (fifo2_fresh f))"
proof -
  note d = fifo2_okD [OF assms(1)]
  have le: "unat n \<le> unat (fsize f)" using assms(3) length_fifo2(2) [OF assms(1)] by simp
  have small: "\<not> (of_nat (length (fifo2_fresh f)) :: u32) < n"
    using assms(3) length_fifo2(2) [OF assms(1)] d(4) by (subst small_less) auto
  let ?p = "fifo2_inc_ptr f (rptr f) n" and ?g = "f\<lparr>rptr := fifo2_inc_ptr f (rptr f) n\<rparr>"
  note sh = fifo2_shift [OF assms(1) fifo2_inc_ptr_eq [OF d(2) le d(4)] assms(3)]
  note dr = fifo2_drop_stale [OF sh(1), of "rptr ?g" "length (fifo2_stale ?g)"]
  have "unat (rptr ?g) = (unat (sptr ?g) + length (fifo2_stale ?g)) mod unat (fsize ?g)" using fifo2_stale_all [OF sh(1)] by simp
  note dr' = dr [OF this order_refl]
  show ?thesis
  proof (cases discard)
    case True
    then have "fifo2_deq f buf n discard = Some (n, map_option (put_at 0 (take (unat n) (fifo2_fresh f))) buf, ?g\<lparr>sptr := rptr ?g\<rparr>)"
      using assms(1,2) small fifo2_copy_fresh [OF assms(1,3,4)] by (simp add: fifo2_deq_def Let_def)
    then show ?thesis using True dr' sh(3) assms(2) by (intro exI [of _ "?g\<lparr>sptr := rptr ?g\<rparr>"]) simp
  next
    case False
    then have "fifo2_deq f buf n discard = Some (n, map_option (put_at 0 (take (unat n) (fifo2_fresh f))) buf, ?g)"
      using assms(1,2) small fifo2_copy_fresh [OF assms(1,3,4)] by (simp add: fifo2_deq_def Let_def)
    then show ?thesis using False sh assms(2) by (intro exI [of _ ?g]) simp
  qed
qed

lemma fifo2_deq_short:
  assumes "fifo2_ok f" "lock f" "length (fifo2_fresh f) < unat n"
  shows "fifo2_deq f buf n discard = Some (0, buf, f)"
proof -
  have "(of_nat (length (fifo2_fresh f)) :: u32) < n"
    using assms(3) length_fifo2(2) [OF assms(1)] fifo2_okD(4) [OF assms(1)] by (subst small_less) auto
  then show ?thesis using assms by (simp add: fifo2_deq_def)
qed

text \<open>Reading at an offset, among all bytes or the fresh ones.\<close>

lemma fifo2_read_ok:
  assumes "fifo2_ok f" "lock f" "xs = (if stale then fifo2_stale f @ fifo2_fresh f else fifo2_fresh f)"
    "unat off + unat n \<le> length xs" "unat n \<le> length b"
  shows "fifo2_read f (Some b) off n stale = Some (n, Some (put_at 0 (take (unat n) (drop (unat off) xs)) b))"
proof -
  note d = fifo2_okD [OF assms(1)]
  let ?N = "unat (fsize f)" and ?q = "if stale then sptr f else rptr f"
  have len: "length xs < ?N" using assms(3) length_fifo2(2) [OF assms(1)] by (auto split: if_splits)
  have q: "unat ?q < ?N" using d by simp
  have xs: "xs = take (length xs) (rotate (unat ?q) (base f))"
    using take_self [OF fifo2_contents [OF assms(1)]] take_self [OF fifo2_fresh_def] by (cases stale) (simp_all add: assms(3))
  have "unat (n + off) = unat n + unat off" using assms(4) len d(4) by (intro unat_add_lem [THEN iffD1]) simp
  then have nless: "\<not> (of_nat (length xs) :: u32) < n + off" using assms(4) len d(4) by (subst small_less) auto
  have used: "fifo2_bytes_used f stale = Some (of_nat (length xs))" using assms(1-3) by (cases stale) simp_all
  let ?p = "fifo2_inc_ptr f ?q off"
  have p: "unat ?p = (unat ?q + unat off) mod ?N" using q assms(4) len d(4) by (intro fifo2_inc_ptr_eq) auto
  then have "unat ?p < ?N" using q by (simp add: p)
  then have "fifo2_copy_out f ?p (Some b) n = Some (Some (put_at 0 (take (unat n) (rotate (unat ?p) (base f))) b))"
    using d(5) assms(4,5) len by (intro fifo2_copy_out_eq) auto
  moreover have "take (unat n) (rotate (unat ?p) (base f)) = take (unat n) (drop (unat off) (rotate (unat ?q) (base f)))"
    using p d(5) assms(4) len by (intro take_rotate_further) auto
  moreover have "take (unat n) (drop (unat off) (rotate (unat ?q) (base f))) = take (unat n) (drop (unat off) xs)"
  proof -
    have "take (unat n) (drop (unat off) (take (length xs) (rotate (unat ?q) (base f))))
        = take (unat n) (drop (unat off) (rotate (unat ?q) (base f)))"
      using assms(4) by (simp add: drop_take min_def)
    then show ?thesis using xs by simp
  qed
  ultimately show ?thesis using assms(2) used nless by (simp add: fifo2_read_def Let_def)
qed

lemma fifo2_discard_ok:
  assumes "fifo2_ok f" "lock f"
  shows "\<exists>f'. fifo2_discard f n = Some (of_nat (min (unat n) (length (fifo2_stale f))), f') \<and> fifo2_ok f' \<and> lock f' \<and> fsize f' = fsize f
    \<and> fifo2_stale f' = drop (unat n) (fifo2_stale f) \<and> fifo2_fresh f' = fifo2_fresh f"
proof -
  note d = fifo2_okD [OF assms(1)]
  let ?k = "length (fifo2_stale f)"
  have k: "?k < unat (fsize f)" using length_fifo2(2) [OF assms(1)] by simp
  have diff: "of_nat (?k + length (fifo2_fresh f)) - of_nat (length (fifo2_fresh f)) = (of_nat ?k :: u32)" by simp
  have le: "(of_nat ?k :: u32) \<le> n \<longleftrightarrow> ?k \<le> unat n" using k d(4) by (simp only: word_le_nat_alt unat_cap)
  show ?thesis
  proof (cases "?k \<le> unat n")
    case True
    note dr = fifo2_drop_stale [OF assms(1) fifo2_stale_all [OF assms(1), symmetric] order_refl]
    have "fifo2_discard f n = Some (of_nat (min (unat n) ?k), f\<lparr>sptr := rptr f\<rparr>)"
      using assms True le diff by (simp add: fifo2_discard_def Let_def min_absorb2)
    then show ?thesis using dr True assms(2) by (intro exI [of _ "f\<lparr>sptr := rptr f\<rparr>"]) simp
  next
    case False
    let ?p = "fifo2_inc_ptr f (sptr f) n"
    have "unat ?p = (unat (sptr f) + unat n) mod unat (fsize f)" using d False k by (intro fifo2_inc_ptr_eq) auto
    note dr = fifo2_drop_stale [OF assms(1) this]
    have "fifo2_discard f n = Some (of_nat (min (unat n) ?k), f\<lparr>sptr := ?p\<rparr>)"
      using assms False le diff by (simp add: fifo2_discard_def Let_def min_absorb1 of_nat_unat)
    then show ?thesis using dr False assms(2) by (intro exI [of _ "f\<lparr>sptr := ?p\<rparr>"]) simp
  qed
qed

lemma fifo2_flush_ok:
  assumes "fifo2_ok f" "lock f"
  shows "\<exists>f'. fifo2_flush f = Some f' \<and> fifo2_ok f' \<and> lock f' \<and> fsize f' = fsize f \<and> fifo2_stale f' = [] \<and> fifo2_fresh f' = []"
proof (intro exI conjI)
  let ?f = "f\<lparr>sptr := 0, rptr := 0, wptr := 0\<rparr>"
  show "fifo2_flush f = Some ?f" using assms(2) by (simp add: fifo2_flush_def)
  have "0 < fsize f" using assms(1) by (auto simp: fifo2_ok_def word_less_nat_alt)
  then show "fifo2_ok ?f" using assms(1) by (simp add: fifo2_ok_def)
qed (use assms in \<open>simp_all add: fifo2_stale_def fifo2_fresh_def\<close>)

lemma fifo2_read_short:
  assumes "fifo2_ok f" "lock f" "xs = (if stale then fifo2_stale f @ fifo2_fresh f else fifo2_fresh f)"
    "length xs < unat off + unat n" "unat off + unat n < 2 ^ 32"
  shows "fifo2_read f buf off n stale = Some (0, buf)"
proof -
  have len: "length xs < unat (fsize f)" using assms(3) length_fifo2(2) [OF assms(1)] by (auto split: if_splits)
  have "unat (n + off) = unat n + unat off" using assms(5) by (intro unat_add_lem [THEN iffD1]) simp
  then have "(of_nat (length xs) :: u32) < n + off" using assms(4) len fifo2_okD(4) [OF assms(1)] by (subst small_less) auto
  moreover have "fifo2_bytes_used f stale = Some (of_nat (length xs))" using assms(1-3) by (cases stale) simp_all
  ultimately show ?thesis using assms(2) by (simp add: fifo2_read_def)
qed

lemma put_at_all [simp]: "length xs = length buf \<Longrightarrow> put_at 0 xs buf = xs"
  by (simp add: put_at_def)

lemma fifo2_lock_keeps [simp]:
  "fifo2_ok (f\<lparr>lock := b\<rparr>) = fifo2_ok f" "fifo2_stale (f\<lparr>lock := b\<rparr>) = fifo2_stale f" "fifo2_fresh (f\<lparr>lock := b\<rparr>) = fifo2_fresh f"
  by (simp_all add: fifo2_ok_def fifo2_stale_def fifo2_fresh_def)

section \<open>The ring is a queue\<close>

datatype queue_call = Enq bytes | Deq u32 bool | Read u32 u32 bool | Discard u32 | Flush

text \<open>The calls as their users make them, between taking and giving back the lock.\<close>

fun fifo2_call :: "queue_call \<Rightarrow> fifo2 \<Rightarrow> ((u32 \<times> bytes) \<times> fifo2) option" where
  "fifo2_call (Enq xs) f = do {
     (n, f) \<leftarrow> fifo2_enq (fifo2_lock f) xs (of_nat (length xs)); f \<leftarrow> fifo2_unlock f; Some ((n, []), f) }"
| "fifo2_call (Deq n discard) f = do {
     (k, buf, f) \<leftarrow> fifo2_deq (fifo2_lock f) (Some (replicate (unat n) 0)) n discard;
     f \<leftarrow> fifo2_unlock f; Some ((k, take (unat k) (the buf)), f) }"
| "fifo2_call (Read off n stale) f = do {
     (k, buf) \<leftarrow> fifo2_read (fifo2_lock f) (Some (replicate (unat n) 0)) off n stale;
     f \<leftarrow> fifo2_unlock (fifo2_lock f); Some ((k, take (unat k) (the buf)), f) }"
| "fifo2_call (Discard n) f = do {
     (k, f) \<leftarrow> fifo2_discard (fifo2_lock f) n; f \<leftarrow> fifo2_unlock f; Some ((k, []), f) }"
| "fifo2_call Flush f = do {
     f \<leftarrow> fifo2_flush (fifo2_lock f); f \<leftarrow> fifo2_unlock f; Some ((0, []), f) }"

text \<open>The specification: the capacity, the bytes read and not discarded, and the bytes to read.\<close>

type_synonym queue = "nat \<times> bytes \<times> bytes"

fun queue_spec :: "queue_call \<Rightarrow> queue \<Rightarrow> (u32 \<times> bytes) \<times> queue" where
  "queue_spec (Enq xs) (cap, s, q) =
     (if length xs + length s + length q < cap then ((of_nat (length xs), []), (cap, s, q @ xs)) else ((0, []), (cap, s, q)))"
| "queue_spec (Deq n discard) (cap, s, q) =
     (if unat n \<le> length q
      then ((n, take (unat n) q), (cap, if discard then [] else s @ take (unat n) q, drop (unat n) q))
      else ((0, []), (cap, s, q)))"
| "queue_spec (Read off n stale) (cap, s, q) =
     (let xs = (if stale then s @ q else q)
      in if unat off + unat n \<le> length xs then ((n, take (unat n) (drop (unat off) xs)), (cap, s, q)) else ((0, []), (cap, s, q)))"
| "queue_spec (Discard n) (cap, s, q) = ((of_nat (min (unat n) (length s)), []), (cap, drop (unat n) s, q))"
| "queue_spec Flush (cap, s, q) = ((0, []), (cap, [], []))"

text \<open>Sizes are numbers of 32 bits, and so is the end of a range that is read.\<close>

fun queue_pre :: "queue_call \<Rightarrow> queue \<Rightarrow> bool" where
  "queue_pre (Enq xs) q = (length xs < 2 ^ 32)"
| "queue_pre (Read off n stale) q = (unat off + unat n < 2 ^ 32)"
| "queue_pre _ q = True"

definition queue_rel :: "fifo2 \<Rightarrow> queue \<Rightarrow> bool" where
  "queue_rel f q \<longleftrightarrow> fifo2_ok f \<and> q = (unat (fsize f), fifo2_stale f, fifo2_fresh f)"

lemma unat_length: "length xs < 2 ^ 32 \<Longrightarrow> unat (of_nat (length xs) :: u32) = length xs"
  by (simp add: unsigned_of_nat take_bit_nat_eq_self)

lemma fifo2_call_refines:
  assumes "queue_rel f q" "queue_pre x q"
  shows "\<exists>f'. fifo2_call x f = Some (fst (queue_spec x q), f') \<and> queue_rel f' (snd (queue_spec x q))"
proof -
  let ?g = "f\<lparr>lock := True\<rparr>"
  have g: "fifo2_ok ?g" "lock ?g" and q: "q = (unat (fsize ?g), fifo2_stale ?g, fifo2_fresh ?g)"
    using assms(1) by (simp_all add: queue_rel_def)
  show ?thesis
  proof (cases x)
    case (Enq xs)
    then have n: "unat (of_nat (length xs) :: u32) = length xs" using assms(2) by (intro unat_length) simp
    show ?thesis
    proof (cases "length xs + length (fifo2_stale ?g) + length (fifo2_fresh ?g) < unat (fsize ?g)")
      case True
      then show ?thesis using fifo2_enq_ok [OF g, of "of_nat (length xs)" xs] n
        by (auto simp: Enq q fifo2_lock_def fifo2_unlock_def queue_rel_def)
    next
      case False
      then show ?thesis using fifo2_enq_full [OF g, of "of_nat (length xs)" xs] n g(1)
        by (auto simp: Enq q fifo2_lock_def fifo2_unlock_def queue_rel_def)
    qed
  next
    case (Deq n d)
    show ?thesis
    proof (cases "unat n \<le> length (fifo2_fresh ?g)")
      case True
      then show ?thesis using fifo2_deq_ok [OF g True, of "Some (replicate (unat n) 0)" d]
        by (auto simp: Deq q fifo2_lock_def fifo2_unlock_def queue_rel_def)
    next
      case False
      then show ?thesis using fifo2_deq_short [OF g, of n] g(1)
        by (auto simp: Deq q fifo2_lock_def fifo2_unlock_def queue_rel_def)
    qed
  next
    case (Read off n stale)
    define xs where xs: "xs = (if stale then fifo2_stale ?g @ fifo2_fresh ?g else fifo2_fresh ?g)"
    have spec: "queue_spec x q = (if unat off + unat n \<le> length xs then ((n, take (unat n) (drop (unat off) xs)), q) else ((0, []), q))"
      by (simp add: Read q xs Let_def)
    have q': "queue_rel f q" using assms(1) .
    show ?thesis
    proof (cases "unat off + unat n \<le> length xs")
      case True
      then have "fifo2_read ?g (Some (replicate (unat n) 0)) off n stale = Some (n, Some (take (unat n) (drop (unat off) xs)))"
        using fifo2_read_ok [OF g xs True, of "replicate (unat n) 0"] by simp
      then show ?thesis using True q' spec by (simp add: Read fifo2_lock_def fifo2_unlock_def queue_rel_def)
    next
      case False
      then have "fifo2_read ?g (Some (replicate (unat n) 0)) off n stale = Some (0, Some (replicate (unat n) 0))"
        using fifo2_read_short [OF g xs] assms(2) Read by simp
      then show ?thesis using False q' spec by (simp add: Read fifo2_lock_def fifo2_unlock_def queue_rel_def)
    qed
  next
    case (Discard n)
    then show ?thesis using fifo2_discard_ok [OF g, of n] by (auto simp: q fifo2_lock_def fifo2_unlock_def queue_rel_def)
  next
    case Flush
    then show ?thesis using fifo2_flush_ok [OF g] by (auto simp: q fifo2_lock_def fifo2_unlock_def queue_rel_def)
  qed
qed

interpretation f2: call_refinement queue_rel fifo2_call queue_spec queue_pre
  by unfold_locales (rule fifo2_call_refines)

lemma fifo2_init_rel:
  assumes "0 < n" "unat n \<le> 2 ^ 31" "length buf = unat n"
  shows "queue_rel (fifo2_init f buf n) (unat n, [], [])"
  using assms by (simp add: queue_rel_def fifo2_ok_def fifo2_init_def fifo2_stale_def fifo2_fresh_def)

end
