(* ===== verification/Audio_Mqueue.thy ===== *)
theory Audio_Mqueue
  imports Audio_Ring
begin

text \<open>
  The message queue of the decoder thread, \<open>lib/audio/mqueue.c\<close>: messages are written field by
  field into a ring while its lock is held, and read the same way. Numbers have the byte order of
  the device. \<open>pthread_mutex_lock\<close> reports errors as positive numbers, so the branches for \<open>-1\<close> are
  never taken and left out.
\<close>

record mqueue =
  mq_buffer :: bytes
  mq_fifo :: fifo

definition mqueue_init :: "mqueue \<Rightarrow> bytes \<Rightarrow> u32 \<Rightarrow> mqueue" where
  "mqueue_init mq buf n = mq\<lparr>mq_fifo := fifo_init (mq_fifo mq) n, mq_buffer := buf\<rparr>"

section \<open>Reading\<close>

partial_function (option) mqueue_read_buf :: "u32 \<Rightarrow> mqueue \<Rightarrow> (bytes \<times> mqueue) option" where
  "mqueue_read_buf n mq =
     (if n = 0 then Some ([], mq)
      else do {
        wrap \<leftarrow> fifo_bytes_until_rptr_wrap (mq_fifo mq);
        let bytes_read = (if n < wrap then n else wrap);
        b \<leftarrow> memcpy (replicate (unat bytes_read) 0) 0 (mq_buffer mq) (unat (rptr (mq_fifo mq))) (unat bytes_read);
        f \<leftarrow> fifo_rptr_incby (mq_fifo mq) bytes_read;
        r \<leftarrow> mqueue_read_buf (n - bytes_read) (mq\<lparr>mq_fifo := f\<rparr>);
        Some (b @ fst r, snd r) })"

definition mqueue_unlock :: "mqueue \<Rightarrow> mqueue option" where
  "mqueue_unlock mq = do { f \<leftarrow> fifo_unlock (mq_fifo mq); Some (mq\<lparr>mq_fifo := f\<rparr>) }"

definition mqueue_read_u8 :: "mqueue \<Rightarrow> (u8 \<times> mqueue) option" where
  "mqueue_read_u8 mq = do { (b, mq) \<leftarrow> mqueue_read_buf 1 mq; Some (hd b, mq) }"

definition mqueue_read_u16 :: "mqueue \<Rightarrow> (u16 \<times> mqueue) option" where
  "mqueue_read_u16 mq = do { (b, mq) \<leftarrow> mqueue_read_buf 2 mq; Some (of_be16 b, mq) }"

definition mqueue_read_u32 :: "mqueue \<Rightarrow> (u32 \<times> mqueue) option" where
  "mqueue_read_u32 mq = do { (b, mq) \<leftarrow> mqueue_read_buf 4 mq; Some (of_be32 b, mq) }"

definition be64 :: "64 word \<Rightarrow> bytes" where
  "be64 w = be32 (ucast (drop_bit 32 w)) @ be32 (ucast w)"

definition of_be64 :: "bytes \<Rightarrow> 64 word" where
  "of_be64 bs = push_bit 32 (ucast (of_be32 bs)) OR ucast (of_be32 (drop 4 bs))"

definition mqueue_read_u64 :: "mqueue \<Rightarrow> (64 word \<times> mqueue) option" where
  "mqueue_read_u64 mq = do { (b, mq) \<leftarrow> mqueue_read_buf 8 mq; Some (of_be64 b, mq) }"

definition mqueue_read_array :: "u32 \<Rightarrow> mqueue \<Rightarrow> (bytes \<times> mqueue) option" where
  "mqueue_read_array len mq = mqueue_read_buf len mq"

definition mqueue_read_complete :: "mqueue \<Rightarrow> mqueue option" where
  "mqueue_read_complete mq = mqueue_unlock mq"

text \<open>
  The next message: its code, with the lock kept, or 0. While the reader waits, \<open>timedwait\<close> is what
  the other threads do and the result of waiting (see \<open>timedwait_loop\<close>).
\<close>

definition mqueue_read_code :: "mqueue \<Rightarrow> (u32 \<times> mqueue) option" where
  "mqueue_read_code mq = do { (b, mq) \<leftarrow> mqueue_read_buf 4 mq; Some (of_be32 b, mq) }"

definition mqueue_read_request :: "(mqueue \<Rightarrow> int \<times> mqueue) \<Rightarrow> u32 \<Rightarrow> mqueue \<Rightarrow> (u32 \<times> mqueue) option" where
  "mqueue_read_request timedwait timeout mq = do {
     let mq = mq\<lparr>mq_fifo := fifo_lock (mq_fifo mq)\<rparr>;
     used \<leftarrow> fifo_bytes_used (mq_fifo mq);
     if used \<noteq> 0 then mqueue_read_code mq
     else if timeout = 0 then do { mq \<leftarrow> mqueue_unlock mq; Some (0, mq) }
     else do {
       ASSERT_FIFO_LOCKED (mq_fifo mq);
       (err, mq) \<leftarrow> timedwait_loop timedwait (mq\<lparr>mq_fifo := (mq_fifo mq)\<lparr>lock := False\<rparr>\<rparr>);
       let mq = mq\<lparr>mq_fifo := (mq_fifo mq)\<lparr>lock := True\<rparr>\<rparr>;
       if err \<noteq> 0 then do { mq \<leftarrow> mqueue_unlock mq; Some (0, mq) }
       else do {
         used \<leftarrow> fifo_bytes_used (mq_fifo mq);
         if used \<noteq> 0 then mqueue_read_code mq
         else do { mq \<leftarrow> mqueue_unlock mq; Some (0, mq) } } } }"

section \<open>Writing\<close>

partial_function (option) mqueue_write_buf :: "bytes \<Rightarrow> u32 \<Rightarrow> mqueue \<Rightarrow> mqueue option" where
  "mqueue_write_buf b n mq =
     (if n = 0 then Some mq
      else do {
        wrap \<leftarrow> fifo_bytes_until_wptr_wrap (mq_fifo mq);
        let bytes_write = (if n < wrap then n else wrap);
        buf \<leftarrow> memcpy (mq_buffer mq) (unat (wptr (mq_fifo mq))) b 0 (unat bytes_write);
        f \<leftarrow> fifo_wptr_incby (mq_fifo mq) bytes_write;
        mqueue_write_buf (drop (unat bytes_write) b) (n - bytes_write) (mq\<lparr>mq_buffer := buf, mq_fifo := f\<rparr>) })"

definition mqueue_write_request :: "u32 \<Rightarrow> u32 \<Rightarrow> mqueue \<Rightarrow> (bool \<times> mqueue) option" where
  "mqueue_write_request code len mq = do {
     let mq = mq\<lparr>mq_fifo := fifo_lock (mq_fifo mq)\<rparr>;
     free \<leftarrow> fifo_bytes_free (mq_fifo mq);
     if len > free then do { mq \<leftarrow> mqueue_unlock mq; Some (False, mq) }
     else do { mq \<leftarrow> mqueue_write_buf (be32 code) 4 mq; Some (True, mq) } }"

definition mqueue_write_complete :: "mqueue \<Rightarrow> mqueue option" where
  "mqueue_write_complete mq = do { fifo_signal (mq_fifo mq); mqueue_unlock mq }"

definition mqueue_write_u8 :: "u8 \<Rightarrow> mqueue \<Rightarrow> mqueue option" where
  "mqueue_write_u8 v mq = mqueue_write_buf [v] 1 mq"

definition mqueue_write_u16 :: "u16 \<Rightarrow> mqueue \<Rightarrow> mqueue option" where
  "mqueue_write_u16 v mq = mqueue_write_buf (be16 v) 2 mq"

definition mqueue_write_u32 :: "u32 \<Rightarrow> mqueue \<Rightarrow> mqueue option" where
  "mqueue_write_u32 v mq = mqueue_write_buf (be32 v) 4 mq"

definition mqueue_write_u64 :: "64 word \<Rightarrow> mqueue \<Rightarrow> mqueue option" where
  "mqueue_write_u64 v mq = mqueue_write_buf (be64 v) 8 mq"

definition mqueue_write_array :: "bytes \<Rightarrow> u32 \<Rightarrow> mqueue \<Rightarrow> mqueue option" where
  "mqueue_write_array a len mq = mqueue_write_buf a len mq"

section \<open>The queue of bytes\<close>

text \<open>The ring of the queue, seen as a ring of \<open>fifo2.c\<close> without stale bytes.\<close>

definition mq_ring :: "mqueue \<Rightarrow> fifo2" where
  "mq_ring mq = \<lparr>lock = lock (mq_fifo mq), rptr = rptr (mq_fifo mq), wptr = wptr (mq_fifo mq), fsize = fsize (mq_fifo mq),
     base = mq_buffer mq, sptr = rptr (mq_fifo mq)\<rparr>"

definition mq_ok :: "mqueue \<Rightarrow> bool" where
  "mq_ok mq \<longleftrightarrow> fifo2_ok (mq_ring mq)"

definition mq_held :: "mqueue \<Rightarrow> bytes" where
  "mq_held mq = fifo2_fresh (mq_ring mq)"

definition mq_size :: "mqueue \<Rightarrow> nat" where
  "mq_size mq = unat (fsize (mq_fifo mq))"

lemma mq_ring_sel [simp]:
  "lock (mq_ring mq) = lock (mq_fifo mq)" "rptr (mq_ring mq) = rptr (mq_fifo mq)" "wptr (mq_ring mq) = wptr (mq_fifo mq)"
  "fsize (mq_ring mq) = fsize (mq_fifo mq)" "base (mq_ring mq) = mq_buffer mq" "sptr (mq_ring mq) = rptr (mq_fifo mq)"
  by (simp_all add: mq_ring_def)

lemma mq_ring_stale [simp]: "fifo2_stale (mq_ring mq) = []"
  by (simp add: fifo2_stale_def)

lemma mq_used: "mq_ok mq \<Longrightarrow> lock (mq_fifo mq) \<Longrightarrow> fifo_bytes_used (mq_fifo mq) = Some (of_nat (length (mq_held mq)))"
  using fifo2_used_fresh [of "mq_ring mq"] by (auto simp: mq_ok_def mq_held_def fifo_bytes_used_def fifo2_bytes_used_def split: if_splits)

lemma mq_free: "mq_ok mq \<Longrightarrow> lock (mq_fifo mq) \<Longrightarrow> fifo_bytes_free (mq_fifo mq) = Some (of_nat (mq_size mq - 1 - length (mq_held mq)))"
proof -
  assume a: "mq_ok mq" "lock (mq_fifo mq)"
  then have "fifo2_bytes_free (mq_ring mq) = Some (of_nat (unat (fsize (mq_ring mq)) - 1 - (length (fifo2_stale (mq_ring mq)) + length (fifo2_fresh (mq_ring mq)))))"
    by (intro fifo2_free) (simp_all add: mq_ok_def)
  moreover have "fifo_bytes_free (mq_fifo mq) = fifo2_bytes_free (mq_ring mq)" using a by (simp add: fifo_bytes_free_def fifo2_bytes_free_def)
  ultimately show ?thesis unfolding mq_size_def mq_held_def mq_ring_stale mq_ring_sel by simp
qed

text \<open>Writing goes twice through the loop when the message wraps, as \<open>fifo2_enq\<close> writes in two parts.\<close>

lemma mqueue_write_buf_enq:
  assumes "mq_ok mq" "lock (mq_fifo mq)" "unat n + length (mq_held mq) < mq_size mq" "unat n \<le> length b"
  shows "\<exists>f. fifo2_enq (mq_ring mq) b n = Some (n, f)
    \<and> mqueue_write_buf b n mq = Some (mq\<lparr>mq_buffer := base f, mq_fifo := (mq_fifo mq)\<lparr>wptr := wptr f\<rparr>\<rparr>)
    \<and> mq_ring (mq\<lparr>mq_buffer := base f, mq_fifo := (mq_fifo mq)\<lparr>wptr := wptr f\<rparr>\<rparr>) = f"
proof -
  let ?F = "mq_fifo mq" and ?c = "fsize (mq_fifo mq) - wptr (mq_fifo mq)"
  have ok: "fifo2_ok (mq_ring mq)" using assms(1) by (simp add: mq_ok_def)
  note d = fifo2_okD [OF ok]
  have c: "unat ?c = unat (fsize ?F) - unat (wptr ?F)" using d(3) by (simp add: unat_until_wrap)
  have c0: "?c \<noteq> 0" using c d(3) by auto
  have n: "unat n + length (fifo2_stale (mq_ring mq)) + length (fifo2_fresh (mq_ring mq)) < unat (fsize (mq_ring mq))"
    using assms(3) by (simp add: mq_held_def mq_size_def)
  have nN: "unat n < unat (fsize ?F)" using assms(3) by (simp add: mq_size_def)
  obtain b' w where enq: "fifo2_enq (mq_ring mq) b n = Some (n, (mq_ring mq)\<lparr>base := b', wptr := w\<rparr>)"
    using fifo2_enq_base [OF ok _ n assms(4)] assms(2) by auto
  let ?mq = "mq\<lparr>mq_buffer := b', mq_fifo := (mq_fifo mq)\<lparr>wptr := w\<rparr>\<rparr>"
  have ring: "mq_ring ?mq = (mq_ring mq)\<lparr>base := b', wptr := w\<rparr>" by (simp add: mq_ring_def)
  have small: "\<not> of_nat (unat (fsize ?F) - 1 - (length (fifo2_stale (mq_ring mq)) + length (fifo2_fresh (mq_ring mq)))) < n"
    using n d(4) by (subst small_less) auto
  have free: "fifo2_bytes_free (mq_ring mq) = Some (of_nat (unat (fsize ?F) - 1 - (length (fifo2_stale (mq_ring mq)) + length (fifo2_fresh (mq_ring mq)))))"
    using fifo2_free [OF ok] assms(2) by (simp only: mq_ring_sel simp_thms)
  have "mqueue_write_buf b n mq = Some ?mq"
  proof (cases "n \<le> ?c")
    case True
    have le: "unat (wptr ?F) + unat n \<le> length (mq_buffer mq)" using True c d(3,5) by (simp add: word_le_nat_alt)
    have eq: "b' = put_at (unat (wptr ?F)) (get_at 0 (unat n) b) (mq_buffer mq)" "w = (if wptr ?F + n = fsize ?F then 0 else wptr ?F + n)"
      using enq True assms(2,4) le small free
      by (auto simp: fifo2_enq_def fifo2_bytes_until_wptr_wrap_def fifo2_wptr_incby_def mq_ring_def split: if_splits)
    have "(if n < ?c then n else ?c) = n" using True by auto
    moreover have "wptr ?F \<noteq> fsize ?F" using d(3) by auto
    ultimately show ?thesis using assms(2,4) le eq
      by (subst mqueue_write_buf.simps, subst mqueue_write_buf.simps) (auto simp: fifo_bytes_until_wptr_wrap_def fifo_wptr_incby_def put_at_def get_at_def Let_def)
  next
    case False
    then have lt: "unat ?c < unat n" by (simp add: word_le_nat_alt)
    have m: "unat (n - ?c) = unat n - unat ?c" using False by (simp add: unat_sub)
    have m0: "n - ?c \<noteq> 0" using m lt by auto
    have ml: "unat (n - ?c) < unat (fsize ?F)" using m nN by simp
    then have ne: "n - ?c \<noteq> fsize ?F" by (metis less_irrefl)
    let ?b1 = "put_at (unat (wptr ?F)) (get_at 0 (unat ?c) b) (mq_buffer mq)"
    have len1: "length ?b1 = length (mq_buffer mq)" using c d(3,5) assms(4) lt by simp
    have eq: "b' = put_at 0 (get_at (unat ?c) (unat (n - ?c)) b) ?b1" "w = n - ?c"
      using enq False assms(2,4) c d(3,5) lt m ml ne small free len1
      by (auto simp: fifo2_enq_def fifo2_bytes_until_wptr_wrap_def fifo2_wptr_incby_def mq_ring_def split: if_splits)
    let ?mq1 = "mq\<lparr>mq_buffer := ?b1, mq_fifo := ?F\<lparr>wptr := 0\<rparr>\<rparr>"
    have "mqueue_write_buf b n mq = mqueue_write_buf (drop (unat ?c) b) (n - ?c) ?mq1"
      using False assms(2,4) c d(3,5) lt
      by (subst mqueue_write_buf.simps) (auto simp: fifo_bytes_until_wptr_wrap_def fifo_wptr_incby_def Let_def)
    also have "\<dots> = mqueue_write_buf (drop (unat (n - ?c)) (drop (unat ?c) b)) 0 ?mq"
    proof -
      have "n - ?c < fsize ?F" using ml by (simp add: word_less_nat_alt)
      then show ?thesis using m0 assms(2,4) m d(5) ml len1 eq ne
        by (subst mqueue_write_buf.simps)
          (simp add: fifo_bytes_until_wptr_wrap_def fifo_wptr_incby_def Let_def get_at_def)
    qed
    also have "\<dots> = Some ?mq" by (subst mqueue_write_buf.simps) simp
    finally show ?thesis .
  qed
  then show ?thesis using enq ring by auto
qed

lemma mqueue_write_buf_ok:
  assumes "mq_ok mq" "lock (mq_fifo mq)" "unat n + length (mq_held mq) < mq_size mq" "unat n \<le> length b"
  shows "\<exists>mq'. mqueue_write_buf b n mq = Some mq' \<and> mq_ok mq' \<and> lock (mq_fifo mq') \<and> mq_size mq' = mq_size mq
    \<and> rptr (mq_fifo mq') = rptr (mq_fifo mq) \<and> mq_held mq' = mq_held mq @ take (unat n) b"
proof -
  obtain f where f: "fifo2_enq (mq_ring mq) b n = Some (n, f)"
    "mqueue_write_buf b n mq = Some (mq\<lparr>mq_buffer := base f, mq_fifo := (mq_fifo mq)\<lparr>wptr := wptr f\<rparr>\<rparr>)"
    "mq_ring (mq\<lparr>mq_buffer := base f, mq_fifo := (mq_fifo mq)\<lparr>wptr := wptr f\<rparr>\<rparr>) = f"
    using mqueue_write_buf_enq [OF assms] by blast
  define mq' where mq': "mq' = mq\<lparr>mq_buffer := base f, mq_fifo := (mq_fifo mq)\<lparr>wptr := wptr f\<rparr>\<rparr>"
  have w: "fifo2_enq (mq_ring mq) b n = Some (n, mq_ring mq')" "mqueue_write_buf b n mq = Some mq'"
    using f by (simp_all add: mq')
  have "unat n + length (fifo2_stale (mq_ring mq)) + length (fifo2_fresh (mq_ring mq)) < unat (fsize (mq_ring mq))"
    using assms(3) by (simp add: mq_held_def mq_size_def)
  from fifo2_enq_ok [OF assms(1) [unfolded mq_ok_def] _ this assms(4)]
  have "fifo2_ok (mq_ring mq') \<and> lock (mq_ring mq') \<and> fsize (mq_ring mq') = fsize (mq_ring mq)
    \<and> fifo2_fresh (mq_ring mq') = fifo2_fresh (mq_ring mq) @ take (unat n) b"
    using assms(2) w(1) by auto
  then show ?thesis using w(2) by (simp add: mq_ok_def mq_held_def mq_size_def) (simp add: mq')
qed

lemma mqueue_read_buf_rotate:
  assumes "mq_ok mq" "lock (mq_fifo mq)" "unat n < mq_size mq"
  shows "mqueue_read_buf n mq = Some (take (unat n) (rotate (unat (rptr (mq_fifo mq))) (mq_buffer mq)),
    mq\<lparr>mq_fifo := (mq_fifo mq)\<lparr>rptr := fifo2_inc_ptr (mq_ring mq) (rptr (mq_fifo mq)) n\<rparr>\<rparr>)"
proof -
  let ?F = "mq_fifo mq" and ?c = "fsize (mq_fifo mq) - rptr (mq_fifo mq)"
  note d = fifo2_okD [OF assms(1) [unfolded mq_ok_def], simplified]
  have c: "unat ?c = unat (fsize ?F) - unat (rptr ?F)" using d(2) by (simp add: unat_until_wrap)
  have nN: "unat n < unat (fsize ?F)" using assms(3) by (simp add: mq_size_def)
  have sum: "unat (rptr ?F + n) = unat (rptr ?F) + unat n" using nN d(2,4) by (intro unat_add_lem [THEN iffD1]) simp
  show ?thesis
  proof (cases "n \<le> ?c")
    case True
    have le: "unat (rptr ?F) + unat n \<le> length (mq_buffer mq)" using True c d(2,5) by (simp add: word_le_nat_alt)
    have "(if n < ?c then n else ?c) = n" using True by auto
    moreover have "rptr ?F \<noteq> fsize ?F" using d(2) by auto
    moreover have "rptr ?F + n = fsize ?F \<longleftrightarrow> rptr ?F + n \<ge> fsize ?F" using le d(5) sum by (metis antisym order_refl word_le_nat_alt)
    moreover have "take (unat n) (rotate (unat (rptr ?F)) (mq_buffer mq)) = get_at (unat (rptr ?F)) (unat n) (mq_buffer mq)"
      using le d(2,5) by (simp add: rotate_split get_at_def)
    ultimately show ?thesis using assms(2) le
      by (subst mqueue_read_buf.simps, subst mqueue_read_buf.simps)
        (auto simp: fifo_bytes_until_rptr_wrap_def fifo_rptr_incby_def fifo2_inc_ptr_def Let_def)
  next
    case False
    then have lt: "unat ?c < unat n" by (simp add: word_le_nat_alt)
    have m: "unat (n - ?c) = unat n - unat ?c" using False by (simp add: unat_sub)
    have m0: "n - ?c \<noteq> 0" using m lt by (metis unat_0 diff_is_0_eq not_le)
    have ml: "unat (n - ?c) < unat (fsize ?F)" using m nN by simp
    then have less: "n - ?c < fsize ?F" and ne: "n - ?c \<noteq> fsize ?F" by (simp add: word_less_nat_alt, metis less_irrefl)
    let ?mq1 = "mq\<lparr>mq_fifo := ?F\<lparr>rptr := 0\<rparr>\<rparr>"
    have ge: "fsize ?F \<le> rptr ?F + n" using lt c sum by (simp add: word_le_nat_alt)
    have 1: "mqueue_read_buf n mq = do { r \<leftarrow> mqueue_read_buf (n - ?c) ?mq1; Some (get_at (unat (rptr ?F)) (unat ?c) (mq_buffer mq) @ fst r, snd r) }"
      using False assms(2) c d(2,5) lt
      by (subst mqueue_read_buf.simps) (auto simp: fifo_bytes_until_rptr_wrap_def fifo_rptr_incby_def Let_def)
    have 2: "mqueue_read_buf (n - ?c) ?mq1 = Some (take (unat (n - ?c)) (mq_buffer mq), mq\<lparr>mq_fifo := ?F\<lparr>rptr := n - ?c\<rparr>\<rparr>)"
      using m0 assms(2) d(5) ml less ne
      by (subst mqueue_read_buf.simps, subst mqueue_read_buf.simps)
        (simp add: fifo_bytes_until_rptr_wrap_def fifo_rptr_incby_def Let_def get_at_def)
    have "take (unat n) (rotate (unat (rptr ?F)) (mq_buffer mq)) = get_at (unat (rptr ?F)) (unat ?c) (mq_buffer mq) @ take (unat (n - ?c)) (mq_buffer mq)"
      using lt c m nN d(2,5) by (simp add: rotate_split get_at_def min_def) linarith
    moreover have "fifo2_inc_ptr (mq_ring mq) (rptr ?F) n = n - ?c" using ge by (simp add: fifo2_inc_ptr_def)
    ultimately show ?thesis using 1 2 by simp
  qed
qed

lemma mqueue_read_buf_ok:
  assumes "mq_ok mq" "lock (mq_fifo mq)" "unat n \<le> length (mq_held mq)"
  shows "\<exists>mq'. mqueue_read_buf n mq = Some (take (unat n) (mq_held mq), mq') \<and> mq_ok mq' \<and> lock (mq_fifo mq') \<and> mq_size mq' = mq_size mq
    \<and> mq_held mq' = drop (unat n) (mq_held mq) \<and> mq_buffer mq' = mq_buffer mq
    \<and> unat (rptr (mq_fifo mq')) = (unat (rptr (mq_fifo mq)) + unat n) mod mq_size mq"
proof -
  let ?p = "fifo2_inc_ptr (mq_ring mq) (rptr (mq_fifo mq)) n" and ?b = "replicate (unat n) 0 :: bytes"
  let ?mq = "mq\<lparr>mq_fifo := (mq_fifo mq)\<lparr>rptr := ?p\<rparr>\<rparr>"
  have ok: "fifo2_ok (mq_ring mq)" using assms(1) by (simp add: mq_ok_def)
  have n: "unat n \<le> length (fifo2_fresh (mq_ring mq))" using assms(3) by (simp add: mq_held_def)
  have size: "unat n < mq_size mq" using n length_fifo2(2) [OF ok] by (simp add: mq_size_def)
  obtain f' where f': "fifo2_deq (mq_ring mq) (Some ?b) n True = Some (n, Some (take (unat n) (mq_held mq)), f')"
    "fifo2_ok f'" "fsize f' = fsize (mq_ring mq)" "fifo2_fresh f' = drop (unat n) (mq_held mq)"
    using fifo2_deq_ok [OF ok _ n, where buf = "Some ?b" and discard = True] assms(2) n by (auto simp: mq_held_def)
  have "\<not> (of_nat (length (fifo2_fresh (mq_ring mq))) :: u32) < n"
    using n length_fifo2(2) [OF ok] fifo2_okD(4) [OF ok] by (subst small_less) auto
  then have "f' = (mq_ring mq)\<lparr>rptr := ?p, sptr := ?p\<rparr>"
    using f'(1) ok assms(2) by (auto simp: fifo2_deq_def Let_def split: Option.bind_splits)
  also have "\<dots> = mq_ring ?mq" by (simp add: mq_ring_def)
  finally have eq: "f' = mq_ring ?mq" .
  have "take (unat n) (rotate (unat (rptr (mq_fifo mq))) (mq_buffer mq)) = take (unat n) (mq_held mq)"
    using fifo2_fresh_prefix [OF ok n] by (simp add: mq_held_def)
  then have "mqueue_read_buf n mq = Some (take (unat n) (mq_held mq), ?mq)"
    using mqueue_read_buf_rotate [OF assms(1,2) size] by simp
  moreover have "unat ?p = (unat (rptr (mq_fifo mq)) + unat n) mod mq_size mq"
    using fifo2_inc_ptr_eq [of "rptr (mq_fifo mq)" "mq_ring mq" n] fifo2_okD [OF ok] size by (simp add: mq_size_def)
  ultimately show ?thesis using f'(2-4) assms(2) unfolding eq
    by (intro exI [of _ ?mq]) (simp add: mq_ok_def mq_size_def, simp add: mq_held_def)
qed

end
