(* ===== verification/Audio_Streambuf.thy ===== *)
theory Audio_Streambuf
  imports Audio_Ring
begin

text \<open>
  The stream buffer between the player and the decoder, \<open>lib/audio/streambuf.c\<close>: a ring of data
  with commands in between. Slots count the data between two commands: \<open>streambuf_slot_cnt\<close> what is
  still to be read, from \<open>dslot\<close> to \<open>eslot\<close>, and \<open>streambuf_slot_cnt_stale\<close> what is not yet
  discarded, from \<open>sslot\<close> to \<open>eslot\<close>. Every function takes the lock of the ring for its whole body,
  so the threads of the player interleave between calls only. As before, \<open>None\<close> is a run that stops
  or never returns. Log messages are left out.
\<close>

type_synonym u64 = "64 word"

abbreviation STREAMBUF_SIZE :: u32 where "STREAMBUF_SIZE \<equiv> 1 * 1024 * 1024"
abbreviation MAX_STREAM_CMDS :: u32 where "MAX_STREAM_CMDS \<equiv> 8"

record streambuf =
  streambuf_slot_cnt :: "u32 list"
  streambuf_cmd_cnt :: u32
  eslot :: u32
  dslot :: u32
  streambuf_fifo :: fifo2
  streambuf_streaming :: bool
  streambuf_allow_auto_discard :: bool
  streambuf_allow_discard :: bool
  streambuf_allow_writes :: bool
  streambuf_bytes_received :: u64
  discard_data_on_thaw :: u32
  discard_cmd_on_thaw :: u32
  streambuf_cmd_cnt_stale :: u32
  sslot :: u32
  streambuf_slot_cnt_stale :: "u32 list"
  streambuf_state_sync :: "u32 list"

text \<open>The initial values of the globals, and \<open>streambuf_init\<close>.\<close>

definition streambuf_globals :: streambuf where
  "streambuf_globals = \<lparr>streambuf_slot_cnt = replicate 9 0, streambuf_cmd_cnt = 0, eslot = 0, dslot = 0,
     streambuf_fifo = \<lparr>lock = False, rptr = 0, wptr = 0, fsize = 0, base = [], sptr = 0\<rparr>,
     streambuf_streaming = False, streambuf_allow_auto_discard = False, streambuf_allow_discard = True,
     streambuf_allow_writes = True, streambuf_bytes_received = 0, discard_data_on_thaw = 0, discard_cmd_on_thaw = 0,
     streambuf_cmd_cnt_stale = 0, sslot = 0, streambuf_slot_cnt_stale = replicate 9 0, streambuf_state_sync = replicate 4 0\<rparr>"

definition streambuf_init :: "streambuf \<Rightarrow> streambuf" where
  "streambuf_init sb = sb\<lparr>streambuf_fifo := fifo2_init (streambuf_fifo sb) (replicate (unat STREAMBUF_SIZE) 0) STREAMBUF_SIZE\<rparr>"

text \<open>Taking and giving back the lock of the ring.\<close>

definition sb_lock :: "streambuf \<Rightarrow> streambuf" where
  "sb_lock sb = sb\<lparr>streambuf_fifo := fifo2_lock (streambuf_fifo sb)\<rparr>"

definition sb_unlock :: "streambuf \<Rightarrow> streambuf option" where
  "sb_unlock sb = do { f \<leftarrow> fifo2_unlock (streambuf_fifo sb); Some (sb\<lparr>streambuf_fifo := f\<rparr>) }"

section \<open>State of the buffer\<close>

definition streambuf_get_size :: u32 where
  "streambuf_get_size = STREAMBUF_SIZE"

definition streambuf_get_freebytes :: "streambuf \<Rightarrow> (u32 \<times> streambuf) option" where
  "streambuf_get_freebytes sb = do {
     let sb = sb_lock sb;
     n \<leftarrow> (if streambuf_allow_writes sb then fifo2_bytes_free (streambuf_fifo sb) else Some 0);
     sb \<leftarrow> sb_unlock sb;
     Some (n, sb) }"

definition streambuf_get_usedbytes :: "streambuf \<Rightarrow> (u32 \<times> streambuf) option" where
  "streambuf_get_usedbytes sb = do {
     let sb = sb_lock sb;
     n \<leftarrow> fifo2_bytes_used (streambuf_fifo sb) False;
     sb \<leftarrow> sb_unlock sb;
     Some (n, sb) }"

definition streambuf_fast_usedbytes :: "streambuf \<Rightarrow> u32 option" where
  "streambuf_fast_usedbytes sb = do {
     ASSERT_FIFO_LOCKED (streambuf_fifo sb);
     fifo2_bytes_used (streambuf_fifo sb) False }"

definition streambuf_get_data_usedbytes :: "streambuf \<Rightarrow> (u32 \<times> streambuf) option" where
  "streambuf_get_data_usedbytes sb = do {
     let sb = sb_lock sb;
     n \<leftarrow> arr_get (streambuf_slot_cnt sb) (dslot sb);
     sb \<leftarrow> sb_unlock sb;
     Some (n, sb) }"

definition streambuf_would_wait_for :: "streambuf \<Rightarrow> u32 \<Rightarrow> (bool \<times> streambuf) option" where
  "streambuf_would_wait_for sb n =
     (if \<not> streambuf_streaming sb then Some (False, sb)
      else do { (used, sb) \<leftarrow> streambuf_get_data_usedbytes sb; Some (used < n, sb) })"

definition streambuf_get_status :: "streambuf \<Rightarrow> ((u32 \<times> u32 \<times> u32 \<times> u32) \<times> streambuf) option" where
  "streambuf_get_status sb = do {
     let sb = sb_lock sb;
     used \<leftarrow> (if streambuf_allow_writes sb then fifo2_bytes_used (streambuf_fifo sb) True else Some STREAMBUF_SIZE);
     let bytesL = ucast (streambuf_bytes_received sb AND 0xFFFFFFFF);
     let bytesH = ucast (drop_bit 32 (streambuf_bytes_received sb));
     sb \<leftarrow> sb_unlock sb;
     Some ((STREAMBUF_SIZE, used, bytesL, bytesH), sb) }"

definition streambuf_set_streaming :: "bool \<Rightarrow> streambuf \<Rightarrow> streambuf" where
  "streambuf_set_streaming is_streaming sb = sb\<lparr>streambuf_streaming := is_streaming\<rparr>"

definition streambuf_is_streaming :: "streambuf \<Rightarrow> bool" where
  "streambuf_is_streaming sb = streambuf_streaming sb"

definition streambuf_fifo_debug :: "streambuf \<Rightarrow> ((u32 \<times> u32 \<times> u32 \<times> u32 \<times> u32 \<times> u32) \<times> streambuf) option" where
  "streambuf_fifo_debug sb = do {
     let sb = sb_lock sb;
     stale_bytes \<leftarrow> fifo2_bytes_used (streambuf_fifo sb) True;
     fresh_bytes \<leftarrow> fifo2_bytes_used (streambuf_fifo sb) False;
     free_bytes \<leftarrow> fifo2_bytes_free (streambuf_fifo sb);
     let f = streambuf_fifo sb;
     sb \<leftarrow> sb_unlock sb;
     Some ((stale_bytes, fresh_bytes, free_bytes, sptr f, rptr f, wptr f), sb) }"

definition streambuf_is_copyright :: bool where "streambuf_is_copyright = False"
definition streambuf_is_icy :: bool where "streambuf_is_icy = False"

section \<open>Data and commands\<close>

definition streambuf_flush :: "streambuf \<Rightarrow> streambuf option" where
  "streambuf_flush sb = do {
     let sb = sb_lock sb;
     f \<leftarrow> fifo2_flush (streambuf_fifo sb);
     let sb = sb\<lparr>streambuf_fifo := f, streambuf_allow_auto_discard := False, streambuf_allow_discard := True,
       discard_data_on_thaw := 0, discard_cmd_on_thaw := 0, streambuf_cmd_cnt := 0, streambuf_cmd_cnt_stale := 0,
       eslot := 0, dslot := 0, sslot := 0, streambuf_slot_cnt := replicate 9 0, streambuf_slot_cnt_stale := replicate 9 0\<rparr>;
     sb_unlock sb }"

text \<open>The loops of \<open>streambuf_dec_cnt_stale\<close>: leaving empty slots, and taking bytes from slots.\<close>

partial_function (option) pop_stale :: "streambuf \<Rightarrow> streambuf option" where
  "pop_stale sb =
     (if sslot sb \<noteq> eslot sb then do {
        cnt \<leftarrow> arr_get (streambuf_slot_cnt_stale sb) (sslot sb);
        if cnt = 0 then pop_stale (sb\<lparr>sslot := if sslot sb = MAX_STREAM_CMDS then 0 else sslot sb + 1,
          streambuf_cmd_cnt_stale := streambuf_cmd_cnt_stale sb - 1\<rparr>)
        else Some sb }
      else Some sb)"

partial_function (option) dec_stale :: "u32 \<Rightarrow> streambuf \<Rightarrow> streambuf option" where
  "dec_stale bytes_left sb = do {
     cnt \<leftarrow> arr_get (streambuf_slot_cnt_stale sb) (sslot sb);
     if bytes_left \<ge> cnt then do {
       slots \<leftarrow> arr_set (streambuf_slot_cnt_stale sb) (sslot sb) 0;
       sb \<leftarrow> pop_stale (sb\<lparr>streambuf_slot_cnt_stale := slots\<rparr>);
       if bytes_left - cnt \<noteq> 0 then dec_stale (bytes_left - cnt) sb else Some sb }
     else do {
       slots \<leftarrow> arr_set (streambuf_slot_cnt_stale sb) (sslot sb) (cnt - bytes_left);
       Some (sb\<lparr>streambuf_slot_cnt_stale := slots\<rparr>) } }"

definition streambuf_dec_cnt_stale :: "u32 \<Rightarrow> streambuf \<Rightarrow> (u32 \<times> streambuf) option" where
  "streambuf_dec_cnt_stale n sb = do {
     ASSERT_FIFO_LOCKED (streambuf_fifo sb);
     sb \<leftarrow> dec_stale n sb;
     Some (n, sb) }"

definition streambuf_data_enq :: "bytes \<Rightarrow> u32 \<Rightarrow> streambuf \<Rightarrow> (bool \<times> streambuf) option" where
  "streambuf_data_enq buf n sb = do {
     let sb = sb_lock sb;
     let sb = sb\<lparr>streambuf_streaming := True, streambuf_bytes_received := streambuf_bytes_received sb + ucast n\<rparr>;
     cnt \<leftarrow> arr_get (streambuf_slot_cnt sb) (eslot sb);
     slots \<leftarrow> arr_set (streambuf_slot_cnt sb) (eslot sb) (cnt + n);
     let sb = sb\<lparr>streambuf_slot_cnt := slots\<rparr>;
     cnt \<leftarrow> arr_get (streambuf_slot_cnt_stale sb) (eslot sb);
     slots \<leftarrow> arr_set (streambuf_slot_cnt_stale sb) (eslot sb) (cnt + n);
     let sb = sb\<lparr>streambuf_slot_cnt_stale := slots\<rparr>;
     (k, f) \<leftarrow> fifo2_enq (streambuf_fifo sb) buf n;
     sb \<leftarrow> sb_unlock (sb\<lparr>streambuf_fifo := f\<rparr>);
     Some (True, sb) }"

definition streambuf_feed :: "bytes \<Rightarrow> u32 \<Rightarrow> streambuf \<Rightarrow> streambuf option" where
  "streambuf_feed buf n sb =
     (if \<not> streambuf_allow_writes sb then None else do { (r, sb) \<leftarrow> streambuf_data_enq buf n sb; Some sb })"

definition streambuf_data_deq :: "bytes \<Rightarrow> u32 \<Rightarrow> u32 \<Rightarrow> streambuf \<Rightarrow> ((u32 \<times> bytes \<times> bool) \<times> streambuf) option" where
  "streambuf_data_deq buf mn mx sb = do {
     let sb = sb_lock sb;
     cnt \<leftarrow> arr_get (streambuf_slot_cnt sb) (dslot sb);
     let n = (if cnt < mn then 0 else cnt);
     let n = (if n > mx then mx else n);
     let streaming = streambuf_streaming sb;
     (buf, sb) \<leftarrow> (if n \<noteq> 0 then do {
         (k, b, f) \<leftarrow> fifo2_deq (streambuf_fifo sb) (Some buf) n (streambuf_allow_auto_discard sb);
         cnt \<leftarrow> arr_get (streambuf_slot_cnt sb) (dslot sb);
         slots \<leftarrow> arr_set (streambuf_slot_cnt sb) (dslot sb) (cnt - n);
         Some (the b, sb\<lparr>streambuf_fifo := f, streambuf_slot_cnt := slots\<rparr>) }
       else Some (buf, sb));
     fifo2_signal (streambuf_fifo sb);
     sb \<leftarrow> sb_unlock sb;
     Some ((n, buf, streaming), sb) }"

definition streambuf_read :: "bytes \<Rightarrow> u32 \<Rightarrow> u32 \<Rightarrow> streambuf \<Rightarrow> ((u32 \<times> bytes \<times> bool) \<times> streambuf) option" where
  "streambuf_read buf mn mx sb = streambuf_data_deq buf mn mx sb"

definition streambuf_cmd_ready :: "streambuf \<Rightarrow> (u32 \<times> streambuf) option" where
  "streambuf_cmd_ready sb = do {
     let sb = sb_lock sb;
     cnt \<leftarrow> arr_get (streambuf_slot_cnt sb) (dslot sb);
     code \<leftarrow> (if streambuf_cmd_cnt sb \<noteq> 0 \<and> cnt = 0 then do {
         (k, b) \<leftarrow> fifo2_read (streambuf_fifo sb) (Some (be32 0)) 0 4 False;
         Some (of_be32 (the b)) }
       else Some 0);
     sb \<leftarrow> sb_unlock sb;
     Some (code, sb) }"

text \<open>A command that cannot be queued ends the program.\<close>

definition streambuf_cmd_enq :: "bytes \<Rightarrow> u32 \<Rightarrow> streambuf \<Rightarrow> (bool \<times> streambuf) option" where
  "streambuf_cmd_enq buf n sb = do {
     let sb = sb_lock sb;
     free \<leftarrow> fifo2_bytes_free (streambuf_fifo sb);
     if streambuf_cmd_cnt_stale sb \<noteq> MAX_STREAM_CMDS \<and> n < free then do {
       (k, f) \<leftarrow> fifo2_enq (streambuf_fifo sb) buf n;
       let sb = sb\<lparr>streambuf_fifo := f, eslot := if eslot sb = MAX_STREAM_CMDS then 0 else eslot sb + 1,
         streambuf_cmd_cnt := streambuf_cmd_cnt sb + 1, streambuf_cmd_cnt_stale := streambuf_cmd_cnt_stale sb + 1\<rparr>;
       sb \<leftarrow> sb_unlock sb;
       Some (True, sb) }
     else None }"

definition streambuf_cmd_deq :: "bytes \<Rightarrow> u32 \<Rightarrow> streambuf \<Rightarrow> ((u32 \<times> bytes) \<times> streambuf) option" where
  "streambuf_cmd_deq buf n sb = do {
     let sb = sb_lock sb;
     cnt \<leftarrow> arr_get (streambuf_slot_cnt sb) (dslot sb);
     (deqed, buf, sb) \<leftarrow> (if streambuf_cmd_cnt sb \<noteq> 0 \<and> cnt = 0 then do {
         (deqed, b, f) \<leftarrow> fifo2_deq (streambuf_fifo sb) (Some buf) n (streambuf_allow_auto_discard sb);
         let sb = sb\<lparr>streambuf_fifo := f\<rparr>;
         Some (deqed, the b,
           if deqed \<noteq> 0 then sb\<lparr>dslot := if dslot sb = MAX_STREAM_CMDS then 0 else dslot sb + 1,
             streambuf_cmd_cnt := streambuf_cmd_cnt sb - 1\<rparr> else sb) }
       else Some (0, buf, sb));
     sb \<leftarrow> sb_unlock sb;
     Some ((deqed, buf), sb) }"

definition streambuf_discard :: "u32 \<Rightarrow> bool \<Rightarrow> streambuf \<Rightarrow> (u32 \<times> streambuf) option" where
  "streambuf_discard n data sb = do {
     let sb = sb_lock sb;
     (discarded, sb) \<leftarrow> (if streambuf_allow_discard sb then do {
         (discarded, f) \<leftarrow> fifo2_discard (streambuf_fifo sb) n;
         (r, sb) \<leftarrow> streambuf_dec_cnt_stale (if data then discarded else 0) (sb\<lparr>streambuf_fifo := f\<rparr>);
         Some (discarded, sb) }
       else do {
         used_stale \<leftarrow> fifo2_bytes_used (streambuf_fifo sb) True;
         used \<leftarrow> fifo2_bytes_used (streambuf_fifo sb) False;
         let discarded = used_stale - used - discard_data_on_thaw sb - discard_cmd_on_thaw sb;
         let discarded = (if discarded < n then discarded else n);
         Some (discarded, if data then sb\<lparr>discard_data_on_thaw := discard_data_on_thaw sb + discarded\<rparr>
           else sb\<lparr>discard_cmd_on_thaw := discard_cmd_on_thaw sb + discarded\<rparr>) });
     sb \<leftarrow> sb_unlock sb;
     Some (discarded, sb) }"

section \<open>Synchronisation with another device\<close>

definition streambuf_lock_state :: "bool \<Rightarrow> streambuf \<Rightarrow> streambuf option" where
  "streambuf_lock_state lck sb = do {
     let sb = sb_lock sb;
     sb \<leftarrow> (if lck then do {
         used \<leftarrow> fifo2_bytes_used (streambuf_fifo sb) True;
         Some (sb\<lparr>streambuf_allow_auto_discard := False, streambuf_allow_discard := False, streambuf_allow_writes := False,
           streambuf_state_sync := [streambuf_cmd_cnt_stale sb, eslot sb, sslot sb, used]\<rparr>) }
       else do {
         let sb = sb\<lparr>streambuf_allow_auto_discard := False, streambuf_allow_discard := True, streambuf_allow_writes := True\<rparr>;
         (r, sb) \<leftarrow> streambuf_dec_cnt_stale (discard_data_on_thaw sb) sb;
         (k, f) \<leftarrow> fifo2_discard (streambuf_fifo sb) (discard_data_on_thaw sb + discard_cmd_on_thaw sb);
         Some (sb\<lparr>streambuf_fifo := f, discard_data_on_thaw := 0, discard_cmd_on_thaw := 0\<rparr>) });
     sb_unlock sb }"

definition streambuf_restore_state :: "streambuf \<Rightarrow> streambuf option" where
  "streambuf_restore_state sb = do {
     let sb = sb_lock sb;
     let st = streambuf_state_sync sb;
     let sb = sb\<lparr>streambuf_slot_cnt := streambuf_slot_cnt_stale sb, streambuf_cmd_cnt := st ! 0,
       streambuf_cmd_cnt_stale := st ! 0, eslot := st ! 1, dslot := st ! 2, sslot := st ! 2\<rparr>;
     sb_unlock sb }"

text \<open>Arrays of 32 bit numbers in memory.\<close>

definition u32_bytes :: "u32 list \<Rightarrow> bytes" where
  "u32_bytes ws = concat (map be32 ws)"

fun u32_words :: "bytes \<Rightarrow> u32 list" where
  "u32_words (a # b # c # d # bs) = of_be32 [a, b, c, d] # u32_words bs"
| "u32_words _ = []"

definition streambuf_sync_read_state :: "bytes \<Rightarrow> u32 \<Rightarrow> streambuf \<Rightarrow> ((u32 \<times> bytes) \<times> streambuf) option" where
  "streambuf_sync_read_state buf n sb = do {
     let sb = sb_lock sb;
     (ret, buf) \<leftarrow> (if 52 \<le> n then do {
         buf \<leftarrow> memcpy buf 0 (u32_bytes (streambuf_slot_cnt_stale sb)) 0 36;
         buf \<leftarrow> memcpy buf 36 (u32_bytes (streambuf_state_sync sb)) 0 16;
         Some (52, buf) }
       else Some (0, buf));
     sb \<leftarrow> sb_unlock sb;
     Some ((ret, buf), sb) }"

definition streambuf_sync_read_data :: "bytes \<Rightarrow> u32 \<Rightarrow> u32 \<Rightarrow> streambuf \<Rightarrow> ((u32 \<times> bytes) \<times> streambuf) option" where
  "streambuf_sync_read_data buf offset n sb = do {
     let sb = sb_lock sb;
     bytes_read \<leftarrow> fifo2_bytes_used (streambuf_fifo sb) True;
     let n = (if bytes_read < n + offset then bytes_read - offset else n);
     (bytes_read, buf) \<leftarrow> (if n \<noteq> 0 then do {
         (k, b) \<leftarrow> fifo2_read (streambuf_fifo sb) (Some buf) offset n True;
         Some (k, the b) }
       else Some (0, buf));
     sb \<leftarrow> sb_unlock sb;
     Some ((bytes_read, buf), sb) }"

definition streambuf_sync_write_state :: "bytes \<Rightarrow> u32 \<Rightarrow> streambuf \<Rightarrow> (u32 \<times> streambuf) option" where
  "streambuf_sync_write_state buf n sb = do {
     sb \<leftarrow> streambuf_flush sb;
     let sb = sb_lock sb;
     (ret, sb) \<leftarrow> (if n = 52 then do {
         slots \<leftarrow> memcpy (u32_bytes (streambuf_slot_cnt_stale sb)) 0 buf 0 36;
         st \<leftarrow> memcpy (u32_bytes (streambuf_state_sync sb)) 0 buf 36 16;
         let sb = sb\<lparr>streambuf_slot_cnt_stale := u32_words slots, streambuf_state_sync := u32_words st\<rparr>;
         Some (streambuf_state_sync sb ! 3, sb) }
       else Some (0, sb));
     sb \<leftarrow> sb_unlock sb;
     Some (ret, sb) }"

definition streambuf_sync_write_data :: "bytes \<Rightarrow> u32 \<Rightarrow> streambuf \<Rightarrow> (u32 \<times> streambuf) option" where
  "streambuf_sync_write_data buf n sb = do {
     let sb = sb_lock sb;
     (n, f) \<leftarrow> fifo2_enq (streambuf_fifo sb) buf n;
     sb \<leftarrow> sb_unlock (sb\<lparr>streambuf_fifo := f\<rparr>);
     Some (n, sb) }"

end
