(* ===== verification/Audio_Output.thy ===== *)
theory Audio_Output
  imports Audio_Streambuf "HOL-Library.Signed_Division"
begin

text \<open>
  The output of the decoders: \<open>lib/audio/decode/decode_output.c\<close>, the structures of \<open>decode_priv.h\<close>,
  the fixed point numbers of \<open>fixed_math.h\<close>, the calls of \<open>decode_play.c\<close> that change them and
  \<open>audio_helper.c\<close>. \<open>int32_t\<close> values are words read with \<open>sint\<close>. A record \<open>player\<close> holds the globals;
  the lock of the output ring is the one of its \<open>fifo\<close>. Left out are the log messages, the upload of
  samples for tests (\<open>SQUEEZEPLAY_UPLOAD\<close>) and the check that the child process is alive.
\<close>

section \<open>Fixed point numbers\<close>

type_synonym fixed = "32 word"
type_synonym sample = "32 word"

abbreviation FIXED_ONE :: fixed where "FIXED_ONE \<equiv> 0x10000"
abbreviation SAMPLE_MAX :: sample where "SAMPLE_MAX \<equiv> 0x7FFFFFFF"
abbreviation SAMPLE_MIN :: sample where "SAMPLE_MIN \<equiv> 0x80000000"

definition int32_to_fixed :: "32 word \<Rightarrow> fixed" where
  "int32_to_fixed x = push_bit 16 x"

definition fixed_mul :: "fixed \<Rightarrow> fixed \<Rightarrow> fixed" where
  "fixed_mul x y = word_of_int ((sint x * sint y) div 2 ^ 16)"

text \<open>Division by zero stops the program.\<close>

definition fixed_div :: "fixed \<Rightarrow> fixed \<Rightarrow> fixed option" where
  "fixed_div x y = (if y = 0 then None else Some (word_of_int (((sint x * 2 ^ 32) sdiv sint y) div 2 ^ 16)))"

section \<open>State\<close>

abbreviation DECODE_STATE_RUNNING :: u32 where "DECODE_STATE_RUNNING \<equiv> 1"
abbreviation DECODE_STATE_UNDERRUN :: u32 where "DECODE_STATE_UNDERRUN \<equiv> 2"
abbreviation DECODE_STATE_ERROR :: u32 where "DECODE_STATE_ERROR \<equiv> 4"
abbreviation DECODE_STATE_STOPPING :: u32 where "DECODE_STATE_STOPPING \<equiv> 32"
abbreviation DECODE_STATE_AUTOSTART :: u32 where "DECODE_STATE_AUTOSTART \<equiv> 64"

abbreviation TRANSITION_NONE :: u32 where "TRANSITION_NONE \<equiv> 0"
abbreviation TRANSITION_CROSSFADE :: u32 where "TRANSITION_CROSSFADE \<equiv> 1"
abbreviation TRANSITION_FADE_IN :: u32 where "TRANSITION_FADE_IN \<equiv> 2"
abbreviation TRANSITION_FADE_OUT :: u32 where "TRANSITION_FADE_OUT \<equiv> 4"
abbreviation TRANSITION_IMMEDIATE :: u32 where "TRANSITION_IMMEDIATE \<equiv> 8"
abbreviation TRANSITION_STEPS_PER_SECOND :: u32 where "TRANSITION_STEPS_PER_SECOND \<equiv> 10"
abbreviation TRANSITION_MINIMUM_SECONDS :: u32 where "TRANSITION_MINIMUM_SECONDS \<equiv> 1"
abbreviation TRANSITION_MAXIMUM_SECONDS :: u32 where "TRANSITION_MAXIMUM_SECONDS \<equiv> 10"

text \<open>Ten seconds of stereo samples: \<open>10 * 2 * 44100 * sizeof(sample_t)\<close>.\<close>

abbreviation DECODE_FIFO_SIZE :: u32 where "DECODE_FIFO_SIZE \<equiv> 3528000"

record decode_audio =
  da_fifo :: fifo
  running :: bool
  da_state :: u32
  lgain :: fixed
  rgain :: fixed
  set_sample_rate :: u32
  output_threshold :: u32
  sync_played_samples :: u64
  sync_timestamp :: u64
  check_start_point :: bool
  track_start_point :: u32
  track_copyright :: bool
  track_sample_rate :: u32
  written_track_samples :: u32
  num_tracks_started :: u32
  skip_ahead_bytes :: u32
  add_silence_ms :: "32 word"
  start_at_jiffies :: u64
  start_at_elapsed_samples :: u64
  max_rate :: u32
  samples_until_fade :: u32
  samples_to_fade :: u32
  transition_sample_rate :: u32
  da_transition_gain :: fixed
  da_transition_gain_step :: fixed
  da_transition_sample_step :: u32
  da_transition_samples_in_step :: u32

record player =
  sbuf :: streambuf
  decode_audio :: decode_audio
  decode_fifo_buf :: bytes
  current_decoder_state :: u32
  decode_first_buffer :: bool
  bitrate :: u32
  decode_transition_type :: u32
  decode_transition_period :: u32
  crossfade_started :: bool
  crossfade_ptr :: u32
  transition_gain :: fixed
  transition_gain_step :: fixed
  transition_sample_step :: u32
  transition_samples_in_step :: u32
  track_gain :: fixed
  track_clip_range :: "sample \<times> sample"
  track_inversion :: "32 word \<times> 32 word"
  output_channels :: u8

definition SAMPLES_TO_BYTES :: "u32 \<Rightarrow> u32" where
  "SAMPLES_TO_BYTES n = 2 * n * 4"

definition BYTES_TO_SAMPLES :: "u32 \<Rightarrow> u32" where
  "BYTES_TO_SAMPLES n = n div (2 * 4)"

definition decode_audio_lock :: "player \<Rightarrow> player" where
  "decode_audio_lock p = decode_audio_update (da_fifo_update fifo_lock) p"

definition decode_audio_unlock :: "player \<Rightarrow> player option" where
  "decode_audio_unlock p = do {
     f \<leftarrow> fifo_unlock (da_fifo (decode_audio p));
     Some (decode_audio_update (da_fifo_update (\<lambda>_. f)) p) }"

definition ASSERT_AUDIO_LOCKED :: "decode_audio \<Rightarrow> unit option" where
  "ASSERT_AUDIO_LOCKED da = ASSERT_FIFO_LOCKED (da_fifo da)"

text \<open>\<open>decode_init_buffers\<close>: shared memory, cleared, with an empty ring.\<close>

definition decode_init_buffers :: "fifo \<Rightarrow> decode_audio" where
  "decode_init_buffers f = \<lparr>da_fifo = fifo_init f DECODE_FIFO_SIZE, running = False, da_state = 0, lgain = 0, rgain = 0,
     set_sample_rate = 44100, output_threshold = 0, sync_played_samples = 0, sync_timestamp = 0,
     check_start_point = False, track_start_point = 0, track_copyright = False, track_sample_rate = 0,
     written_track_samples = 0, num_tracks_started = 0, skip_ahead_bytes = 0, add_silence_ms = 0,
     start_at_jiffies = 0, start_at_elapsed_samples = 0, max_rate = 0, samples_until_fade = 0, samples_to_fade = 0,
     transition_sample_rate = 0, da_transition_gain = 0, da_transition_gain_step = 0,
     da_transition_sample_step = 0, da_transition_samples_in_step = 0\<rparr>"

text \<open>The globals of the decoder when the program starts.\<close>

definition player_globals :: "streambuf \<Rightarrow> decode_audio \<Rightarrow> bytes \<Rightarrow> player" where
  "player_globals sb da buf = \<lparr>sbuf = sb, decode_audio = da, decode_fifo_buf = buf, current_decoder_state = 0,
     decode_first_buffer = False, bitrate = 0, decode_transition_type = 0, decode_transition_period = 0,
     crossfade_started = False, crossfade_ptr = 0, transition_gain = 0, transition_gain_step = 0,
     transition_sample_step = 0, transition_samples_in_step = 0, track_gain = FIXED_ONE,
     track_clip_range = (SAMPLE_MAX, SAMPLE_MIN), track_inversion = (1, 1), output_channels = 0\<rparr>"

section \<open>The backend and the metadata\<close>

definition decode_play_start :: "player \<Rightarrow> player option" where
  "decode_play_start p = do {
     ASSERT_AUDIO_LOCKED (decode_audio p);
     Some (decode_audio_update (\<lambda>da. da\<lparr>set_sample_rate := track_sample_rate da\<rparr>) p) }"

definition decode_play_resume :: "player \<Rightarrow> player option" where
  "decode_play_resume p = do { ASSERT_AUDIO_LOCKED (decode_audio p); Some p }"

definition decode_play_pause :: "player \<Rightarrow> player option" where
  "decode_play_pause p = do { ASSERT_AUDIO_LOCKED (decode_audio p); Some p }"

definition decode_play_stop :: "player \<Rightarrow> player option" where
  "decode_play_stop p = do { ASSERT_AUDIO_LOCKED (decode_audio p); Some p }"

definition decode_metadata_clear :: "player \<Rightarrow> player" where
  "decode_metadata_clear p = p\<lparr>bitrate := 0\<rparr>"

definition decode_metadata_set_bitrate :: "u32 \<Rightarrow> player \<Rightarrow> player" where
  "decode_metadata_set_bitrate kbps p = p\<lparr>bitrate := kbps\<rparr>"

section \<open>Starting and ending\<close>

definition decode_output_begin :: "player \<Rightarrow> player option" where
  "decode_output_begin p = do { ASSERT_AUDIO_LOCKED (decode_audio p); decode_play_start p }"

definition decode_output_end :: "player \<Rightarrow> player option" where
  "decode_output_end p = do {
     ASSERT_AUDIO_LOCKED (decode_audio p);
     let p = decode_audio_update (da_fifo_update (\<lambda>f. f\<lparr>rptr := 0, wptr := 0\<rparr>)) p;
     p \<leftarrow> decode_play_stop p;
     let p = p\<lparr>crossfade_started := False, transition_gain_step := 0\<rparr>;
     Some (decode_audio_update (\<lambda>da. da\<lparr>written_track_samples := 0, sync_timestamp := 0\<rparr>) p) }"

definition decode_output_flush :: "player \<Rightarrow> player option" where
  "decode_output_flush p = do {
     ASSERT_AUDIO_LOCKED (decode_audio p);
     if check_start_point (decode_audio p)
     then Some (decode_audio_update (\<lambda>da. da\<lparr>da_fifo := (da_fifo da)\<lparr>wptr := track_start_point da\<rparr>\<rparr>) p)
     else decode_play_stop (decode_audio_update (da_fifo_update (\<lambda>f. f\<lparr>rptr := wptr f\<rparr>)) p) }"

section \<open>Gain\<close>

text \<open>
  The quotients are computed in floating point; with at most 31 significant bits on both sides, the
  rounding error is smaller than the distance to the next integer, so the conversion cuts off the
  exact quotient.
\<close>

definition volume_get_clip_range :: "fixed \<Rightarrow> sample \<times> sample" where
  "volume_get_clip_range gain =
     (if FIXED_ONE <s gain
      then (word_of_int ((sint SAMPLE_MAX * 2 ^ 16) div sint gain), word_of_int (- ((- sint SAMPLE_MIN * 2 ^ 16) div sint gain)))
      else (SAMPLE_MAX, SAMPLE_MIN))"

definition volume_mul :: "sample \<Rightarrow> fixed \<Rightarrow> sample \<times> sample \<Rightarrow> sample" where
  "volume_mul sample gain clip_range =
     (if fst clip_range <s sample then SAMPLE_MAX
      else if sample <s snd clip_range then SAMPLE_MIN
      else fixed_mul gain sample)"

fun track_gain_loop :: "player \<Rightarrow> nat \<Rightarrow> sample list \<Rightarrow> sample list option" where
  "track_gain_loop p 0 buffer = Some buffer"
| "track_gain_loop p (Suc n) (l # r # buffer) = do {
     rest \<leftarrow> track_gain_loop p n buffer;
     Some (fst (track_inversion p) * volume_mul l (track_gain p) (track_clip_range p)
       # snd (track_inversion p) * volume_mul r (track_gain p) (track_clip_range p) # rest) }"
| "track_gain_loop p _ _ = None"

definition decode_apply_track_gain :: "sample list \<Rightarrow> u32 \<Rightarrow> player \<Rightarrow> sample list option" where
  "decode_apply_track_gain buffer nsamples p =
     (if track_gain p = FIXED_ONE \<and> fst (track_inversion p) = 1 \<and> snd (track_inversion p) = 1 then Some buffer
      else track_gain_loop p (unat nsamples) buffer)"

definition decode_output_set_track_gain :: "u32 \<Rightarrow> player \<Rightarrow> player" where
  "decode_output_set_track_gain replay_gain p =
     (let gain = (if replay_gain \<noteq> 0 then replay_gain else FIXED_ONE)
      in p\<lparr>track_gain := gain, track_clip_range := volume_get_clip_range gain\<rparr>)"

definition decode_set_track_polarity_inversion :: "u8 \<Rightarrow> player \<Rightarrow> player" where
  "decode_set_track_polarity_inversion inversion p =
     p\<lparr>track_inversion := (if inversion AND 1 \<noteq> 0 then - 1 else 1, if inversion AND 2 \<noteq> 0 then - 1 else 1)\<rparr>"

definition decode_set_output_channels :: "u8 \<Rightarrow> player \<Rightarrow> player" where
  "decode_set_output_channels channels p = p\<lparr>output_channels := channels\<rparr>"

text \<open>One channel copied to the other.\<close>

fun copy_channel :: "bool \<Rightarrow> nat \<Rightarrow> sample list \<Rightarrow> sample list option" where
  "copy_channel left 0 buffer = Some buffer"
| "copy_channel left (Suc n) (l # r # buffer) = do {
     rest \<leftarrow> copy_channel left n buffer;
     Some (if left then l # l # rest else r # r # rest) }"
| "copy_channel left _ _ = None"

section \<open>Transitions\<close>

definition decode_output_set_transition :: "u32 \<Rightarrow> u32 \<Rightarrow> player \<Rightarrow> player" where
  "decode_output_set_transition type period p =
     (if period = 0 then p\<lparr>decode_transition_type := TRANSITION_NONE\<rparr>
      else let p = p\<lparr>decode_transition_period := period\<rparr>; t = type - 48
      in if t = 0 then p\<lparr>decode_transition_type := TRANSITION_NONE\<rparr>
         else if t = 1 then p\<lparr>decode_transition_type := TRANSITION_CROSSFADE\<rparr>
         else if t = 2 then p\<lparr>decode_transition_type := TRANSITION_FADE_IN\<rparr>
         else if t = 3 then p\<lparr>decode_transition_type := TRANSITION_FADE_OUT\<rparr>
         else if t = 4 then p\<lparr>decode_transition_type := TRANSITION_FADE_IN OR TRANSITION_FADE_OUT,
           decode_transition_period := drop_bit 1 (decode_transition_period p)\<rparr>
         else if t = 5 then p\<lparr>decode_transition_type := TRANSITION_CROSSFADE OR TRANSITION_IMMEDIATE\<rparr>
         else p)"

partial_function (option) transition_interval_loop :: "u32 \<Rightarrow> u32 \<Rightarrow> fixed \<Rightarrow> u32 \<Rightarrow> fixed \<Rightarrow> (u32 \<times> fixed) option" where
  "transition_interval_loop bytes_used sample_step_bytes interval_step nbytes interval =
     (if bytes_used < nbytes + sample_step_bytes
      then transition_interval_loop bytes_used sample_step_bytes interval_step (nbytes - sample_step_bytes) (interval - interval_step)
      else Some (nbytes, interval))"

text \<open>The interval (0: no transition) and the bytes it takes; these are set only with an interval.\<close>

definition determine_transition_interval :: "u32 \<Rightarrow> u32 \<Rightarrow> decode_audio \<Rightarrow> (fixed \<times> u32) option" where
  "determine_transition_interval sample_rate transition_period da = do {
     ASSERT_AUDIO_LOCKED da;
     if sample_rate \<noteq> track_sample_rate da then Some (0, 0)
     else do {
       bytes_used \<leftarrow> fifo_bytes_used (da_fifo da);
       let nbytes = SAMPLES_TO_BYTES (TRANSITION_MINIMUM_SECONDS * sample_rate);
       if bytes_used < nbytes then Some (0, nbytes)
       else do {
         let nbytes = SAMPLES_TO_BYTES (transition_period * sample_rate);
         let transition_sample_step = sample_rate div TRANSITION_STEPS_PER_SECOND;
         let sample_step_bytes = SAMPLES_TO_BYTES transition_sample_step;
         let interval = int32_to_fixed transition_period;
         interval_step \<leftarrow> fixed_div FIXED_ONE TRANSITION_STEPS_PER_SECOND;
         (nbytes, interval) \<leftarrow> transition_interval_loop bytes_used sample_step_bytes interval_step nbytes interval;
         Some (interval, nbytes) } } }"

definition decode_transition_bytes_remaining :: "u32 \<Rightarrow> decode_audio \<Rightarrow> u32 option" where
  "decode_transition_bytes_remaining ptr da = do {
     ASSERT_AUDIO_LOCKED da;
     Some (if ptr \<ge> wptr (da_fifo da) then ptr - wptr (da_fifo da) else wptr (da_fifo da) - ptr + fsize (da_fifo da)) }"

definition load32 :: "bytes \<Rightarrow> nat \<Rightarrow> sample option" where
  "load32 buf i = (if i + 4 \<le> length buf then Some (of_be32 (take 4 (drop i buf))) else None)"

definition store32 :: "bytes \<Rightarrow> nat \<Rightarrow> sample \<Rightarrow> bytes option" where
  "store32 buf i v = memcpy buf i (be32 v) 0 4"

text \<open>New samples with \<open>in_gain\<close>, in a crossfade added to the samples of the ring with \<open>out_gain\<close>.\<close>

fun transition_samples :: "bool \<Rightarrow> fixed \<Rightarrow> nat \<Rightarrow> nat \<Rightarrow> sample list \<Rightarrow> bytes \<Rightarrow> (sample list \<times> bytes) option" where
  "transition_samples crossfade in_gain 0 dst buffer ring = Some (buffer, ring)"
| "transition_samples crossfade in_gain (Suc n) dst [] ring = None"
| "transition_samples crossfade in_gain (Suc n) dst (b # buffer) ring = do {
     v \<leftarrow> (if crossfade then do {
         s \<leftarrow> load32 ring dst;
         Some (fixed_mul (FIXED_ONE - in_gain) s + fixed_mul in_gain b) }
       else Some (fixed_mul in_gain b));
     ring \<leftarrow> store32 ring dst v;
     transition_samples crossfade in_gain n (dst + 4) buffer ring }"

partial_function (option) transition_step_loop :: "u32 \<Rightarrow> fixed \<Rightarrow> u32 \<Rightarrow> fixed \<Rightarrow> (u32 \<times> fixed) option" where
  "transition_step_loop step gain_step in_step gain =
     (if in_step \<ge> step then transition_step_loop step gain_step (in_step - step) (gain + gain_step) else Some (in_step, gain))"

partial_function (option) decode_transition_copy_bytes :: "sample list \<Rightarrow> u32 \<Rightarrow> player \<Rightarrow> player option" where
  "decode_transition_copy_bytes buffer nbytes p =
     (if nbytes = 0 then Some p
      else do {
        let bytes_read = SAMPLES_TO_BYTES (transition_sample_step p - transition_samples_in_step p);
        let bytes_read = (if bytes_read > nbytes then nbytes else bytes_read);
        let nsamples = BYTES_TO_SAMPLES bytes_read;
        (buffer, ring) \<leftarrow> transition_samples (crossfade_started p) (transition_gain p) (unat (nsamples * 2))
          (unat (wptr (da_fifo (decode_audio p)))) buffer (decode_fifo_buf p);
        f \<leftarrow> fifo_wptr_incby (da_fifo (decode_audio p)) bytes_read;
        (in_step, gain) \<leftarrow> transition_step_loop (transition_sample_step p) (transition_gain_step p)
          (transition_samples_in_step p + nsamples) (transition_gain p);
        let p = decode_audio_update (da_fifo_update (\<lambda>_. f)) (p\<lparr>decode_fifo_buf := ring\<rparr>);
        decode_transition_copy_bytes buffer (nbytes - bytes_read)
          (p\<lparr>transition_samples_in_step := in_step, transition_gain := gain\<rparr>) })"

section \<open>Samples\<close>

text \<open>The first samples of a track: where it starts, and its transition.\<close>

definition move_wptr_back :: "u32 \<Rightarrow> fifo \<Rightarrow> fifo" where
  "move_wptr_back n f = (let w = (if n > wptr f then wptr f + fsize f else wptr f) in f\<lparr>wptr := w - n\<rparr>)"

definition start_crossfade :: "u32 \<Rightarrow> player \<Rightarrow> player option" where
  "start_crossfade sample_rate p = do {
     p \<leftarrow> (if decode_transition_type p AND TRANSITION_IMMEDIATE \<noteq> 0 then do {
         let wanted = SAMPLES_TO_BYTES (decode_transition_period p * track_sample_rate (decode_audio p));
         used \<leftarrow> fifo_bytes_used (da_fifo (decode_audio p));
         Some (if used > wanted then decode_audio_update (da_fifo_update (move_wptr_back (used - wanted))) p else p) }
       else Some p);
     (interval, bytes) \<leftarrow> determine_transition_interval sample_rate (decode_transition_period p) (decode_audio p);
     if interval \<noteq> 0 then do {
       let p = p\<lparr>crossfade_ptr := wptr (da_fifo (decode_audio p))\<rparr>;
       let p = decode_audio_update (da_fifo_update (move_wptr_back bytes)) p;
       step \<leftarrow> fixed_div FIXED_ONE (fixed_mul interval (int32_to_fixed TRANSITION_STEPS_PER_SECOND));
       let p = p\<lparr>transition_gain_step := step, transition_gain := 0,
         transition_sample_step := word_of_int (sint sample_rate sdiv 10), transition_samples_in_step := 0, crossfade_started := True\<rparr>;
       Some (decode_audio_update (\<lambda>da. da\<lparr>track_start_point := wptr (da_fifo da)\<rparr>) p) }
     else Some p }"

definition start_fade_in :: "u32 \<Rightarrow> player \<Rightarrow> player option" where
  "start_fade_in sample_rate p = do {
     step \<leftarrow> fixed_div FIXED_ONE (int32_to_fixed (decode_transition_period p * TRANSITION_STEPS_PER_SECOND));
     Some (p\<lparr>transition_gain_step := step, transition_gain := 0,
       transition_sample_step := word_of_int (sint sample_rate sdiv 10), transition_samples_in_step := 0\<rparr>) }"

definition output_first_buffer :: "u32 \<Rightarrow> player \<Rightarrow> player option" where
  "output_first_buffer sample_rate p = do {
     let p = p\<lparr>crossfade_started := False\<rparr>;
     let p = decode_audio_update (\<lambda>da. da\<lparr>track_start_point := wptr (da_fifo da)\<rparr>) p;
     p \<leftarrow> (if decode_transition_type p AND TRANSITION_CROSSFADE \<noteq> 0 then start_crossfade sample_rate p
       else if decode_transition_type p AND TRANSITION_FADE_IN \<noteq> 0 then start_fade_in sample_rate p
       else Some p);
     let p = decode_audio_update (\<lambda>da. da\<lparr>track_copyright := streambuf_is_copyright, track_sample_rate := sample_rate,
       check_start_point := True\<rparr>) p;
     Some (p\<lparr>decode_first_buffer := False\<rparr>) }"

text \<open>The samples in memory.\<close>

definition sample_bytes :: "sample list \<Rightarrow> bytes" where
  "sample_bytes buffer = concat (map be32 buffer)"

partial_function (option) output_loop :: "sample list \<Rightarrow> u32 \<Rightarrow> player \<Rightarrow> player option" where
  "output_loop buffer bytes_out p =
     (if bytes_out = 0 then Some p
      else do {
        wrap \<leftarrow> fifo_bytes_until_wptr_wrap (da_fifo (decode_audio p));
        wrap \<leftarrow> (if crossfade_started p then do {
            bytes_remaining \<leftarrow> decode_transition_bytes_remaining (crossfade_ptr p) (decode_audio p);
            Some (if bytes_remaining < wrap then bytes_remaining else wrap) }
          else Some wrap);
        let bytes_write = (if bytes_out > wrap then wrap else bytes_out);
        p \<leftarrow> (if transition_gain_step p \<noteq> 0 then do {
            p \<leftarrow> decode_transition_copy_bytes buffer bytes_write p;
            Some (if crossfade_started p \<and> wptr (da_fifo (decode_audio p)) = crossfade_ptr p \<or> \<not> transition_gain p <s FIXED_ONE
              then p\<lparr>transition_gain_step := 0, crossfade_started := False\<rparr> else p) }
          else do {
            ring \<leftarrow> memcpy (decode_fifo_buf p) (unat (wptr (da_fifo (decode_audio p)))) (sample_bytes buffer) 0 (unat bytes_write);
            f \<leftarrow> fifo_wptr_incby (da_fifo (decode_audio p)) bytes_write;
            Some (decode_audio_update (da_fifo_update (\<lambda>_. f)) (p\<lparr>decode_fifo_buf := ring\<rparr>)) });
        output_loop (drop (unat bytes_write div 4) buffer) (bytes_out - bytes_write) p })"

definition decode_output_samples :: "sample list \<Rightarrow> u32 \<Rightarrow> u32 \<Rightarrow> player \<Rightarrow> player option" where
  "decode_output_samples buffer nsamples sample_rate p =
     (if nsamples = 0 then Some p
      else do {
        let p = decode_audio_lock p;
        p \<leftarrow> (if decode_first_buffer p then output_first_buffer sample_rate p else Some p);
        buffer \<leftarrow> (if output_channels p \<noteq> 0 then copy_channel (output_channels p AND 4 \<noteq> 0) (unat nsamples) buffer else Some buffer);
        buffer \<leftarrow> decode_apply_track_gain buffer nsamples p;
        p \<leftarrow> output_loop buffer (SAMPLES_TO_BYTES nsamples) p;
        decode_audio_unlock p })"

definition decode_output_can_write :: "u32 \<Rightarrow> player \<Rightarrow> (bool \<times> player) option" where
  "decode_output_can_write buffer_size p = do {
     let p = decode_audio_lock p;
     freebytes \<leftarrow> fifo_bytes_free (da_fifo (decode_audio p));
     p \<leftarrow> decode_audio_unlock p;
     Some (freebytes \<ge> buffer_size, p) }"

definition decode_output_samplerate :: "player \<Rightarrow> (u32 \<times> player) option" where
  "decode_output_samplerate p = do {
     let p = decode_audio_lock p;
     let sample_rate = track_sample_rate (decode_audio p);
     p \<leftarrow> decode_audio_unlock p;
     Some (sample_rate, p) }"

definition decode_output_max_rate :: "player \<Rightarrow> (u32 \<times> player) option" where
  "decode_output_max_rate p = do {
     let p = decode_audio_lock p;
     let rate = max_rate (decode_audio p);
     p \<leftarrow> decode_audio_unlock p;
     Some (rate, p) }"

definition decode_output_song_ended :: "player \<Rightarrow> player option" where
  "decode_output_song_ended p = do {
     ASSERT_AUDIO_LOCKED (decode_audio p);
     Some (if decode_transition_type p AND TRANSITION_FADE_OUT \<noteq> 0 \<and> decode_transition_period p \<noteq> 0
         \<and> da_state (decode_audio p) AND DECODE_STATE_RUNNING \<noteq> 0
       then decode_audio_update (\<lambda>da. da\<lparr>
         samples_until_fade := track_sample_rate da * (TRANSITION_MAXIMUM_SECONDS - decode_transition_period p),
         samples_to_fade := track_sample_rate da * decode_transition_period p,
         transition_sample_rate := track_sample_rate da\<rparr>) p
       else p) }"

section \<open>The start of a track\<close>

definition decode_check_start_point :: "decode_audio \<Rightarrow> (bool \<times> decode_audio) option" where
  "decode_check_start_point da = do {
     ASSERT_AUDIO_LOCKED da;
     if \<not> check_start_point da then Some (False, da)
     else do {
       let f = da_fifo da;
       let start = track_start_point da;
       let reached = (if wptr f > start then rptr f > start \<and> rptr f \<le> wptr f else rptr f > start \<or> rptr f \<le> wptr f);
       if \<not> reached then Some (False, da)
       else do {
         let offset = rptr f - start;
         let offset = (if offset <s 0 then offset + DECODE_FIFO_SIZE else offset);
         Some (True, da\<lparr>check_start_point := False, num_tracks_started := num_tracks_started da + 1,
           written_track_samples := BYTES_TO_SAMPLES offset + ucast (start_at_elapsed_samples da),
           start_at_elapsed_samples := 0, sync_timestamp := 0\<rparr>) } } }"

end
