(* ===== verification/Audio_Pcm.thy ===== *)
theory Audio_Pcm
  imports Audio_Output
begin

text \<open>
  The decoder of uncompressed samples, \<open>lib/audio/decode/decode_pcm.c\<close>: blocks of the stream become
  32 bit stereo samples; the bytes of an incomplete sample are left over for the next block.
\<close>

abbreviation BLOCKSIZE :: u32 where "BLOCKSIZE \<equiv> 4096"

record decode_pcm =
  write_buffer :: "sample list"
  read_buffer :: bytes
  leftover :: u32
  big_endian :: bool
  pcm_sample_rate :: u32
  sample_size :: u32
  stereo :: bool

definition pcm_sample_widths :: "u32 list" where
  "pcm_sample_widths = [1, 2, 3, 4]"

text \<open>The reading functions, on the bytes from \<open>pos\<close> on.\<close>

fun pcm_read8bit :: "bytes \<Rightarrow> sample option" where
  "pcm_read8bit (a # _) = Some (push_bit 24 (ucast a - 128))"
| "pcm_read8bit _ = None"

fun pcm_read16bitBE :: "bytes \<Rightarrow> sample option" where
  "pcm_read16bitBE (a # b # _) = Some (push_bit 24 (ucast a) OR push_bit 16 (ucast b))"
| "pcm_read16bitBE _ = None"

fun pcm_read16bitLE :: "bytes \<Rightarrow> sample option" where
  "pcm_read16bitLE (a # b # _) = Some (push_bit 16 (ucast a) OR push_bit 24 (ucast b))"
| "pcm_read16bitLE _ = None"

fun pcm_read24bitBE :: "bytes \<Rightarrow> sample option" where
  "pcm_read24bitBE (a # b # c # _) = Some (push_bit 24 (ucast a) OR push_bit 16 (ucast b) OR push_bit 8 (ucast c))"
| "pcm_read24bitBE _ = None"

fun pcm_read24bitLE :: "bytes \<Rightarrow> sample option" where
  "pcm_read24bitLE (a # b # c # _) = Some (push_bit 8 (ucast a) OR push_bit 16 (ucast b) OR push_bit 24 (ucast c))"
| "pcm_read24bitLE _ = None"

fun pcm_read32bitBE :: "bytes \<Rightarrow> sample option" where
  "pcm_read32bitBE (a # b # c # d # _) =
     Some (push_bit 24 (ucast a) OR push_bit 16 (ucast b) OR push_bit 8 (ucast c) OR ucast d)"
| "pcm_read32bitBE _ = None"

text \<open>The value in memory, in the byte order of the device.\<close>

definition pcm_read32bitLE :: "bytes \<Rightarrow> sample option" where
  "pcm_read32bitLE pos = load32 pos 0"

definition pcm_read_funcs :: "(bytes \<Rightarrow> sample option) list" where
  "pcm_read_funcs = [pcm_read8bit, pcm_read8bit, pcm_read16bitLE, pcm_read16bitBE, pcm_read24bitLE, pcm_read24bitBE,
     pcm_read32bitLE, pcm_read32bitBE]"

definition store_sample :: "sample list \<Rightarrow> nat \<Rightarrow> sample \<Rightarrow> sample list option" where
  "store_sample buffer i v = (if i < length buffer then Some (buffer[i := v]) else None)"

text \<open>The loop over the samples, from \<open>read_pos\<close> and \<open>write_pos\<close> on.\<close>

fun pcm_loop :: "(bytes \<Rightarrow> sample option) \<Rightarrow> nat \<Rightarrow> bool \<Rightarrow> bytes \<Rightarrow> nat \<Rightarrow> nat \<Rightarrow> nat \<Rightarrow> sample list \<Rightarrow> (nat \<times> sample list) option" where
  "pcm_loop read_func width st rbuf 0 read_pos write_pos buffer = Some (read_pos, buffer)"
| "pcm_loop read_func width st rbuf (Suc n) read_pos write_pos buffer = do {
     sample \<leftarrow> read_func (drop read_pos rbuf);
     buffer \<leftarrow> store_sample buffer write_pos sample;
     (write_pos, buffer) \<leftarrow> (if st then Some (write_pos + 1, buffer)
       else do { buffer \<leftarrow> store_sample buffer (write_pos + 1) sample; Some (write_pos + 2, buffer) });
     pcm_loop read_func width st rbuf n (read_pos + width) write_pos buffer }"

definition decode_pcm_callback :: "decode_pcm \<Rightarrow> player \<Rightarrow> (bool \<times> decode_pcm \<times> player) option" where
  "decode_pcm_callback self p = do {
     ((sz, buf, streaming), sb) \<leftarrow> streambuf_read (drop (unat (leftover self)) (read_buffer self)) 0 (BLOCKSIZE - leftover self) (sbuf p);
     let self = self\<lparr>read_buffer := take (unat (leftover self)) (read_buffer self) @ buf\<rparr>;
     let p = p\<lparr>sbuf := sb\<rparr>;
     if sz = 0 then Some (False, self, p\<lparr>current_decoder_state := current_decoder_state p OR DECODE_STATE_UNDERRUN\<rparr>)
     else do {
       (k, sb) \<leftarrow> streambuf_discard sz True (sbuf p);
       let p = p\<lparr>sbuf := sb, current_decoder_state := current_decoder_state p AND NOT DECODE_STATE_UNDERRUN\<rparr>;
       let sz = sz + leftover self;
       let read_func = pcm_read_funcs ! (unat (2 * sample_size self) + (if big_endian self then 1 else 0));
       let width = pcm_sample_widths ! unat (sample_size self);
       let num_samples = sz div width;
       let num_samples = (if stereo self then num_samples AND NOT 1 else num_samples);
       (read_pos, buffer) \<leftarrow> pcm_loop read_func (unat width) (stereo self) (read_buffer self) (unat num_samples) 0 0 (write_buffer self);
       let self = self\<lparr>write_buffer := buffer\<rparr>;
       p \<leftarrow> (if num_samples \<noteq> 0
         then decode_output_samples (write_buffer self) (if stereo self then num_samples div 2 else num_samples) (pcm_sample_rate self) p
         else Some p);
       let self = self\<lparr>leftover := sz - of_nat read_pos\<rparr>;
       self \<leftarrow> (if leftover self \<noteq> 0 then do {
           buf \<leftarrow> memcpy (read_buffer self) 0 (read_buffer self) read_pos (unat (leftover self));
           Some (self\<lparr>read_buffer := buf\<rparr>) }
         else Some self);
       Some (True, self, p) } }"

definition decode_pcm_samples :: u32 where
  "decode_pcm_samples = BLOCKSIZE"

text \<open>The parameters are not used. \<open>rbuf\<close> and \<open>wbuf\<close> is the memory as it was allocated.\<close>

definition decode_pcm_start :: "bytes \<Rightarrow> sample list \<Rightarrow> decode_pcm" where
  "decode_pcm_start rbuf wbuf = \<lparr>write_buffer = wbuf, read_buffer = rbuf, leftover = 0, big_endian = False,
     pcm_sample_rate = 44100, sample_size = 1, stereo = True\<rparr>"

end
