(* ===== verification/Audio_Control.thy ===== *)
theory Audio_Control
  imports Audio_Mqueue Audio_Pcm
begin

text \<open>
  The player's control of decoding, \<open>lib/audio/audio.c\<close>: the calls of the players put commands into
  the message queue of the decoder thread or into the stream, and the thread executes them in turn
  with decoding. The decoders are given as modules (\<open>struct decode_module\<close>), since most of them wrap
  codecs of other projects; \<open>pcm_module\<close> is the one of \<open>decode_pcm.c\<close>. A thread that waits is told by
  \<open>timedwait\<close> what it finds (see \<open>mqueue_read_request\<close>). Log messages are left out.
\<close>

section \<open>State\<close>

abbreviation DECODE_MAX_INTERVAL :: u32 where "DECODE_MAX_INTERVAL \<equiv> 500"
abbreviation DECODE_WAIT_INTERVAL :: u32 where "DECODE_WAIT_INTERVAL \<equiv> 100"
abbreviation DECODE_MQUEUE_SIZE :: u32 where "DECODE_MQUEUE_SIZE \<equiv> 512"
abbreviation DECODER_MAX_PARAMS :: u32 where "DECODER_MAX_PARAMS \<equiv> 32"
abbreviation DECODE_MINIMUM_BYTES_FLAC :: u32 where "DECODE_MINIMUM_BYTES_FLAC \<equiv> 25000"
abbreviation DEFAULT_VOLUME :: fixed where "DEFAULT_VOLUME \<equiv> 52428"

abbreviation AUDIO_OP_MAX :: u8 where "AUDIO_OP_MAX \<equiv> 127"
abbreviation AUDIO_OP_THIS_ENDIAN :: u32 where "AUDIO_OP_THIS_ENDIAN \<equiv> 0x80000000"
abbreviation DECODE_RESUME_DECODER_OP :: u8 where "DECODE_RESUME_DECODER_OP \<equiv> 1"
abbreviation DECODE_STOP_OP :: u8 where "DECODE_STOP_OP \<equiv> 2"
abbreviation DECODE_FLUSH_OP :: u8 where "DECODE_FLUSH_OP \<equiv> 3"
abbreviation AUDIO_PAUSE_AUDIO_OP :: u8 where "AUDIO_PAUSE_AUDIO_OP \<equiv> 4"
abbreviation DECODE_RESUME_AUDIO_OP :: u8 where "DECODE_RESUME_AUDIO_OP \<equiv> 5"
abbreviation DECODE_START_OP :: u8 where "DECODE_START_OP \<equiv> 6"
abbreviation DECODE_ST_END_OP :: u8 where "DECODE_ST_END_OP \<equiv> 7"
abbreviation DECODE_SKIP_AHEAD_OP :: u8 where "DECODE_SKIP_AHEAD_OP \<equiv> 8"

text \<open>
  A decoder: \<open>stop\<close> only frees its data; \<open>flush\<close> is optional. \<open>discarded_samples\<close> is the value that
  \<open>audio_prepare_sync_to\<close> reads at a fixed offset of the data, if the data reaches that far.
\<close>

record 'd decode_module =
  module_id :: u32
  start :: "bytes \<Rightarrow> 'd"
  samples :: "'d \<Rightarrow> u32"
  callback :: "'d \<Rightarrow> player \<Rightarrow> (bool \<times> 'd \<times> player) option"
  flush :: "('d \<Rightarrow> 'd) option"
  discarded_samples :: "'d \<Rightarrow> u64 option"

definition pcm_module :: "bytes \<Rightarrow> sample list \<Rightarrow> decode_pcm decode_module" where
  "pcm_module rbuf wbuf = \<lparr>module_id = 112, start = (\<lambda>params. decode_pcm_start rbuf wbuf), samples = (\<lambda>self. decode_pcm_samples),
     callback = decode_pcm_callback, flush = None, discarded_samples = (\<lambda>self. None)\<rparr>"

datatype sync_phase = SYNC_IDLE | SYNC_READY_SYNC_TO | SYNC_SEND_AUDIO_STATE | SYNC_SEND_SB_STATE | SYNC_SEND_SB_DATA
  | SYNC_SEND_DONE | SYNC_SEND_ERROR | SYNC_READY_SYNC_WAIT | SYNC_RECV_AUDIO_STATE | SYNC_RECV_SB_STATE | SYNC_RECV_SB_DATA
  | SYNC_RECV_DONE | SYNC_RECV_ERROR

text \<open>\<open>send_offset\<close>, \<open>recv_offset\<close> and \<open>recv_data_len\<close> are the static variables of the sync functions.\<close>

record 'd audio =
  player :: player
  play_cookie :: u32
  decode_mqueue :: mqueue
  decoder :: "'d decode_module option"
  decoder_data :: "'d option"
  sync_state :: sync_phase
  restore_state_on_resume :: bool
  current_track_discarded_samples :: u64
  current_track_jiffies :: u64
  sync_discarded_samples :: u64
  send_offset :: u32
  recv_offset :: u32
  recv_data_len :: u32

section \<open>Codes of commands\<close>

definition encode_audio_op :: "u8 \<Rightarrow> u16 \<Rightarrow> u32" where
  "encode_audio_op op sz =
     (if op > AUDIO_OP_MAX then 0 else AUDIO_OP_THIS_ENDIAN OR push_bit 8 (ucast sz) OR ucast op)"

definition bswap_32 :: "u32 \<Rightarrow> u32" where
  "bswap_32 w = of_be32 (rev (be32 w))"

text \<open>The operation, the size and whether the bytes are swapped; no handler is 0.\<close>

definition decode_audio_op :: "u32 \<Rightarrow> u32 \<times> u16 \<times> bool" where
  "decode_audio_op code =
     (let swap = (code AND AUDIO_OP_THIS_ENDIAN = 0);
          code = (if swap then bswap_32 code else code);
          op = code AND 0xff
      in (if 1 \<le> op \<and> op \<le> 8 then op else 0, ucast (drop_bit 8 code), swap))"

section \<open>Handlers of the decoder thread\<close>

definition with_mqueue :: "(mqueue \<Rightarrow> (mqueue \<times> 'r) option) \<Rightarrow> 'd audio \<Rightarrow> ('r \<times> 'd audio) option" where
  "with_mqueue f a = do { (mq, r) \<leftarrow> f (decode_mqueue a); Some (r, a\<lparr>decode_mqueue := mq\<rparr>) }"

definition with_player :: "(player \<Rightarrow> player option) \<Rightarrow> 'd audio \<Rightarrow> 'd audio option" where
  "with_player f a = do { p \<leftarrow> f (player a); Some (a\<lparr>player := p\<rparr>) }"

text \<open>The argument of a message with one 32 bit value; the queue is unlocked after it.\<close>

definition read_message_u32 :: "'d audio \<Rightarrow> (u32 \<times> 'd audio) option" where
  "read_message_u32 a = with_mqueue (\<lambda>mq. do {
     (v, mq) \<leftarrow> mqueue_read_u32 mq; mq \<leftarrow> mqueue_read_complete mq; Some (mq, v) }) a"

definition read_message :: "'d audio \<Rightarrow> 'd audio option" where
  "read_message a = do { mq \<leftarrow> mqueue_read_complete (decode_mqueue a); Some (a\<lparr>decode_mqueue := mq\<rparr>) }"

definition decode_resume_decoder_handler :: "'d audio \<Rightarrow> 'd audio option" where
  "decode_resume_decoder_handler a = do {
     a \<leftarrow> read_message a;
     Some (a\<lparr>player := (player a)\<lparr>current_decoder_state := DECODE_STATE_RUNNING\<rparr>\<rparr>) }"

definition stop_decoder :: "'d audio \<Rightarrow> 'd audio" where
  "stop_decoder a = (case decoder a of Some m \<Rightarrow> a\<lparr>decoder := None, decoder_data := None\<rparr> | None \<Rightarrow> a)"

definition decode_stop_handler :: "'d audio \<Rightarrow> 'd audio option" where
  "decode_stop_handler a = do {
     (cookie, a) \<leftarrow> read_message_u32 a;
     let a = a\<lparr>play_cookie := cookie\<rparr>;
     let p = decode_audio_lock (player a);
     let p = decode_audio_update (da_state_update (\<lambda>_. 0)) (p\<lparr>current_decoder_state := 0\<rparr>);
     let a = stop_decoder a;
     let p = decode_audio_update (\<lambda>da. da\<lparr>num_tracks_started := 0, skip_ahead_bytes := 0\<rparr>) p;
     p \<leftarrow> decode_output_end (p\<lparr>decode_first_buffer := False\<rparr>);
     p \<leftarrow> decode_audio_unlock (decode_metadata_clear p);
     Some (a\<lparr>player := p\<rparr>) }"

definition decode_flush_handler :: "'d audio \<Rightarrow> 'd audio option" where
  "decode_flush_handler a = do {
     (cookie, a) \<leftarrow> read_message_u32 a;
     let a = a\<lparr>play_cookie := cookie\<rparr>;
     let p = (decode_audio_lock (player a))\<lparr>decode_first_buffer := False\<rparr>;
     let a = (case (decoder a, decoder_data a) of
         (Some m, Some d) \<Rightarrow> (case flush m of Some f \<Rightarrow> a\<lparr>decoder_data := Some (f d)\<rparr> | None \<Rightarrow> a)
       | _ \<Rightarrow> a);
     p \<leftarrow> decode_output_end p;
     p \<leftarrow> decode_audio_unlock p;
     Some (a\<lparr>player := p\<rparr>) }"

definition audio_pause_audio_handler :: "'d audio \<Rightarrow> 'd audio option" where
  "audio_pause_audio_handler a = do {
     (interval, a) \<leftarrow> read_message_u32 a;
     let p = decode_audio_lock (player a);
     p \<leftarrow> (if interval \<noteq> 0 then Some (decode_audio_update (add_silence_ms_update (\<lambda>_. interval)) p)
       else if da_state (decode_audio p) AND DECODE_STATE_RUNNING \<noteq> 0
       then decode_play_pause (decode_audio_update (da_state_update (\<lambda>s. s AND NOT DECODE_STATE_RUNNING)) p)
       else Some p);
     p \<leftarrow> decode_audio_unlock p;
     Some (a\<lparr>player := p\<rparr>) }"

definition decode_resume_audio_handler :: "'d audio \<Rightarrow> 'd audio option" where
  "decode_resume_audio_handler a = do {
     (start_jiffies, a) \<leftarrow> with_mqueue (\<lambda>mq. do {
       (v, mq) \<leftarrow> mqueue_read_u64 mq; mq \<leftarrow> mqueue_read_complete mq; Some (mq, v) }) a;
     let a = a\<lparr>player := decode_audio_lock (player a)\<rparr>;
     (start_jiffies, a) \<leftarrow> (if restore_state_on_resume a then do {
         let sync_jiffies = current_track_jiffies a + sync_discarded_samples a * 1000 div 44100;
         sb \<leftarrow> streambuf_restore_state (sbuf (player a));
         let p = decode_audio_update (start_at_elapsed_samples_update (\<lambda>_. sync_discarded_samples a)) (player a);
         Some (sync_jiffies, a\<lparr>player := p\<lparr>sbuf := sb\<rparr>, current_track_discarded_samples := sync_discarded_samples a,
           sync_discarded_samples := 0, restore_state_on_resume := False\<rparr>) }
       else Some (start_jiffies, a\<lparr>current_track_jiffies := start_jiffies, current_track_discarded_samples := 0\<rparr>));
     p \<leftarrow> (if da_state (decode_audio (player a)) AND (DECODE_STATE_RUNNING OR DECODE_STATE_AUTOSTART) = 0
       then decode_play_resume (decode_audio_update (\<lambda>da. da\<lparr>start_at_jiffies := start_jiffies, da_state := DECODE_STATE_AUTOSTART\<rparr>) (player a))
       else Some (player a));
     p \<leftarrow> decode_audio_unlock p;
     Some (a\<lparr>player := p\<rparr>) }"

text \<open>The parameters of a start message, after its values.\<close>

fun read_params :: "nat \<Rightarrow> mqueue \<Rightarrow> (bytes \<times> mqueue) option" where
  "read_params 0 mq = Some ([], mq)"
| "read_params (Suc n) mq = do {
     (v, mq) \<leftarrow> mqueue_read_u8 mq;
     (vs, mq) \<leftarrow> read_params n mq;
     Some (v # vs, mq) }"

record start_message =
  sm_decoder :: u32
  sm_transition_type :: u32
  sm_transition_period :: u32
  sm_replay_gain :: u32
  sm_output_threshold :: u32
  sm_polarity_inversion :: u32
  sm_output_channels :: u32

definition read_start_message :: "mqueue \<Rightarrow> (mqueue \<times> start_message \<times> bytes) option" where
  "read_start_message mq = do {
     (decoder_id, mq) \<leftarrow> mqueue_read_u32 mq;
     (transition_type, mq) \<leftarrow> mqueue_read_u32 mq;
     (transition_period, mq) \<leftarrow> mqueue_read_u32 mq;
     (replay_gain, mq) \<leftarrow> mqueue_read_u32 mq;
     (threshold, mq) \<leftarrow> mqueue_read_u32 mq;
     (polarity_inversion, mq) \<leftarrow> mqueue_read_u32 mq;
     (channels, mq) \<leftarrow> mqueue_read_u32 mq;
     (num_params, mq) \<leftarrow> mqueue_read_u32 mq;
     let num_params = (if num_params > DECODER_MAX_PARAMS then DECODER_MAX_PARAMS else num_params);
     (params, mq) \<leftarrow> read_params (unat num_params) mq;
     mq \<leftarrow> mqueue_read_complete mq;
     Some (mq, \<lparr>sm_decoder = decoder_id, sm_transition_type = transition_type, sm_transition_period = transition_period,
       sm_replay_gain = replay_gain, sm_output_threshold = threshold, sm_polarity_inversion = polarity_inversion,
       sm_output_channels = channels\<rparr>, params) }"

definition decode_start_handler :: "'d decode_module list \<Rightarrow> 'd audio \<Rightarrow> 'd audio option" where
  "decode_start_handler all_decoders a = do {
     ((m, params), a) \<leftarrow> with_mqueue read_start_message a;
     let a = (stop_decoder a)\<lparr>decoder := find (\<lambda>d. module_id d = sm_decoder m) all_decoders\<rparr>;
     case decoder a of
       None \<Rightarrow> Some a
     | Some d \<Rightarrow> do {
         let p = (player a)\<lparr>decode_first_buffer := True\<rparr>;
         let p = decode_output_set_transition (sm_transition_type m) (sm_transition_period m) p;
         let p = decode_output_set_track_gain (sm_replay_gain m) p;
         let p = decode_set_track_polarity_inversion (ucast (sm_polarity_inversion m)) p;
         let p = decode_set_output_channels (ucast (sm_output_channels m)) p;
         let a = a\<lparr>decoder_data := Some (start d params)\<rparr>;
         let p = decode_audio_update (output_threshold_update (\<lambda>_. sm_output_threshold m)) (decode_audio_lock p);
         p \<leftarrow> decode_output_begin p;
         p \<leftarrow> decode_audio_unlock p;
         Some (a\<lparr>player := p\<rparr>) } }"

definition decode_st_end_handler :: "'d audio \<Rightarrow> 'd audio option" where
  "decode_st_end_handler a = do {
     a \<leftarrow> read_message a;
     (info, sb) \<leftarrow> streambuf_fifo_debug (sbuf (player a));
     let p = decode_audio_lock ((player a)\<lparr>sbuf := sb\<rparr>);
     p \<leftarrow> decode_audio_unlock (p\<lparr>sbuf := streambuf_set_streaming False (sbuf p)\<rparr>);
     Some (a\<lparr>player := p\<rparr>) }"

definition decode_skip_ahead_handler :: "'d audio \<Rightarrow> 'd audio option" where
  "decode_skip_ahead_handler a = do {
     (interval, a) \<leftarrow> read_message_u32 a;
     let p = decode_audio_lock (player a);
     let n = (ucast ((ucast interval * ucast (track_sample_rate (decode_audio p)) :: u64) div (1000 * 1000)) :: u32);
     p \<leftarrow> decode_audio_unlock (decode_audio_update (skip_ahead_bytes_update (\<lambda>_. SAMPLES_TO_BYTES n)) p);
     Some (a\<lparr>player := p\<rparr>) }"

text \<open>The handler of an operation; calling none stops the program.\<close>

definition run_handler :: "'d decode_module list \<Rightarrow> u32 \<Rightarrow> 'd audio \<Rightarrow> 'd audio option" where
  "run_handler all_decoders op a =
     (if op = ucast DECODE_RESUME_DECODER_OP then decode_resume_decoder_handler a
      else if op = ucast DECODE_STOP_OP then decode_stop_handler a
      else if op = ucast DECODE_FLUSH_OP then decode_flush_handler a
      else if op = ucast AUDIO_PAUSE_AUDIO_OP then audio_pause_audio_handler a
      else if op = ucast DECODE_RESUME_AUDIO_OP then decode_resume_audio_handler a
      else if op = ucast DECODE_START_OP then decode_start_handler all_decoders a
      else if op = ucast DECODE_ST_END_OP then decode_st_end_handler a
      else if op = ucast DECODE_SKIP_AHEAD_OP then decode_skip_ahead_handler a
      else None)"

section \<open>The decoder thread\<close>

text \<open>Whether to decode now, and how long to wait for a command.\<close>

definition timer_output :: "u32 \<Rightarrow> player \<Rightarrow> ((bool \<times> u32) \<times> player) option" where
  "timer_output max_samples p = do {
     let p = decode_audio_lock p;
     let sample_rate = track_sample_rate (decode_audio p);
     free_bytes \<leftarrow> fifo_bytes_free (da_fifo (decode_audio p));
     p \<leftarrow> decode_audio_unlock p;
     if SAMPLES_TO_BYTES max_samples < free_bytes then Some ((True, 0), p)
     else if sample_rate = 0 then None
     else Some ((False, (max_samples * 1000 div sample_rate + 1) * 2), p) }"

definition audio_decode_timer_interval :: "'d audio \<Rightarrow> ((bool \<times> u32) \<times> 'd audio) option" where
  "audio_decode_timer_interval a =
     (let p = player a; st = current_decoder_state p; streaming = streambuf_is_streaming (sbuf p)
      in case decoder a of
        None \<Rightarrow> Some ((False, DECODE_MAX_INTERVAL), a)
      | Some m \<Rightarrow>
          if \<not> streaming \<and> st AND DECODE_STATE_UNDERRUN \<noteq> 0
            \<or> st AND (DECODE_STATE_RUNNING OR DECODE_STATE_ERROR) \<noteq> DECODE_STATE_RUNNING
          then Some ((False, DECODE_MAX_INTERVAL), a)
          else if streaming \<and> st AND DECODE_STATE_UNDERRUN \<noteq> 0 then Some ((True, DECODE_WAIT_INTERVAL), a)
          else do {
            (wait, sb) \<leftarrow> streambuf_would_wait_for (sbuf p) 1;
            if wait then Some ((False, DECODE_WAIT_INTERVAL), a\<lparr>player := p\<lparr>sbuf := sb\<rparr>\<rparr>)
            else do {
              (wait, sb) \<leftarrow> (if module_id m = 102 then streambuf_would_wait_for sb DECODE_MINIMUM_BYTES_FLAC else Some (False, sb));
              let p = p\<lparr>sbuf := sb\<rparr>;
              if wait then Some ((False, DECODE_WAIT_INTERVAL), a\<lparr>player := p\<rparr>)
              else do {
                d \<leftarrow> decoder_data a;
                (r, p) \<leftarrow> timer_output (samples m d) p;
                Some (r, a\<lparr>player := p\<rparr>) } } })"

text \<open>The commands that are queued, one after the other.\<close>

partial_function (option) command_loop ::
  "(mqueue \<Rightarrow> int \<times> mqueue) \<Rightarrow> 'd decode_module list \<Rightarrow> bool \<Rightarrow> u32 \<Rightarrow> 'd audio \<Rightarrow> (bool \<times> 'd audio) option" where
  "command_loop timedwait all_decoders can_decode delay a = do {
     (encoded_op, mq) \<leftarrow> mqueue_read_request timedwait delay (decode_mqueue a);
     let a = a\<lparr>decode_mqueue := mq\<rparr>;
     if encoded_op = 0 then Some (can_decode, a)
     else do {
       a \<leftarrow> run_handler all_decoders (fst (decode_audio_op encoded_op)) a;
       ((can_decode, delay), a) \<leftarrow> audio_decode_timer_interval a;
       command_loop timedwait all_decoders can_decode delay a } }"

text \<open>A command that has come up in the stream is moved to the message queue.\<close>

definition stream_command :: "u32 \<Rightarrow> 'd audio \<Rightarrow> 'd audio option" where
  "stream_command encoded_op a = do {
     let cmd_size = (ucast (fst (snd (decode_audio_op encoded_op))) :: u32);
     let p = player a;
     if cmd_size > 128 then Some a
     else do {
       ((n, cmd_data), sb) \<leftarrow> streambuf_cmd_deq (replicate 128 0) cmd_size (sbuf p);
       let a = a\<lparr>player := p\<lparr>sbuf := sb\<rparr>\<rparr>;
       if n = 0 then Some a
       else do {
         (k, sb) \<leftarrow> streambuf_discard cmd_size False sb;
         let a = a\<lparr>player := p\<lparr>sbuf := sb\<rparr>\<rparr>;
         (ok, mq) \<leftarrow> mqueue_write_request encoded_op cmd_size (decode_mqueue a);
         if ok then do {
           let cmd_size = cmd_size - 4;
           mq \<leftarrow> (if cmd_size \<noteq> 0 then mqueue_write_array (drop 4 cmd_data) cmd_size mq else Some mq);
           mq \<leftarrow> mqueue_write_complete mq;
           Some (a\<lparr>decode_mqueue := mq\<rparr>) }
         else None } } }"

definition decode_turn :: "bool \<Rightarrow> 'd audio \<Rightarrow> 'd audio option" where
  "decode_turn can_decode a =
     (case decoder a of
        Some m \<Rightarrow> if can_decode \<and> current_decoder_state (player a) AND DECODE_STATE_RUNNING \<noteq> 0
          then do {
            d \<leftarrow> decoder_data a;
            (more, d, p) \<leftarrow> callback m d (player a);
            Some (a\<lparr>decoder_data := Some d, player := p\<rparr>) }
          else Some a
      | None \<Rightarrow> Some a)"

definition audio_decode_thread_turn :: "(mqueue \<Rightarrow> int \<times> mqueue) \<Rightarrow> 'd decode_module list \<Rightarrow> 'd audio \<Rightarrow> 'd audio option" where
  "audio_decode_thread_turn timedwait all_decoders a = do {
     ((can_decode, delay), a) \<leftarrow> audio_decode_timer_interval a;
     (can_decode, a) \<leftarrow> command_loop timedwait all_decoders can_decode delay a;
     (encoded_op, sb) \<leftarrow> streambuf_cmd_ready (sbuf (player a));
     let a = a\<lparr>player := (player a)\<lparr>sbuf := sb\<rparr>\<rparr>;
     if encoded_op \<noteq> 0 then stream_command encoded_op a else decode_turn can_decode a }"

section \<open>The calls of the players\<close>

text \<open>A message of the queue: a full queue drops it.\<close>

definition send_message :: "u8 \<Rightarrow> u32 \<Rightarrow> (mqueue \<Rightarrow> mqueue option) \<Rightarrow> 'd audio \<Rightarrow> (bool \<times> 'd audio) option" where
  "send_message op len write a = do {
     (ok, mq) \<leftarrow> mqueue_write_request (encode_audio_op op 0) len (decode_mqueue a);
     if ok then do { mq \<leftarrow> write mq; mq \<leftarrow> mqueue_write_complete mq; Some (True, a\<lparr>decode_mqueue := mq\<rparr>) }
     else Some (False, a\<lparr>decode_mqueue := mq\<rparr>) }"

definition audio_decoder_stop :: "u32 \<Rightarrow> 'd audio \<Rightarrow> 'd audio option" where
  "audio_decoder_stop cookie a = do {
     (ok, mq) \<leftarrow> mqueue_write_request (encode_audio_op DECODE_STOP_OP 0) 0 (decode_mqueue a);
     let a = a\<lparr>decode_mqueue := mq\<rparr>;
     if ok then do {
       a \<leftarrow> with_player (\<lambda>p. decode_audio_unlock
         (decode_audio_update (da_state_update (\<lambda>s. s OR DECODE_STATE_STOPPING)) (decode_audio_lock p))) a;
       mq \<leftarrow> mqueue_write_u32 cookie (decode_mqueue a);
       mq \<leftarrow> mqueue_write_complete mq;
       Some (a\<lparr>decode_mqueue := mq\<rparr>) }
     else Some a }"

text \<open>A full queue aborts the program; the caller then waits for the handler.\<close>

definition audio_decoder_flush :: "u32 \<Rightarrow> 'd audio \<Rightarrow> 'd audio option" where
  "audio_decoder_flush cookie a = do {
     (ok, a) \<leftarrow> send_message DECODE_FLUSH_OP 0 (mqueue_write_u32 cookie) a;
     if ok then Some a else None }"

definition audio_pause :: "u32 \<Rightarrow> 'd audio \<Rightarrow> 'd audio option" where
  "audio_pause interval_ms a = do {
     (ok, a) \<leftarrow> send_message AUDIO_PAUSE_AUDIO_OP 4 (mqueue_write_u32 interval_ms) a; Some a }"

definition audio_resume :: "u64 \<Rightarrow> 'd audio \<Rightarrow> 'd audio option" where
  "audio_resume jiffies a = do {
     (ok, a) \<leftarrow> send_message DECODE_RESUME_AUDIO_OP 4 (mqueue_write_u64 jiffies) a; Some a }"

definition audio_skip_ahead :: "u32 \<Rightarrow> 'd audio \<Rightarrow> 'd audio option" where
  "audio_skip_ahead interval_us a = do {
     (ok, a) \<leftarrow> send_message DECODE_SKIP_AHEAD_OP 4 (mqueue_write_u32 interval_us) a; Some a }"

text \<open>A command in the stream; its result is ignored.\<close>

definition enq_command :: "bytes \<Rightarrow> 'd audio \<Rightarrow> 'd audio option" where
  "enq_command msg a = do {
     (ok, sb) \<leftarrow> streambuf_cmd_enq msg (of_nat (length msg)) (sbuf (player a));
     Some (a\<lparr>player := (player a)\<lparr>sbuf := sb\<rparr>\<rparr>) }"

definition audio_decoder_resume :: "'d audio \<Rightarrow> 'd audio option" where
  "audio_decoder_resume a = enq_command (be32 (encode_audio_op DECODE_RESUME_DECODER_OP 4)) a"

definition audio_decoder_st_end :: "'d audio \<Rightarrow> 'd audio option" where
  "audio_decoder_st_end a = enq_command (be32 (encode_audio_op DECODE_ST_END_OP 4)) a"

definition audio_wakeup_decode_thread :: "'d audio \<Rightarrow> 'd audio option" where
  "audio_wakeup_decode_thread a = do {
     let f = fifo_lock (mq_fifo (decode_mqueue a));
     fifo_signal f;
     f \<leftarrow> fifo_unlock f;
     Some (a\<lparr>decode_mqueue := (decode_mqueue a)\<lparr>mq_fifo := f\<rparr>\<rparr>) }"

definition start_message_bytes :: "start_message \<Rightarrow> bytes" where
  "start_message_bytes m = u32_bytes [encode_audio_op DECODE_START_OP 36, sm_decoder m, sm_transition_type m, sm_transition_period m,
     sm_replay_gain m, sm_output_threshold m, sm_polarity_inversion m, sm_output_channels m, 0]"

definition audio_decoder_start :: "start_message \<Rightarrow> 'd audio \<Rightarrow> 'd audio option" where
  "audio_decoder_start m a = do {
     let a = a\<lparr>player := (player a)\<lparr>current_decoder_state := 0\<rparr>\<rparr>;
     a \<leftarrow> enq_command (start_message_bytes m) a;
     audio_wakeup_decode_thread a }"

section \<open>Status\<close>

record beep_audio_status =
  output_used :: u32
  output_size :: u32
  output_time :: u32
  written_track_time :: u32
  sync_played_time :: u32
  status_sync_timestamp :: u64
  status_tracks_started :: u32
  status_decoder_id :: u32
  audio_state :: u32
  decode_state :: u32
  status_streambuf_size :: u32
  status_streambuf_used :: u32
  streambuf_bytes_received_l :: u32
  streambuf_bytes_received_h :: u32
  status_gain :: "32 word"
  status_play_cookie :: u32
  status_bitrate :: u32

text \<open>Milliseconds played, from the samples and time of the last period and the time now.\<close>

definition elapsed_ms :: "u64 \<Rightarrow> decode_audio \<Rightarrow> u64" where
  "elapsed_ms now da =
     (if track_sample_rate da \<noteq> 0 \<and> sync_played_samples da \<noteq> 0 then
        let elapsed = sync_played_samples da * 1000 div ucast (track_sample_rate da)
        in if da_state da AND DECODE_STATE_RUNNING \<noteq> 0 \<and> sync_timestamp da \<noteq> 0 \<and> now > sync_timestamp da
           then elapsed + (now - sync_timestamp da) else elapsed
      else 0)"

definition audio_status :: "u64 \<Rightarrow> 'd audio \<Rightarrow> (beep_audio_status \<times> 'd audio) option" where
  "audio_status now a = do {
     let p = decode_audio_lock (player a);
     let da = decode_audio p;
     let rate = (ucast (track_sample_rate da) :: u64);
     used \<leftarrow> fifo_bytes_used (da_fifo da);
     let output = (if track_sample_rate da \<noteq> 0 then ucast used div 8 * 1000 div rate else 0 :: u64);
     let written = (if track_sample_rate da \<noteq> 0 then ucast (written_track_samples da) * 1000 div rate else 0 :: u64);
     p \<leftarrow> decode_audio_unlock p;
     ((size, usedbytes, bytesL, bytesH), sb) \<leftarrow> streambuf_get_status (sbuf p);
     Some (\<lparr>output_used = used, output_size = fsize (da_fifo da), output_time = ucast output, written_track_time = ucast written,
       sync_played_time = ucast (elapsed_ms now da), status_sync_timestamp = now, status_tracks_started = num_tracks_started da,
       status_decoder_id = (case decoder a of None \<Rightarrow> - 1 | Some d \<Rightarrow> module_id d), audio_state = da_state da,
       decode_state = current_decoder_state p, status_streambuf_size = size, status_streambuf_used = usedbytes,
       streambuf_bytes_received_l = bytesL, streambuf_bytes_received_h = bytesH, status_gain = lgain da,
       status_play_cookie = play_cookie a, status_bitrate = bitrate p\<rparr>, a\<lparr>player := p\<lparr>sbuf := sb\<rparr>\<rparr>) }"

section \<open>Volume\<close>

definition audio_gain :: "32 word \<Rightarrow> 'd audio \<Rightarrow> (u32 \<times> 'd audio) option" where
  "audio_gain gain a =
     (if gain <s 0 \<or> 0x10000 <s gain then Some (0, a)
      else do {
        a \<leftarrow> with_player (\<lambda>p. decode_audio_unlock (decode_audio_update (\<lambda>da. da\<lparr>lgain := gain, rgain := gain\<rparr>) (decode_audio_lock p))) a;
        Some (0, a) })"

definition audio_adjust_gain :: "32 word \<Rightarrow> 'd audio \<Rightarrow> (u32 \<times> 'd audio) option" where
  "audio_adjust_gain gain_delta a =
     (if gain_delta <s - 0x10000 \<or> 0x10000 <s gain_delta then Some (0, a)
      else do {
        a \<leftarrow> with_player (\<lambda>p. do {
          let p = decode_audio_lock p;
          let new_gain = lgain (decode_audio p) + gain_delta;
          let new_gain = (if 0x10000 <s new_gain then 0x10000 else new_gain);
          let new_gain = (if new_gain <s 0 then 0 else new_gain);
          decode_audio_unlock (decode_audio_update (\<lambda>da. da\<lparr>lgain := new_gain, rgain := new_gain\<rparr>) p) }) a;
        Some (1, a) })"

section \<open>Taking over the stream of another device\<close>

definition audio_sync_state_read :: "bytes \<Rightarrow> u32 \<Rightarrow> 'd audio \<Rightarrow> (u32 \<times> bytes) option" where
  "audio_sync_state_read buf n a = do {
     ASSERT_AUDIO_LOCKED (decode_audio (player a));
     if n \<ge> 16 then do {
       buf \<leftarrow> memcpy buf 0 (be64 (current_track_jiffies a)) 0 8;
       buf \<leftarrow> memcpy buf 8 (be64 (sync_discarded_samples a)) 0 8;
       Some (16, buf) }
     else Some (0, buf) }"

definition audio_sync_state_write :: "bytes \<Rightarrow> u32 \<Rightarrow> 'd audio \<Rightarrow> (u32 \<times> 'd audio) option" where
  "audio_sync_state_write buf n a = do {
     ASSERT_AUDIO_LOCKED (decode_audio (player a));
     if n = 16 then do {
       j \<leftarrow> memcpy (be64 0) 0 buf 0 8;
       s \<leftarrow> memcpy (be64 0) 0 buf 8 8;
       Some (16, a\<lparr>current_track_jiffies := of_be64 j, sync_discarded_samples := of_be64 s\<rparr>) }
     else Some (0, a) }"

definition lock_audio :: "'d audio \<Rightarrow> 'd audio" where
  "lock_audio a = a\<lparr>player := decode_audio_lock (player a)\<rparr>"

definition unlock_audio :: "'d audio \<Rightarrow> 'd audio option" where
  "unlock_audio a = with_player decode_audio_unlock a"

definition set_sbuf :: "streambuf \<Rightarrow> 'd audio \<Rightarrow> 'd audio" where
  "set_sbuf sb a = a\<lparr>player := (player a)\<lparr>sbuf := sb\<rparr>\<rparr>"

definition audio_prepare_sync_to :: "bool \<Rightarrow> 'd audio \<Rightarrow> 'd audio option" where
  "audio_prepare_sync_to st a = do {
     let a = lock_audio a;
     sb \<leftarrow> streambuf_lock_state st (sbuf (player a));
     let a = set_sbuf sb a;
     a \<leftarrow> (if st then do {
         m \<leftarrow> decoder a;
         d \<leftarrow> decoder_data a;
         n \<leftarrow> discarded_samples m d;
         Some (a\<lparr>sync_discarded_samples := current_track_discarded_samples a + (n + 1152), sync_state := SYNC_READY_SYNC_TO\<rparr>) }
       else Some (a\<lparr>sync_discarded_samples := 0, sync_state := SYNC_IDLE\<rparr>));
     unlock_audio a }"

text \<open>The result, the length and the buffer of a packet. Results: 0 done, 1 more, -1 error.\<close>

definition audio_sync_state_send :: "bytes \<Rightarrow> u32 \<Rightarrow> 'd audio \<Rightarrow> ((int \<times> u32 \<times> bytes) \<times> 'd audio) option" where
  "audio_sync_state_send buf len a =
     (if len = 0 then Some ((- 1, len, buf), a)
      else do {
        let a = lock_audio a;
        let a = (if sync_state a = SYNC_READY_SYNC_TO then a\<lparr>sync_state := SYNC_SEND_AUDIO_STATE, send_offset := 0\<rparr> else a);
        (r, a) \<leftarrow> (case sync_state a of
            SYNC_SEND_AUDIO_STATE \<Rightarrow> do {
              (size, buf) \<leftarrow> audio_sync_state_read buf len a;
              Some ((if size = 0 then - 1 else 1, size, buf), a\<lparr>sync_state := SYNC_SEND_SB_STATE\<rparr>) }
          | SYNC_SEND_SB_STATE \<Rightarrow> do {
              ((size, buf), sb) \<leftarrow> streambuf_sync_read_state buf len (sbuf (player a));
              Some ((if size = 0 then - 1 else 1, size, buf), (set_sbuf sb a)\<lparr>sync_state := SYNC_SEND_SB_DATA\<rparr>) }
          | SYNC_SEND_SB_DATA \<Rightarrow> do {
              ((size, buf), sb) \<leftarrow> streambuf_sync_read_data buf (send_offset a) len (sbuf (player a));
              let a = (set_sbuf sb a)\<lparr>send_offset := send_offset a + size\<rparr>;
              Some (if size = len then ((1, size, buf), a) else ((0, size, buf), a\<lparr>sync_state := SYNC_SEND_DONE\<rparr>)) }
          | _ \<Rightarrow> Some ((- 1, 0, buf), a));
        a \<leftarrow> unlock_audio a;
        Some (r, a) })"

definition audio_prepare_sync_wait :: "bool \<Rightarrow> 'd audio \<Rightarrow> 'd audio option" where
  "audio_prepare_sync_wait st a = do {
     let a = lock_audio a;
     sb \<leftarrow> streambuf_lock_state st (sbuf (player a));
     let a = (set_sbuf sb a)\<lparr>sync_state := if st then SYNC_READY_SYNC_WAIT else SYNC_IDLE\<rparr>;
     unlock_audio a }"

definition audio_sync_state_recv :: "bytes \<Rightarrow> u32 \<Rightarrow> 'd audio \<Rightarrow> (int \<times> 'd audio) option" where
  "audio_sync_state_recv buf len a =
     (if len = 0 then Some (- 1, a)
      else do {
        let a = lock_audio a;
        let a = (if sync_state a = SYNC_READY_SYNC_WAIT then a\<lparr>sync_state := SYNC_RECV_AUDIO_STATE, recv_offset := 0, recv_data_len := 0\<rparr> else a);
        (r, a) \<leftarrow> (case sync_state a of
            SYNC_RECV_AUDIO_STATE \<Rightarrow> do {
              (size, a) \<leftarrow> audio_sync_state_write buf len a;
              Some (if size = 0 then - 1 else 1, a\<lparr>sync_state := SYNC_RECV_SB_STATE\<rparr>) }
          | SYNC_RECV_SB_STATE \<Rightarrow> do {
              (data_len, sb) \<leftarrow> streambuf_sync_write_state buf len (sbuf (player a));
              Some (if data_len = 0 then - 1 else 1,
                (set_sbuf sb a)\<lparr>recv_data_len := data_len, restore_state_on_resume := True, sync_state := SYNC_RECV_SB_DATA\<rparr>) }
          | SYNC_RECV_SB_DATA \<Rightarrow> do {
              (n, sb) \<leftarrow> streambuf_sync_write_data buf len (sbuf (player a));
              let a = set_sbuf sb a;
              if n = 0 then Some (- 1, a)
              else do {
                let a = a\<lparr>recv_offset := recv_offset a + len\<rparr>;
                Some (if recv_data_len a - recv_offset a = 0 then (0, a\<lparr>sync_state := SYNC_RECV_DONE\<rparr>) else (1, a)) } }
          | _ \<Rightarrow> Some (- 1, a));
        a \<leftarrow> unlock_audio a;
        Some (r, a) })"

end
