(* ===== verification/Audio_I2s.thy ===== *)
theory Audio_I2s
  imports Audio_Output
begin

text \<open>
  The process that plays the decoded samples, \<open>lib/audio/decode/decode_i2s_backend.c\<close>: every period,
  \<open>playback_callback\<close> fills a buffer of 16 bit stereo frames for the I2S device from the ring it shares
  with the decoder. The time, the device and its sync values are arguments. Left out are the log
  messages and the set up of the process.
\<close>

record decode_i2s =
  period_count :: u32
  period_size :: u32
  i2s_sample_rate :: u32

definition PCM_FRAMES_TO_BYTES :: "u32 \<Rightarrow> u32" where
  "PCM_FRAMES_TO_BYTES frames = frames * 4"

definition memset0 :: "bytes \<Rightarrow> nat \<Rightarrow> nat \<Rightarrow> bytes option" where
  "memset0 buf i n = memcpy buf i (replicate n 0) 0 n"

text \<open>Starting when enough is decoded, early enough with silence, too late with samples to skip.\<close>

definition playback_autostart :: "u64 \<Rightarrow> decode_i2s \<Rightarrow> u32 \<Rightarrow> u32 \<Rightarrow> decode_audio \<Rightarrow> decode_audio" where
  "playback_autostart now state decode_frames output_frames da =
     (if da_state da AND DECODE_STATE_AUTOSTART \<noteq> 0
         \<and> decode_frames > output_frames * (3 + period_count state)
         \<and> decode_frames > output_threshold da * i2s_sample_rate state div 10
      then let da = (if start_at_jiffies da < now then
                       let delta_ms = ucast (now - start_at_jiffies da) :: u32
                       in da\<lparr>skip_ahead_bytes := PCM_FRAMES_TO_BYTES (delta_ms * i2s_sample_rate state div 1000)\<rparr>
                     else if start_at_jiffies da > now \<and> now > start_at_jiffies da - 5000
                     then da\<lparr>add_silence_ms := ucast (start_at_jiffies da - now)\<rparr>
                     else da)
        in da\<lparr>da_state := (da_state da AND NOT DECODE_STATE_AUTOSTART) OR DECODE_STATE_RUNNING\<rparr>
      else da)"

text \<open>Silence at the beginning: the output, where it goes on, and the frames still to fill.\<close>

definition playback_silence :: "decode_i2s \<Rightarrow> bytes \<Rightarrow> u32 \<Rightarrow> decode_audio \<Rightarrow> ((bytes \<times> nat \<times> u32) \<times> decode_audio) option" where
  "playback_silence state out output_frames da =
     (if add_silence_ms da = 0 then Some ((out, 0, output_frames), da)
      else do {
        let add_frames = add_silence_ms da * i2s_sample_rate state div 1000;
        let add_frames = (if add_frames > output_frames then output_frames else add_frames);
        out \<leftarrow> memset0 out 0 (unat (PCM_FRAMES_TO_BYTES add_frames));
        if i2s_sample_rate state = 0 then None
        else do {
          let silence = add_silence_ms da - add_frames * 1000 div i2s_sample_rate state;
          let silence = (if silence <s 2 then 0 else silence);
          Some ((out, unat (PCM_FRAMES_TO_BYTES add_frames), output_frames - add_frames), da\<lparr>add_silence_ms := silence\<rparr>) } })"

definition playback_skip_frames :: "u32 \<Rightarrow> u32 \<Rightarrow> decode_audio \<Rightarrow> u32" where
  "playback_skip_frames decode_frames output_frames da =
     (if decode_frames \<ge> output_frames \<and> skip_ahead_bytes da > 0
      then let skip = decode_frames - output_frames
        in if skip > BYTES_TO_SAMPLES (skip_ahead_bytes da) then BYTES_TO_SAMPLES (skip_ahead_bytes da) else skip
      else 0)"

definition playback_underrun :: "bytes \<Rightarrow> nat \<Rightarrow> u32 \<Rightarrow> u32 \<Rightarrow> decode_audio \<Rightarrow> (bytes \<times> decode_audio) option" where
  "playback_underrun out pos decode_frames output_frames da =
     (if da_state da AND DECODE_STATE_RUNNING \<noteq> 0 \<and> decode_frames < output_frames then do {
        out \<leftarrow> memset0 out (pos + unat (PCM_FRAMES_TO_BYTES decode_frames))
          (unat (PCM_FRAMES_TO_BYTES output_frames - PCM_FRAMES_TO_BYTES decode_frames));
        Some (out, da\<lparr>da_state := da_state da OR DECODE_STATE_UNDERRUN\<rparr>) }
      else Some (out, da\<lparr>da_state := da_state da AND NOT DECODE_STATE_UNDERRUN\<rparr>))"

definition skip_bytes :: "u32 \<Rightarrow> decode_audio \<Rightarrow> decode_audio option" where
  "skip_bytes frames da = do {
     f \<leftarrow> fifo_rptr_incby (da_fifo da) (SAMPLES_TO_BYTES frames);
     Some (da\<lparr>da_fifo := f, skip_ahead_bytes := skip_ahead_bytes da - SAMPLES_TO_BYTES frames,
       written_track_samples := written_track_samples da + frames\<rparr>) }"

definition playback_skip :: "u32 \<Rightarrow> decode_audio \<Rightarrow> decode_audio option" where
  "playback_skip skip_frames da =
     (if skip_frames = 0 then Some da
      else do {
        wrap \<leftarrow> fifo_bytes_until_rptr_wrap (da_fifo da);
        let wrap_frames = BYTES_TO_SAMPLES wrap;
        if wrap_frames < skip_frames then do {
          da \<leftarrow> skip_bytes wrap_frames da;
          skip_bytes (skip_frames - wrap_frames) da }
        else skip_bytes skip_frames da })"

text \<open>Fading out: the gains of the frames.\<close>

partial_function (option) fade_loop :: "decode_audio \<Rightarrow> decode_audio option" where
  "fade_loop da =
     (if da_transition_gain da \<noteq> 0 \<and> da_transition_samples_in_step da \<ge> da_transition_sample_step da
      then fade_loop (da\<lparr>da_transition_samples_in_step := da_transition_samples_in_step da - da_transition_sample_step da,
        da_transition_gain := da_transition_gain da - da_transition_gain_step da\<rparr>)
      else Some da)"

definition fade_start :: "decode_audio \<Rightarrow> decode_audio option" where
  "fade_start da =
     (if transition_sample_rate da = 0 then None
      else do {
        (interval, nbytes) \<leftarrow> determine_transition_interval (transition_sample_rate da)
          (samples_to_fade da div transition_sample_rate da) da;
        let interval = (if interval = 0 then 1 else interval);
        step \<leftarrow> fixed_div FIXED_ONE (fixed_mul interval (int32_to_fixed TRANSITION_STEPS_PER_SECOND));
        Some (da\<lparr>da_transition_gain_step := step, da_transition_gain := FIXED_ONE,
          da_transition_sample_step := transition_sample_rate da div TRANSITION_STEPS_PER_SECOND,
          da_transition_samples_in_step := 0\<rparr>) })"

definition playback_fade :: "u32 \<Rightarrow> decode_audio \<Rightarrow> ((fixed \<times> fixed) \<times> decode_audio) option" where
  "playback_fade frames_write da =
     (if samples_to_fade da = 0 then Some ((lgain da, rgain da), da)
      else if samples_until_fade da > frames_write
      then Some ((lgain da, rgain da), da\<lparr>samples_until_fade := samples_until_fade da - frames_write\<rparr>)
      else do {
        let da = da\<lparr>samples_until_fade := 0\<rparr>;
        da \<leftarrow> (if da_transition_gain_step da = 0 then fade_start da else Some da);
        let gains = (fixed_mul (lgain da) (da_transition_gain da), fixed_mul (rgain da) (da_transition_gain da));
        da \<leftarrow> fade_loop (da\<lparr>da_transition_samples_in_step := da_transition_samples_in_step da + frames_write\<rparr>);
        Some (gains, da) })"

text \<open>Samples become 16 bits wide, low byte first.\<close>

definition out_sample :: "fixed \<Rightarrow> sample \<Rightarrow> u16" where
  "out_sample gain s = ucast (signed_drop_bit 16 (fixed_mul gain s))"

definition flip_sample :: "u16 \<Rightarrow> u16" where
  "flip_sample s = push_bit 8 (s AND 0xff) OR drop_bit 8 (s AND 0xff00)"

fun playback_frames :: "fixed \<Rightarrow> fixed \<Rightarrow> bytes \<Rightarrow> nat \<Rightarrow> nat \<Rightarrow> nat \<Rightarrow> bytes \<Rightarrow> bytes option" where
  "playback_frames lg rg ring 0 src pos out = Some out"
| "playback_frames lg rg ring (Suc n) src pos out = do {
     l \<leftarrow> load32 ring src;
     out \<leftarrow> memcpy out pos (be16 (flip_sample (out_sample lg l))) 0 2;
     r \<leftarrow> load32 ring (src + 4);
     out \<leftarrow> memcpy out (pos + 2) (be16 (flip_sample (out_sample rg r))) 0 2;
     playback_frames lg rg ring n (src + 8) (pos + 4) out }"

partial_function (option) playback_loop :: "bytes \<Rightarrow> u32 \<Rightarrow> nat \<Rightarrow> bytes \<Rightarrow> decode_audio \<Rightarrow> (bytes \<times> decode_audio) option" where
  "playback_loop ring decode_frames pos out da =
     (if decode_frames = 0 then Some (out, da)
      else do {
        wrap \<leftarrow> fifo_bytes_until_rptr_wrap (da_fifo da);
        let frames_write = (if BYTES_TO_SAMPLES wrap < decode_frames then BYTES_TO_SAMPLES wrap else decode_frames);
        ((lg, rg), da) \<leftarrow> playback_fade frames_write da;
        out \<leftarrow> playback_frames lg rg ring (unat frames_write) (unat (rptr (da_fifo da))) pos out;
        f \<leftarrow> fifo_rptr_incby (da_fifo da) (SAMPLES_TO_BYTES frames_write);
        playback_loop ring (decode_frames - frames_write) (pos + unat (PCM_FRAMES_TO_BYTES frames_write)) out
          (da\<lparr>da_fifo := f, written_track_samples := written_track_samples da + frames_write\<rparr>) })"

definition playback_started :: "decode_i2s \<Rightarrow> decode_audio \<Rightarrow> decode_audio option" where
  "playback_started state da = do {
     (reached, da) \<leftarrow> decode_check_start_point da;
     Some (if reached then
         let da = da\<lparr>samples_to_fade := 0, da_transition_gain_step := 0\<rparr>
         in if track_sample_rate da \<noteq> i2s_sample_rate state then da\<lparr>set_sample_rate := track_sample_rate da\<rparr> else da
       else da) }"

definition playback_callback :: "u64 \<Rightarrow> decode_i2s \<Rightarrow> bytes \<Rightarrow> bytes \<Rightarrow> u32 \<Rightarrow> decode_audio \<Rightarrow> (bytes \<times> decode_audio) option" where
  "playback_callback now state ring out output_frames da = do {
     ASSERT_AUDIO_LOCKED da;
     used \<leftarrow> fifo_bytes_used (da_fifo da);
     let decode_frames = BYTES_TO_SAMPLES used;
     let da = playback_autostart now state decode_frames output_frames da;
     let silence = add_silence_ms da;
     ((out, pos, output_frames), da) \<leftarrow> playback_silence state out output_frames da;
     if silence \<noteq> 0 \<and> output_frames = 0 then Some (out, da)
     else do {
       let skip_frames = playback_skip_frames decode_frames output_frames da;
       let decode_frames = (if decode_frames > output_frames then output_frames else decode_frames);
       (out, da) \<leftarrow> playback_underrun out pos decode_frames output_frames da;
       da \<leftarrow> playback_skip skip_frames da;
       if da_state da AND DECODE_STATE_RUNNING = 0 then do {
         out \<leftarrow> memset0 out pos (unat (PCM_FRAMES_TO_BYTES output_frames));
         Some (out, da) }
       else do {
         (out, da) \<leftarrow> playback_loop ring decode_frames pos out da;
         da \<leftarrow> playback_started state da;
         Some (out, da) } } }"

text \<open>
  One turn of the audio thread: a period is filled and written to the device, then the sync values
  are taken from the driver (\<open>buffered\<close> samples at a time in milliseconds). The result says whether
  the device is opened again with another sample rate.
\<close>

definition audio_thread_turn ::
  "u64 \<Rightarrow> u32 \<times> u64 \<Rightarrow> decode_i2s \<Rightarrow> bytes \<Rightarrow> bytes \<Rightarrow> decode_audio \<Rightarrow> ((bytes \<times> bool) \<times> decode_audio) option" where
  "audio_thread_turn now sync state ring buf da = do {
     let da = da_fifo_update fifo_lock da;
     (buf, da) \<leftarrow> playback_callback now state ring buf (period_size state) da;
     let do_open = (set_sample_rate da \<noteq> 0 \<and> set_sample_rate da \<noteq> i2s_sample_rate state);
     f \<leftarrow> fifo_unlock (da_fifo da);
     let da = da\<lparr>da_fifo := f\<rparr>;
     Some ((buf, do_open), da\<lparr>sync_played_samples := ucast (written_track_samples da - fst sync), sync_timestamp := snd sync\<rparr>) }"

text \<open>Opening the device (\<open>opened\<close>: it exists and takes its settings); without it the thread ends.\<close>

definition pcm_open :: "bool \<Rightarrow> decode_audio \<Rightarrow> decode_i2s \<Rightarrow> decode_i2s option" where
  "pcm_open opened da state =
     (if opened then Some (state\<lparr>period_count := 10, i2s_sample_rate := set_sample_rate da\<rparr>) else None)"

end
