(* ===== verification/Audio_Slots.thy ===== *)
theory Audio_Slots
  imports Audio_Streambuf
begin

text \<open>
  The slot counters of the stream buffer as lists, oldest first: what a window of the circular
  arrays counts, and what \<open>streambuf_dec_cnt_stale\<close> does to such a list.
\<close>

section \<open>Counting from the newest slot\<close>

definition from_end :: "nat list \<Rightarrow> nat \<Rightarrow> nat" where
  "from_end ts j = (if j < length ts then rev ts ! j else 0)"

lemma from_end_snoc_0 [simp]: "from_end (ts @ [t]) 0 = t"
  by (simp add: from_end_def)

lemma from_end_snoc_Suc [simp]: "from_end (ts @ [t]) (Suc j) = from_end ts j"
  by (simp add: from_end_def)

lemma from_end_Cons: "from_end (t # ts) j = (if j = length ts then t else from_end ts j)"
  by (auto simp: from_end_def nth_append)

lemma from_end_beyond [simp]: "length ts \<le> j \<Longrightarrow> from_end ts j = 0"
  by (simp add: from_end_def)

definition add_last :: "nat \<Rightarrow> nat list \<Rightarrow> nat list" where
  "add_last n ts = butlast ts @ [last ts + n]"

lemma length_add_last [simp]: "ts \<noteq> [] \<Longrightarrow> length (add_last n ts) = length ts"
  by (simp add: add_last_def)

lemma add_last_nonempty [simp]: "add_last n ts \<noteq> []"
  by (simp add: add_last_def)

lemma from_end_add_last: "ts \<noteq> [] \<Longrightarrow> from_end (add_last n ts) j = (if j = 0 then from_end ts 0 + n else from_end ts j)"
  by (cases ts rule: rev_cases; cases j) (auto simp: add_last_def)

lemma sum_list_add_last [simp]: "ts \<noteq> [] \<Longrightarrow> sum_list (add_last n ts) = sum_list ts + n"
  by (cases ts rule: rev_cases) (auto simp: add_last_def)

text \<open>Taking \<open>n\<close> from the oldest slots and leaving empty ones, as \<open>streambuf_dec_cnt_stale\<close> does.\<close>

fun dec_marks :: "nat \<Rightarrow> nat list \<Rightarrow> nat list" where
  "dec_marks n [] = []"
| "dec_marks n [t] = [t - n]"
| "dec_marks n (t # t' # ts) = (if t \<le> n then dec_marks (n - t) (t' # ts) else (t - n) # t' # ts)"

lemma dec_marks_nonempty [simp]: "dec_marks n ts = [] \<longleftrightarrow> ts = []"
  by (induction n ts rule: dec_marks.induct) auto

lemma length_dec_marks: "length (dec_marks n ts) \<le> length ts"
  by (induction n ts rule: dec_marks.induct) auto

lemma dec_marks_0: "dec_marks n (dec_marks 0 ts) = dec_marks n ts"
  by (induction n ts rule: dec_marks.induct) auto

lemma sum_list_dec_marks: "n \<le> sum_list ts \<Longrightarrow> sum_list (dec_marks n ts) = sum_list ts - n"
  by (induction n ts rule: dec_marks.induct) auto

lemma dec_marks_step: "t \<le> n \<Longrightarrow> dec_marks (n - t) (dec_marks 0 (0 # ts)) = dec_marks n (t # ts)" if "n \<le> sum_list (t # ts)"
  using that by (cases ts) (auto simp: dec_marks_0)

section \<open>Windows of the circular arrays\<close>

definition slot_of :: "nat \<Rightarrow> nat \<Rightarrow> nat" where
  "slot_of e j = (e + 9 - j) mod 9"

definition slot_rel :: "nat \<Rightarrow> u32 list \<Rightarrow> nat list \<Rightarrow> bool" where
  "slot_rel e xs ts \<longleftrightarrow> length xs = 9 \<and> length ts \<le> 9 \<and> (\<forall>j<9. unat (xs ! slot_of e j) = from_end ts j)"

lemma slot_of_less [simp]: "slot_of e j < 9"
  by (simp add: slot_of_def)

lemma slot_of_0 [simp]: "e < 9 \<Longrightarrow> slot_of e 0 = e"
  by (simp add: slot_of_def)

lemma slot_of_inj: "e < 9 \<Longrightarrow> i < 9 \<Longrightarrow> j < 9 \<Longrightarrow> slot_of e i = slot_of e j \<longleftrightarrow> i = j"
  unfolding slot_of_def by (auto simp: mod_if split: if_splits)

lemma slot_of_next: "e < 9 \<Longrightarrow> j \<le> 8 \<Longrightarrow> slot_of (Suc e mod 9) (Suc j) = slot_of e j"
  unfolding slot_of_def by (auto simp: mod_if split: if_splits)

lemma slot_of_newer: "e < 9 \<Longrightarrow> 0 < j \<Longrightarrow> j \<le> 8 \<Longrightarrow> Suc (slot_of e j) mod 9 = slot_of e (j - 1)"
  unfolding slot_of_def by (auto simp: mod_if split: if_splits)

lemma slot_rel_update:
  assumes "slot_rel e xs ts" "e < 9" "j < 9" "length ts' \<le> 9" "\<And>i. i < 9 \<Longrightarrow> from_end ts' i = (if i = j then unat v else from_end ts i)"
  shows "slot_rel e (xs[slot_of e j := v]) ts'"
proof -
  have "unat (xs[slot_of e j := v] ! slot_of e i) = from_end ts' i" if "i < 9" for i
    using assms that slot_of_inj [OF assms(2,3) that] by (cases "i = j") (auto simp: slot_rel_def)
  then show ?thesis using assms(1,4) by (simp add: slot_rel_def)
qed

lemma slot_rel_snoc:
  assumes "slot_rel e xs ts" "e < 9" "length ts \<le> 8"
  shows "slot_rel (Suc e mod 9) xs (ts @ [0])"
proof -
  have "unat (xs ! slot_of (Suc e mod 9) j) = from_end (ts @ [0]) j" if "j < 9" for j
  proof (cases j)
    case 0
    have "slot_of (Suc e mod 9) 0 = slot_of e 8" using assms(2) by (auto simp: slot_of_def mod_if split: if_splits)
    moreover have "unat (xs ! slot_of e 8) = 0" using assms(1,3) by (simp add: slot_rel_def)
    ultimately show ?thesis using 0 by simp
  next
    case (Suc i)
    then show ?thesis using assms that slot_of_next [of e i] by (simp add: slot_rel_def)
  qed
  then show ?thesis using assms(1,3) by (simp add: slot_rel_def)
qed

lemma slot_rel_nth: "slot_rel e xs ts \<Longrightarrow> j < 9 \<Longrightarrow> unat (xs ! slot_of e j) = from_end ts j"
  by (simp add: slot_rel_def)

lemma slot_rel_zeros [simp]: "e < 9 \<Longrightarrow> slot_rel e (replicate 9 0) [0]"
  by (auto simp: slot_rel_def from_end_def less_Suc_eq)

text \<open>The word arithmetic on slots.\<close>

lemma unat_slot_next: "unat s < 9 \<Longrightarrow> unat (if s = MAX_STREAM_CMDS then 0 else s + 1) = Suc (unat s) mod 9"
proof (cases "s = 8")
  case False
  assume "unat s < 9"
  then have "unat s < 8" using False word_unat_eq_iff [of s 8] by simp
  moreover from this have "unat (s + 1) = unat s + 1" using unat_add_lem [of s 1] by simp
  ultimately show ?thesis using False by simp
qed simp

lemma unat_dec: "0 < unat (c :: u32) \<Longrightarrow> unat (c - 1) = unat c - 1"
  by (metis One_nat_def Suc_leI unat_1 unat_sub word_le_nat_alt)

section \<open>The stale counters\<close>

definition stale_rel :: "streambuf \<Rightarrow> nat list \<Rightarrow> bool" where
  "stale_rel sb ts \<longleftrightarrow> unat (eslot sb) < 9 \<and> ts \<noteq> [] \<and> slot_rel (unat (eslot sb)) (streambuf_slot_cnt_stale sb) ts
     \<and> unat (sslot sb) = slot_of (unat (eslot sb)) (length ts - 1) \<and> unat (streambuf_cmd_cnt_stale sb) = length ts - 1"

lemma stale_relD:
  assumes "stale_rel sb ts"
  shows "unat (eslot sb) < 9" "ts \<noteq> []" "slot_rel (unat (eslot sb)) (streambuf_slot_cnt_stale sb) ts" "length ts \<le> 9"
    "unat (sslot sb) = slot_of (unat (eslot sb)) (length ts - 1)" "unat (streambuf_cmd_cnt_stale sb) = length ts - 1"
    "length (streambuf_slot_cnt_stale sb) = 9"
  using assms by (auto simp: stale_rel_def slot_rel_def)

lemma stale_head:
  assumes "stale_rel sb (t # ts)"
  shows "\<exists>c. arr_get (streambuf_slot_cnt_stale sb) (sslot sb) = Some c \<and> unat c = t"
proof -
  note d = stale_relD [OF assms]
  have "unat (streambuf_slot_cnt_stale sb ! unat (sslot sb)) = from_end (t # ts) (length ts)"
    using slot_rel_nth [OF d(3), of "length ts"] d(4,5) by simp
  then show ?thesis using d(5,7) by (auto simp: arr_get_def from_end_Cons)
qed

lemma stale_at_end: "stale_rel sb ts \<Longrightarrow> sslot sb = eslot sb \<longleftrightarrow> length ts = 1"
proof -
  assume "stale_rel sb ts"
  note d = stale_relD [OF this]
  have "sslot sb = eslot sb \<longleftrightarrow> slot_of (unat (eslot sb)) (length ts - 1) = slot_of (unat (eslot sb)) 0"
    using d(1,5) by (simp add: word_unat_eq_iff)
  also have "\<dots> \<longleftrightarrow> length ts - 1 = 0" using d by (intro slot_of_inj) auto
  finally show ?thesis using d(2) by (cases ts) auto
qed

lemma stale_set_head:
  assumes "stale_rel sb (t # ts)" "unat v = t'"
  shows "\<exists>xs. arr_set (streambuf_slot_cnt_stale sb) (sslot sb) v = Some xs \<and> stale_rel (sb\<lparr>streambuf_slot_cnt_stale := xs\<rparr>) (t' # ts)"
proof -
  note d = stale_relD [OF assms(1)]
  let ?xs = "(streambuf_slot_cnt_stale sb)[slot_of (unat (eslot sb)) (length ts) := v]"
  have "slot_rel (unat (eslot sb)) ?xs (t' # ts)"
    using d(1,4) assms(2) by (intro slot_rel_update [OF d(3)]) (auto simp: from_end_Cons)
  then have "stale_rel (sb\<lparr>streambuf_slot_cnt_stale := ?xs\<rparr>) (t' # ts)" using assms(1) by (simp add: stale_rel_def)
  moreover have "arr_set (streambuf_slot_cnt_stale sb) (sslot sb) v = Some ?xs" using d(5,7) by (simp add: arr_set_def)
  ultimately show ?thesis by blast
qed

lemma stale_pop_head:
  assumes "stale_rel sb (0 # ts)" "ts \<noteq> []"
  shows "stale_rel (sb\<lparr>sslot := if sslot sb = MAX_STREAM_CMDS then 0 else sslot sb + 1, streambuf_cmd_cnt_stale := streambuf_cmd_cnt_stale sb - 1\<rparr>) ts"
proof -
  note d = stale_relD [OF assms(1)]
  have len: "0 < length ts" "length ts \<le> 8" using assms(2) d(4) by auto
  have "slot_rel (unat (eslot sb)) (streambuf_slot_cnt_stale sb) ts"
    using d(3) len by (auto simp: slot_rel_def from_end_Cons)
  moreover have "unat (if sslot sb = MAX_STREAM_CMDS then 0 else sslot sb + 1) = slot_of (unat (eslot sb)) (length ts - 1)"
    using unat_slot_next [of "sslot sb"] slot_of_newer [OF d(1) len] d(5) by simp
  moreover have "unat (streambuf_cmd_cnt_stale sb - 1) = length ts - 1" using unat_dec [of "streambuf_cmd_cnt_stale sb"] d(6) len by simp
  ultimately show ?thesis using d(1) assms(2) by (simp add: stale_rel_def)
qed

lemma pop_stale_marks:
  "stale_rel sb ts \<Longrightarrow> \<exists>s c. pop_stale sb = Some (sb\<lparr>sslot := s, streambuf_cmd_cnt_stale := c\<rparr>)
     \<and> stale_rel (sb\<lparr>sslot := s, streambuf_cmd_cnt_stale := c\<rparr>) (dec_marks 0 ts)"
proof (induction ts arbitrary: sb)
  case Nil
  then show ?case by (simp add: stale_rel_def)
next
  case (Cons t ts)
  show ?case
  proof (cases ts)
    case Nil
    then have "sslot sb = eslot sb" using stale_at_end [OF Cons.prems] by simp
    then have "pop_stale sb = Some (sb\<lparr>sslot := sslot sb, streambuf_cmd_cnt_stale := streambuf_cmd_cnt_stale sb\<rparr>)"
      by (subst pop_stale.simps) simp
    then show ?thesis using Cons.prems Nil by (intro exI [of _ "sslot sb"] exI [of _ "streambuf_cmd_cnt_stale sb"]) simp
  next
    case (Cons t' ts')
    then have ne: "sslot sb \<noteq> eslot sb" using stale_at_end [OF Cons.prems] by simp
    obtain c where c: "arr_get (streambuf_slot_cnt_stale sb) (sslot sb) = Some c" "unat c = t" using stale_head [OF Cons.prems] by blast
    show ?thesis
    proof (cases "t = 0")
      case True
      let ?sb = "sb\<lparr>sslot := if sslot sb = MAX_STREAM_CMDS then 0 else sslot sb + 1, streambuf_cmd_cnt_stale := streambuf_cmd_cnt_stale sb - 1\<rparr>"
      have "stale_rel ?sb ts" using stale_pop_head [of sb ts] Cons.prems True Cons by simp
      from Cons.IH [OF this] obtain s k where "pop_stale ?sb = Some (?sb\<lparr>sslot := s, streambuf_cmd_cnt_stale := k\<rparr>)"
        "stale_rel (?sb\<lparr>sslot := s, streambuf_cmd_cnt_stale := k\<rparr>) (dec_marks 0 ts)" by blast
      moreover have "pop_stale sb = pop_stale ?sb" using ne c True by (subst pop_stale.simps) (simp add: unat_eq_zero)
      ultimately show ?thesis using True Cons by (intro exI [of _ s] exI [of _ k]) simp
    next
      case False
      then have "pop_stale sb = Some (sb\<lparr>sslot := sslot sb, streambuf_cmd_cnt_stale := streambuf_cmd_cnt_stale sb\<rparr>)"
        using ne c by (subst pop_stale.simps) (auto simp: unat_eq_zero)
      then show ?thesis using Cons.prems Cons False by (intro exI [of _ "sslot sb"] exI [of _ "streambuf_cmd_cnt_stale sb"]) simp
    qed
  qed
qed

text \<open>Discarding returns when no more is discarded than the counters know of.\<close>

lemma dec_stale_marks:
  "stale_rel sb ts \<Longrightarrow> unat n \<le> sum_list ts \<Longrightarrow>
   \<exists>xs s c. dec_stale n sb = Some (sb\<lparr>streambuf_slot_cnt_stale := xs, sslot := s, streambuf_cmd_cnt_stale := c\<rparr>)
     \<and> stale_rel (sb\<lparr>streambuf_slot_cnt_stale := xs, sslot := s, streambuf_cmd_cnt_stale := c\<rparr>) (dec_marks (unat n) ts)"
proof (induction "length ts" arbitrary: sb ts n rule: less_induct)
  case less
  obtain t tl where ts: "ts = t # tl" using stale_relD(2) [OF less.prems(1)] by (cases ts) auto
  note rel = less.prems(1) [unfolded ts]
  obtain c where c: "arr_get (streambuf_slot_cnt_stale sb) (sslot sb) = Some c" "unat c = t" using stale_head [OF rel] by blast
  show ?case
  proof (cases "n \<ge> c")
    case True
    then have le: "t \<le> unat n" and sub: "unat (n - c) = unat n - t" using c by (auto simp: word_le_nat_alt unat_sub)
    obtain xs where xs: "arr_set (streambuf_slot_cnt_stale sb) (sslot sb) 0 = Some xs" "stale_rel (sb\<lparr>streambuf_slot_cnt_stale := xs\<rparr>) (0 # tl)"
      using stale_set_head [OF rel, of 0 0] by auto
    let ?sb = "sb\<lparr>streambuf_slot_cnt_stale := xs\<rparr>" and ?ts = "dec_marks 0 (0 # tl)"
    obtain s k where p: "pop_stale ?sb = Some (?sb\<lparr>sslot := s, streambuf_cmd_cnt_stale := k\<rparr>)"
      "stale_rel (?sb\<lparr>sslot := s, streambuf_cmd_cnt_stale := k\<rparr>) ?ts" using pop_stale_marks [OF xs(2)] by blast
    let ?sb' = "?sb\<lparr>sslot := s, streambuf_cmd_cnt_stale := k\<rparr>"
    have step: "dec_stale n sb = (if n - c \<noteq> 0 then dec_stale (n - c) ?sb' else Some ?sb')"
      using c xs p True by (subst dec_stale.simps) simp
    have marks: "dec_marks (unat n - t) ?ts = dec_marks (unat n) ts" using dec_marks_step [OF _ le, of tl] less.prems(2) ts by simp
    show ?thesis
    proof (cases "n - c = 0")
      case True
      then have "dec_marks (unat n) ts = ?ts" using marks sub dec_marks_0 [of 0 "0 # tl"] by simp
      then show ?thesis using step True p by (intro exI [of _ xs] exI [of _ s] exI [of _ k]) simp
    next
      case False
      then have pos: "0 < unat n - t" using sub by (metis gr0I unat_eq_zero)
      have "sum_list ?ts = sum_list tl" using sum_list_dec_marks [of 0 "0 # tl"] by simp
      then have le': "unat (n - c) \<le> sum_list ?ts" using sub less.prems(2) ts by simp
      have "tl \<noteq> []" using pos less.prems(2) ts by auto
      then have "length ?ts < length ts" using length_dec_marks [of 0 tl] ts by (cases tl) auto
      from less.hyps [OF this p(2) le'] obtain ys s' k' where
        "dec_stale (n - c) ?sb' = Some (?sb'\<lparr>streambuf_slot_cnt_stale := ys, sslot := s', streambuf_cmd_cnt_stale := k'\<rparr>)"
        "stale_rel (?sb'\<lparr>streambuf_slot_cnt_stale := ys, sslot := s', streambuf_cmd_cnt_stale := k'\<rparr>) (dec_marks (unat n) ts)"
        using marks sub by auto
      then show ?thesis using step False by (intro exI [of _ ys] exI [of _ s'] exI [of _ k']) simp
    qed
  next
    case False
    then have lt: "unat n < t" and sub: "unat (c - n) = t - unat n" using c by (auto simp: word_le_nat_alt unat_sub)
    obtain xs where xs: "arr_set (streambuf_slot_cnt_stale sb) (sslot sb) (c - n) = Some xs"
      "stale_rel (sb\<lparr>streambuf_slot_cnt_stale := xs\<rparr>) ((t - unat n) # tl)" using stale_set_head [OF rel sub] by blast
    have "dec_stale n sb = Some (sb\<lparr>streambuf_slot_cnt_stale := xs\<rparr>)" using c xs False by (subst dec_stale.simps) simp
    moreover have "dec_marks (unat n) ts = (t - unat n) # tl" using lt ts by (cases tl) auto
    ultimately show ?thesis using xs(2)
      by (intro exI [of _ xs] exI [of _ "sslot sb"] exI [of _ "streambuf_cmd_cnt_stale sb"]) simp
  qed
qed

end
