(* ===== verification/Audio_Stream.thy ===== *)
theory Audio_Stream
  imports Audio_Slots
begin

text \<open>
  What the stream buffer promises: data is read in order up to the next command, commands are read
  in order between the data they were queued behind, and what was read is kept until it is
  discarded. The specification is a record of these queues; \<open>stream_rel\<close> relates it to the globals
  of \<open>streambuf.c\<close>.
\<close>

section \<open>Specification\<close>

record stream =
  old :: bytes
  ready :: bytes
  later :: "(bytes \<times> bytes) list"
  marks :: "nat list"
  frozen :: bool
  closed :: bool
  thaw_data :: nat
  thaw_cmd :: nat

text \<open>
  \<open>old\<close> was read and not yet discarded; \<open>ready\<close> is the data before the next command, \<open>later\<close> the
  commands with the data behind each; \<open>marks\<close> counts the data not yet discarded, split at the
  commands. While \<open>frozen\<close>, discards are only counted; while \<open>closed\<close>, nothing is written.
\<close>

definition unread :: "stream \<Rightarrow> bytes" where
  "unread st = ready st @ concat (map (\<lambda>(c, d). c @ d) (later st))"

definition counts :: "stream \<Rightarrow> nat list" where
  "counts st = length (ready st) # map (\<lambda>(c, d). length d) (later st)"

definition kept :: "stream \<Rightarrow> nat" where
  "kept st = sum_list (marks st) - sum_list (counts st)"

definition stream_cap :: nat where "stream_cap = 2 ^ 20"

definition add_data :: "bytes \<Rightarrow> stream \<Rightarrow> stream" where
  "add_data xs st =
     (if later st = [] then st\<lparr>ready := ready st @ xs\<rparr>
      else st\<lparr>later := butlast (later st) @ [(fst (last (later st)), snd (last (later st)) @ xs)]\<rparr>)"

definition read_size :: "u32 \<Rightarrow> u32 \<Rightarrow> nat \<Rightarrow> nat" where
  "read_size mn mx n = min (unat mx) (if n < unat mn then 0 else n)"

datatype stream_call = Feed bytes | Data_deq u32 u32 | Cmd_enq bytes | Cmd_ready | Cmd_deq u32
  | Sb_discard u32 bool | Sb_flush | Freeze | Thaw | Freebytes | Data_usedbytes

fun stream_spec :: "stream_call \<Rightarrow> stream \<Rightarrow> (u32 \<times> bytes) \<times> stream" where
  "stream_spec (Feed xs) st = ((1, []), (add_data xs st)\<lparr>marks := add_last (length xs) (marks st)\<rparr>)"
| "stream_spec (Data_deq mn mx) st =
     (let n = read_size mn mx (length (ready st))
      in ((of_nat n, take n (ready st)), st\<lparr>ready := drop n (ready st), old := old st @ take n (ready st)\<rparr>))"
| "stream_spec (Cmd_enq c) st = ((1, []), st\<lparr>later := later st @ [(c, [])], marks := marks st @ [0]\<rparr>)"
| "stream_spec Cmd_ready st =
     ((case later st of (c, d) # r \<Rightarrow> if ready st = [] then of_be32 c else 0 | [] \<Rightarrow> 0, []), st)"
| "stream_spec (Cmd_deq n) st =
     (case later st of (c, d) # r \<Rightarrow>
        if ready st = [] then ((of_nat (length c), c), st\<lparr>ready := d, later := r, old := old st @ c\<rparr>) else ((0, []), st)
      | [] \<Rightarrow> ((0, []), st))"
| "stream_spec (Sb_discard n data) st = ((n, []),
     if frozen st then if data then st\<lparr>thaw_data := thaw_data st + unat n\<rparr> else st\<lparr>thaw_cmd := thaw_cmd st + unat n\<rparr>
     else st\<lparr>old := drop (unat n) (old st), marks := dec_marks (if data then unat n else 0) (marks st)\<rparr>)"
| "stream_spec Sb_flush st = ((0, []),
     st\<lparr>old := [], ready := [], later := [], marks := [0], frozen := False, thaw_data := 0, thaw_cmd := 0\<rparr>)"
| "stream_spec Freeze st = ((0, []), st\<lparr>frozen := True, closed := True\<rparr>)"
| "stream_spec Thaw st = ((0, []), st\<lparr>old := drop (thaw_data st + thaw_cmd st) (old st), marks := dec_marks (thaw_data st) (marks st),
     frozen := False, closed := False, thaw_data := 0, thaw_cmd := 0\<rparr>)"
| "stream_spec Freebytes st =
     ((if closed st then 0 else of_nat (stream_cap - 1 - (length (old st) + length (unread st))), []), st)"
| "stream_spec Data_usedbytes st = ((of_nat (length (ready st)), []), st)"

text \<open>
  What the callers keep to: data fits into the free space; commands begin with their four byte code,
  no more than eight wait, and they are read with their size; only what was read is discarded.
\<close>

fun stream_pre :: "stream_call \<Rightarrow> stream \<Rightarrow> bool" where
  "stream_pre (Feed xs) st = (\<not> closed st \<and> length xs + length (old st) + length (unread st) < stream_cap)"
| "stream_pre (Cmd_enq c) st = (4 \<le> length c \<and> length (later st) < 8 \<and> length (marks st) < 9
     \<and> length c + length (old st) + length (unread st) + 1 < stream_cap)"
| "stream_pre (Cmd_deq n) st = (later st \<noteq> [] \<longrightarrow> ready st = [] \<longrightarrow> unat n = length (fst (hd (later st))))"
| "stream_pre (Sb_discard n data) st =
     (if data then thaw_data st + unat n \<le> kept st else thaw_cmd st + unat n \<le> length (old st) - kept st)"
| "stream_pre _ st = True"

text \<open>The calls of the players and decoders, on \<open>streambuf.c\<close>.\<close>

fun streambuf_call :: "stream_call \<Rightarrow> streambuf \<Rightarrow> ((u32 \<times> bytes) \<times> streambuf) option" where
  "streambuf_call (Feed xs) sb = do { sb \<leftarrow> streambuf_feed xs (of_nat (length xs)) sb; Some ((1, []), sb) }"
| "streambuf_call (Data_deq mn mx) sb = do {
     ((n, buf, streaming), sb) \<leftarrow> streambuf_read (replicate (unat mx) 0) mn mx sb; Some ((n, take (unat n) buf), sb) }"
| "streambuf_call (Cmd_enq c) sb = do { (ok, sb) \<leftarrow> streambuf_cmd_enq c (of_nat (length c)) sb; Some ((if ok then 1 else 0, []), sb) }"
| "streambuf_call Cmd_ready sb = do { (code, sb) \<leftarrow> streambuf_cmd_ready sb; Some ((code, []), sb) }"
| "streambuf_call (Cmd_deq n) sb = do {
     ((k, buf), sb) \<leftarrow> streambuf_cmd_deq (replicate (unat n) 0) n sb; Some ((k, take (unat k) buf), sb) }"
| "streambuf_call (Sb_discard n data) sb = do { (k, sb) \<leftarrow> streambuf_discard n data sb; Some ((k, []), sb) }"
| "streambuf_call Sb_flush sb = do { sb \<leftarrow> streambuf_flush sb; Some ((0, []), sb) }"
| "streambuf_call Freeze sb = do { sb \<leftarrow> streambuf_lock_state True sb; Some ((0, []), sb) }"
| "streambuf_call Thaw sb = do { sb \<leftarrow> streambuf_lock_state False sb; Some ((0, []), sb) }"
| "streambuf_call Freebytes sb = do { (n, sb) \<leftarrow> streambuf_get_freebytes sb; Some ((n, []), sb) }"
| "streambuf_call Data_usedbytes sb = do { (n, sb) \<leftarrow> streambuf_get_data_usedbytes sb; Some ((n, []), sb) }"

section \<open>Counters of read and of discarded data\<close>

definition marks_ok :: "nat list \<Rightarrow> nat list \<Rightarrow> bool" where
  "marks_ok ts ns \<longleftrightarrow> (\<forall>j < length ns - 1. from_end ts j = from_end ns j) \<and> from_end ns (length ns - 1) \<le> from_end ts (length ns - 1)"

lemma sum_from_end: "length ts \<le> n \<Longrightarrow> sum_list ts = (\<Sum>j<n. from_end ts j)"
proof (induction ts arbitrary: n rule: rev_induct)
  case (snoc t ts)
  then obtain m where "n = Suc m" by (cases n) auto
  then show ?case using snoc by (simp add: sum.lessThan_Suc_shift del: sum.lessThan_Suc)
qed simp

lemma from_end_le_sum: "length ts \<le> 9 \<Longrightarrow> j < 9 \<Longrightarrow> from_end ts j \<le> sum_list ts"
  unfolding sum_from_end by (intro member_le_sum) auto

lemma sum_tail_Cons:
  "length ts < 9 \<Longrightarrow> (\<Sum>j\<in>{k..<9}. from_end (t # ts) j) = (if k \<le> length ts then t else 0) + (\<Sum>j\<in>{k..<9}. from_end ts j)"
proof -
  assume len: "length ts < 9"
  have "from_end (t # ts) j = (if j = length ts then t else 0) + from_end ts j" for j by (simp add: from_end_Cons)
  then show ?thesis using len by (simp add: sum.distrib sum.delta)
qed

lemma sum_marks:
  assumes "marks_ok ts ns" "ns \<noteq> []" "length ts \<le> 9" "length ns \<le> 9"
  shows "sum_list ts + from_end ns (length ns - 1) = sum_list ns + (\<Sum>j\<in>{length ns - 1..<9}. from_end ts j)"
    "sum_list ns \<le> sum_list ts"
proof -
  let ?k = "length ns - 1"
  have k: "?k < 9" using assms(2,4) by (cases ns) auto
  have split: "(\<Sum>j<9. g j) = (\<Sum>j<?k. g j) + (\<Sum>j\<in>{?k..<9}. g j)" for g :: "nat \<Rightarrow> nat"
    using k by (metis atLeast0LessThan less_imp_le_nat sum.atLeastLessThan_concat zero_le)
  have "(\<Sum>j\<in>{?k..<9}. from_end ns j) = from_end ns ?k" using k assms(2)
    by (subst sum.atLeast_Suc_lessThan) (auto intro!: sum.neutral)
  then have ns: "sum_list ns = (\<Sum>j<?k. from_end ns j) + from_end ns ?k" using sum_from_end [OF assms(4)] split by simp
  have ts: "sum_list ts = (\<Sum>j<?k. from_end ns j) + (\<Sum>j\<in>{?k..<9}. from_end ts j)"
    using sum_from_end [OF assms(3)] split assms(1) by (simp add: marks_ok_def)
  show "sum_list ts + from_end ns ?k = sum_list ns + (\<Sum>j\<in>{?k..<9}. from_end ts j)" using ns ts by simp
  have "from_end ts ?k \<le> (\<Sum>j\<in>{?k..<9}. from_end ts j)" using k by (intro member_le_sum) auto
  then show "sum_list ns \<le> sum_list ts" using ns ts assms(1) by (simp add: marks_ok_def)
qed

lemma dec_marks_from_end:
  "length ts \<le> 9 \<Longrightarrow> k < 9 \<Longrightarrow> \<forall>j<k. from_end ts j = a j \<Longrightarrow> b \<le> from_end ts k \<Longrightarrow> n + b \<le> (\<Sum>j\<in>{k..<9}. from_end ts j) \<Longrightarrow>
   (\<forall>j<k. from_end (dec_marks n ts) j = a j) \<and> b \<le> from_end (dec_marks n ts) k"
proof (induction n ts rule: dec_marks.induct)
  case (1 n)
  then show ?case by simp
next
  case (2 n t)
  have "n + b \<le> (if k = 0 then t else 0)" using "2.prems"(5) sum_tail_Cons [where ts = "[]" and k = k and t = t] by simp
  then show ?case using "2.prems"(3,4) by (cases "k = 0") (auto simp: from_end_Cons)
next
  case (3 n t t' ts)
  define r where r: "r = t' # ts"
  define S where S: "S = (\<Sum>j\<in>{k..<9}. from_end r j)"
  have len: "length r < 9" using "3.prems"(1) by (simp add: r)
  have same: "from_end (x # r) j = (if j = length r then x else from_end r j)" for x j by (rule from_end_Cons)
  have sum: "n + b \<le> (if k \<le> length r then t else 0) + S"
    using "3.prems"(5) sum_tail_Cons [OF len, where k = k and t = t] unfolding r [symmetric] S by simp
  have S0: "length r \<le> k \<Longrightarrow> S = 0" unfolding S by (intro sum.neutral) auto
  have a: "j < k \<Longrightarrow> j = length r \<Longrightarrow> t = a j" "j < k \<Longrightarrow> j \<noteq> length r \<Longrightarrow> from_end r j = a j" for j
    using "3.prems"(3) unfolding r [symmetric] same by auto
  have b: "k = length r \<Longrightarrow> b \<le> t" "k \<noteq> length r \<Longrightarrow> b \<le> from_end r k"
    using "3.prems"(4) unfolding r [symmetric] same by auto
  have zero: "length r < k \<Longrightarrow> n = 0" using sum S0 by simp
  show ?case
  proof (cases "t \<le> n")
    case True
    have "\<forall>j<k. from_end r j = a j"
    proof (intro allI impI)
      fix j assume j: "j < k"
      show "from_end r j = a j"
      proof (cases "j = length r")
        case True
        then show ?thesis using a(1) [OF j True] zero j \<open>t \<le> n\<close> by simp
      qed (use a(2) [OF j] in simp)
    qed
    moreover have "b \<le> from_end r k" using b sum S0 True by (cases "k = length r") auto
    moreover have "n - t + b \<le> S" using sum True zero by (cases "k \<le> length r") auto
    ultimately show ?thesis using "3.IH" [OF True] True len "3.prems"(2) unfolding r S by simp
  next
    case False
    have "\<forall>j<k. from_end ((t - n) # r) j = a j"
    proof (intro allI impI)
      fix j assume j: "j < k"
      show "from_end ((t - n) # r) j = a j"
        using a [OF j] zero j by (cases "j = length r") (simp_all add: same)
    qed
    moreover have "b \<le> from_end ((t - n) # r) k" using b sum S0 by (cases "k = length r") (simp_all add: same)
    ultimately show ?thesis using False unfolding r by simp
  qed
qed

lemma marks_ok_dec:
  assumes "marks_ok ts ns" "ns \<noteq> []" "length ts \<le> 9" "length ns \<le> 9" "n \<le> sum_list ts - sum_list ns"
  shows "marks_ok (dec_marks n ts) ns"
proof -
  have k: "length ns - 1 < 9" using assms(2,4) by (cases ns) auto
  have "n + from_end ns (length ns - 1) \<le> (\<Sum>j\<in>{length ns - 1..<9}. from_end ts j)"
    using sum_marks [OF assms(1-4)] assms(5) by linarith
  then show ?thesis using dec_marks_from_end [OF assms(3) k, of "from_end ns" "from_end ns (length ns - 1)" n] assms(1)
    by (simp add: marks_ok_def)
qed

lemma marks_ok_add: "marks_ok ts ns \<Longrightarrow> ts \<noteq> [] \<Longrightarrow> ns \<noteq> [] \<Longrightarrow> marks_ok (add_last n ts) (add_last n ns)"
  by (auto simp: marks_ok_def from_end_add_last)

lemma marks_ok_snoc: "marks_ok ts ns \<Longrightarrow> ns \<noteq> [] \<Longrightarrow> marks_ok (ts @ [0]) (ns @ [0])"
proof -
  assume a: "marks_ok ts ns" "ns \<noteq> []"
  have "from_end (ts @ [0]) j = from_end (ns @ [0]) j" if "j < length ns" for j
  proof (cases j)
    case (Suc i)
    then show ?thesis using a that by (auto simp: marks_ok_def)
  qed simp
  moreover obtain k where "length ns = Suc k" using a(2) by (cases ns) auto
  ultimately show ?thesis using a(1) by (simp add: marks_ok_def)
qed

lemma marks_ok_read: "marks_ok ts (n # ns) \<Longrightarrow> k \<le> n \<Longrightarrow> marks_ok ts ((n - k) # ns)"
  by (auto simp: marks_ok_def from_end_Cons)

lemma marks_ok_next: "marks_ok ts (0 # ns) \<Longrightarrow> ns \<noteq> [] \<Longrightarrow> marks_ok ts ns"
proof -
  assume a: "marks_ok ts (0 # ns)" "ns \<noteq> []"
  then have "from_end ts j = from_end ns j" if "j < length ns" for j using that by (auto simp: marks_ok_def from_end_Cons)
  then show ?thesis using a(2) by (simp add: marks_ok_def)
qed

end
