(* ===== verification/Audio_Refine.thy ===== *)
theory Audio_Refine
  imports Audio_Stream
begin

text \<open>
  The stream buffer refines its specification: the relation between the globals of \<open>streambuf.c\<close>
  and the queues, and each call under it.
\<close>

section \<open>The relation\<close>

definition ring_rel :: "fifo2 \<Rightarrow> stream \<Rightarrow> bool" where
  "ring_rel f st \<longleftrightarrow> fifo2_ok f \<and> fsize f = STREAMBUF_SIZE \<and> fifo2_stale f = old st \<and> fifo2_fresh f = unread st"

definition read_rel :: "streambuf \<Rightarrow> nat list \<Rightarrow> bool" where
  "read_rel sb ns \<longleftrightarrow> slot_rel (unat (eslot sb)) (streambuf_slot_cnt sb) ns
     \<and> unat (dslot sb) = slot_of (unat (eslot sb)) (length ns - 1) \<and> unat (streambuf_cmd_cnt sb) = length ns - 1"

definition flag_rel :: "streambuf \<Rightarrow> stream \<Rightarrow> bool" where
  "flag_rel sb st \<longleftrightarrow> \<not> streambuf_allow_auto_discard sb \<and> streambuf_allow_discard sb = (\<not> frozen st)
     \<and> streambuf_allow_writes sb = (\<not> closed st)
     \<and> unat (discard_data_on_thaw sb) = thaw_data st \<and> unat (discard_cmd_on_thaw sb) = thaw_cmd st"

definition cmds_ok :: "stream \<Rightarrow> bool" where
  "cmds_ok st \<longleftrightarrow> (\<forall>c \<in> set (later st). 4 \<le> length (fst c))"

definition stream_ok :: "stream \<Rightarrow> bool" where
  "stream_ok st \<longleftrightarrow> marks_ok (marks st) (counts st) \<and> kept st \<le> length (old st)
     \<and> thaw_data st \<le> kept st \<and> thaw_cmd st \<le> length (old st) - kept st \<and> cmds_ok st"

definition stream_rel :: "streambuf \<Rightarrow> stream \<Rightarrow> bool" where
  "stream_rel sb st \<longleftrightarrow> ring_rel (streambuf_fifo sb) st \<and> stale_rel sb (marks st) \<and> read_rel sb (counts st)
     \<and> flag_rel sb st \<and> stream_ok st"

lemmas stream_rel_simps = ring_rel_def read_rel_def flag_rel_def stale_rel_def

lemma stream_update_simps [simp]:
  "counts (st\<lparr>marks := m\<rparr>) = counts st" "counts (st\<lparr>old := b\<rparr>) = counts st" "counts (st\<lparr>frozen := p\<rparr>) = counts st"
  "counts (st\<lparr>closed := p\<rparr>) = counts st" "counts (st\<lparr>thaw_data := n\<rparr>) = counts st" "counts (st\<lparr>thaw_cmd := n\<rparr>) = counts st"
  "unread (st\<lparr>marks := m\<rparr>) = unread st" "unread (st\<lparr>old := b\<rparr>) = unread st" "unread (st\<lparr>frozen := p\<rparr>) = unread st"
  "unread (st\<lparr>closed := p\<rparr>) = unread st" "unread (st\<lparr>thaw_data := n\<rparr>) = unread st" "unread (st\<lparr>thaw_cmd := n\<rparr>) = unread st"
  "cmds_ok (st\<lparr>marks := m\<rparr>) = cmds_ok st" "cmds_ok (st\<lparr>old := b\<rparr>) = cmds_ok st" "cmds_ok (st\<lparr>frozen := p\<rparr>) = cmds_ok st"
  "cmds_ok (st\<lparr>closed := p\<rparr>) = cmds_ok st" "cmds_ok (st\<lparr>thaw_data := n\<rparr>) = cmds_ok st" "cmds_ok (st\<lparr>thaw_cmd := n\<rparr>) = cmds_ok st"
  by (simp_all add: counts_def unread_def cmds_ok_def)

lemma counts_nonempty [simp]: "counts st \<noteq> []"
  by (simp add: counts_def)

lemma length_counts [simp]: "length (counts st) = Suc (length (later st))"
  by (simp add: counts_def)

lemma length_unread: "length (unread st) = sum_list (counts st) + sum_list (map (length \<circ> fst) (later st))"
proof -
  have "length (concat (map (\<lambda>(c, d). c @ d) xs)) = sum_list (map (\<lambda>(c, d). length d) xs) + sum_list (map (length \<circ> fst) xs)"
    for xs :: "(bytes \<times> bytes) list" by (induction xs) auto
  then show ?thesis by (simp add: unread_def counts_def)
qed

lemma counts_le_unread: "sum_list (counts st) \<le> length (unread st)"
  by (simp add: length_unread)

lemma cap_size: "unat STREAMBUF_SIZE = stream_cap"
  by (simp add: stream_cap_def)

lemma stream_relD:
  assumes "stream_rel sb st"
  shows "fifo2_ok (streambuf_fifo sb)" "fsize (streambuf_fifo sb) = STREAMBUF_SIZE" "fifo2_stale (streambuf_fifo sb) = old st"
    "fifo2_fresh (streambuf_fifo sb) = unread st" "unat (eslot sb) < 9" "length (later st) \<le> 8" "length (marks st) \<le> 9"
    "length (old st) + length (unread st) < stream_cap" "sum_list (counts st) \<le> sum_list (marks st)"
    "sum_list (marks st) < stream_cap" "marks st \<noteq> []"
proof -
  show f: "fifo2_ok (streambuf_fifo sb)" "fsize (streambuf_fifo sb) = STREAMBUF_SIZE" "fifo2_stale (streambuf_fifo sb) = old st"
    "fifo2_fresh (streambuf_fifo sb) = unread st" and "unat (eslot sb) < 9" "marks st \<noteq> []"
    using assms by (auto simp: stream_rel_def stream_rel_simps)
  show len: "length (later st) \<le> 8" "length (marks st) \<le> 9" using assms by (auto simp: stream_rel_def stream_rel_simps slot_rel_def)
  show cap: "length (old st) + length (unread st) < stream_cap" using length_fifo2(2) [OF f(1)] f(2,3,4) cap_size by simp
  show le: "sum_list (counts st) \<le> sum_list (marks st)"
    using assms sum_marks(2) [of "marks st" "counts st"] len by (simp add: stream_rel_def stream_ok_def)
  have "kept st \<le> length (old st)" using assms by (simp add: stream_rel_def stream_ok_def)
  then show "sum_list (marks st) < stream_cap" using cap counts_le_unread [of st] le by (simp add: kept_def)
qed

lemma stream_free:
  assumes "stream_rel sb st"
  shows "fifo2_bytes_free ((streambuf_fifo sb)\<lparr>lock := True\<rparr>) = Some (of_nat (stream_cap - 1 - (length (old st) + length (unread st))))"
proof -
  note d = stream_relD [OF assms]
  let ?f = "(streambuf_fifo sb)\<lparr>lock := True\<rparr>"
  have "fifo2_bytes_free ?f = Some (of_nat (unat (fsize ?f) - 1 - (length (fifo2_stale ?f) + length (fifo2_fresh ?f))))"
    by (rule fifo2_free) (simp_all add: d)
  moreover have "unat (fsize ?f) = stream_cap" using d(2) by (simp add: stream_cap_def)
  ultimately show ?thesis by (simp only: fifo2_lock_keeps d(3,4))
qed

section \<open>Locking\<close>

lemma fifo_of_lock [simp]: "streambuf_fifo (sb_lock sb) = (streambuf_fifo sb)\<lparr>lock := True\<rparr>"
  by (simp add: sb_lock_def fifo2_lock_def)

lemma sb_unlock_eq [simp]: "lock (streambuf_fifo sb) \<Longrightarrow> sb_unlock sb = Some (sb\<lparr>streambuf_fifo := (streambuf_fifo sb)\<lparr>lock := False\<rparr>\<rparr>)"
  by (simp add: sb_unlock_def fifo2_unlock_def)

lemma ring_rel_lock [simp]: "ring_rel (f\<lparr>lock := b\<rparr>) st = ring_rel f st"
  by (simp add: ring_rel_def)

lemma stale_rel_fifo [simp]: "stale_rel (sb\<lparr>streambuf_fifo := f\<rparr>) ts = stale_rel sb ts"
  by (simp add: stale_rel_def)

lemma read_rel_fifo [simp]: "read_rel (sb\<lparr>streambuf_fifo := f\<rparr>) ns = read_rel sb ns"
  by (simp add: read_rel_def)

lemma flag_rel_fifo [simp]: "flag_rel (sb\<lparr>streambuf_fifo := f\<rparr>) st = flag_rel sb st"
  by (simp add: flag_rel_def)

lemma stream_rel_fifo:
  "stream_rel (sb\<lparr>streambuf_fifo := f\<rparr>) st \<longleftrightarrow> ring_rel f st \<and> stale_rel sb (marks st) \<and> read_rel sb (counts st) \<and> flag_rel sb st \<and> stream_ok st"
  by (simp add: stream_rel_def)

lemma stream_rel_unlock [simp]: "stream_rel (sb\<lparr>streambuf_fifo := (streambuf_fifo sb)\<lparr>lock := b\<rparr>\<rparr>) st = stream_rel sb st"
  by (simp add: stream_rel_def)

lemma stream_rel_lock: "stream_rel sb st \<Longrightarrow> stream_rel (sb_lock sb) st"
  by (simp add: sb_lock_def fifo2_lock_def)

section \<open>Data\<close>

lemma add_data_simps [simp]:
  "old (add_data xs st) = old st" "marks (add_data xs st) = marks st" "frozen (add_data xs st) = frozen st"
  "closed (add_data xs st) = closed st" "thaw_data (add_data xs st) = thaw_data st" "thaw_cmd (add_data xs st) = thaw_cmd st"
  "length (later (add_data xs st)) = length (later st)" "cmds_ok (add_data xs st) = cmds_ok st"
  by (cases "later st" rule: rev_cases; simp add: add_data_def cmds_ok_def)+

lemma counts_add_data [simp]: "counts (add_data xs st) = add_last (length xs) (counts st)"
  by (cases "later st" rule: rev_cases) (auto simp: add_data_def counts_def add_last_def case_prod_beta)

lemma unread_add_data [simp]: "unread (add_data xs st) = unread st @ xs"
  by (cases "later st" rule: rev_cases) (auto simp: add_data_def unread_def case_prod_beta)

lemma slot_add:
  assumes "slot_rel e xs ts" "ts \<noteq> []" "e < 9" "unat i = e" "sum_list ts + unat n < 2 ^ 32"
  shows "\<exists>c ys. arr_get xs i = Some c \<and> arr_set xs i (c + n) = Some ys \<and> slot_rel e ys (add_last (unat n) ts)"
proof -
  have xs: "length xs = 9" "length ts \<le> 9" using assms(1) by (auto simp: slot_rel_def)
  let ?c = "xs ! e"
  have c: "unat ?c = from_end ts 0" using slot_rel_nth [OF assms(1), of 0] assms(3) by simp
  have "from_end ts 0 \<le> sum_list ts" using xs(2) by (rule from_end_le_sum) simp
  then have "unat (?c + n) = from_end ts 0 + unat n" using unat_add_lem [of ?c n] c assms(5) by simp
  then have "slot_rel e (xs[slot_of e 0 := ?c + n]) (add_last (unat n) ts)"
    using assms(1,2,3) xs(2) by (intro slot_rel_update [where ts = ts]) (auto simp: from_end_add_last)
  then show ?thesis using assms(3,4) xs(1) by (simp add: arr_get_def arr_set_def)
qed

lemma stream_cap_small: "n < stream_cap \<Longrightarrow> m < stream_cap \<Longrightarrow> n + m < 2 ^ 32"
  by (simp add: stream_cap_def)

lemma unat_of_nat_cap: "n < stream_cap \<Longrightarrow> unat (of_nat n :: u32) = n"
  by (simp add: stream_cap_def unsigned_of_nat take_bit_nat_eq_self)

lemma feed_refines:
  assumes "stream_rel sb st" "stream_pre (Feed xs) st"
  shows "\<exists>sb'. streambuf_call (Feed xs) sb = Some (fst (stream_spec (Feed xs) st), sb') \<and> stream_rel sb' (snd (stream_spec (Feed xs) st))"
proof -
  note d = stream_relD [OF assms(1)]
  let ?n = "of_nat (length xs) :: u32" and ?e = "unat (eslot sb)" and ?f = "(streambuf_fifo sb)\<lparr>lock := True\<rparr>"
  have fits: "length xs + length (old st) + length (unread st) < stream_cap" "\<not> closed st" using assms(2) by auto
  have n: "unat ?n = length xs" using fits by (intro unat_of_nat_cap) simp
  obtain c xs1 where c: "arr_get (streambuf_slot_cnt sb) (eslot sb) = Some c" "arr_set (streambuf_slot_cnt sb) (eslot sb) (c + ?n) = Some xs1"
      "slot_rel ?e xs1 (add_last (length xs) (counts st))"
    using slot_add [of ?e "streambuf_slot_cnt sb" "counts st" "eslot sb" ?n] assms(1) d n fits stream_cap_small [of "sum_list (counts st)" "length xs"]
    by (auto simp: stream_rel_def read_rel_def)
  obtain c' xs2 where c': "arr_get (streambuf_slot_cnt_stale sb) (eslot sb) = Some c'" "arr_set (streambuf_slot_cnt_stale sb) (eslot sb) (c' + ?n) = Some xs2"
      "slot_rel ?e xs2 (add_last (length xs) (marks st))"
    using slot_add [of ?e "streambuf_slot_cnt_stale sb" "marks st" "eslot sb" ?n] assms(1) d n fits stream_cap_small [of "sum_list (marks st)" "length xs"]
    by (auto simp: stream_rel_def stale_rel_def)
  obtain f where f: "fifo2_enq ?f xs ?n = Some (?n, f)" "fifo2_ok f" "lock f" "fsize f = STREAMBUF_SIZE"
      "fifo2_stale f = old st" "fifo2_fresh f = unread st @ xs"
    using fifo2_enq_ok [of ?f ?n xs] d fits n by (auto simp: stream_cap_def)
  have "streambuf_allow_writes sb" using assms(1) fits(2) by (simp add: stream_rel_def flag_rel_def)
  then have call: "streambuf_call (Feed xs) sb = Some ((1, []), sb\<lparr>streambuf_fifo := f\<lparr>lock := False\<rparr>, streambuf_streaming := True,
      streambuf_bytes_received := streambuf_bytes_received sb + ucast ?n, streambuf_slot_cnt := xs1, streambuf_slot_cnt_stale := xs2\<rparr>)"
    using c(1,2) c'(1,2) f(1,3) by (simp add: streambuf_feed_def streambuf_data_enq_def sb_lock_def fifo2_lock_def Let_def)
  have ok: "stream_ok (snd (stream_spec (Feed xs) st))"
    using assms(1) marks_ok_add [of "marks st" "counts st" "length xs"] d
    by (simp add: stream_rel_def stream_ok_def kept_def)
  show ?thesis unfolding call using assms(1) c(3) c'(3) f ok d
    by (simp add: stream_rel_def stream_rel_simps counts_def [symmetric])
qed

lemma read_relD:
  assumes "read_rel sb (n # ns)" "unat (eslot sb) < 9"
  shows "length ns \<le> 8" "unat (dslot sb) = slot_of (unat (eslot sb)) (length ns)" "length (streambuf_slot_cnt sb) = 9"
    "slot_rel (unat (eslot sb)) (streambuf_slot_cnt sb) (n # ns)" "unat (streambuf_cmd_cnt sb) = length ns"
  using assms by (auto simp: read_rel_def slot_rel_def)

lemma read_head:
  assumes "read_rel sb (n # ns)" "unat (eslot sb) < 9"
  shows "\<exists>c. arr_get (streambuf_slot_cnt sb) (dslot sb) = Some c \<and> unat c = n"
proof -
  note d = read_relD [OF assms]
  have "unat (streambuf_slot_cnt sb ! unat (dslot sb)) = from_end (n # ns) (length ns)"
    using slot_rel_nth [OF d(4), of "length ns"] d(1,2) by simp
  then show ?thesis using d(2,3) by (auto simp: arr_get_def from_end_Cons)
qed

lemma read_set_head:
  assumes "read_rel sb (n # ns)" "unat (eslot sb) < 9" "unat v = n'"
  shows "\<exists>xs. arr_set (streambuf_slot_cnt sb) (dslot sb) v = Some xs \<and> read_rel (sb\<lparr>streambuf_slot_cnt := xs\<rparr>) (n' # ns)"
proof -
  note d = read_relD [OF assms(1,2)]
  let ?xs = "(streambuf_slot_cnt sb)[slot_of (unat (eslot sb)) (length ns) := v]"
  have "slot_rel (unat (eslot sb)) ?xs (n' # ns)"
    using d(1) assms(2,3) by (intro slot_rel_update [OF d(4)]) (auto simp: from_end_Cons)
  then have "read_rel (sb\<lparr>streambuf_slot_cnt := ?xs\<rparr>) (n' # ns)" using assms(1) by (simp add: read_rel_def)
  moreover have "arr_set (streambuf_slot_cnt sb) (dslot sb) v = Some ?xs" using d(2,3) by (simp add: arr_set_def)
  ultimately show ?thesis by blast
qed

lemma counts_Cons: "counts st = length (ready st) # map (\<lambda>(c, d). length d) (later st)"
  by (simp add: counts_def)

lemma unread_prefix: "n \<le> length (ready st) \<Longrightarrow> take n (unread st) = take n (ready st)"
  "n \<le> length (ready st) \<Longrightarrow> drop n (unread st) = unread (st\<lparr>ready := drop n (ready st)\<rparr>)"
  by (simp_all add: unread_def)

lemma read_size_word:
  assumes "unat c = n"
  shows "unat (let n = (if c < mn then 0 else c) in if n > mx then mx else n) = read_size mn mx n"
  using assms by (auto simp: read_size_def word_less_nat_alt min_def)

lemma read_size_le: "read_size mn mx n \<le> n" "read_size mn mx n \<le> unat mx"
  by (auto simp: read_size_def)

lemma stream_ok_read:
  assumes "stream_ok st" "n \<le> length (ready st)" "length (marks st) \<le> 9" "length (later st) \<le> 8"
  shows "stream_ok (st\<lparr>ready := drop n (ready st), old := old st @ take n (ready st)\<rparr>)"
proof -
  let ?st = "st\<lparr>ready := drop n (ready st), old := old st @ take n (ready st)\<rparr>"
  have c: "counts ?st = (length (ready st) - n) # tl (counts st)" by (simp add: counts_def)
  have "sum_list (counts st) \<le> sum_list (marks st)" using assms sum_marks(2) [of "marks st" "counts st"] by (simp add: stream_ok_def)
  moreover have "sum_list (counts ?st) + n = sum_list (counts st)" using assms(2) c by (simp add: counts_def)
  ultimately have "kept ?st = kept st + n" by (simp add: kept_def)
  moreover have "marks_ok (marks st) (counts ?st)"
    using marks_ok_read [of "marks st" "length (ready st)" "tl (counts st)" n] assms(1,2) c by (simp add: stream_ok_def counts_def)
  moreover have "cmds_ok ?st = cmds_ok st" by (simp add: cmds_ok_def)
  ultimately show ?thesis using assms(1,2) by (simp add: stream_ok_def)
qed

lemma data_deq_into:
  assumes "stream_rel sb st" "length buf = unat mx"
  shows "\<exists>sb'. streambuf_data_deq buf mn mx sb = Some ((of_nat (read_size mn mx (length (ready st))),
      take (read_size mn mx (length (ready st))) (ready st) @ drop (read_size mn mx (length (ready st))) buf, streambuf_streaming sb), sb')
    \<and> stream_rel sb' (snd (stream_spec (Data_deq mn mx) st)) \<and> streambuf_streaming sb' = streambuf_streaming sb"
proof -
  note d = stream_relD [OF assms(1)]
  have rr: "read_rel (sb_lock sb) (length (ready st) # map (\<lambda>(c, d). length d) (later st))" and e: "unat (eslot (sb_lock sb)) < 9"
    using assms d(5) by (simp_all add: stream_rel_def counts_Cons read_rel_def sb_lock_def)
  obtain c where c: "arr_get (streambuf_slot_cnt (sb_lock sb)) (dslot (sb_lock sb)) = Some c" "unat c = length (ready st)" using read_head [OF rr e] by blast
  let ?n = "let n = (if c < mn then 0 else c) in if n > mx then mx else n" and ?k = "read_size mn mx (length (ready st))"
  have n: "unat ?n = ?k" by (rule read_size_word [OF c(2)])
  have nk: "?n = of_nat ?k" using n by (rule of_nat_unat_eq)
  note le = read_size_le [of mn mx "length (ready st)"]
  let ?f = "(streambuf_fifo sb)\<lparr>lock := True\<rparr>" and ?st = "snd (stream_spec (Data_deq mn mx) st)"
  have auto: "\<not> streambuf_allow_auto_discard (sb_lock sb)" using assms by (simp add: stream_rel_def flag_rel_def sb_lock_def)
  have ok: "stream_ok ?st" using stream_ok_read [of st ?k] assms le(1) d(6,7) by (simp add: stream_rel_def Let_def)
  have streaming: "streambuf_streaming (sb_lock sb) = streambuf_streaming sb" by (simp add: sb_lock_def)
  show ?thesis
  proof (cases "?n = 0")
    case True
    then have k: "?k = 0" using n by simp
    have "streambuf_data_deq buf mn mx sb = Some ((?n, buf, streambuf_streaming sb), sb\<lparr>streambuf_fifo := (streambuf_fifo sb)\<lparr>lock := False\<rparr>\<rparr>)"
      using c True by (simp add: streambuf_data_deq_def fifo2_signal_def Let_def sb_lock_def fifo2_lock_def)
    then show ?thesis using k True assms by simp
  next
    case False
    obtain f where f: "fifo2_deq ?f (Some buf) ?n False
        = Some (?n, Some (put_at 0 (take ?k (ready st)) buf), f)" "fifo2_ok f" "lock f" "fsize f = STREAMBUF_SIZE"
        "fifo2_fresh f = unread ?st" "fifo2_stale f = old ?st"
      using fifo2_deq_ok [of ?f ?n "Some buf" False] d n le unread_prefix [OF le(1)] assms(2)
      by (auto simp: Let_def unread_def)
    have sub: "unat (c - ?n) = length (ready st) - ?k" using n c(2) le(1) by (simp add: unat_sub word_le_nat_alt)
    obtain xs where xs: "arr_set (streambuf_slot_cnt (sb_lock sb)) (dslot (sb_lock sb)) (c - ?n) = Some xs"
        "read_rel ((sb_lock sb)\<lparr>streambuf_slot_cnt := xs\<rparr>) (counts ?st)"
      using read_set_head [OF rr e sub] by (auto simp: counts_def Let_def)
    have "streambuf_data_deq buf mn mx sb = Some ((?n, take ?k (ready st) @ drop ?k buf, streambuf_streaming sb),
        (sb_lock sb)\<lparr>streambuf_fifo := f\<lparr>lock := False\<rparr>, streambuf_slot_cnt := xs\<rparr>)"
      using c f(1,3) xs(1) False auto n le streaming by (simp add: streambuf_data_deq_def fifo2_signal_def Let_def put_at_def)
    moreover have "stream_rel ((sb_lock sb)\<lparr>streambuf_fifo := f\<lparr>lock := False\<rparr>, streambuf_slot_cnt := xs\<rparr>) ?st"
      using assms f xs(2) ok by (simp add: stream_rel_def stream_rel_simps sb_lock_def Let_def)
    ultimately show ?thesis using nk streaming by (simp add: Let_def)
  qed
qed

lemma data_deq_refines:
  assumes "stream_rel sb st"
  shows "\<exists>sb'. streambuf_call (Data_deq mn mx) sb = Some (fst (stream_spec (Data_deq mn mx) st), sb') \<and> stream_rel sb' (snd (stream_spec (Data_deq mn mx) st))"
proof -
  note d = stream_relD [OF assms]
  note le = read_size_le [of mn mx "length (ready st)"]
  have "length (ready st) \<le> length (unread st)" by (simp add: unread_def)
  then have "unat (of_nat (read_size mn mx (length (ready st))) :: u32) = read_size mn mx (length (ready st))"
    using le(1) d(8) by (intro unat_of_nat_cap) linarith
  then show ?thesis using data_deq_into [OF assms, of "replicate (unat mx) 0" mx mn] le
    by (auto simp: streambuf_read_def Let_def)
qed

section \<open>Commands\<close>

lemma of_be32_prefix: "4 \<le> length c \<Longrightarrow> of_be32 (take 4 (c @ xs)) = of_be32 c"
  by (auto simp: numeral_eq_Suc Suc_le_length_iff)

lemma cmd_ready_refines:
  assumes "stream_rel sb st"
  shows "\<exists>sb'. streambuf_call Cmd_ready sb = Some (fst (stream_spec Cmd_ready st), sb') \<and> stream_rel sb' (snd (stream_spec Cmd_ready st))"
proof -
  note d = stream_relD [OF assms]
  have rr: "read_rel (sb_lock sb) (length (ready st) # map (\<lambda>(c, d). length d) (later st))" and e: "unat (eslot (sb_lock sb)) < 9"
    using assms d(5) by (simp_all add: stream_rel_def counts_Cons read_rel_def sb_lock_def)
  obtain c where c: "arr_get (streambuf_slot_cnt (sb_lock sb)) (dslot (sb_lock sb)) = Some c" "unat c = length (ready st)" using read_head [OF rr e] by blast
  have zero: "c = 0 \<longleftrightarrow> ready st = []" using c(2) unat_eq_zero [of c] by auto
  have cnt: "streambuf_cmd_cnt (sb_lock sb) = 0 \<longleftrightarrow> later st = []" using read_relD(5) [OF rr e] unat_eq_zero [of "streambuf_cmd_cnt (sb_lock sb)"] by auto
  let ?f = "(streambuf_fifo sb)\<lparr>lock := True\<rparr>"
  have rel: "stream_rel ((sb_lock sb)\<lparr>streambuf_fifo := ?f\<lparr>lock := False\<rparr>\<rparr>) st" using stream_rel_lock [OF assms] stream_rel_fifo by (simp add: stream_rel_def)
  show ?thesis
  proof (cases "later st = [] \<or> ready st \<noteq> []")
    case True
    then have "streambuf_call Cmd_ready sb = Some ((0, []), (sb_lock sb)\<lparr>streambuf_fifo := ?f\<lparr>lock := False\<rparr>\<rparr>)"
      using c zero cnt by (auto simp: streambuf_cmd_ready_def Let_def)
    then show ?thesis using True rel by (auto split: list.splits)
  next
    case False
    then obtain x y r where later: "later st = (x, y) # r" and ready: "ready st = []" by (cases "later st") auto
    have x: "4 \<le> length x" using assms later by (simp add: stream_rel_def stream_ok_def cmds_ok_def)
    have u: "unread st = x @ (y @ concat (map (\<lambda>(c, d). c @ d) r))" by (simp add: unread_def later ready)
    have "fifo2_read ?f (Some (be32 0)) 0 4 False = Some (4, Some (take 4 (unread st)))"
      using fifo2_read_ok [of ?f "unread st" False 0 4 "be32 0"] d x u by simp
    moreover have "of_be32 (take 4 (unread st)) = of_be32 x" unfolding u by (rule of_be32_prefix [OF x])
    ultimately have "streambuf_call Cmd_ready sb = Some ((of_be32 x, []), (sb_lock sb)\<lparr>streambuf_fifo := ?f\<lparr>lock := False\<rparr>\<rparr>)"
      using c zero cnt False by (simp add: streambuf_cmd_ready_def Let_def)
    then show ?thesis using later ready rel by simp
  qed
qed

lemma cmd_deq_refines:
  assumes "stream_rel sb st" "stream_pre (Cmd_deq n) st"
  shows "\<exists>sb'. streambuf_call (Cmd_deq n) sb = Some (fst (stream_spec (Cmd_deq n) st), sb') \<and> stream_rel sb' (snd (stream_spec (Cmd_deq n) st))"
proof -
  note d = stream_relD [OF assms(1)]
  have rr: "read_rel (sb_lock sb) (length (ready st) # map (\<lambda>(c, d). length d) (later st))" and e: "unat (eslot (sb_lock sb)) < 9"
    using assms d(5) by (simp_all add: stream_rel_def counts_Cons read_rel_def sb_lock_def)
  obtain c where c: "arr_get (streambuf_slot_cnt (sb_lock sb)) (dslot (sb_lock sb)) = Some c" "unat c = length (ready st)" using read_head [OF rr e] by blast
  have zero: "c = 0 \<longleftrightarrow> ready st = []" using c(2) unat_eq_zero [of c] by auto
  note rd = read_relD [OF rr e]
  have cnt: "streambuf_cmd_cnt (sb_lock sb) = 0 \<longleftrightarrow> later st = []" using rd(5) unat_eq_zero [of "streambuf_cmd_cnt (sb_lock sb)"] by auto
  let ?f = "(streambuf_fifo sb)\<lparr>lock := True\<rparr>"
  show ?thesis
  proof (cases "later st = [] \<or> ready st \<noteq> []")
    case True
    then have "streambuf_call (Cmd_deq n) sb = Some ((0, []), (sb_lock sb)\<lparr>streambuf_fifo := ?f\<lparr>lock := False\<rparr>\<rparr>)"
      using c zero cnt by (auto simp: streambuf_cmd_deq_def Let_def)
    moreover have "stream_rel ((sb_lock sb)\<lparr>streambuf_fifo := ?f\<lparr>lock := False\<rparr>\<rparr>) st" using stream_rel_lock [OF assms(1)] stream_rel_fifo by (simp add: stream_rel_def)
    ultimately show ?thesis using True by (auto split: list.splits)
  next
    case False
    then obtain x y r where later: "later st = (x, y) # r" and ready: "ready st = []" by (cases "later st") auto
    have x: "4 \<le> length x" using assms later by (simp add: stream_rel_def stream_ok_def cmds_ok_def)
    have n: "unat n = length x" "n = of_nat (length x)" using assms(2) later ready by (auto intro: of_nat_unat_eq)
    let ?st = "st\<lparr>ready := y, later := r, old := old st @ x\<rparr>"
    have u: "unread st = x @ unread ?st" by (simp add: unread_def later ready)
    obtain f where f: "fifo2_deq ?f (Some (replicate (unat n) 0)) n False = Some (n, Some x, f)" "fifo2_ok f" "lock f" "fsize f = STREAMBUF_SIZE"
        "fifo2_fresh f = unread ?st" "fifo2_stale f = old ?st"
      using fifo2_deq_ok [of ?f n "Some (replicate (unat n) 0)" False] d n u by auto
    have auto: "\<not> streambuf_allow_auto_discard (sb_lock sb)" using assms by (simp add: stream_rel_def flag_rel_def sb_lock_def)
    have "n \<noteq> 0" using n x by auto
    then have call: "streambuf_call (Cmd_deq n) sb = Some ((n, x), (sb_lock sb)\<lparr>streambuf_fifo := f\<lparr>lock := False\<rparr>,
        dslot := if dslot (sb_lock sb) = MAX_STREAM_CMDS then 0 else dslot (sb_lock sb) + 1, streambuf_cmd_cnt := streambuf_cmd_cnt (sb_lock sb) - 1\<rparr>)"
      using c zero cnt False f(1,3) auto n(1) by (simp add: streambuf_cmd_deq_def Let_def)
    have len: "0 < length (later st)" using later by simp
    have "unat (if dslot (sb_lock sb) = MAX_STREAM_CMDS then 0 else dslot (sb_lock sb) + 1) = slot_of (unat (eslot sb)) (length r)"
      using unat_slot_next [of "dslot (sb_lock sb)"] slot_of_newer [OF d(5) len d(6)] rd(2) later by (simp add: sb_lock_def)
    moreover have "unat (streambuf_cmd_cnt (sb_lock sb) - 1) = length r" using unat_dec [of "streambuf_cmd_cnt (sb_lock sb)"] rd(5) later by simp
    moreover have cs: "counts st = 0 # counts ?st" using later ready by (simp add: counts_def)
    moreover have "slot_rel (unat (eslot sb)) (streambuf_slot_cnt sb) (counts ?st)"
      using assms(1) cs by (auto simp: stream_rel_def read_rel_def slot_rel_def from_end_Cons split: if_splits)
    moreover have "stream_ok ?st" using assms(1) marks_ok_next [of "marks st" "counts ?st"] cs later
      by (auto simp: stream_rel_def stream_ok_def kept_def cmds_ok_def)
    ultimately have "stream_rel ((sb_lock sb)\<lparr>streambuf_fifo := f\<lparr>lock := False\<rparr>,
        dslot := if dslot (sb_lock sb) = MAX_STREAM_CMDS then 0 else dslot (sb_lock sb) + 1, streambuf_cmd_cnt := streambuf_cmd_cnt (sb_lock sb) - 1\<rparr>) ?st"
      using assms(1) f by (simp add: stream_rel_def stream_rel_simps sb_lock_def)
    then show ?thesis using call later ready n(2) by simp
  qed
qed

lemma cmd_enq_refines:
  assumes "stream_rel sb st" "stream_pre (Cmd_enq x) st"
  shows "\<exists>sb'. streambuf_call (Cmd_enq x) sb = Some (fst (stream_spec (Cmd_enq x) st), sb') \<and> stream_rel sb' (snd (stream_spec (Cmd_enq x) st))"
proof -
  note d = stream_relD [OF assms(1)]
  let ?n = "of_nat (length x) :: u32" and ?e = "unat (eslot sb)" and ?f = "(streambuf_fifo sb)\<lparr>lock := True\<rparr>"
  let ?st = "st\<lparr>later := later st @ [(x, [])], marks := marks st @ [0]\<rparr>"
  have pre: "4 \<le> length x" "length (later st) < 8" "length (marks st) < 9" "length x + length (old st) + length (unread st) + 1 < stream_cap"
    using assms(2) by auto
  have n: "unat ?n = length x" using pre(4) by (intro unat_of_nat_cap) simp
  have "?n < of_nat (stream_cap - 1 - (length (old st) + length (unread st)))"
    unfolding word_less_nat_alt n using pre(4) by (subst unat_of_nat_cap) (auto simp: stream_cap_def)
  note free = stream_free [OF assms(1)] this
  obtain f where f: "fifo2_enq ?f x ?n = Some (?n, f)" "fifo2_ok f" "lock f" "fsize f = STREAMBUF_SIZE"
      "fifo2_stale f = old ?st" "fifo2_fresh f = unread ?st"
    using fifo2_enq_ok [of ?f ?n x] d pre n by (auto simp: stream_cap_def unread_def)
  have sr: "stale_rel sb (marks st)" and rr: "read_rel sb (counts st)" using assms(1) by (auto simp: stream_rel_def)
  note sd = stale_relD [OF sr]
  have "streambuf_cmd_cnt_stale sb \<noteq> MAX_STREAM_CMDS" using sd(6) pre(3) by auto
  then have call: "streambuf_call (Cmd_enq x) sb = Some ((1, []), (sb_lock sb)\<lparr>streambuf_fifo := f\<lparr>lock := False\<rparr>,
      eslot := if eslot sb = MAX_STREAM_CMDS then 0 else eslot sb + 1, streambuf_cmd_cnt := streambuf_cmd_cnt sb + 1,
      streambuf_cmd_cnt_stale := streambuf_cmd_cnt_stale sb + 1\<rparr>)"
    using free f(1,3) by (simp add: streambuf_cmd_enq_def Let_def) (simp add: sb_lock_def)
  have e: "unat (if eslot sb = MAX_STREAM_CMDS then 0 else eslot sb + 1) = Suc ?e mod 9" using d(5) by (rule unat_slot_next)
  have cs: "counts ?st = counts st @ [0]" by (simp add: counts_def)
  have "slot_rel (Suc ?e mod 9) (streambuf_slot_cnt_stale sb) (marks ?st)" using slot_rel_snoc [OF sd(3) d(5)] pre(3) by simp
  moreover have "slot_rel (Suc ?e mod 9) (streambuf_slot_cnt sb) (counts ?st)"
    unfolding cs using rr slot_rel_snoc [of ?e "streambuf_slot_cnt sb" "counts st"] d(5) pre(2) by (simp add: read_rel_def)
  moreover have "unat (sslot sb) = slot_of (Suc ?e mod 9) (length (marks st))"
    using sd(2,5) slot_of_next [OF d(5), of "length (marks st) - 1"] pre(3) by (cases "marks st") auto
  moreover have "unat (dslot sb) = slot_of (Suc ?e mod 9) (Suc (length (later st)))"
    using rr slot_of_next [OF d(5), of "length (later st)"] pre(2) by (simp add: read_rel_def)
  moreover have "unat (streambuf_cmd_cnt sb + 1) = Suc (length (later st))"
    using rr unat_add_lem [of "streambuf_cmd_cnt sb" 1] pre(2) by (simp add: read_rel_def)
  moreover have "unat (streambuf_cmd_cnt_stale sb + 1) = length (marks st)"
    using sd(2,6) unat_add_lem [of "streambuf_cmd_cnt_stale sb" 1] pre(3) by (cases "marks st") auto
  moreover have "stream_ok ?st" using assms(1) marks_ok_snoc [of "marks st" "counts st"] cs pre(1)
    by (auto simp: stream_rel_def stream_ok_def kept_def cmds_ok_def)
  ultimately have "stream_rel ((sb_lock sb)\<lparr>streambuf_fifo := f\<lparr>lock := False\<rparr>,
      eslot := if eslot sb = MAX_STREAM_CMDS then 0 else eslot sb + 1, streambuf_cmd_cnt := streambuf_cmd_cnt sb + 1,
      streambuf_cmd_cnt_stale := streambuf_cmd_cnt_stale sb + 1\<rparr>) ?st"
    using assms(1) f e by (simp add: stream_rel_def stream_rel_simps sb_lock_def)
  then show ?thesis using call by simp
qed

section \<open>Discarding\<close>

lemma stream_ok_dec:
  assumes "stream_ok st" "length (marks st) \<le> 9" "length (later st) \<le> 8" "n \<le> kept st" "n \<le> m" "m - n \<le> length (old st) - kept st"
    "td + n \<le> kept st" "tc + (m - n) \<le> length (old st) - kept st"
  shows "stream_ok (st\<lparr>old := drop m (old st), marks := dec_marks n (marks st), thaw_data := td, thaw_cmd := tc\<rparr>)"
proof -
  let ?st = "st\<lparr>old := drop m (old st), marks := dec_marks n (marks st), thaw_data := td, thaw_cmd := tc\<rparr>"
  have "n \<le> sum_list (marks st)" using assms(4) by (simp add: kept_def)
  then have "kept ?st = kept st - n" by (simp add: kept_def sum_list_dec_marks)
  moreover have "marks_ok (dec_marks n (marks st)) (counts st)"
    using assms(1-4) by (intro marks_ok_dec) (auto simp: stream_ok_def kept_def)
  moreover have "kept st - n \<le> length (old st) - m" using assms(1,4,5,6) by (auto simp: stream_ok_def)
  moreover have "td \<le> kept st - n" using assms(7) by simp
  moreover have "tc \<le> length (old st) - m - (kept st - n)" using assms(1,4,5,8) by (auto simp: stream_ok_def)
  ultimately show ?thesis using assms(1) by (simp add: stream_ok_def)
qed

lemma dec_stale_rel:
  assumes "stale_rel sb ts" "unat n \<le> sum_list ts" "lock (streambuf_fifo sb)"
  shows "\<exists>xs s c. streambuf_dec_cnt_stale n sb = Some (n, sb\<lparr>streambuf_slot_cnt_stale := xs, sslot := s, streambuf_cmd_cnt_stale := c\<rparr>)
    \<and> stale_rel (sb\<lparr>streambuf_slot_cnt_stale := xs, sslot := s, streambuf_cmd_cnt_stale := c\<rparr>) (dec_marks (unat n) ts)"
proof -
  from dec_stale_marks [OF assms(1,2)] obtain xs s c where
    "dec_stale n sb = Some (sb\<lparr>streambuf_slot_cnt_stale := xs, sslot := s, streambuf_cmd_cnt_stale := c\<rparr>)"
    "stale_rel (sb\<lparr>streambuf_slot_cnt_stale := xs, sslot := s, streambuf_cmd_cnt_stale := c\<rparr>) (dec_marks (unat n) ts)" by blast
  then show ?thesis using assms(3) by (intro exI [of _ xs] exI [of _ s] exI [of _ c]) (simp add: streambuf_dec_cnt_stale_def)
qed

lemma discard_refines:
  assumes "stream_rel sb st" "stream_pre (Sb_discard n data) st"
  shows "\<exists>sb'. streambuf_call (Sb_discard n data) sb = Some (fst (stream_spec (Sb_discard n data) st), sb')
    \<and> stream_rel sb' (snd (stream_spec (Sb_discard n data) st))"
proof -
  note d = stream_relD [OF assms(1)]
  have ok: "stream_ok st" using assms(1) by (simp add: stream_rel_def)
  let ?f = "(streambuf_fifo sb)\<lparr>lock := True\<rparr>" and ?m = "if data then unat n else 0"
  have bounds: "?m + thaw_data st \<le> kept st" "unat n - ?m + thaw_cmd st \<le> length (old st) - kept st" "kept st \<le> length (old st)"
    using assms(2) ok by (auto simp: stream_ok_def split: if_splits)
  have le: "unat n \<le> length (old st)" using bounds by (auto split: if_splits)
  show ?thesis
  proof (cases "frozen st")
    case False
    then have allow: "streambuf_allow_discard (sb_lock sb)" using assms(1) by (simp add: stream_rel_def flag_rel_def sb_lock_def)
    obtain f where f: "fifo2_discard ?f n = Some (n, f)" "fifo2_ok f" "lock f" "fsize f = STREAMBUF_SIZE"
        "fifo2_stale f = drop (unat n) (old st)" "fifo2_fresh f = unread st"
      using fifo2_discard_ok [of ?f n] d le by (auto simp: min_absorb1 of_nat_unat)
    let ?sb = "(sb_lock sb)\<lparr>streambuf_fifo := f\<rparr>" and ?k = "if data then n else 0"
    have "stale_rel ?sb (marks st)" using assms(1) by (simp add: stream_rel_def stale_rel_def sb_lock_def)
    moreover have "unat ?k \<le> sum_list (marks st)" using bounds(1) by (auto simp: kept_def)
    ultimately obtain xs s c where
      dec: "streambuf_dec_cnt_stale ?k ?sb = Some (?k, ?sb\<lparr>streambuf_slot_cnt_stale := xs, sslot := s, streambuf_cmd_cnt_stale := c\<rparr>)"
        "stale_rel (?sb\<lparr>streambuf_slot_cnt_stale := xs, sslot := s, streambuf_cmd_cnt_stale := c\<rparr>) (dec_marks (unat ?k) (marks st))"
      using dec_stale_rel [of ?sb "marks st" ?k] f(3) by auto
    have "streambuf_call (Sb_discard n data) sb = Some ((n, []), ?sb\<lparr>streambuf_fifo := f\<lparr>lock := False\<rparr>, streambuf_slot_cnt_stale := xs, sslot := s, streambuf_cmd_cnt_stale := c\<rparr>)"
      using allow f(1,3) dec(1) by (simp add: streambuf_discard_def Let_def)
    moreover have "stream_ok (st\<lparr>old := drop (unat n) (old st), marks := dec_marks ?m (marks st), thaw_data := thaw_data st, thaw_cmd := thaw_cmd st\<rparr>)"
      using ok d(6,7) bounds by (intro stream_ok_dec) (auto split: if_splits)
    moreover have "unat ?k = ?m" by simp
    ultimately show ?thesis using assms(1) f dec(2) False
      by (simp add: stream_rel_def stream_rel_simps sb_lock_def)
  next
    case True
    then have allow: "\<not> streambuf_allow_discard (sb_lock sb)" and thaw: "unat (discard_data_on_thaw sb) = thaw_data st" "unat (discard_cmd_on_thaw sb) = thaw_cmd st"
      using assms(1) by (simp_all add: stream_rel_def flag_rel_def sb_lock_def)
    have td: "discard_data_on_thaw sb = of_nat (thaw_data st)" "discard_cmd_on_thaw sb = of_nat (thaw_cmd st)"
      using thaw by (auto intro: of_nat_unat_eq)
    let ?a = "length (old st) - thaw_data st - thaw_cmd st"
    have sum: "thaw_data st + thaw_cmd st + unat n \<le> length (old st)" using bounds by (auto split: if_splits)
    have "of_nat (length (old st) + length (unread st)) - of_nat (length (unread st)) - of_nat (thaw_data st) - of_nat (thaw_cmd st) = (of_nat ?a :: u32)"
      using sum by (simp add: of_nat_diff)
    moreover have "\<not> (of_nat ?a :: u32) < n" unfolding word_less_nat_alt using sum d(8) by (subst unat_of_nat_cap) auto
    ultimately have call: "streambuf_call (Sb_discard n data) sb = Some ((n, []), if data
        then (sb_lock sb)\<lparr>streambuf_fifo := ?f\<lparr>lock := False\<rparr>, discard_data_on_thaw := discard_data_on_thaw sb + n\<rparr>
        else (sb_lock sb)\<lparr>streambuf_fifo := ?f\<lparr>lock := False\<rparr>, discard_cmd_on_thaw := discard_cmd_on_thaw sb + n\<rparr>)"
      using allow d(1,3,4) td by (simp add: streambuf_discard_def Let_def) (simp add: sb_lock_def)
    have "unat (discard_data_on_thaw sb + n) = thaw_data st + unat n" "unat (discard_cmd_on_thaw sb + n) = thaw_cmd st + unat n"
      using thaw sum d(8) unat_add_lem [of "discard_data_on_thaw sb" n] unat_add_lem [of "discard_cmd_on_thaw sb" n] by (auto simp: stream_cap_def)
    moreover have "stream_ok (snd (stream_spec (Sb_discard n data) st))"
      using ok bounds True by (auto simp: stream_ok_def kept_def)
    ultimately show ?thesis using call assms(1) True by (auto simp: stream_rel_def stream_rel_simps sb_lock_def)
  qed
qed

section \<open>Freezing, flushing and the state\<close>

lemma flush_refines:
  assumes "stream_rel sb st"
  shows "\<exists>sb'. streambuf_call Sb_flush sb = Some (fst (stream_spec Sb_flush st), sb') \<and> stream_rel sb' (snd (stream_spec Sb_flush st))"
proof -
  note d = stream_relD [OF assms]
  let ?f = "(streambuf_fifo sb)\<lparr>lock := True\<rparr>"
  obtain f where f: "fifo2_flush ?f = Some f" "fifo2_ok f" "lock f" "fsize f = STREAMBUF_SIZE" "fifo2_stale f = []" "fifo2_fresh f = []"
    using fifo2_flush_ok [of ?f] d by auto
  have "slot_rel 0 (replicate 9 0) [0]" by simp
  then show ?thesis using f assms
    by (simp add: streambuf_flush_def stream_rel_def stream_rel_simps stream_ok_def marks_ok_def kept_def cmds_ok_def
        counts_def unread_def Let_def sb_lock_def fifo2_lock_def)
qed

lemma freeze_refines:
  assumes "stream_rel sb st"
  shows "\<exists>sb'. streambuf_call Freeze sb = Some (fst (stream_spec Freeze st), sb') \<and> stream_rel sb' (snd (stream_spec Freeze st))"
proof -
  note d = stream_relD [OF assms]
  have "stream_ok (st\<lparr>frozen := True, closed := True\<rparr>)" using assms by (simp add: stream_rel_def stream_ok_def kept_def)
  then show ?thesis using d(1,3,4) assms
    by (simp add: streambuf_lock_state_def stream_rel_def stream_rel_simps Let_def sb_lock_def fifo2_lock_def)
qed

lemma thaw_refines:
  assumes "stream_rel sb st"
  shows "\<exists>sb'. streambuf_call Thaw sb = Some (fst (stream_spec Thaw st), sb') \<and> stream_rel sb' (snd (stream_spec Thaw st))"
proof -
  note d = stream_relD [OF assms]
  have ok: "stream_ok st" and thaw: "unat (discard_data_on_thaw sb) = thaw_data st" "unat (discard_cmd_on_thaw sb) = thaw_cmd st"
    using assms by (auto simp: stream_rel_def flag_rel_def)
  have bounds: "thaw_data st \<le> kept st" "thaw_data st + thaw_cmd st \<le> length (old st)" "thaw_cmd st \<le> length (old st) - kept st"
    using ok by (auto simp: stream_ok_def)
  let ?f = "(streambuf_fifo sb)\<lparr>lock := True\<rparr>" and ?t = "discard_data_on_thaw sb + discard_cmd_on_thaw sb"
  let ?sb = "(sb_lock sb)\<lparr>streambuf_allow_auto_discard := False, streambuf_allow_discard := True, streambuf_allow_writes := True\<rparr>"
  have t: "unat ?t = thaw_data st + thaw_cmd st"
    using unat_add_lem [of "discard_data_on_thaw sb" "discard_cmd_on_thaw sb"] thaw bounds(2) d(8) by (simp add: stream_cap_def)
  have "stale_rel ?sb (marks st)" using assms by (simp add: stream_rel_def stale_rel_def sb_lock_def)
  moreover have "unat (discard_data_on_thaw sb) \<le> sum_list (marks st)" using thaw bounds(1) by (simp add: kept_def)
  ultimately obtain xs s c where
    dec: "streambuf_dec_cnt_stale (discard_data_on_thaw sb) ?sb
        = Some (discard_data_on_thaw sb, ?sb\<lparr>streambuf_slot_cnt_stale := xs, sslot := s, streambuf_cmd_cnt_stale := c\<rparr>)"
      "stale_rel (?sb\<lparr>streambuf_slot_cnt_stale := xs, sslot := s, streambuf_cmd_cnt_stale := c\<rparr>) (dec_marks (thaw_data st) (marks st))"
    using dec_stale_rel [of ?sb "marks st" "discard_data_on_thaw sb"] thaw(1) by auto
  obtain k f where f: "fifo2_discard ?f ?t = Some (k, f)" "fifo2_ok f" "lock f" "fsize f = STREAMBUF_SIZE"
      "fifo2_stale f = drop (thaw_data st + thaw_cmd st) (old st)" "fifo2_fresh f = unread st"
    using fifo2_discard_ok [of ?f ?t] d t by auto
  have "streambuf_call Thaw sb = Some ((0, []), ?sb\<lparr>streambuf_fifo := f\<lparr>lock := False\<rparr>, discard_data_on_thaw := 0, discard_cmd_on_thaw := 0,
      streambuf_slot_cnt_stale := xs, sslot := s, streambuf_cmd_cnt_stale := c\<rparr>)"
    using dec(1) f(1,3) by (simp add: streambuf_lock_state_def Let_def sb_lock_def fifo2_lock_def)
  moreover have "stream_ok (st\<lparr>old := drop (thaw_data st + thaw_cmd st) (old st), marks := dec_marks (thaw_data st) (marks st), thaw_data := 0, thaw_cmd := 0\<rparr>)"
    using ok d(6,7) bounds by (intro stream_ok_dec) auto
  ultimately show ?thesis using assms f dec(2)
    by (simp add: stream_rel_def stream_rel_simps sb_lock_def stream_ok_def kept_def)
qed

lemma state_refines:
  assumes "stream_rel sb st" "x = Freebytes \<or> x = Data_usedbytes"
  shows "\<exists>sb'. streambuf_call x sb = Some (fst (stream_spec x st), sb') \<and> stream_rel sb' (snd (stream_spec x st))"
proof -
  note d = stream_relD [OF assms(1)]
  have rel: "stream_rel (sb\<lparr>streambuf_fifo := (streambuf_fifo sb)\<lparr>lock := False\<rparr>\<rparr>) st" using assms(1) by simp
  have rr: "read_rel sb (length (ready st) # map (\<lambda>(c, d). length d) (later st))" using assms(1) by (simp add: stream_rel_def counts_Cons)
  obtain c where c: "arr_get (streambuf_slot_cnt sb) (dslot sb) = Some c" "unat c = length (ready st)" using read_head [OF rr d(5)] by blast
  have "c = of_nat (length (ready st))" using c(2) by (rule of_nat_unat_eq)
  moreover have "streambuf_allow_writes sb = (\<not> closed st)" using assms(1) by (simp add: stream_rel_def flag_rel_def)
  ultimately show ?thesis using assms(2) rel c(1) stream_free [OF assms(1)]
    by (auto simp: streambuf_get_freebytes_def streambuf_get_data_usedbytes_def sb_lock_def fifo2_lock_def Let_def)
qed

lemma streambuf_call_refines:
  assumes "stream_rel sb st" "stream_pre x st"
  shows "\<exists>sb'. streambuf_call x sb = Some (fst (stream_spec x st), sb') \<and> stream_rel sb' (snd (stream_spec x st))"
proof (cases x)
  case (Feed xs)
  then show ?thesis using feed_refines [of sb st xs] assms by (simp only:)
next
  case (Data_deq mn mx)
  then show ?thesis using data_deq_refines [of sb st mn mx] assms by (simp only:)
next
  case (Cmd_enq c)
  then show ?thesis using cmd_enq_refines [of sb st c] assms by (simp only:)
next
  case Cmd_ready
  then show ?thesis using cmd_ready_refines [of sb st] assms by (simp only:)
next
  case (Cmd_deq n)
  then show ?thesis using cmd_deq_refines [of sb st n] assms by (simp only:)
next
  case (Sb_discard n data)
  then show ?thesis using discard_refines [of sb st n data] assms by (simp only:)
next
  case Sb_flush
  then show ?thesis using flush_refines [of sb st] assms by (simp only:)
next
  case Freeze
  then show ?thesis using freeze_refines [of sb st] assms by (simp only:)
next
  case Thaw
  then show ?thesis using thaw_refines [of sb st] assms by (simp only:)
qed (rule state_refines [OF assms(1)], simp)+

interpretation sb: call_refinement stream_rel streambuf_call stream_spec stream_pre
  by unfold_locales (rule streambuf_call_refines)

section \<open>The initial state\<close>

definition empty_stream :: stream where
  "empty_stream = \<lparr>old = [], ready = [], later = [], marks = [0], frozen = False, closed = False, thaw_data = 0, thaw_cmd = 0\<rparr>"

lemma streambuf_init_rel: "stream_rel (streambuf_init streambuf_globals) empty_stream"
proof -
  define buf :: bytes where buf: "buf = replicate (unat STREAMBUF_SIZE) 0"
  have len: "length buf = unat STREAMBUF_SIZE" unfolding buf by (rule length_replicate)
  let ?f = "fifo2_init (streambuf_fifo streambuf_globals) buf STREAMBUF_SIZE"
  have "queue_rel ?f (unat STREAMBUF_SIZE, [], [])" using len by (intro fifo2_init_rel) simp_all
  then have "ring_rel ?f empty_stream" by (simp add: queue_rel_def ring_rel_def fifo2_init_def empty_stream_def unread_def)
  moreover have "slot_rel 0 (replicate 9 0) [0]" by simp
  ultimately show ?thesis unfolding streambuf_init_def buf [symmetric]
    by (simp add: stream_rel_def stale_rel_def read_rel_def flag_rel_def streambuf_globals_def empty_stream_def
        stream_ok_def marks_ok_def kept_def counts_def cmds_ok_def)
qed

end
