(* ===== verification/Audio_Path.thy ===== *)
theory Audio_Path
  imports Audio_Control Audio_I2s Audio_Refine
begin

text \<open>
  The way of the samples: from the stream through the PCM decoder into the output ring, and from
  there to the I2S device, when nothing changes the sound (no transition, no gain, full volume).
\<close>

section \<open>The output ring\<close>

definition out_ring :: "player \<Rightarrow> mqueue" where
  "out_ring p = \<lparr>mq_buffer = decode_fifo_buf p, mq_fifo = da_fifo (decode_audio p)\<rparr>"

definition with_ring :: "player \<Rightarrow> mqueue \<Rightarrow> player" where
  "with_ring p mq = decode_audio_update (da_fifo_update (\<lambda>_. mq_fifo mq)) (p\<lparr>decode_fifo_buf := mq_buffer mq\<rparr>)"

text \<open>Nothing changes the samples.\<close>

definition plain :: "player \<Rightarrow> bool" where
  "plain p \<longleftrightarrow> transition_gain_step p = 0 \<and> \<not> crossfade_started p \<and> track_gain p = FIXED_ONE \<and> track_inversion p = (1, 1)
     \<and> output_channels p = 0 \<and> decode_transition_type p = TRANSITION_NONE"

definition ring_aligned :: "fifo \<Rightarrow> bool" where
  "ring_aligned f \<longleftrightarrow> wptr f < fsize f \<and> 8 dvd unat (rptr f) \<and> 8 dvd unat (wptr f) \<and> 8 dvd unat (fsize f)"

lemma with_ring_simps [simp]:
  "with_ring p (out_ring p) = p" "out_ring (with_ring p mq) = mq" "with_ring (with_ring p mq) mq' = with_ring p mq'"
  "plain (with_ring p mq) = plain p"
  by (simp_all add: with_ring_def out_ring_def plain_def)

lemma sample_bytes_simps [simp]: "sample_bytes [] = []" "sample_bytes (xs @ ys) = sample_bytes xs @ sample_bytes ys"
  by (simp_all add: sample_bytes_def)

lemma length_sample_bytes [simp]: "length (sample_bytes xs) = 4 * length xs"
  by (induction xs) (simp_all add: sample_bytes_def)

lemma drop_sample_bytes: "drop (4 * n) (sample_bytes xs) = sample_bytes (drop n xs)"
proof (induction xs arbitrary: n)
  case (Cons x xs)
  then show ?case by (cases n) (simp_all add: sample_bytes_def)
qed (simp add: sample_bytes_def)

lemma drop_samples: "4 dvd n \<Longrightarrow> sample_bytes (drop (n div 4) xs) = drop n (sample_bytes xs)"
  using drop_sample_bytes [of "n div 4" xs] by simp

lemma unat_less_induct: "(\<And>n :: u32. (\<And>m. unat m < unat n \<Longrightarrow> P m) \<Longrightarrow> P n) \<Longrightarrow> P n"
  by (rule measure_induct_rule [of unat]) blast

text \<open>Without transition, samples are written as the message queue writes bytes.\<close>

lemma output_loop_bytes:
  assumes "plain p" "ring_aligned (da_fifo (decode_audio p))" "lock (da_fifo (decode_audio p))"
    "length (decode_fifo_buf p) = unat (fsize (da_fifo (decode_audio p)))" "8 dvd unat n" "unat n \<le> 4 * length buffer"
  shows "output_loop buffer n p = map_option (with_ring p) (mqueue_write_buf (sample_bytes buffer) n (out_ring p))"
  using assms
proof (induction n arbitrary: p buffer rule: unat_less_induct)
  case (1 n)
  let ?F = "da_fifo (decode_audio p)" and ?c = "fsize (da_fifo (decode_audio p)) - wptr (da_fifo (decode_audio p))"
  define w where w_def: "w = (if n < ?c then n else ?c)"
  have w_eq: "(if ?c < n then ?c else n) = w" "(if n < ?c then n else ?c) = w" by (auto simp: w_def)
  show ?case
  proof (cases "n = 0")
    case True
    then show ?thesis by (subst output_loop.simps, subst mqueue_write_buf.simps) simp
  next
    case False
    define f where f: "f = (if wptr ?F + w = fsize ?F then ?F\<lparr>wptr := 0\<rparr> else ?F\<lparr>wptr := wptr ?F + w\<rparr>)"
    define b where b: "b = put_at (unat (wptr ?F)) (get_at 0 (unat w) (sample_bytes buffer)) (decode_fifo_buf p)"
    let ?mq = "\<lparr>mq_buffer = b, mq_fifo = f\<rparr>"
    have c: "unat ?c = unat (fsize ?F) - unat (wptr ?F)" and lt: "unat (wptr ?F) < unat (fsize ?F)"
      and al: "8 dvd unat (wptr ?F)" "8 dvd unat (fsize ?F)"
      using "1.prems"(2) by (auto simp: ring_aligned_def word_less_nat_alt unat_until_wrap)
    have w: "unat w \<le> unat n" "unat w \<le> unat ?c" "0 < unat w" using c lt False by (auto simp: w_def word_less_nat_alt unat_gt_0)
    have fits: "unat (wptr ?F) + unat w \<le> length (decode_fifo_buf p)" using w(2) c lt "1.prems"(4) by simp
    have sub: "unat (n - w) = unat n - unat w" using w(1) by (simp add: unat_sub word_le_nat_alt)
    have dvd: "8 dvd unat w" using al c "1.prems"(5) by (simp add: w_def dvd_diff_nat)
    have sum: "unat (wptr ?F + w) = unat (wptr ?F) + unat w" using w(2) c lt unsigned_less [of "fsize ?F", where 'a = nat] by (intro unat_add_lem [THEN iffD1]) simp
    have al': "ring_aligned f"
      using "1.prems"(2) sum dvd al w(2) c lt by (auto simp: ring_aligned_def f word_less_nat_alt word_unat_eq_iff)
    have len: "length b = unat (fsize f)" using fits "1.prems"(4,6) w(1) by (simp add: b f length_put_at)
    have buf: "sample_bytes (drop (unat w div 4) buffer) = drop (unat w) (sample_bytes buffer)"
      using dvd by (intro drop_samples) (auto elim: dvd_trans [rotated])
    have mem: "memcpy (decode_fifo_buf p) (unat (wptr ?F)) (sample_bytes buffer) 0 (unat w) = Some b"
      using fits "1.prems"(6) w(1) by (simp add: b)
    have inc: "fifo_wptr_incby ?F w = Some f" using "1.prems"(3) by (simp add: f fifo_wptr_incby_def)
    have wrap: "fifo_bytes_until_wptr_wrap ?F = Some ?c" using "1.prems"(3) by (simp add: fifo_bytes_until_wptr_wrap_def)
    have "output_loop buffer n p = output_loop (drop (unat w div 4) buffer) (n - w) (with_ring p ?mq)"
      using "1.prems"(1) False mem inc wrap
      by (subst output_loop.simps) (simp add: w_eq plain_def with_ring_def Let_def)
    also have "\<dots> = map_option (with_ring (with_ring p ?mq)) (mqueue_write_buf (sample_bytes (drop (unat w div 4) buffer)) (n - w) (out_ring (with_ring p ?mq)))"
    proof (rule "1.IH")
      show "unat (n - w) < unat n" "8 dvd unat (n - w)" "unat (n - w) \<le> 4 * length (drop (unat w div 4) buffer)"
        using w sub dvd "1.prems"(5,6) by (auto simp: dvd_diff_nat)
    qed (use "1.prems"(1,3) al' len in \<open>simp_all add: with_ring_def plain_def f\<close>)
    also have "\<dots> = map_option (with_ring p) (mqueue_write_buf (drop (unat w) (sample_bytes buffer)) (n - w) ?mq)"
    proof -
      have "with_ring (with_ring p ?mq) = with_ring p" by (rule ext) simp
      then show ?thesis using buf by simp
    qed
    also have "mqueue_write_buf (drop (unat w) (sample_bytes buffer)) (n - w) ?mq = mqueue_write_buf (sample_bytes buffer) n (out_ring p)"
      using False mem inc wrap by (subst (2) mqueue_write_buf.simps) (simp add: out_ring_def w_eq Let_def)
    finally show ?thesis .
  qed
qed

text \<open>The ring as a queue: its bytes, in whole stereo samples.\<close>

definition ring_ok :: "mqueue \<Rightarrow> bool" where
  "ring_ok mq \<longleftrightarrow> mq_ok mq \<and> mq_size mq = unat DECODE_FIFO_SIZE \<and> 8 dvd unat (rptr (mq_fifo mq)) \<and> 8 dvd length (mq_held mq)"

lemma ring_ok_aligned:
  assumes "ring_ok mq"
  shows "ring_aligned (mq_fifo mq)"
proof -
  note d = fifo2_okD [OF assms [unfolded ring_ok_def mq_ok_def, THEN conjunct1], simplified]
  have "length (mq_held mq) = ring_dist (mq_size mq) (unat (rptr (mq_fifo mq))) (unat (wptr (mq_fifo mq)))"
    using length_fifo2_fresh [of "mq_ring mq"] assms by (simp add: ring_ok_def mq_ok_def mq_held_def mq_size_def)
  then have "unat (wptr (mq_fifo mq)) = (unat (rptr (mq_fifo mq)) + length (mq_held mq)) mod mq_size mq"
    using ring_dist_reaches d(2,3) by (simp add: mq_size_def)
  moreover have "8 dvd mq_size mq" using assms by (simp add: ring_ok_def)
  ultimately have "8 dvd unat (wptr (mq_fifo mq))" using assms by (simp add: ring_ok_def dvd_mod)
  then show ?thesis using assms d(3) by (simp add: ring_aligned_def ring_ok_def mq_size_def word_less_nat_alt)
qed

lemma mq_lock_simps [simp]:
  "mq_held (mq\<lparr>mq_fifo := (mq_fifo mq)\<lparr>lock := b\<rparr>\<rparr>) = mq_held mq" "mq_ok (mq\<lparr>mq_fifo := (mq_fifo mq)\<lparr>lock := b\<rparr>\<rparr>) = mq_ok mq"
  "mq_size (mq\<lparr>mq_fifo := (mq_fifo mq)\<lparr>lock := b\<rparr>\<rparr>) = mq_size mq" "ring_ok (mq\<lparr>mq_fifo := (mq_fifo mq)\<lparr>lock := b\<rparr>\<rparr>) = ring_ok mq"
  by (simp_all add: mq_held_def mq_ok_def mq_size_def ring_ok_def mq_ring_def fifo2_fresh_def fifo2_ok_def)

lemma length_sample_take: "take (8 * n) (sample_bytes xs) = sample_bytes (take (2 * n) xs)"
proof -
  have "sample_bytes xs = sample_bytes (take (2 * n) xs) @ sample_bytes (drop (2 * n) xs)"
    unfolding sample_bytes_simps(2) [symmetric] append_take_drop_id ..
  then have "take (8 * n) (sample_bytes xs) = take (8 * n) (sample_bytes (take (2 * n) xs)) @ take (8 * n - 4 * min (length xs) (2 * n)) (sample_bytes (drop (2 * n) xs))"
    by (metis length_sample_bytes length_take take_append)
  then show ?thesis by (cases "2 * n \<le> length xs") (simp_all add: min_def)
qed

text \<open>The first buffer of a track without transition.\<close>

definition mark_start :: "u32 \<Rightarrow> player \<Rightarrow> player" where
  "mark_start rate p = (if decode_first_buffer p
     then decode_audio_update (\<lambda>da. da\<lparr>track_start_point := wptr (da_fifo da), track_copyright := streambuf_is_copyright,
       track_sample_rate := rate, check_start_point := True\<rparr>) (p\<lparr>crossfade_started := False, decode_first_buffer := False\<rparr>)
     else p)"

lemma output_first_plain: "plain p \<Longrightarrow> (if decode_first_buffer p then output_first_buffer rate p else Some p) = Some (mark_start rate p)"
  by (simp add: output_first_buffer_def mark_start_def plain_def Let_def)

lemma decode_output_plain:
  assumes "plain p" "ring_ok (out_ring p)" "n \<noteq> 0" "2 * unat n \<le> length buffer"
    "8 * unat n + length (mq_held (out_ring p)) < unat DECODE_FIFO_SIZE"
  shows "\<exists>mq. decode_output_samples buffer n rate p = Some (with_ring (mark_start rate p) mq) \<and> ring_ok mq \<and> \<not> lock (mq_fifo mq)
    \<and> mq_held mq = mq_held (out_ring p) @ sample_bytes (take (2 * unat n) buffer)"
proof -
  let ?p = "mark_start rate (decode_audio_lock p)" and ?b = "SAMPLES_TO_BYTES n"
  have b: "unat ?b = 8 * unat n"
    using assms(5) unat_mult_lem [of 8 n] by (simp add: SAMPLES_TO_BYTES_def)
  have ring: "out_ring ?p = (out_ring p)\<lparr>mq_fifo := (mq_fifo (out_ring p))\<lparr>lock := True\<rparr>\<rparr>"
    by (simp add: out_ring_def mark_start_def decode_audio_lock_def fifo_lock_def)
  have ok: "ring_ok (out_ring ?p)" "mq_held (out_ring ?p) = mq_held (out_ring p)" "lock (mq_fifo (out_ring ?p))"
    unfolding ring using assms(2) by simp_all
  obtain mq where mq: "mqueue_write_buf (sample_bytes buffer) ?b (out_ring ?p) = Some mq" "mq_ok mq" "lock (mq_fifo mq)"
    "mq_size mq = mq_size (out_ring ?p)" "rptr (mq_fifo mq) = rptr (mq_fifo (out_ring ?p))" "mq_held mq = mq_held (out_ring p) @ take (8 * unat n) (sample_bytes buffer)"
    using mqueue_write_buf_ok [of "out_ring ?p" ?b "sample_bytes buffer"] ok assms(4,5) b by (auto simp: ring_ok_def)
  have plain: "plain ?p" using assms(1) by (simp add: mark_start_def plain_def decode_audio_lock_def)
  have "output_loop buffer ?b ?p = Some (with_ring ?p mq)"
    using output_loop_bytes [OF plain, of ?b buffer] ring_ok_aligned [OF ok(1)] ok b mq(1) assms(4) fifo2_okD(5) [of "mq_ring (out_ring ?p)"]
    by (simp add: out_ring_def ring_ok_def mq_ok_def)
  moreover have "(if decode_first_buffer (decode_audio_lock p) then output_first_buffer rate (decode_audio_lock p) else Some (decode_audio_lock p)) = Some ?p"
    using assms(1) by (intro output_first_plain) (simp add: plain_def decode_audio_lock_def)
  ultimately have "decode_output_samples buffer n rate p = decode_audio_unlock (with_ring ?p mq)"
    unfolding decode_output_samples_def Let_def using assms(3) plain by (simp add: plain_def decode_apply_track_gain_def)
  also have "\<dots> = Some (with_ring (mark_start rate p) (mq\<lparr>mq_fifo := (mq_fifo mq)\<lparr>lock := False\<rparr>\<rparr>))"
    using mq(3) by (cases p) (simp add: decode_audio_unlock_def with_ring_def fifo_unlock_def mark_start_def decode_audio_lock_def fifo_lock_def)
  finally show ?thesis using mq ok(1) assms(2,4) length_sample_take [of "unat n" buffer]
    by (intro exI [of _ "mq\<lparr>mq_fifo := (mq_fifo mq)\<lparr>lock := False\<rparr>\<rparr>"]) (auto simp: ring_ok_def min_absorb2)
qed

section \<open>The PCM decoder\<close>

text \<open>The samples of 16 bit little endian bytes.\<close>

fun pcm16 :: "bytes \<Rightarrow> sample list" where
  "pcm16 (a # b # bs) = (push_bit 16 (ucast a) OR push_bit 24 (ucast b)) # pcm16 bs"
| "pcm16 _ = []"

lemma length_pcm16 [simp]: "length (pcm16 bs) = length bs div 2"
  by (induction bs rule: pcm16.induct) auto

lemma pcm16_append: "even (length xs) \<Longrightarrow> pcm16 (xs @ ys) = pcm16 xs @ pcm16 ys"
  by (induction xs rule: pcm16.induct) auto

lemma put_at_none [simp]: "put_at 0 [] b = b"
  by (simp add: put_at_def)

lemma put_at_step: "i < length b \<Longrightarrow> put_at i (x # xs) b = put_at (Suc i) xs (b[i := x])"
  by (simp add: put_at_def take_Suc_conv_app_nth)

lemma pcm_loop_16:
  "rp + 2 * n \<le> length rbuf \<Longrightarrow> wp + n \<le> length b \<Longrightarrow>
   pcm_loop pcm_read16bitLE 2 True rbuf n rp wp b = Some (rp + 2 * n, put_at wp (pcm16 (take (2 * n) (drop rp rbuf))) b)"
proof (induction n arbitrary: rp wp b)
  case (Suc n)
  have "rp < length rbuf" "Suc rp < length rbuf" using Suc.prems by auto
  then have d: "drop rp rbuf = rbuf ! rp # rbuf ! Suc rp # drop (Suc (Suc rp)) rbuf" by (simp add: Cons_nth_drop_Suc)
  show ?case using Suc.IH [of "rp + 2" "wp + 1"] Suc.prems by (simp add: d store_sample_def put_at_step)
qed (simp add: put_at_def)

definition pcm_ok :: "decode_pcm \<Rightarrow> bytes \<Rightarrow> bool" where
  "pcm_ok self l \<longleftrightarrow> length (read_buffer self) = 4096 \<and> length (write_buffer self) = 8192 \<and> unat (leftover self) = length l
     \<and> length l < 4 \<and> take (length l) (read_buffer self) = l
     \<and> sample_size self = 1 \<and> stereo self \<and> \<not> big_endian self \<and> pcm_sample_rate self = 44100"

text \<open>A stream of data only, all of it unread.\<close>

definition data_stream :: "bytes \<Rightarrow> stream" where
  "data_stream q = \<lparr>old = [], ready = q, later = [], marks = [length q], frozen = False, closed = False, thaw_data = 0, thaw_cmd = 0\<rparr>"

lemma and_not_1: "unat ((w :: u32) AND NOT 1) = 2 * (unat w div 2)"
proof -
  have "w AND NOT (mask k) = push_bit k (drop_bit k w)" for k
    by (rule bit_word_eqI) (auto simp: bit_simps)
  from this [of 1] have "w AND NOT 1 = w div 2 * 2" by (simp add: drop_bit_Suc push_bit_Suc)
  moreover have "unat (w div 2 * 2) = unat (w div 2) * unat (2 :: u32)"
    using unsigned_less [of w, where 'a = nat] by (intro unat_mult_lem [THEN iffD1]) (simp add: unat_div)
  ultimately show ?thesis by (simp add: unat_div)
qed

lemma streaming_pop: "pop_stale sb = Some sb' \<Longrightarrow> streambuf_streaming sb' = streambuf_streaming sb"
  by (rule pop_stale.raw_induct [where P = "\<lambda>x y. streambuf_streaming y = streambuf_streaming x"])
    (force simp: Let_def split: if_splits Option.bind_splits)

lemma streaming_dec: "dec_stale n sb = Some sb' \<Longrightarrow> streambuf_streaming sb' = streambuf_streaming sb"
  by (rule dec_stale.raw_induct [where P = "\<lambda>n x y. streambuf_streaming y = streambuf_streaming x"])
    (force simp: Let_def dest!: streaming_pop split: if_splits Option.bind_splits)

lemma streaming_discard: "streambuf_discard n data sb = Some (k, sb') \<Longrightarrow> streambuf_streaming sb' = streambuf_streaming sb"
  by (auto simp: streambuf_discard_def streambuf_dec_cnt_stale_def sb_lock_def sb_unlock_def Let_def dest!: streaming_dec
      split: if_splits Option.bind_splits)

lemma streaming_feed: "streambuf_feed xs n sb = Some sb' \<Longrightarrow> streambuf_streaming sb \<Longrightarrow> streambuf_streaming sb'"
  by (auto simp: streambuf_feed_def streambuf_data_enq_def sb_lock_def sb_unlock_def Let_def split: if_splits Option.bind_splits)

text \<open>Reading and discarding what is ready.\<close>

lemma read_discard:
  assumes "stream_rel sb (data_stream q)" "length buf = unat mx" "n = min (unat mx) (length q)"
  shows "\<exists>sb1 sb2 k. streambuf_read buf 0 mx sb = Some ((of_nat n, take n q @ drop n buf, streambuf_streaming sb), sb1)
    \<and> streambuf_discard (of_nat n) True sb1 = Some (k, sb2) \<and> stream_rel sb2 (data_stream (drop n q))
    \<and> streambuf_streaming sb2 = streambuf_streaming sb \<and> unat (of_nat n :: u32) = n
    \<and> (n = 0 \<longrightarrow> stream_rel sb1 (data_stream q)) \<and> streambuf_streaming sb1 = streambuf_streaming sb"
proof -
  have n: "read_size 0 mx (length q) = n" using assms(3) by (simp add: read_size_def)
  obtain sb1 where sb1: "streambuf_data_deq buf 0 mx sb = Some ((of_nat n, take n q @ drop n buf, streambuf_streaming sb), sb1)"
    "stream_rel sb1 ((data_stream q)\<lparr>ready := drop n q, old := take n q\<rparr>)" "streambuf_streaming sb1 = streambuf_streaming sb"
    using data_deq_into [OF assms(1,2), of 0] n by (auto simp: data_stream_def)
  have small: "unat (of_nat n :: u32) = n"
    using stream_relD(8) [OF assms(1)] assms(3) by (intro unat_of_nat_cap) (simp add: data_stream_def unread_def)
  have "stream_pre (Sb_discard (of_nat n) True) ((data_stream q)\<lparr>ready := drop n q, old := take n q\<rparr>)"
    using small assms(3) by (simp add: data_stream_def kept_def counts_def)
  from discard_refines [OF sb1(2) this] obtain sb2 k where sb2: "streambuf_discard (of_nat n) True sb1 = Some (k, sb2)"
    "stream_rel sb2 (data_stream (drop n q))"
    using small assms(3) by (auto simp: data_stream_def split: Option.bind_splits)
  then show ?thesis using sb1 small streaming_discard [OF sb2(1)] by (auto simp: streambuf_read_def data_stream_def)
qed

text \<open>Playing and decoding, with \<open>q\<close> in the stream and the samples of \<open>r\<close> in the ring.\<close>

definition play_ok :: "decode_audio \<Rightarrow> bool" where
  "play_ok da \<longleftrightarrow> da_state da AND DECODE_STATE_RUNNING \<noteq> 0 \<and> da_state da AND DECODE_STATE_AUTOSTART = 0
     \<and> add_silence_ms da = 0 \<and> skip_ahead_bytes da = 0 \<and> samples_to_fade da = 0 \<and> lgain da = FIXED_ONE \<and> rgain da = FIXED_ONE"

definition path_rel :: "player \<Rightarrow> bytes \<Rightarrow> bytes \<Rightarrow> bool" where
  "path_rel p q r \<longleftrightarrow> plain p \<and> ring_ok (out_ring p) \<and> play_ok (decode_audio p) \<and> current_decoder_state p = DECODE_STATE_RUNNING
     \<and> (r = [] \<and> decode_first_buffer p \<or> track_sample_rate (decode_audio p) \<noteq> 0) \<and> streambuf_streaming (sbuf p)
     \<and> stream_rel (sbuf p) (data_stream q) \<and> mq_held (out_ring p) = sample_bytes (pcm16 r) \<and> 4 dvd length r"

lemma path_rel_output:
  assumes "path_rel p q r" "stream_rel sb (data_stream q')" "streambuf_streaming sb" "k \<noteq> 0" "2 * unat k \<le> length b"
    "8 * unat k + 2 * length r < unat DECODE_FIFO_SIZE" "take (2 * unat k) b = pcm16 x" "length x = 4 * unat k"
  shows "\<exists>p'. decode_output_samples b k 44100 (p\<lparr>sbuf := sb\<rparr>) = Some p' \<and> path_rel p' q' (r @ x)"
proof -
  let ?p = "p\<lparr>sbuf := sb\<rparr>"
  have ring: "out_ring ?p = out_ring p" and plain: "plain ?p" using assms(1) by (simp_all add: out_ring_def path_rel_def plain_def)
  have len: "length (mq_held (out_ring p)) = 2 * length r" using assms(1) by (auto simp: path_rel_def)
  obtain mq where mq: "decode_output_samples b k 44100 ?p = Some (with_ring (mark_start 44100 ?p) mq)" "ring_ok mq"
    "mq_held mq = mq_held (out_ring p) @ sample_bytes (pcm16 x)"
    using decode_output_plain [OF plain, of k b 44100] ring assms len by (auto simp: path_rel_def)
  have "pcm16 (r @ x) = pcm16 r @ pcm16 x" using assms(1) by (intro pcm16_append) (auto simp: path_rel_def)
  moreover have "plain (mark_start 44100 ?p)" "play_ok (decode_audio (with_ring (mark_start 44100 ?p) mq))"
    using assms(1) by (simp_all add: mark_start_def path_rel_def plain_def play_ok_def with_ring_def)
  ultimately have "path_rel (with_ring (mark_start 44100 ?p) mq) q' (r @ x)"
    using assms(1-3,8) mq(2,3) by (simp add: path_rel_def) (auto simp: with_ring_def mark_start_def)
  then show ?thesis using mq(1) by blast
qed

lemma pcm_callback:
  assumes "pcm_ok self l" "path_rel p q r" "q \<noteq> []" "32768 + 2 * length r < unat DECODE_FIFO_SIZE"
    and t: "n = min (4096 - length l) (length q)" "t = l @ take n q" "m = 4 * (length t div 4)"
  shows "\<exists>self' p'. decode_pcm_callback self p = Some (True, self', p') \<and> pcm_ok self' (drop m t) \<and> path_rel p' (drop n q) (r @ take m t)"
proof -
  note s = assms(1) [unfolded pcm_ok_def]
  let ?L = "leftover self" and ?rb = "t @ drop (length t) (read_buffer self)"
  have L: "unat (BLOCKSIZE - ?L) = 4096 - length l" using s by (subst unat_sub) (auto simp: word_le_nat_alt)
  have n0: "0 < n" using assms(3) t(1) s by simp
  have lt: "length t = length l + n" "length t \<le> 4096" using t(1,2) s by auto
  have rel: "stream_rel (sbuf p) (data_stream q)" and streaming: "streambuf_streaming (sbuf p)" using assms(2) by (simp_all add: path_rel_def)
  obtain sb1 sb2 k where sb: "streambuf_read (drop (length l) (read_buffer self)) 0 (BLOCKSIZE - ?L) (sbuf p)
      = Some ((of_nat n, take n q @ drop n (drop (length l) (read_buffer self)), True), sb1)"
    "streambuf_discard (of_nat n) True sb1 = Some (k, sb2)" "stream_rel sb2 (data_stream (drop n q))" "streambuf_streaming sb2"
    "unat (of_nat n :: u32) = n"
    using read_discard [OF rel, of "drop (length l) (read_buffer self)" "BLOCKSIZE - ?L" n] s L t(1) streaming by auto
  have rb: "take (length l) (read_buffer self) @ take n q @ drop n (drop (length l) (read_buffer self)) = ?rb"
    using s lt by (simp add: t(2) add.commute)
  let ?sz = "of_nat n + ?L" and ?k = "length t div 4"
  have sz: "unat ?sz = length t" using sb(5) s lt by (subst unat_add_lem [THEN iffD1]) simp_all
  define num where num_def: "num = ?sz div 2 AND NOT 1"
  have num_eq: "?sz div 2 AND - 2 = num" by (simp add: num_def)
  have num: "unat num = 2 * ?k" by (simp only: num_def and_not_1 unat_div sz) (simp add: div_mult2_eq [symmetric])
  have loop: "pcm_loop pcm_read16bitLE 2 True ?rb (2 * ?k) 0 0 (write_buffer self)
      = Some (m, put_at 0 (pcm16 (take m t)) (write_buffer self))"
    using pcm_loop_16 [of 0 "2 * ?k" ?rb 0 "write_buffer self"] s lt t(3) by simp
  let ?wb = "put_at 0 (pcm16 (take m t)) (write_buffer self)" and ?p = "p\<lparr>sbuf := sb2\<rparr>"
  have m: "m \<le> length t" "length (pcm16 (take m t)) = 2 * ?k" using t(3) by simp_all
  have out: "\<exists>p'. (if num \<noteq> 0 then decode_output_samples ?wb (num div 2) 44100 ?p else Some ?p) = Some p' \<and> path_rel p' (drop n q) (r @ take m t)"
  proof (cases "?k = 0")
    case True
    then have "num = 0" using num by (simp add: unat_eq_0 [symmetric])
    moreover have "path_rel ?p (drop n q) r" using assms(2) sb(3,4) by (simp add: path_rel_def plain_def out_ring_def)
    ultimately show ?thesis using True t(3) by simp
  next
    case False
    then have "num \<noteq> 0" using num by (metis mult_is_0 unat_0 zero_neq_numeral)
    moreover have k: "unat (num div 2) = ?k" by (simp add: unat_div num)
    moreover have "num div 2 \<noteq> 0" using k False by (metis unat_0)
    ultimately show ?thesis using path_rel_output [OF assms(2) sb(3,4), of "num div 2" ?wb "take m t"] s lt m t(3) assms(4)
      by (simp add: put_at_def)
  qed
  then obtain p' where p': "(if num \<noteq> 0 then decode_output_samples ?wb (num div 2) 44100 ?p else Some ?p) = Some p'"
    "path_rel p' (drop n q) (r @ take m t)" by blast
  have state: "current_decoder_state p AND NOT DECODE_STATE_UNDERRUN = current_decoder_state p" using assms(2) by (simp add: path_rel_def)
  have left: "unat (?sz - of_nat m) = length t - m"
    using m(1) sz lt by (subst unat_sub) (simp_all add: word_le_nat_alt unsigned_of_nat take_bit_nat_eq_self)
  have nz: "(of_nat n :: u32) \<noteq> 0" using n0 sb(5) by (metis less_irrefl unat_0)
  have mem: "memcpy ?rb 0 ?rb m (length t - m) = Some (put_at 0 (drop m t) ?rb)"
    using m(1) lt s by (simp add: get_at_def)
  let ?self = "self\<lparr>read_buffer := if ?sz - of_nat m \<noteq> 0 then put_at 0 (drop m t) ?rb else ?rb, write_buffer := ?wb, leftover := ?sz - of_nat m\<rparr>"
  have call: "decode_pcm_callback self p = Some (True, ?self, p')"
    unfolding decode_pcm_callback_def
    using s sb(1,2) nz rb loop num num_eq p'(1) state left mem
    by (cases "num = 0"; cases self) (simp_all add: Let_def pcm_read_funcs_def pcm_sample_widths_def)
  moreover have "pcm_ok ?self (drop m t)"
    using s left lt m t(3) by (auto simp: pcm_ok_def put_at_def unat_eq_0 [symmetric])
  ultimately show ?thesis using p'(2) by blast
qed

section \<open>A turn of the decoder thread\<close>

definition thread_rel :: "decode_pcm audio \<Rightarrow> bytes \<Rightarrow> bytes \<Rightarrow> bytes \<Rightarrow> bool" where
  "thread_rel a q l r \<longleftrightarrow> path_rel (player a) q r \<and> (\<exists>self. decoder_data a = Some self \<and> pcm_ok self l)
     \<and> (\<exists>rbuf wbuf. decoder a = Some (pcm_module rbuf wbuf)) \<and> mq_ok (decode_mqueue a) \<and> mq_held (decode_mqueue a) = []"

lemma stream_state:
  assumes "stream_rel sb (data_stream q)"
  shows "\<exists>sb'. streambuf_get_data_usedbytes sb = Some (of_nat (length q), sb') \<and> stream_rel sb' (data_stream q) \<and> streambuf_streaming sb' = streambuf_streaming sb"
    "\<exists>sb'. streambuf_cmd_ready sb = Some (0, sb') \<and> stream_rel sb' (data_stream q) \<and> streambuf_streaming sb' = streambuf_streaming sb"
proof -
  have keep: "streambuf_get_data_usedbytes sb = Some (n, sb') \<Longrightarrow> streambuf_streaming sb' = streambuf_streaming sb"
    "streambuf_cmd_ready sb = Some (n, sb') \<Longrightarrow> streambuf_streaming sb' = streambuf_streaming sb" for n sb'
    by (auto simp: streambuf_get_data_usedbytes_def streambuf_cmd_ready_def sb_lock_def sb_unlock_def Let_def split: if_splits Option.bind_splits)
  show "\<exists>sb'. streambuf_get_data_usedbytes sb = Some (of_nat (length q), sb') \<and> stream_rel sb' (data_stream q) \<and> streambuf_streaming sb' = streambuf_streaming sb"
    using state_refines [OF assms, of Data_usedbytes] keep(1) by (auto simp: data_stream_def split: Option.bind_splits)
  show "\<exists>sb'. streambuf_cmd_ready sb = Some (0, sb') \<and> stream_rel sb' (data_stream q) \<and> streambuf_streaming sb' = streambuf_streaming sb"
    using cmd_ready_refines [OF assms] keep(2) by (auto simp: data_stream_def split: Option.bind_splits)
qed

lemma path_rel_sbuf:
  "path_rel p q r \<Longrightarrow> stream_rel sb (data_stream q') \<Longrightarrow> streambuf_streaming sb \<Longrightarrow> path_rel (p\<lparr>sbuf := sb\<rparr>) q' r"
  by (simp add: path_rel_def plain_def out_ring_def)

lemma out_ring_lock: "out_ring (decode_audio_update (da_fifo_update (\<lambda>f. f\<lparr>lock := b\<rparr>)) p) = (out_ring p)\<lparr>mq_fifo := (mq_fifo (out_ring p))\<lparr>lock := b\<rparr>\<rparr>"
  by (simp add: out_ring_def)

lemma path_rel_lock: "path_rel (decode_audio_update (da_fifo_update (\<lambda>f. f\<lparr>lock := b\<rparr>)) p) q r = path_rel p q r"
  unfolding path_rel_def out_ring_lock by (simp add: plain_def play_ok_def)

lemma timer_output_pcm:
  assumes "path_rel p q r"
  shows "\<exists>delay p'. timer_output BLOCKSIZE p = Some ((32768 + 2 * length r + 1 < unat DECODE_FIFO_SIZE, delay), p') \<and> path_rel p' q r"
proof -
  let ?p = "decode_audio_lock p" and ?q = "decode_audio_update (da_fifo_update (\<lambda>f. f\<lparr>lock := False\<rparr>)) p"
  have ring: "out_ring ?p = (out_ring p)\<lparr>mq_fifo := (mq_fifo (out_ring p))\<lparr>lock := True\<rparr>\<rparr>"
    by (simp add: out_ring_def decode_audio_lock_def fifo_lock_def)
  have ok: "mq_ok (out_ring ?p)" "mq_size (out_ring ?p) = unat DECODE_FIFO_SIZE" "length (mq_held (out_ring ?p)) = 2 * length r"
    unfolding ring using assms by (auto simp: path_rel_def ring_ok_def)
  have size: "2 * length r < unat DECODE_FIFO_SIZE"
    using length_fifo2(2) [of "mq_ring (out_ring ?p)"] ok by (simp add: mq_ok_def mq_held_def mq_size_def)
  have free: "fifo_bytes_free (da_fifo (decode_audio ?p)) = Some (of_nat (unat DECODE_FIFO_SIZE - 1 - 2 * length r))"
    using mq_free [of "out_ring ?p"] ok by (simp add: out_ring_def decode_audio_lock_def fifo_lock_def)
  have unlock: "decode_audio_unlock ?p = Some ?q"
    by (cases p) (simp add: decode_audio_unlock_def decode_audio_lock_def fifo_unlock_def fifo_lock_def)
  define k where k: "k = unat DECODE_FIFO_SIZE - 1 - 2 * length r"
  have "unat (of_nat k :: u32) = k" by (rule unat_cap) (simp add: k)
  then have less: "SAMPLES_TO_BYTES BLOCKSIZE < of_nat k \<longleftrightarrow> 32768 + 2 * length r + 1 < unat DECODE_FIFO_SIZE"
    using size unfolding word_less_nat_alt k by (simp add: SAMPLES_TO_BYTES_def less_diff_conv2) linarith
  have rate: "\<not> 32768 + 2 * length r + 1 < unat DECODE_FIFO_SIZE \<Longrightarrow> track_sample_rate (decode_audio ?p) \<noteq> 0"
    using assms by (auto simp: path_rel_def decode_audio_lock_def)
  have "path_rel ?q q r" using assms by (simp only: path_rel_lock)
  then show ?thesis using free [folded k] unlock less rate
    by (cases "32768 + 2 * length r + 1 < unat DECODE_FIFO_SIZE") (auto simp: timer_output_def Let_def simp del: of_nat_diff)
qed

text \<open>No command arrives while the thread waits.\<close>

definition no_command :: "mqueue \<Rightarrow> int \<times> mqueue" where
  "no_command mq = (ETIMEDOUT, mq)"

lemma no_request:
  assumes "mq_ok mq" "mq_held mq = []"
  shows "\<exists>mq'. mqueue_read_request no_command delay mq = Some (0, mq') \<and> mq_ok mq' \<and> mq_held mq' = []"
proof -
  let ?mq = "mq\<lparr>mq_fifo := (mq_fifo mq)\<lparr>lock := True\<rparr>\<rparr>"
  have "fifo_bytes_used (mq_fifo ?mq) = Some 0" using mq_used [of ?mq] assms by simp
  moreover have "timedwait_loop no_command x = Some (ETIMEDOUT, x)" for x
    by (subst timedwait_loop.simps) (simp add: no_command_def)
  ultimately have "mqueue_read_request no_command delay mq = Some (0, mq\<lparr>mq_fifo := (mq_fifo mq)\<lparr>lock := False\<rparr>\<rparr>)"
    by (cases mq) (simp add: mqueue_read_request_def fifo_lock_def mqueue_unlock_def fifo_unlock_def Let_def)
  then show ?thesis using assms by simp
qed

lemma timer_pcm:
  assumes "thread_rel a q l r"
  shows "\<exists>delay p. audio_decode_timer_interval a = Some ((q \<noteq> [] \<and> 32768 + 2 * length r + 1 < unat DECODE_FIFO_SIZE, delay), a\<lparr>player := p\<rparr>) \<and> path_rel p q r"
proof -
  have p: "path_rel (player a) q r" using assms by (simp add: thread_rel_def)
  then have sb: "stream_rel (sbuf (player a)) (data_stream q)" "streambuf_streaming (sbuf (player a))" "current_decoder_state (player a) = DECODE_STATE_RUNNING"
    by (simp_all add: path_rel_def)
  obtain sb' where sb': "streambuf_get_data_usedbytes (sbuf (player a)) = Some (of_nat (length q), sb')" "stream_rel sb' (data_stream q)" "streambuf_streaming sb'"
    using stream_state(1) [OF sb(1)] sb(2) by auto
  have q: "of_nat (length q) < (1 :: u32) \<longleftrightarrow> q = []"
    using stream_relD(8) [OF sb(1)] unat_of_nat_cap [of "length q"] by (simp add: word_less_nat_alt data_stream_def unread_def)
  have p': "path_rel ((player a)\<lparr>sbuf := sb'\<rparr>) q r" using p sb' by (intro path_rel_sbuf)
  obtain delay p2 where t: "timer_output BLOCKSIZE ((player a)\<lparr>sbuf := sb'\<rparr>) = Some ((32768 + 2 * length r + 1 < unat DECODE_FIFO_SIZE, delay), p2)" "path_rel p2 q r"
    using timer_output_pcm [OF p'] by blast
  obtain self rbuf wbuf where d: "decoder_data a = Some self" "decoder a = Some (pcm_module rbuf wbuf)" using assms by (auto simp: thread_rel_def)
  show ?thesis
  proof (cases "q = []")
    case True
    then show ?thesis using d sb sb' p' q
      by (intro exI [of _ DECODE_WAIT_INTERVAL] exI [of _ "(player a)\<lparr>sbuf := sb'\<rparr>"])
        (simp add: audio_decode_timer_interval_def streambuf_would_wait_for_def streambuf_is_streaming_def Let_def)
  next
    case False
    then show ?thesis using d sb sb' q t
      by (intro exI [of _ delay] exI [of _ p2])
        (simp add: audio_decode_timer_interval_def streambuf_would_wait_for_def streambuf_is_streaming_def pcm_module_def decode_pcm_samples_def Let_def)
  qed
qed

text \<open>What a turn does: a block is decoded when there is data and room for the largest block.\<close>

fun pcm_turn :: "bytes \<times> bytes \<times> bytes \<Rightarrow> bytes \<times> bytes \<times> bytes" where
  "pcm_turn (q, l, r) =
     (if q \<noteq> [] \<and> 32768 + 2 * length r + 1 < unat DECODE_FIFO_SIZE
      then let n = min (4096 - length l) (length q); t = l @ take n q; m = 4 * (length t div 4)
        in (drop n q, drop m t, r @ take m t)
      else (q, l, r))"

lemma thread_turn_pcm:
  assumes "thread_rel a q l r" "pcm_turn (q, l, r) = (q', l', r')"
  shows "\<exists>a'. audio_decode_thread_turn no_command ds a = Some a' \<and> thread_rel a' q' l' r'"
proof -
  let ?can = "q \<noteq> [] \<and> 32768 + 2 * length r + 1 < unat DECODE_FIFO_SIZE"
  obtain delay p where t: "audio_decode_timer_interval a = Some ((?can, delay), a\<lparr>player := p\<rparr>)" "path_rel p q r"
    using timer_pcm [OF assms(1)] by blast
  obtain mq where mq: "mqueue_read_request no_command delay (decode_mqueue a) = Some (0, mq)" "mq_ok mq" "mq_held mq = []"
    using no_request [of "decode_mqueue a" delay] assms(1) by (auto simp: thread_rel_def)
  have cmd: "command_loop no_command ds ?can delay (a\<lparr>player := p\<rparr>) = Some (?can, a\<lparr>player := p, decode_mqueue := mq\<rparr>)"
    using mq(1) by (subst command_loop.simps) simp
  obtain sb where sb: "streambuf_cmd_ready (sbuf p) = Some (0, sb)" "stream_rel sb (data_stream q)" "streambuf_streaming sb"
    using stream_state(2) [of "sbuf p" q] t(2) by (auto simp: path_rel_def)
  let ?a = "a\<lparr>decode_mqueue := mq, player := p\<lparr>sbuf := sb\<rparr>\<rparr>"
  have turn: "audio_decode_thread_turn no_command ds a = decode_turn ?can ?a"
    using t(1) cmd sb(1) by (simp add: audio_decode_thread_turn_def Let_def)
  have rel: "thread_rel ?a q l r" using assms(1) mq path_rel_sbuf [OF t(2) sb(2,3)] by (simp add: thread_rel_def)
  obtain self rbuf wbuf where d: "decoder_data ?a = Some self" "pcm_ok self l" "decoder ?a = Some (pcm_module rbuf wbuf)"
    using rel by (auto simp: thread_rel_def)
  have p: "path_rel (player ?a) q r" using rel by (simp add: thread_rel_def)
  show ?thesis
  proof (cases ?can)
    case True
    then have room: "32768 + 2 * length r < unat DECODE_FIFO_SIZE" by linarith
    define n t m where ntm: "n = min (4096 - length l) (length q)" "t = l @ take n q" "m = 4 * (length t div 4)"
    have eqs: "drop n q = q'" "drop m t = l'" "r @ take m t = r'"
      using assms(2) unfolding pcm_turn.simps Let_def if_P [OF True] by (simp_all only: prod.inject ntm)
    obtain self' p' where "decode_pcm_callback self (player ?a) = Some (True, self', p')" "pcm_ok self' l'" "path_rel p' q' r'"
      using pcm_callback [OF d(2) p _ room ntm] True unfolding eqs by blast
    moreover have "current_decoder_state (player ?a) = DECODE_STATE_RUNNING" using p by (simp add: path_rel_def)
    ultimately show ?thesis using turn d True rel
      by (intro exI [of _ "?a\<lparr>decoder_data := Some self', player := p'\<rparr>"])
        (auto simp: decode_turn_def thread_rel_def pcm_module_def)
  next
    case False
    then show ?thesis using turn d rel assms(2) by (intro exI [of _ ?a]) (auto simp: decode_turn_def)
  qed
qed

section \<open>Playback\<close>

text \<open>At full volume the 16 bits of a sample come out as they went in.\<close>

lemma fixed_mul_one [simp]: "fixed_mul FIXED_ONE s = s"
  by (simp add: fixed_mul_def)

lemma out_sample_pcm: "be16 (flip_sample (out_sample FIXED_ONE (push_bit 16 (ucast a) OR push_bit 24 (ucast b)))) = [a, b]"
proof -
  let ?o = "out_sample FIXED_ONE (push_bit 16 (ucast a) OR push_bit 24 (ucast b))"
  have o: "bit ?o i = (i < 16 \<and> (if i < 8 then bit a i else bit b (i - 8)))" for i
    by (auto simp: out_sample_def bit_simps dest: bit_imp_le_length)
  have m: "(0xff :: u16) = mask 8" "(0xff00 :: u16) = push_bit 8 (mask 8)" by (simp_all add: mask_eq_exp_minus_1)
  have "ucast (drop_bit 8 (flip_sample ?o)) = a"
    unfolding flip_sample_def m by (rule bit_word_eqI) (auto simp: bit_simps o dest: bit_imp_le_length)
  moreover have "ucast (flip_sample ?o) = b"
    unfolding flip_sample_def m by (rule bit_word_eqI) (auto simp: bit_simps o dest: bit_imp_le_length)
  ultimately show ?thesis by (simp add: be16_def)
qed

text \<open>The frames of the device from the bytes of the ring.\<close>

fun i2s_bytes :: "bytes \<Rightarrow> bytes" where
  "i2s_bytes (a # b # c # d # xs) = be16 (flip_sample (out_sample FIXED_ONE (of_be32 [a, b, c, d]))) @ i2s_bytes xs"
| "i2s_bytes _ = []"

lemma length_i2s_bytes [simp]: "length (i2s_bytes bs) = 2 * (length bs div 4)"
proof (induction bs rule: i2s_bytes.induct)
  case (1 a b c d xs)
  have "length (a # b # c # d # xs) div 4 = Suc (length xs div 4)" by simp
  then show ?case using 1 by simp
qed simp_all

lemma i2s_bytes_append: "length xs = 4 * k \<Longrightarrow> i2s_bytes (xs @ ys) = i2s_bytes xs @ i2s_bytes ys"
proof (induction k arbitrary: xs)
  case (Suc k)
  then have "length xs = Suc (Suc (Suc (Suc (4 * k))))" by simp
  then obtain a b c d zs where "xs = a # b # c # d # zs" "length zs = 4 * k" by (auto simp: length_Suc_conv)
  then show ?case using Suc.IH by simp
qed simp

lemma i2s_bytes_sample: "i2s_bytes (be32 s @ xs) = be16 (flip_sample (out_sample FIXED_ONE s)) @ i2s_bytes xs"
proof -
  have "of_be32 (be32 s) = s" by simp
  then show ?thesis by (simp add: be32_def)
qed

lemma i2s_bytes_pcm: "even (length bs) \<Longrightarrow> i2s_bytes (sample_bytes (pcm16 bs)) = bs"
proof (induction bs rule: pcm16.induct)
  case (1 a b bs)
  have "sample_bytes (pcm16 (a # b # bs)) = be32 (push_bit 16 (ucast a) OR push_bit 24 (ucast b)) @ sample_bytes (pcm16 bs)"
    by (simp add: sample_bytes_def)
  then show ?case using 1 by (simp only: i2s_bytes_sample out_sample_pcm) simp
qed auto

lemma drop_pcm16: "drop n (pcm16 bs) = pcm16 (drop (2 * n) bs)"
proof (induction bs arbitrary: n rule: pcm16.induct)
  case (1 a b bs)
  then show ?case by (cases n) auto
next
  case "2_2"
  then show ?case by (cases n) auto
qed auto

lemma take_8: "take (8 + m) xs = take 4 xs @ take 4 (drop 4 xs) @ take m (drop 8 xs)"
  using take_add [of 4 "4 + m" xs] take_add [of 4 m "drop 4 xs"] by simp

lemma i2s_frame:
  assumes "src + 8 * Suc n \<le> length ring"
  shows "i2s_bytes (get_at src (8 * Suc n) ring)
    = be16 (flip_sample (out_sample FIXED_ONE (of_be32 (take 4 (drop src ring)))))
      @ be16 (flip_sample (out_sample FIXED_ONE (of_be32 (take 4 (drop (src + 4) ring))))) @ i2s_bytes (get_at (src + 8) (8 * n) ring)"
proof -
  have one: "i2s_bytes xs = be16 (flip_sample (out_sample FIXED_ONE (of_be32 xs)))" if "length xs = 4" for xs
    using that by (auto simp: numeral_eq_Suc length_Suc_conv)
  have "get_at src (8 * Suc n) ring = take 4 (drop src ring) @ take 4 (drop (src + 4) ring) @ get_at (src + 8) (8 * n) ring"
    using take_8 [of "8 * n" "drop src ring"] by (simp add: get_at_def add.commute)
  then show ?thesis using assms by (simp add: i2s_bytes_append [where k = 1] one)
qed

lemma put_at_put: "length xs = k \<Longrightarrow> i + k + length ys \<le> length b \<Longrightarrow> put_at (i + k) ys (put_at i xs b) = put_at i (xs @ ys) b"
  by (simp add: put_at_def add.commute add.left_commute)

lemma playback_frames_bytes:
  "src + 8 * n \<le> length ring \<Longrightarrow> pos + 4 * n \<le> length out \<Longrightarrow>
   playback_frames FIXED_ONE FIXED_ONE ring n src pos out = Some (put_at pos (i2s_bytes (get_at src (8 * n) ring)) out)"
proof (induction n arbitrary: src pos out)
  case (Suc n)
  let ?x = "be16 (flip_sample (out_sample FIXED_ONE (of_be32 (take 4 (drop src ring)))))"
    and ?y = "be16 (flip_sample (out_sample FIXED_ONE (of_be32 (take 4 (drop (src + 4) ring)))))"
  let ?z = "i2s_bytes (get_at (src + 8) (8 * n) ring)"
  have z: "length ?z = 4 * n" using Suc.prems by simp
  have out: "memcpy out pos ?x 0 2 = Some (put_at pos ?x out)" "memcpy (put_at pos ?x out) (pos + 2) ?y 0 2 = Some (put_at pos (?x @ ?y) out)"
    using Suc.prems put_at_put [of ?x 2 pos ?y out] by (simp_all add: get_at_def)
  have "playback_frames FIXED_ONE FIXED_ONE ring n (src + 8) (pos + 4) (put_at pos (?x @ ?y) out) = Some (put_at (pos + 4) ?z (put_at pos (?x @ ?y) out))"
    using Suc.prems by (intro Suc.IH) (auto simp: length_put_at)
  also have "put_at (pos + 4) ?z (put_at pos (?x @ ?y) out) = put_at pos ((?x @ ?y) @ ?z) out"
    using Suc.prems z by (intro put_at_put) auto
  also have "(?x @ ?y) @ ?z = i2s_bytes (get_at src (8 * Suc n) ring)" using i2s_frame [OF Suc.prems(1)] by simp
  finally show ?case using out Suc.prems(1) by (simp add: load32_def)
qed (simp add: put_at_def get_at_def)

text \<open>At full volume without fading, frames are read as the message queue reads bytes.\<close>

definition da_ring :: "bytes \<Rightarrow> decode_audio \<Rightarrow> mqueue" where
  "da_ring ring da = \<lparr>mq_buffer = ring, mq_fifo = da_fifo da\<rparr>"

lemma frames_bytes: "8 * unat n < 2 ^ 32 \<Longrightarrow> unat (SAMPLES_TO_BYTES n) = 8 * unat n"
  using unat_mult_lem [of 8 n] by (simp add: SAMPLES_TO_BYTES_def)

lemma length_read_buf: "mqueue_read_buf n mq = Some r \<Longrightarrow> length (fst r) = unat n"
proof (rule mqueue_read_buf.raw_induct [where P = "\<lambda>n mq r. length (fst r) = unat n"])
  fix f :: "u32 \<Rightarrow> mqueue \<Rightarrow> (bytes \<times> mqueue) option" and n and mq :: mqueue and r :: "bytes \<times> mqueue"
  assume IH: "\<And>n mq r. f n mq = Some r \<Longrightarrow> length (fst r) = unat n"
  let ?c = "fsize (mq_fifo mq) - rptr (mq_fifo mq)"
  let ?k = "if n < ?c then n else ?c"
  assume eq: "(if n = 0 then Some ([], mq)
     else do {
        wrap \<leftarrow> fifo_bytes_until_rptr_wrap (mq_fifo mq);
        let bytes_read = (if n < wrap then n else wrap);
        b \<leftarrow> memcpy (replicate (unat bytes_read) 0) 0 (mq_buffer mq) (unat (rptr (mq_fifo mq))) (unat bytes_read);
        g \<leftarrow> fifo_rptr_incby (mq_fifo mq) bytes_read;
        r \<leftarrow> f (n - bytes_read) (mq\<lparr>mq_fifo := g\<rparr>);
        Some (b @ fst r, snd r) }) = Some r"
  have k: "unat (n - ?k) + unat ?k = unat n" by (auto simp: unat_sub word_le_nat_alt word_less_nat_alt)
  show "length (fst r) = unat n"
  proof (cases "n = 0")
    case False
    then obtain g r' where "f (n - ?k) (mq\<lparr>mq_fifo := g\<rparr>) = Some r'" "length (fst r) = unat ?k + length (fst r')"
      using eq by (auto simp: fifo_bytes_until_rptr_wrap_def ASSERT_FIFO_LOCKED_def memcpy_def Let_def split: if_splits Option.bind_splits)
    then show ?thesis using IH k by auto
  qed (use eq in auto)
qed

lemma playback_loop_bytes:
  assumes "samples_to_fade da = 0" "lgain da = FIXED_ONE" "rgain da = FIXED_ONE" "lock (da_fifo da)"
    "rptr (da_fifo da) < fsize (da_fifo da)" "8 dvd unat (rptr (da_fifo da))" "8 dvd unat (fsize (da_fifo da))"
    "length ring = unat (fsize (da_fifo da))" "8 * unat n < 2 ^ 32" "pos + 4 * unat n \<le> length out"
  shows "playback_loop ring n pos out da
    = map_option (\<lambda>(bs, mq). (put_at pos (i2s_bytes bs) out, da\<lparr>da_fifo := mq_fifo mq, written_track_samples := written_track_samples da + n\<rparr>))
      (mqueue_read_buf (SAMPLES_TO_BYTES n) (da_ring ring da))"
  using assms
proof (induction n arbitrary: pos out da rule: unat_less_induct)
  case (1 n)
  let ?F = "da_fifo da" and ?c = "fsize (da_fifo da) - rptr (da_fifo da)"
  define w where w_def: "w = (if BYTES_TO_SAMPLES ?c < n then BYTES_TO_SAMPLES ?c else n)"
  have lt: "unat (rptr ?F) < unat (fsize ?F)" using "1.prems"(5) by (simp add: word_less_nat_alt)
  have c: "unat ?c = unat (fsize ?F) - unat (rptr ?F)" using lt by (rule unat_until_wrap)
  have c8: "8 dvd unat ?c" using c "1.prems"(6,7) by (simp add: dvd_diff_nat)
  have bs: "unat (BYTES_TO_SAMPLES ?c) = unat ?c div 8" by (simp add: BYTES_TO_SAMPLES_def unat_div)
  have nb: "unat (SAMPLES_TO_BYTES n) = 8 * unat n" using "1.prems"(9) by (rule frames_bytes)
  show ?case
  proof (cases "n = 0")
    case True
    then show ?thesis by (subst playback_loop.simps, subst mqueue_read_buf.simps) (simp add: SAMPLES_TO_BYTES_def da_ring_def put_at_def)
  next
    case False
    have w: "unat w \<le> unat n" "8 * unat w \<le> unat ?c" "0 < unat w"
      using c c8 bs lt False by (auto simp: w_def word_less_nat_alt unat_gt_0 elim!: dvdE)
    have wb: "unat (SAMPLES_TO_BYTES w) = 8 * unat w" using w(1) "1.prems"(9) by (intro frames_bytes) linarith
    have min: "(if SAMPLES_TO_BYTES n < ?c then SAMPLES_TO_BYTES n else ?c) = SAMPLES_TO_BYTES w"
      using nb wb bs c8 by (auto simp: w_def word_unat_eq_iff word_less_nat_alt)
    define f where f: "f = (if rptr ?F + SAMPLES_TO_BYTES w = fsize ?F then ?F\<lparr>rptr := 0\<rparr> else ?F\<lparr>rptr := rptr ?F + SAMPLES_TO_BYTES w\<rparr>)"
    define b where b: "b = get_at (unat (rptr ?F)) (8 * unat w) ring"
    let ?da = "da\<lparr>da_fifo := f, written_track_samples := written_track_samples da + w\<rparr>" and ?out = "put_at pos (i2s_bytes b) out"
    have fits: "unat (rptr ?F) + 8 * unat w \<le> length ring" using w(2) c lt "1.prems"(8) by simp
    have sum: "unat (rptr ?F + SAMPLES_TO_BYTES w) = unat (rptr ?F) + 8 * unat w"
      using w(2) c lt wb unsigned_less [of "fsize ?F", where 'a = nat] by (subst unat_add_lem [THEN iffD1]) simp_all
    have sub: "unat (n - w) = unat n - unat w" using w(1) by (simp add: unat_sub word_le_nat_alt)
    have lb: "length b = 8 * unat w" "length (i2s_bytes b) = 4 * unat w" using fits by (simp_all add: b)
    have inc: "fifo_rptr_incby ?F (SAMPLES_TO_BYTES w) = Some f" using "1.prems"(4) by (simp add: f fifo_rptr_incby_def)
    have wrap: "fifo_bytes_until_rptr_wrap ?F = Some ?c" using "1.prems"(4) by (simp add: fifo_bytes_until_rptr_wrap_def)
    have frames: "playback_frames FIXED_ONE FIXED_ONE ring (unat w) (unat (rptr ?F)) pos out = Some ?out"
      unfolding b using fits w(1) "1.prems"(10) by (intro playback_frames_bytes) auto
    have pcm: "unat (PCM_FRAMES_TO_BYTES w) = 4 * unat w"
      using unat_mult_lem [of w 4] w(1) "1.prems"(9) by (simp add: PCM_FRAMES_TO_BYTES_def mult.commute)
    have f_ok: "lock f" "rptr f < fsize f" "8 dvd unat (rptr f)" "fsize f = fsize ?F"
      using "1.prems"(4-7) sum w(2) c lt by (auto simp: f word_less_nat_alt word_unat_eq_iff)
    have "playback_loop ring n pos out da = playback_loop ring (n - w) (pos + 4 * unat w) ?out ?da"
      using "1.prems"(1-3) False inc wrap frames pcm
      by (subst playback_loop.simps) (simp add: playback_fade_def Let_def flip: w_def)
    also have "\<dots> = map_option (\<lambda>(bs, mq). (put_at (pos + 4 * unat w) (i2s_bytes bs) ?out,
        ?da\<lparr>da_fifo := mq_fifo mq, written_track_samples := written_track_samples ?da + (n - w)\<rparr>)) (mqueue_read_buf (SAMPLES_TO_BYTES (n - w)) (da_ring ring ?da))"
    proof (rule "1.IH")
      show "unat (n - w) < unat n" "8 * unat (n - w) < 2 ^ 32" "pos + 4 * unat w + 4 * unat (n - w) \<le> length ?out"
        using sub w "1.prems"(9,10) lb(2) by (auto simp: length_put_at)
    qed (use "1.prems" f_ok in simp_all)
    also have "\<dots> = map_option (\<lambda>(bs, mq). (put_at pos (i2s_bytes (b @ bs)) out, da\<lparr>da_fifo := mq_fifo mq, written_track_samples := written_track_samples da + n\<rparr>))
        (mqueue_read_buf (SAMPLES_TO_BYTES (n - w)) (da_ring ring ?da))"
    proof (cases "mqueue_read_buf (SAMPLES_TO_BYTES (n - w)) (da_ring ring ?da)")
      case (Some r)
      have "length (fst r) = 8 * unat (n - w)" using length_read_buf [OF Some] frames_bytes [of "n - w"] sub "1.prems"(9) by simp
      then have "put_at (pos + 4 * unat w) (i2s_bytes (fst r)) ?out = put_at pos (i2s_bytes (b @ fst r)) out"
        using lb sub w(1) "1.prems"(10) by (subst put_at_put) (simp_all add: i2s_bytes_append [where k = "2 * unat w"])
      then show ?thesis using Some by (simp add: case_prod_unfold)
    qed simp
    also have "\<dots> = map_option (\<lambda>(bs, mq). (put_at pos (i2s_bytes bs) out, da\<lparr>da_fifo := mq_fifo mq, written_track_samples := written_track_samples da + n\<rparr>))
        (mqueue_read_buf (SAMPLES_TO_BYTES n) (da_ring ring da))"
    proof -
      have mem: "memcpy (replicate (8 * unat w) 0) 0 ring (unat (rptr ?F)) (8 * unat w) = Some b"
        using fits lb by (simp add: b)
      have nz: "SAMPLES_TO_BYTES n \<noteq> 0" using nb False by (metis mult_is_0 unat_0 unat_eq_0 zero_neq_numeral)
      have diff: "SAMPLES_TO_BYTES n - SAMPLES_TO_BYTES w = SAMPLES_TO_BYTES (n - w)" by (simp add: SAMPLES_TO_BYTES_def algebra_simps)
      have "mqueue_read_buf (SAMPLES_TO_BYTES n) (da_ring ring da)
        = map_option (\<lambda>r. (b @ fst r, snd r)) (mqueue_read_buf (SAMPLES_TO_BYTES (n - w)) (da_ring ring ?da))"
        using nz wrap inc mem min wb diff
        by (subst mqueue_read_buf.simps) (simp add: da_ring_def Let_def map_conv_bind_option comp_def)
      then show ?thesis by (simp add: option.map_comp comp_def case_prod_unfold)
    qed
    finally show ?thesis .
  qed
qed

lemma playback_started_ok:
  assumes "play_ok da" "lock (da_fifo da)"
  shows "\<exists>da'. playback_started state da = Some da' \<and> play_ok da' \<and> da_fifo da' = da_fifo da \<and> track_sample_rate da' = track_sample_rate da"
  using assms by (auto simp: playback_started_def decode_check_start_point_def ASSERT_AUDIO_LOCKED_def play_ok_def Let_def)

lemma underrun_ok: "play_ok da \<Longrightarrow> play_ok (da\<lparr>da_state := da_state da OR DECODE_STATE_UNDERRUN\<rparr>)"
  "play_ok da \<Longrightarrow> play_ok (da\<lparr>da_state := da_state da AND NOT DECODE_STATE_UNDERRUN\<rparr>)"
  by (auto simp: play_ok_def and.assoc bit.conj_disj_distrib2)

lemma take_pcm16: "take n (pcm16 bs) = pcm16 (take (2 * n) bs)"
proof (induction bs arbitrary: n rule: pcm16.induct)
  case (1 a b bs)
  then show ?case by (cases n) auto
next
  case "2_2"
  then show ?case by (cases n) auto
qed auto

lemma unat_pcm_frames: "4 * unat n < 2 ^ 32 \<Longrightarrow> unat (PCM_FRAMES_TO_BYTES n) = 4 * unat n"
  using unat_mult_lem [of n 4] by (simp add: PCM_FRAMES_TO_BYTES_def mult.commute)

lemma playback_underrun_ok:
  assumes "play_ok da" "length out = 4 * unat N" "4 * unat N < 2 ^ 31" "unat n \<le> unat N"
  shows "\<exists>out' da'. playback_underrun out 0 n N da = Some (out', da') \<and> length out' = length out
    \<and> drop (4 * unat n) out' = replicate (4 * unat N - 4 * unat n) 0 \<and> play_ok da' \<and> da_fifo da' = da_fifo da
    \<and> track_sample_rate da' = track_sample_rate da"
proof (cases "n < N")
  case True
  have b: "unat (PCM_FRAMES_TO_BYTES n) = 4 * unat n" "unat (PCM_FRAMES_TO_BYTES N) = 4 * unat N"
    using assms(3,4) by (auto intro: unat_pcm_frames)
  then have "unat (PCM_FRAMES_TO_BYTES N - PCM_FRAMES_TO_BYTES n) = 4 * unat N - 4 * unat n"
    using assms(4) by (subst unat_sub) (simp_all add: word_le_nat_alt)
  then show ?thesis using True assms b underrun_ok(1) [OF assms(1)]
    by (simp add: playback_underrun_def play_ok_def memset0_def length_put_at) (simp add: put_at_def get_at_def)
next
  case False
  then have "unat n = unat N" using assms(4) by (simp add: word_less_nat_alt)
  then show ?thesis using False assms underrun_ok(2) [OF assms(1)] by (simp add: playback_underrun_def)
qed

text \<open>A period: the next samples of the ring, silence where there are none.\<close>

lemma playback_callback_ok:
  assumes "play_ok da" "ring_ok (da_ring ring da)" "lock (da_fifo da)" "mq_held (da_ring ring da) = sample_bytes (pcm16 r)" "4 dvd length r"
    "length out = 4 * unat N" "4 * unat N < 2 ^ 31" "k = min (unat N) (length r div 4)"
  shows "\<exists>da'. playback_callback now state ring out N da = Some (take (4 * k) r @ replicate (4 * unat N - 4 * k) 0, da') \<and> play_ok da'
    \<and> ring_ok (da_ring ring da') \<and> lock (da_fifo da') \<and> mq_held (da_ring ring da') = sample_bytes (pcm16 (drop (4 * k) r))
    \<and> track_sample_rate da' = track_sample_rate da"
proof -
  have mq: "mq_ok (da_ring ring da)" "mq_size (da_ring ring da) = unat DECODE_FIFO_SIZE" using assms(2) by (simp_all add: ring_ok_def)
  note d = fifo2_okD [OF mq(1) [unfolded mq_ok_def], simplified]
  obtain c where c: "length r = 4 * c" using assms(5) by (auto elim: dvdE)
  have held: "length (mq_held (da_ring ring da)) = 8 * c" using assms(4) c by simp
  have c_less: "8 * c < 3528000" using length_fifo2(2) [OF mq(1) [unfolded mq_ok_def]] held mq(2) by (simp add: mq_held_def mq_size_def)
  define w where w: "w = (of_nat (8 * c) :: u32)"
  have used: "fifo_bytes_used (da_fifo da) = Some w" using mq_used [OF mq(1)] assms(3) held by (simp add: da_ring_def w)
  have "unat w = 8 * c" unfolding w using c_less by (intro unat_cap) simp
  then have frames: "unat (BYTES_TO_SAMPLES w) = c" by (simp add: BYTES_TO_SAMPLES_def unat_div)
  define n where n: "n = (if BYTES_TO_SAMPLES w > N then N else BYTES_TO_SAMPLES w)"
  have k: "unat n = k" using frames assms(8) c by (auto simp: n word_less_nat_alt)
  obtain out1 da1 where un: "playback_underrun out 0 n N da = Some (out1, da1)" "length out1 = length out"
      "drop (4 * k) out1 = replicate (4 * unat N - 4 * k) 0" "play_ok da1" "da_fifo da1 = da_fifo da" "track_sample_rate da1 = track_sample_rate da"
    using playback_underrun_ok [OF assms(1,6,7), of n] k assms(8) by auto
  have ring: "da_ring ring da1 = da_ring ring da" using un(5) by (simp add: da_ring_def)
  have nb: "unat (SAMPLES_TO_BYTES n) = 8 * k" using frames_bytes [of n] k assms(7,8) by simp
  have k_le: "8 * k \<le> length (mq_held (da_ring ring da))" using held assms(8) c by auto
  obtain mq' where rd: "mqueue_read_buf (SAMPLES_TO_BYTES n) (da_ring ring da) = Some (take (8 * k) (mq_held (da_ring ring da)), mq')"
      "mq_ok mq'" "lock (mq_fifo mq')" "mq_size mq' = mq_size (da_ring ring da)" "mq_held mq' = drop (8 * k) (mq_held (da_ring ring da))"
      "mq_buffer mq' = ring" "unat (rptr (mq_fifo mq')) = (unat (rptr (da_fifo da)) + 8 * k) mod mq_size (da_ring ring da)"
    using mqueue_read_buf_ok [OF mq(1), of "SAMPLES_TO_BYTES n"] assms(3) nb k_le by (auto simp: da_ring_def)
  let ?da = "da1\<lparr>da_fifo := mq_fifo mq', written_track_samples := written_track_samples da1 + n\<rparr>"
  have bytes: "i2s_bytes (take (8 * k) (mq_held (da_ring ring da))) = take (4 * k) r"
    using assms(4) c i2s_bytes_pcm [of "take (4 * k) r"] by (simp add: length_sample_take take_pcm16 min_def)
  have "playback_loop ring n 0 out1 da1 = Some (put_at 0 (take (4 * k) r) out1, ?da)"
    using playback_loop_bytes [of da1 ring n 0 out1] un(2,4,5) d assms(2,3,6,7,8) k rd(1) bytes ring
    by (simp add: play_ok_def ring_ok_def da_ring_def word_less_nat_alt mq_size_def)
  moreover have "put_at 0 (take (4 * k) r) out1 = take (4 * k) r @ replicate (4 * unat N - 4 * k) 0"
  proof -
    have "length (take (4 * k) r) = 4 * k" using assms(8) c by simp
    then show ?thesis using un(3) by (simp only: put_at_def take_0 append_Nil add_0)
  qed
  moreover have ok: "play_ok ?da" using un(4) by (simp add: play_ok_def)
  moreover obtain da' where st: "playback_started state ?da = Some da'" "play_ok da'" "da_fifo da' = mq_fifo mq'" "track_sample_rate da' = track_sample_rate da"
    using playback_started_ok [OF ok, of state] rd(3) un(6) by auto
  ultimately have "playback_callback now state ring out N da = Some (take (4 * k) r @ replicate (4 * unat N - 4 * k) 0, da')"
    using assms(1,3) used un(1,4)
    by (simp add: playback_callback_def ASSERT_AUDIO_LOCKED_def playback_autostart_def playback_silence_def playback_skip_frames_def
        playback_skip_def play_ok_def Let_def flip: n)
  moreover have mq': "da_ring ring da' = mq'" using st(3) rd(6) by (cases mq') (simp add: da_ring_def)
  moreover have "mq_held mq' = sample_bytes (pcm16 (drop (4 * k) r))"
    using rd(5) assms(4) drop_sample_bytes [of "2 * k"] by (simp add: drop_pcm16)
  moreover have "ring_ok mq'" using rd assms(2) k_le by (simp add: ring_ok_def da_ring_def dvd_mod dvd_diff_nat)
  ultimately show ?thesis using st rd(3) by auto
qed

section \<open>Feeding and playing\<close>

lemma feed_path:
  assumes "thread_rel a q l r" "length xs + length q < stream_cap"
  shows "\<exists>sb. streambuf_feed xs (of_nat (length xs)) (sbuf (player a)) = Some sb \<and> thread_rel (set_sbuf sb a) (q @ xs) l r"
proof -
  have p: "path_rel (player a) q r" using assms(1) by (simp add: thread_rel_def)
  then have rel: "stream_rel (sbuf (player a)) (data_stream q)" "streambuf_streaming (sbuf (player a))" by (simp_all add: path_rel_def)
  have "stream_pre (Feed xs) (data_stream q)" using assms(2) by (simp add: data_stream_def unread_def)
  from feed_refines [OF rel(1) this] obtain sb where sb: "streambuf_feed xs (of_nat (length xs)) (sbuf (player a)) = Some sb"
    "stream_rel sb (data_stream (q @ xs))"
    by (auto simp: data_stream_def add_data_def add_last_def split: Option.bind_splits)
  then have "path_rel ((player a)\<lparr>sbuf := sb\<rparr>) (q @ xs) r" using path_rel_sbuf [OF p] streaming_feed [OF sb(1) rel(2)] by simp
  then show ?thesis using sb(1) assms(1) by (simp add: thread_rel_def set_sbuf_def)
qed

lemma play_path:
  assumes "path_rel p q r" "length buf = 768" "period_size i = 192" "k = min 192 (length r div 4)"
  shows "\<exists>do_open da. audio_thread_turn now sync i (decode_fifo_buf p) buf (decode_audio p) = Some ((take (4 * k) r @ replicate (768 - 4 * k) 0, do_open), da)
    \<and> path_rel (p\<lparr>decode_audio := da\<rparr>) q (drop (4 * k) r)"
proof -
  let ?da = "da_fifo_update fifo_lock (decode_audio p)" and ?ring = "decode_fifo_buf p"
  have ring: "da_ring ?ring ?da = (out_ring p)\<lparr>mq_fifo := (mq_fifo (out_ring p))\<lparr>lock := True\<rparr>\<rparr>"
    by (simp add: da_ring_def out_ring_def fifo_lock_def)
  have "play_ok ?da" "ring_ok (da_ring ?ring ?da)" "lock (da_fifo ?da)" "mq_held (da_ring ?ring ?da) = sample_bytes (pcm16 r)" "4 dvd length r"
    unfolding ring using assms(1) by (simp_all add: path_rel_def play_ok_def fifo_lock_def)
  from playback_callback_ok [OF this, of buf 192 k now i] obtain da where
    da: "playback_callback now i ?ring buf 192 ?da = Some (take (4 * k) r @ replicate (768 - 4 * k) 0, da)" "play_ok da"
      "ring_ok (da_ring ?ring da)" "lock (da_fifo da)" "mq_held (da_ring ?ring da) = sample_bytes (pcm16 (drop (4 * k) r))"
      "track_sample_rate da = track_sample_rate (decode_audio p)"
    using assms(2,4) by auto
  let ?f = "(da_fifo da)\<lparr>lock := False\<rparr>"
  let ?da' = "da\<lparr>da_fifo := ?f, sync_played_samples := ucast (written_track_samples da - fst sync), sync_timestamp := snd sync\<rparr>"
  have "audio_thread_turn now sync i ?ring buf (decode_audio p)
      = Some ((take (4 * k) r @ replicate (768 - 4 * k) 0, set_sample_rate da \<noteq> 0 \<and> set_sample_rate da \<noteq> i2s_sample_rate i), ?da')"
    using da(1,4) assms(3) by (simp add: audio_thread_turn_def fifo_unlock_def Let_def)
  moreover have "out_ring (p\<lparr>decode_audio := ?da'\<rparr>) = (da_ring ?ring da)\<lparr>mq_fifo := (mq_fifo (da_ring ?ring da))\<lparr>lock := False\<rparr>\<rparr>"
    by (simp add: da_ring_def out_ring_def)
  then have "path_rel (p\<lparr>decode_audio := ?da'\<rparr>) q (drop (4 * k) r)"
    using assms(1) da(2,3,5,6) by (auto simp: path_rel_def plain_def play_ok_def)
  ultimately show ?thesis by blast
qed

end
