(* ===== verification/Audio_Player.thy ===== *)
theory Audio_Player
  imports Audio_Control
begin

text \<open>
  The player of the local device, \<open>lib/beep/player_local.c\<close>, on top of the audio library: tracks and
  their data are handed to the stream buffer, and the thread that reports started songs. The list of
  songs is the queue of \<open>lib/libds/queue.c\<close>, whose allocations do not fail. What other threads do
  while a call sleeps is an argument of the call; \<open>now\<close> is the time it reads.
\<close>

section \<open>The queue of songs\<close>

definition qEnque :: "'s list \<Rightarrow> 's \<Rightarrow> 's list" where
  "qEnque q data = q @ [data]"

fun qDeque :: "'s list \<Rightarrow> 's option \<times> 's list" where
  "qDeque [] = (None, [])"
| "qDeque (first # q) = (Some first, q)"

section \<open>State\<close>

datatype player_result = BEEP_PLAYER_OK | BEEP_PLAYER_AGAIN | BEEP_PLAYER_STOPPED | BEEP_PLAYER_ERROR

record ('d, 's) player_local =
  pl_audio :: "'d audio"
  stop_thread :: bool
  pl_locked :: bool
  started :: bool
  syncing :: bool
  pending_tracks :: "'s list"
  tracks_started :: u32

definition beep_player_local_lock :: "('d, 's) player_local \<Rightarrow> ('d, 's) player_local" where
  "beep_player_local_lock pl = pl\<lparr>pl_locked := True\<rparr>"

definition ASSERT_PLAYER_LOCAL_LOCKED :: "('d, 's) player_local \<Rightarrow> unit option" where
  "ASSERT_PLAYER_LOCAL_LOCKED pl = (if pl_locked pl then Some () else None)"

definition beep_player_local_unlock :: "('d, 's) player_local \<Rightarrow> ('d, 's) player_local option" where
  "beep_player_local_unlock pl = do { ASSERT_PLAYER_LOCAL_LOCKED pl; Some (pl\<lparr>pl_locked := False\<rparr>) }"

text \<open>Calls of the audio library, and the end of a call of the player.\<close>

definition on_audio :: "('d audio \<Rightarrow> 'd audio option) \<Rightarrow> ('d, 's) player_local \<Rightarrow> ('d, 's) player_local option" where
  "on_audio f pl = do { a \<leftarrow> f (pl_audio pl); Some (pl\<lparr>pl_audio := a\<rparr>) }"

definition on_sbuf :: "(streambuf \<Rightarrow> streambuf option) \<Rightarrow> ('d, 's) player_local \<Rightarrow> ('d, 's) player_local option" where
  "on_sbuf f = on_audio (\<lambda>a. do { sb \<leftarrow> f (sbuf (player a)); Some (set_sbuf sb a) })"

definition answer :: "player_result \<Rightarrow> ('d, 's) player_local \<Rightarrow> (player_result \<times> ('d, 's) player_local) option" where
  "answer r pl = do { pl \<leftarrow> beep_player_local_unlock pl; Some (r, pl) }"

definition player_audio_status :: "u64 \<Rightarrow> ('d, 's) player_local \<Rightarrow> (beep_audio_status \<times> ('d, 's) player_local) option" where
  "player_audio_status now pl = do { (s, a) \<leftarrow> audio_status now (pl_audio pl); Some (s, pl\<lparr>pl_audio := a\<rparr>) }"

section \<open>Tracks\<close>

definition beep_player_local_can_prepare_decoder :: "u64 \<Rightarrow> ('d, 's) player_local \<Rightarrow> (bool \<times> ('d, 's) player_local) option" where
  "beep_player_local_can_prepare_decoder now pl = do {
     ASSERT_PLAYER_LOCAL_LOCKED pl;
     (status, pl) \<leftarrow> player_audio_status now pl;
     Some (decode_state status = 0 \<or> \<not> streambuf_is_streaming (sbuf (player (pl_audio pl)))
       \<and> decode_state status AND DECODE_STATE_UNDERRUN \<noteq> 0, pl) }"

definition beep_player_local_can_prepare :: "u64 \<Rightarrow> ('d, 's) player_local \<Rightarrow> (player_result \<times> ('d, 's) player_local) option" where
  "beep_player_local_can_prepare now pl = do {
     ASSERT_PLAYER_LOCAL_LOCKED pl;
     if \<not> started pl then Some (BEEP_PLAYER_STOPPED, pl)
     else do {
       (can, pl) \<leftarrow> beep_player_local_can_prepare_decoder now pl;
       Some (if can then BEEP_PLAYER_OK else BEEP_PLAYER_AGAIN, pl) } }"

definition beep_player_local_st_begin ::
  "u64 \<Rightarrow> start_message \<Rightarrow> 's \<Rightarrow> ('d, 's) player_local \<Rightarrow> (player_result \<times> ('d, 's) player_local) option" where
  "beep_player_local_st_begin now m song_data pl = do {
     let pl = beep_player_local_lock pl;
     (can_prepare, pl) \<leftarrow> beep_player_local_can_prepare now pl;
     if can_prepare \<noteq> BEEP_PLAYER_OK then answer can_prepare pl
     else do {
       let pl = pl\<lparr>pending_tracks := qEnque (pending_tracks pl) song_data\<rparr>;
       pl \<leftarrow> on_sbuf (\<lambda>sb. Some (streambuf_set_streaming True sb)) pl;
       pl \<leftarrow> on_audio (audio_decoder_start m) pl;
       pl \<leftarrow> on_audio audio_decoder_resume pl;
       answer BEEP_PLAYER_OK pl } }"

partial_function (option) beep_player_local_st_begin_blocking ::
  "(nat \<Rightarrow> u64) \<Rightarrow> (nat \<Rightarrow> ('d, 's) player_local \<Rightarrow> ('d, 's) player_local option) \<Rightarrow> nat \<Rightarrow> start_message \<Rightarrow> 's
   \<Rightarrow> ('d, 's) player_local \<Rightarrow> (player_result \<times> ('d, 's) player_local) option" where
  "beep_player_local_st_begin_blocking now others k m song_data pl = do {
     (res, pl) \<leftarrow> beep_player_local_st_begin (now k) m song_data pl;
     if res = BEEP_PLAYER_STOPPED \<or> res = BEEP_PLAYER_OK then Some (res, pl)
     else do {
       pl \<leftarrow> others k pl;
       beep_player_local_st_begin_blocking now others (Suc k) m song_data pl } }"

definition beep_player_local_st_end :: "('d, 's) player_local \<Rightarrow> (player_result \<times> ('d, 's) player_local) option" where
  "beep_player_local_st_end pl = do {
     let pl = beep_player_local_lock pl;
     if \<not> started pl then answer BEEP_PLAYER_STOPPED pl
     else if \<not> streambuf_is_streaming (sbuf (player (pl_audio pl))) then None
     else do {
       pl \<leftarrow> on_audio audio_decoder_st_end pl;
       answer BEEP_PLAYER_OK pl } }"

section \<open>Data\<close>

definition beep_player_local_can_buffer :: "u32 \<Rightarrow> ('d, 's) player_local \<Rightarrow> (player_result \<times> ('d, 's) player_local) option" where
  "beep_player_local_can_buffer len pl = do {
     ASSERT_PLAYER_LOCAL_LOCKED pl;
     if \<not> started pl then Some (BEEP_PLAYER_STOPPED, pl)
     else do {
       (free, sb) \<leftarrow> streambuf_get_freebytes (sbuf (player (pl_audio pl)));
       Some (if len \<le> free then BEEP_PLAYER_OK else BEEP_PLAYER_AGAIN, pl\<lparr>pl_audio := set_sbuf sb (pl_audio pl)\<rparr>) } }"

definition beep_player_local_buffer :: "bytes \<Rightarrow> u32 \<Rightarrow> ('d, 's) player_local \<Rightarrow> (player_result \<times> ('d, 's) player_local) option" where
  "beep_player_local_buffer data len pl = do {
     let pl = beep_player_local_lock pl;
     (can_buffer, pl) \<leftarrow> beep_player_local_can_buffer len pl;
     if can_buffer \<noteq> BEEP_PLAYER_OK then answer can_buffer pl
     else do {
       pl \<leftarrow> on_sbuf (streambuf_feed data len) pl;
       pl \<leftarrow> on_audio audio_wakeup_decode_thread pl;
       answer BEEP_PLAYER_OK pl } }"

partial_function (option) beep_player_local_buffer_blocking ::
  "(nat \<Rightarrow> ('d, 's) player_local \<Rightarrow> ('d, 's) player_local option) \<Rightarrow> nat \<Rightarrow> bytes \<Rightarrow> u32
   \<Rightarrow> ('d, 's) player_local \<Rightarrow> (player_result \<times> ('d, 's) player_local) option" where
  "beep_player_local_buffer_blocking others k data len pl = do {
     (res, pl) \<leftarrow> beep_player_local_buffer data len pl;
     if res = BEEP_PLAYER_STOPPED \<or> res = BEEP_PLAYER_OK then Some (res, pl)
     else do {
       pl \<leftarrow> others k pl;
       beep_player_local_buffer_blocking others (Suc k) data len pl } }"

definition beep_player_local_flush :: "u32 \<Rightarrow> ('d, 's) player_local \<Rightarrow> ('d, 's) player_local option" where
  "beep_player_local_flush cookie pl = do {
     let pl = beep_player_local_lock pl;
     pl \<leftarrow> on_sbuf streambuf_flush pl;
     pl \<leftarrow> on_audio (audio_decoder_flush cookie) pl;
     beep_player_local_unlock pl }"

section \<open>Starting and stopping\<close>

definition beep_player_local_start :: "('d, 's) player_local \<Rightarrow> (player_result \<times> ('d, 's) player_local) option" where
  "beep_player_local_start pl = do {
     let pl = beep_player_local_lock pl;
     answer BEEP_PLAYER_OK (pl\<lparr>started := True\<rparr>) }"

text \<open>Waiting, with the lock of the player, until the decoder thread has stopped.\<close>

partial_function (option) stop_wait ::
  "(nat \<Rightarrow> u64) \<Rightarrow> (nat \<Rightarrow> 'd audio \<Rightarrow> 'd audio option) \<Rightarrow> nat \<Rightarrow> ('d, 's) player_local \<Rightarrow> ('d, 's) player_local option" where
  "stop_wait now others k pl = do {
     (status, pl) \<leftarrow> player_audio_status (now k) pl;
     if decode_state status = 0 \<and> status_tracks_started status = 0 then Some pl
     else do {
       pl \<leftarrow> on_audio (others k) pl;
       stop_wait now others (Suc k) pl } }"

definition beep_player_local_stop ::
  "(nat \<Rightarrow> u64) \<Rightarrow> (nat \<Rightarrow> 'd audio \<Rightarrow> 'd audio option) \<Rightarrow> u32 \<Rightarrow> ('d, 's) player_local \<Rightarrow> (player_result \<times> ('d, 's) player_local) option" where
  "beep_player_local_stop now others cookie pl = do {
     pl \<leftarrow> on_audio (audio_pause 0) pl;
     let pl = beep_player_local_lock pl;
     let pl = pl\<lparr>started := False, tracks_started := 0\<rparr>;
     pl \<leftarrow> on_audio (audio_decoder_stop cookie) pl;
     pl \<leftarrow> stop_wait now others 0 pl;
     pl \<leftarrow> on_sbuf (\<lambda>sb. Some (streambuf_set_streaming False sb)) pl;
     pl \<leftarrow> on_sbuf streambuf_flush pl;
     answer BEEP_PLAYER_OK pl }"

definition beep_player_local_pause :: "('d, 's) player_local \<Rightarrow> (player_result \<times> ('d, 's) player_local) option" where
  "beep_player_local_pause pl = do { pl \<leftarrow> on_audio (audio_pause 0) pl; Some (BEEP_PLAYER_OK, pl) }"

definition beep_player_local_resume :: "u64 \<Rightarrow> ('d, 's) player_local \<Rightarrow> (player_result \<times> ('d, 's) player_local) option" where
  "beep_player_local_resume millis pl = do { pl \<leftarrow> on_audio (audio_resume millis) pl; Some (BEEP_PLAYER_OK, pl) }"

definition beep_player_local_skip_ahead :: "u32 \<Rightarrow> ('d, 's) player_local \<Rightarrow> (player_result \<times> ('d, 's) player_local) option" where
  "beep_player_local_skip_ahead interval_us pl = do { pl \<leftarrow> on_audio (audio_skip_ahead interval_us) pl; Some (BEEP_PLAYER_OK, pl) }"

definition beep_player_local_set_volume :: "32 word \<Rightarrow> ('d, 's) player_local \<Rightarrow> (player_result \<times> ('d, 's) player_local) option" where
  "beep_player_local_set_volume gain pl = do {
     pl \<leftarrow> on_audio (\<lambda>a. map_option snd (audio_gain gain a)) pl; Some (BEEP_PLAYER_OK, pl) }"

definition beep_player_local_adjust_volume :: "32 word \<Rightarrow> ('d, 's) player_local \<Rightarrow> (player_result \<times> ('d, 's) player_local) option" where
  "beep_player_local_adjust_volume gain pl = do {
     pl \<leftarrow> on_audio (\<lambda>a. map_option snd (audio_adjust_gain gain a)) pl; Some (BEEP_PLAYER_OK, pl) }"

definition beep_player_local_shutdown :: "('d, 's) player_local \<Rightarrow> (player_result \<times> ('d, 's) player_local) option" where
  "beep_player_local_shutdown pl = do {
     let pl = beep_player_local_lock pl;
     answer BEEP_PLAYER_OK (pl\<lparr>stop_thread := True\<rparr>) }"

section \<open>Status\<close>

record beep_player_status =
  status_fetch_error :: bool
  ps_num_tracks_started :: u32
  ps_output_size :: u32
  ps_output_used :: u32
  ps_streambuf_size :: u32
  ps_streambuf_used :: u32
  ps_can_prepare_decoder :: bool
  ps_written_track_time :: u32
  ps_sync_played_time :: u32
  ps_sync_timestamp :: u32
  ps_gain :: "32 word"
  ps_play_cookie :: u32
  ps_bitrate :: u32

definition beep_player_local_status :: "u64 \<Rightarrow> u64 \<Rightarrow> ('d, 's) player_local \<Rightarrow> (beep_player_status \<times> ('d, 's) player_local) option" where
  "beep_player_local_status now now2 pl = do {
     let pl = beep_player_local_lock pl;
     (s, pl) \<leftarrow> player_audio_status now pl;
     (can, pl) \<leftarrow> beep_player_local_can_prepare_decoder now2 pl;
     pl \<leftarrow> beep_player_local_unlock pl;
     Some (\<lparr>status_fetch_error = False, ps_num_tracks_started = status_tracks_started s, ps_output_size = output_size s, ps_output_used = output_used s,
       ps_streambuf_size = status_streambuf_size s, ps_streambuf_used = status_streambuf_used s, ps_can_prepare_decoder = can,
       ps_written_track_time = written_track_time s, ps_sync_played_time = sync_played_time s,
       ps_sync_timestamp = ucast (status_sync_timestamp s), ps_gain = status_gain s, ps_play_cookie = status_play_cookie s,
       ps_bitrate = status_bitrate s\<rparr>, pl) }"

section \<open>Handing over the stream\<close>

definition sync_result :: "int \<Rightarrow> player_result" where
  "sync_result r = (if r = 0 then BEEP_PLAYER_OK else if r = 1 then BEEP_PLAYER_AGAIN else BEEP_PLAYER_ERROR)"

definition beep_player_local_prepare_sync_to :: "bool \<Rightarrow> ('d, 's) player_local \<Rightarrow> (player_result \<times> ('d, 's) player_local) option" where
  "beep_player_local_prepare_sync_to start_sync pl = do {
     let pl = beep_player_local_lock pl;
     pl \<leftarrow> on_audio (audio_prepare_sync_to start_sync) pl;
     answer BEEP_PLAYER_OK (pl\<lparr>syncing := start_sync\<rparr>) }"

definition beep_player_local_sync_state_send ::
  "bytes \<Rightarrow> u32 \<Rightarrow> ('d, 's) player_local \<Rightarrow> ((player_result \<times> u32 \<times> bytes) \<times> ('d, 's) player_local) option" where
  "beep_player_local_sync_state_send buf len pl = do {
     let pl = beep_player_local_lock pl;
     ((ret, len, buf), pl) \<leftarrow> (if syncing pl then do {
         ((r, len, buf), a) \<leftarrow> audio_sync_state_send buf len (pl_audio pl);
         Some ((sync_result r, len, buf), pl\<lparr>pl_audio := a\<rparr>) }
       else Some ((BEEP_PLAYER_ERROR, len, buf), pl));
     pl \<leftarrow> beep_player_local_unlock pl;
     Some ((ret, len, buf), pl) }"

definition beep_player_local_prepare_sync_wait :: "bool \<Rightarrow> ('d, 's) player_local \<Rightarrow> (player_result \<times> ('d, 's) player_local) option" where
  "beep_player_local_prepare_sync_wait start_sync pl = do {
     let pl = beep_player_local_lock pl;
     pl \<leftarrow> on_audio (audio_prepare_sync_wait start_sync) pl;
     answer BEEP_PLAYER_OK (pl\<lparr>syncing := start_sync\<rparr>) }"

definition beep_player_local_sync_state_recv :: "bytes \<Rightarrow> u32 \<Rightarrow> ('d, 's) player_local \<Rightarrow> (player_result \<times> ('d, 's) player_local) option" where
  "beep_player_local_sync_state_recv buf len pl = do {
     let pl = beep_player_local_lock pl;
     (ret, pl) \<leftarrow> (if syncing pl then do {
         (r, a) \<leftarrow> audio_sync_state_recv buf len (pl_audio pl);
         Some (sync_result r, pl\<lparr>pl_audio := a\<rparr>) }
       else Some (BEEP_PLAYER_ERROR, pl));
     answer ret pl }"

section \<open>The thread that reports songs\<close>

text \<open>The songs of the calls back, as many as tracks were started; without a song it is \<open>NULL\<close>.\<close>

fun started_songs :: "nat \<Rightarrow> 's list \<Rightarrow> 's option list \<times> 's list" where
  "started_songs 0 q = ([], q)"
| "started_songs (Suc n) q = (let (song, q) = qDeque q; (songs, q) = started_songs n q in (song # songs, q))"

text \<open>One turn: whether the thread goes on, and the songs it reports.\<close>

definition beep_player_notify_turn :: "u64 \<Rightarrow> ('d, 's) player_local \<Rightarrow> ((bool \<times> 's option list) \<times> ('d, 's) player_local) option" where
  "beep_player_notify_turn now pl = do {
     let pl = beep_player_local_lock pl;
     if stop_thread pl then do { pl \<leftarrow> beep_player_local_unlock pl; Some ((False, []), pl) }
     else do {
       (status, pl) \<leftarrow> player_audio_status now pl;
       let n = status_tracks_started status;
       let (songs, pl) = (if n > tracks_started pl
         then let (songs, q) = started_songs (unat n - unat (tracks_started pl)) (pending_tracks pl)
              in (songs, pl\<lparr>pending_tracks := q, tracks_started := n\<rparr>)
         else ([], pl));
       pl \<leftarrow> beep_player_local_unlock pl;
       Some ((True, songs), pl) } }"

text \<open>\<open>a\<close> is the audio library after \<open>audio_init\<close>.\<close>

definition beep_player_local_init :: "32 word \<Rightarrow> 'd audio \<Rightarrow> ('d, 's) player_local option" where
  "beep_player_local_init gain a = do {
     (r, a) \<leftarrow> audio_gain gain a;
     Some \<lparr>pl_audio = a, stop_thread = False, pl_locked = False, started = False, syncing = False, pending_tracks = [],
       tracks_started = 0\<rparr> }"

lemma beep_player_simps [simp]:
  "ASSERT_PLAYER_LOCAL_LOCKED (beep_player_local_lock pl) = Some ()" "pl_audio (beep_player_local_lock pl) = pl_audio pl"
  "started (beep_player_local_lock pl) = started pl" "pl_locked (beep_player_local_lock pl)"
  by (simp_all add: ASSERT_PLAYER_LOCAL_LOCKED_def beep_player_local_lock_def)

lemma answer_locked: "pl_locked pl \<Longrightarrow> answer r pl = Some (r, pl\<lparr>pl_locked := False\<rparr>)"
  by (simp add: answer_def beep_player_local_unlock_def ASSERT_PLAYER_LOCAL_LOCKED_def)

text \<open>A stopped player takes nothing.\<close>

lemma stopped_player:
  assumes "\<not> started pl"
  shows "beep_player_local_buffer data len pl = Some (BEEP_PLAYER_STOPPED, pl\<lparr>pl_locked := False\<rparr>)"
    "beep_player_local_st_begin now m song pl = Some (BEEP_PLAYER_STOPPED, pl\<lparr>pl_locked := False\<rparr>)"
    "beep_player_local_st_end pl = Some (BEEP_PLAYER_STOPPED, pl\<lparr>pl_locked := False\<rparr>)"
  using assms
  by (simp_all add: beep_player_local_buffer_def beep_player_local_st_begin_def beep_player_local_st_end_def beep_player_local_can_buffer_def
      beep_player_local_can_prepare_def answer_locked Let_def) (simp_all add: beep_player_local_lock_def)

text \<open>Songs are reported in the order of their tracks, each once.\<close>

lemma started_songs_prefix:
  "n \<le> length q \<Longrightarrow> started_songs n q = (map Some (take n q), drop n q)"
  by (induction n q rule: started_songs.induct) (auto simp: Let_def neq_Nil_conv Suc_le_length_iff)

end
