(* ===== verification/Audio_Playing.thy ===== *)
theory Audio_Playing
  imports Audio_Path Audio_Player
begin

text \<open>
  The audio path as a whole: what the playback process sends to the device over any sequence of
  calls of the player, turns of the decoder thread and periods, and the state in which a PCM track
  plays.
\<close>

section \<open>Buffering, decoding and playing in any order\<close>

text \<open>
  A client buffers data, the decoder thread takes a turn, the playback process takes a turn at some
  time and with some sync values of the driver. The playback process has its own state and its
  buffer of one period.
\<close>

datatype path_op = Path_buffer bytes | Path_decode | Path_play u64 "u32 \<times> u64"

datatype path_out = Answer player_result | Turned | Period bytes

type_synonym 's path_state = "(decode_pcm, 's) player_local \<times> decode_i2s \<times> bytes"

fun path_call :: "decode_pcm decode_module list \<Rightarrow> path_op \<Rightarrow> 's path_state \<Rightarrow> (path_out \<times> 's path_state) option" where
  "path_call ds (Path_buffer xs) (pl, i, buf) = do {
     (r, pl) \<leftarrow> beep_player_local_buffer xs (of_nat (length xs)) pl;
     Some (Answer r, pl, i, buf) }"
| "path_call ds Path_decode (pl, i, buf) = do {
     pl \<leftarrow> on_audio (audio_decode_thread_turn no_command ds) pl;
     Some (Turned, pl, i, buf) }"
| "path_call ds (Path_play now sync) (pl, i, buf) = do {
     let a = pl_audio pl;
     ((buf, do_open), da) \<leftarrow> audio_thread_turn now sync i (decode_fifo_buf (player a)) buf (decode_audio (player a));
     i \<leftarrow> (if do_open then pcm_open True da i else Some i);
     Some (Period buf, pl\<lparr>pl_audio := a\<lparr>player := (player a)\<lparr>decode_audio := da\<rparr>\<rparr>\<rparr>, i, buf) }"

text \<open>The bytes in the stream, left over in the decoder, and in the output ring.\<close>

type_synonym path_bytes = "bytes \<times> bytes \<times> bytes"

fun path_spec :: "path_op \<Rightarrow> path_bytes \<Rightarrow> path_out \<times> path_bytes" where
  "path_spec (Path_buffer xs) (q, l, r) =
     (if length xs + length q < stream_cap then (Answer BEEP_PLAYER_OK, q @ xs, l, r) else (Answer BEEP_PLAYER_AGAIN, q, l, r))"
| "path_spec Path_decode b = (Turned, pcm_turn b)"
| "path_spec (Path_play now sync) (q, l, r) =
     (let k = min 192 (length r div 4) in (Period (take (4 * k) r @ replicate (768 - 4 * k) 0), q, l, drop (4 * k) r))"

text \<open>Data has a size of 32 bits.\<close>

fun path_pre :: "path_op \<Rightarrow> path_bytes \<Rightarrow> bool" where
  "path_pre (Path_buffer xs) b = (length xs < 2 ^ 32)"
| "path_pre _ b = True"

fun path_inv :: "'s path_state \<Rightarrow> path_bytes \<Rightarrow> bool" where
  "path_inv (pl, i, buf) (q, l, r) = (thread_rel (pl_audio pl) q l r \<and> started pl \<and> period_size i = 192 \<and> length buf = 768)"

lemma thread_rel_sbuf_unlock:
  assumes "thread_rel a q l r" "sbuf (player a) = sb"
  shows "thread_rel (set_sbuf (sb\<lparr>streambuf_fifo := (streambuf_fifo sb)\<lparr>lock := False\<rparr>\<rparr>) a) q l r"
  using assms by (auto simp: thread_rel_def path_rel_def set_sbuf_def plain_def out_ring_def)

lemma wakeup_path:
  assumes "thread_rel a q l r"
  shows "\<exists>a'. audio_wakeup_decode_thread a = Some a' \<and> thread_rel a' q l r"
  using assms
  by (auto simp: audio_wakeup_decode_thread_def fifo_signal_def fifo_lock_def fifo_unlock_def thread_rel_def mq_ok_def mq_held_def mq_ring_def
      fifo2_ok_def fifo2_fresh_def ASSERT_FIFO_LOCKED_def Let_def)

lemma buffer_path:
  assumes "thread_rel (pl_audio pl) q l r" "started pl" "length xs < 2 ^ 32"
  shows "\<exists>pl'. beep_player_local_buffer xs (of_nat (length xs)) pl
      = Some (if length xs + length q < stream_cap then BEEP_PLAYER_OK else BEEP_PLAYER_AGAIN, pl')
    \<and> thread_rel (pl_audio pl') (if length xs + length q < stream_cap then q @ xs else q) l r \<and> started pl'"
proof -
  let ?sb = "sbuf (player (pl_audio pl))"
  let ?a = "set_sbuf (?sb\<lparr>streambuf_fifo := (streambuf_fifo ?sb)\<lparr>lock := False\<rparr>\<rparr>) (pl_audio pl)"
  have rel: "stream_rel ?sb (data_stream q)" using assms(1) by (simp add: thread_rel_def path_rel_def)
  have cap: "length q < stream_cap" using stream_relD(8) [OF rel] by (simp add: data_stream_def unread_def)
  have "streambuf_allow_writes ?sb" using rel by (simp add: stream_rel_def flag_rel_def data_stream_def)
  then have free: "streambuf_get_freebytes ?sb = Some (of_nat (stream_cap - 1 - length q), ?sb\<lparr>streambuf_fifo := (streambuf_fifo ?sb)\<lparr>lock := False\<rparr>\<rparr>)"
    using stream_free [OF rel] by (simp add: streambuf_get_freebytes_def data_stream_def unread_def Let_def sb_lock_def fifo2_lock_def)
  have n: "unat (of_nat (length xs) :: u32) = length xs" using assms(3) by (rule unat_length)
  have "unat (of_nat (stream_cap - 1 - length q) :: u32) = stream_cap - 1 - length q" by (rule unat_of_nat_cap) (simp add: stream_cap_def)
  then have le: "of_nat (length xs) \<le> (of_nat (stream_cap - 1 - length q) :: u32) \<longleftrightarrow> length xs + length q < stream_cap"
    unfolding word_le_nat_alt n using cap by auto
  have a: "thread_rel ?a q l r" using thread_rel_sbuf_unlock [OF assms(1) refl] .
  let ?pl = "(beep_player_local_lock pl)\<lparr>pl_audio := ?a\<rparr>"
  have can: "beep_player_local_can_buffer (of_nat (length xs)) (beep_player_local_lock pl)
      = Some (if length xs + length q < stream_cap then BEEP_PLAYER_OK else BEEP_PLAYER_AGAIN, ?pl)"
    using assms(2) free le by (simp add: beep_player_local_can_buffer_def)
  show ?thesis
  proof (cases "length xs + length q < stream_cap")
    case True
    obtain sb where sb: "streambuf_feed xs (of_nat (length xs)) (sbuf (player ?a)) = Some sb" "thread_rel (set_sbuf sb ?a) (q @ xs) l r"
      using feed_path [OF a True] by blast
    obtain a' where a': "audio_wakeup_decode_thread (set_sbuf sb ?a) = Some a'" "thread_rel a' (q @ xs) l r" using wakeup_path [OF sb(2)] by blast
    have "beep_player_local_buffer xs (of_nat (length xs)) pl = answer BEEP_PLAYER_OK (?pl\<lparr>pl_audio := a'\<rparr>)"
      using can True sb(1) a'(1) by (simp add: beep_player_local_buffer_def on_sbuf_def on_audio_def Let_def)
    then show ?thesis using a'(2) True assms(2) by (simp add: answer_locked)
  next
    case False
    then have "beep_player_local_buffer xs (of_nat (length xs)) pl = answer BEEP_PLAYER_AGAIN ?pl"
      using can by (simp add: beep_player_local_buffer_def Let_def)
    then show ?thesis using a False assms(2) by (simp add: answer_locked)
  qed
qed

lemma path_call_refines:
  assumes "path_inv c b" "path_pre x b"
  shows "\<exists>c'. path_call ds x c = Some (fst (path_spec x b), c') \<and> path_inv c' (snd (path_spec x b))"
proof -
  obtain pl i buf q l r where c: "c = (pl, i, buf)" "b = (q, l, r)" by (metis prod_cases3)
  have rel: "thread_rel (pl_audio pl) q l r" "period_size i = 192" "length buf = 768" "started pl" using assms(1) c by auto
  show ?thesis
  proof (cases x)
    case (Path_buffer xs)
    then have "length xs < 2 ^ 32" using assms(2) by simp
    from buffer_path [OF rel(1,4) this] obtain pl' where
      "beep_player_local_buffer xs (of_nat (length xs)) pl = Some (if length xs + length q < stream_cap then BEEP_PLAYER_OK else BEEP_PLAYER_AGAIN, pl')"
      "thread_rel (pl_audio pl') (if length xs + length q < stream_cap then q @ xs else q) l r" "started pl'" by blast
    then show ?thesis using Path_buffer rel c by (cases "length xs + length q < stream_cap") simp_all
  next
    case Path_decode
    obtain q' l' r' where t: "pcm_turn (q, l, r) = (q', l', r')" by (metis prod_cases3)
    then show ?thesis using thread_turn_pcm [OF rel(1) t, of ds] Path_decode rel c by (auto simp: on_audio_def)
  next
    case (Path_play now sync)
    let ?k = "min 192 (length r div 4)" and ?a = "pl_audio pl"
    have p: "path_rel (player ?a) q r" using rel(1) by (simp add: thread_rel_def)
    obtain do_open da where t: "audio_thread_turn now sync i (decode_fifo_buf (player ?a)) buf (decode_audio (player ?a))
        = Some ((take (4 * ?k) r @ replicate (768 - 4 * ?k) 0, do_open), da)" "path_rel ((player ?a)\<lparr>decode_audio := da\<rparr>) q (drop (4 * ?k) r)"
      using play_path [OF p rel(3,2) refl] by blast
    have "length (take (4 * ?k) r @ replicate (768 - 4 * ?k) (0 :: u8)) = 768" by auto
    then show ?thesis using t rel c Path_play
      by (cases do_open) (simp_all add: Let_def pcm_open_def thread_rel_def)
  qed
qed

interpretation pp: call_refinement path_inv "path_call ds" path_spec path_pre for ds
  by unfold_locales (rule path_call_refines)

section \<open>Waiting for room\<close>

text \<open>While a client sleeps the decoder thread takes a turn and the playback process plays a period.\<close>

definition device_round ::
  "decode_pcm decode_module list \<Rightarrow> (nat \<Rightarrow> u64 \<times> (u32 \<times> u64) \<times> decode_i2s \<times> bytes) \<Rightarrow> nat \<Rightarrow> (decode_pcm, 's) player_local \<Rightarrow> (decode_pcm, 's) player_local option" where
  "device_round ds dev k pl = do {
     (out, pl, i, buf) \<leftarrow> path_call ds Path_decode (pl, snd (snd (dev k)));
     (out, pl, i, buf) \<leftarrow> path_call ds (Path_play (fst (dev k)) (fst (snd (dev k)))) (pl, i, buf);
     Some pl }"

definition dev_ok :: "(nat \<Rightarrow> u64 \<times> (u32 \<times> u64) \<times> decode_i2s \<times> bytes) \<Rightarrow> bool" where
  "dev_ok dev \<longleftrightarrow> (\<forall>k. period_size (fst (snd (snd (dev k)))) = 192 \<and> length (snd (snd (snd (dev k)))) = 768)"

text \<open>What is buffered and not yet played, the unread stream counted more than what was decoded.\<close>

definition backlog :: "bytes \<Rightarrow> bytes \<Rightarrow> nat" where
  "backlog q r = 5 * length q + length r"

lemma turn_backlog:
  assumes "pcm_turn (q, l, r) = (q', l', r')" "length l < 4" "q \<noteq> []" "k = min 192 (length r' div 4)"
  shows "backlog q' (drop (4 * k) r') < backlog q r"
proof (cases "32768 + 2 * length r + 1 < unat DECODE_FIFO_SIZE")
  case True
  define n where "n = min (4096 - length l) (length q)"
  define t where "t = l @ take n q"
  define m where "m = 4 * (length t div 4)"
  have c: "q \<noteq> [] \<and> 32768 + 2 * length r + 1 < unat DECODE_FIFO_SIZE" using True assms(3) by blast
  have e: "q' = drop n q" "r' = r @ take m t"
    using assms(1) unfolding pcm_turn.simps if_P [OF c] Let_def n_def [symmetric] t_def [symmetric] m_def [symmetric] by blast+
  have n: "0 < n" "n \<le> length q" using assms(2,3) by (auto simp: n_def)
  have "length t = length l + n" using n by (simp add: t_def)
  then have "length r' \<le> length r + length l + n" using e(2) by simp
  moreover have "length q' + n = length q" using e(1) n by simp
  ultimately show ?thesis using n(1) assms(2) by (simp add: backlog_def)
next
  case False
  have c: "\<not> (q \<noteq> [] \<and> 32768 + 2 * length r + 1 < unat DECODE_FIFO_SIZE)" using False by blast
  have e: "q' = q" "r' = r" using assms(1) unfolding pcm_turn.simps if_not_P [OF c] by blast+
  have "0 < k" "4 \<le> length r" using False assms(4) e by simp_all
  then show ?thesis using e by (simp add: backlog_def)
qed

lemma pcm_turn_keeps:
  assumes "pcm_turn (q, l, r) = (q', l', r')"
  shows "r @ l @ q = r' @ l' @ q'"
proof (cases "q \<noteq> [] \<and> 32768 + 2 * length r + 1 < unat DECODE_FIFO_SIZE")
  case True
  define n where "n = min (4096 - length l) (length q)"
  define t where "t = l @ take n q"
  define m where "m = 4 * (length t div 4)"
  have e: "q' = drop n q" "l' = drop m t" "r' = r @ take m t"
    using assms unfolding pcm_turn.simps if_P [OF True] Let_def n_def [symmetric] t_def [symmetric] m_def [symmetric] by blast+
  have "take m t @ drop m t @ drop n q = t @ drop n q" by (simp only: append_take_drop_id flip: append.assoc)
  then have "r' @ l' @ q' = r @ t @ drop n q" unfolding e append.assoc by (rule arg_cong)
  then show ?thesis unfolding t_def by simp
qed (use assms in auto)

lemma round_path:
  assumes "thread_rel (pl_audio pl) q l r" "started pl" "dev_ok dev"
  shows "\<exists>pl' q' l' r'. device_round ds dev k pl = Some pl' \<and> thread_rel (pl_audio pl') q' l' r' \<and> started pl'
    \<and> (q \<noteq> [] \<longrightarrow> backlog q' r' < backlog q r) \<and> (\<exists>y. r @ l @ q = y @ r' @ l' @ q')"
proof -
  obtain now sync i buf where dev: "dev k = (now, sync, i, buf)" by (metis prod_cases4)
  have "period_size (fst (snd (snd (dev k)))) = 192" "length (snd (snd (snd (dev k)))) = 768" using assms(3) unfolding dev_ok_def by blast+
  then have inv: "path_inv (pl, i, buf) (q, l, r)" using assms(1,2) dev by simp
  obtain q1 l1 r1 where t: "pcm_turn (q, l, r) = (q1, l1, r1)" by (metis prod_cases3)
  obtain pl1 i1 buf1 where c1: "path_call ds Path_decode (pl, i, buf) = Some (Turned, pl1, i1, buf1)" "path_inv (pl1, i1, buf1) (q1, l1, r1)"
    using path_call_refines [OF inv, of Path_decode ds] t by auto
  let ?k = "min 192 (length r1 div 4)"
  obtain out2 pl2 i2 buf2 where c2: "path_call ds (Path_play now sync) (pl1, i1, buf1) = Some (out2, pl2, i2, buf2)"
      "path_inv (pl2, i2, buf2) (q1, l1, drop (4 * ?k) r1)"
    using path_call_refines [OF c1(2), of "Path_play now sync" ds] by (auto simp: Let_def simp del: path_call.simps)
  have "device_round ds dev k pl = Some pl2" using c1(1) c2(1) dev by (simp add: device_round_def del: path_call.simps)
  moreover have "length l < 4" using assms(1) by (auto simp: thread_rel_def pcm_ok_def)
  then have "q \<noteq> [] \<longrightarrow> backlog q1 (drop (4 * ?k) r1) < backlog q r" using turn_backlog [OF t] by blast
  moreover have "r @ l @ q = take (4 * ?k) r1 @ drop (4 * ?k) r1 @ l1 @ q1" using pcm_turn_keeps [OF t] by simp
  ultimately show ?thesis using c2(2) by auto
qed

lemma buffer_blocking_ok:
  assumes "thread_rel (pl_audio pl) q l r" "started pl" "dev_ok dev" "length xs < stream_cap"
  shows "\<exists>pl' q' l' r'. beep_player_local_buffer_blocking (device_round ds dev) k xs (of_nat (length xs)) pl = Some (BEEP_PLAYER_OK, pl')
    \<and> thread_rel (pl_audio pl') (q' @ xs) l' r' \<and> started pl' \<and> (\<exists>y. r @ l @ q = y @ r' @ l' @ q')"
  using assms(1,2)
proof (induction "backlog q r" arbitrary: pl q l r k rule: less_induct)
  case less
  have len: "length xs < 2 ^ 32" using assms(4) by (simp add: stream_cap_def)
  let ?b = "length xs + length q < stream_cap"
  obtain pl1 where b: "beep_player_local_buffer xs (of_nat (length xs)) pl = Some (if ?b then BEEP_PLAYER_OK else BEEP_PLAYER_AGAIN, pl1)"
      "thread_rel (pl_audio pl1) (if ?b then q @ xs else q) l r" "started pl1"
    using buffer_path [OF less.prems len] by blast
  show ?case
  proof (cases ?b)
    case True
    then show ?thesis using b by (subst beep_player_local_buffer_blocking.simps) force
  next
    case False
    then have q: "q \<noteq> []" "thread_rel (pl_audio pl1) q l r" using assms(4) b(2) by auto
    obtain pl2 q2 l2 r2 where r: "device_round ds dev k pl1 = Some pl2" "thread_rel (pl_audio pl2) q2 l2 r2" "started pl2" "backlog q2 r2 < backlog q r"
        and y: "\<exists>y. r @ l @ q = y @ r2 @ l2 @ q2"
      using round_path [OF q(2) b(3) assms(3), of ds k] q(1) by blast
    have "beep_player_local_buffer_blocking (device_round ds dev) k xs (of_nat (length xs)) pl
        = beep_player_local_buffer_blocking (device_round ds dev) (Suc k) xs (of_nat (length xs)) pl2"
      using b(1) r(1) False by (subst beep_player_local_buffer_blocking.simps) simp
    moreover from less.hyps [OF r(4,2,3), of "Suc k"] obtain pl' q' l' r' z where
      "beep_player_local_buffer_blocking (device_round ds dev) (Suc k) xs (of_nat (length xs)) pl2 = Some (BEEP_PLAYER_OK, pl')"
      "thread_rel (pl_audio pl') (q' @ xs) l' r'" "started pl'" "r2 @ l2 @ q2 = z @ r' @ l' @ q'" by blast
    moreover have "\<exists>y. r @ l @ q = y @ z @ r' @ l' @ q'" using y calculation(5) by simp
    then have "\<exists>y. r @ l @ q = y @ r' @ l' @ q'" by (metis append.assoc)
    ultimately show ?thesis by auto
  qed
qed

section \<open>Nothing is lost\<close>

text \<open>The data that was accepted, and a period as bytes of the stream and silence after them.\<close>

fun accepted :: "path_op \<Rightarrow> path_out \<Rightarrow> bytes" where
  "accepted (Path_buffer xs) (Answer r) = (if r = BEEP_PLAYER_OK then xs else [])"
| "accepted _ _ = []"

fun silence_after :: "path_out \<Rightarrow> bytes \<Rightarrow> bool" where
  "silence_after (Period p) x = (p = x @ replicate (768 - length x) 0)"
| "silence_after _ x = (x = [])"

lemma path_spec_keeps:
  assumes "path_spec x (q, l, r) = (out, q', l', r')"
  shows "\<exists>y. silence_after out y \<and> r @ l @ q @ accepted x out = y @ r' @ l' @ q'"
proof (cases x)
  case (Path_buffer xs)
  then show ?thesis using assms by (auto split: if_splits)
next
  case Path_decode
  then have "pcm_turn (q, l, r) = (q', l', r')" "out = Turned" using assms by (simp_all del: pcm_turn.simps)
  moreover from this(1) have "r @ l @ q = r' @ l' @ q'" by (rule pcm_turn_keeps)
  ultimately have "r @ l @ q = r' @ l' @ q'" "out = Turned" by simp_all
  then show ?thesis using Path_decode by auto
next
  case (Path_play now sync)
  define k where "k = 4 * min 192 (length r div 4)"
  have "k \<le> length r" by (auto simp: k_def)
  moreover have "out = Period (take k r @ replicate (768 - k) 0)" "r' = drop k r" "l' = l" "q' = q"
    using assms unfolding Path_play path_spec.simps Let_def k_def [symmetric] by blast+
  ultimately have "silence_after out (take k r)" "r @ l @ q = take k r @ r' @ l' @ q'" by auto
  then show ?thesis using Path_play by auto
qed

lemma path_run_keeps:
  "spec_run path_spec ops (q, l, r) = (outs, q', l', r')
   \<Longrightarrow> \<exists>ys. list_all2 silence_after outs ys \<and> r @ l @ q @ concat (map2 accepted ops outs) = concat ys @ r' @ l' @ q'"
proof (induction ops arbitrary: q l r outs)
  case (Cons x ops)
  obtain out q1 l1 r1 where x: "path_spec x (q, l, r) = (out, q1, l1, r1)" by (metis prod_cases4)
  then obtain outs1 where outs: "spec_run path_spec ops (q1, l1, r1) = (outs1, q', l', r')" "outs = out # outs1"
    using Cons.prems by (auto simp: case_prod_unfold Let_def prod_eq_iff)
  obtain y where y: "silence_after out y" "r @ l @ q @ accepted x out = y @ r1 @ l1 @ q1" using path_spec_keeps [OF x] by blast
  obtain ys where "list_all2 silence_after outs1 ys" "r1 @ l1 @ q1 @ concat (map2 accepted ops outs1) = concat ys @ r' @ l' @ q'"
    using Cons.IH [OF outs(1)] by blast
  moreover have "r @ l @ q @ concat (map2 accepted (x # ops) outs) = y @ r1 @ l1 @ q1 @ concat (map2 accepted ops outs1)"
    using arg_cong [OF y(2), of "\<lambda>z. z @ concat (map2 accepted ops outs1)"] outs(2) by simp
  ultimately have "list_all2 silence_after outs (y # ys)" "r @ l @ q @ concat (map2 accepted (x # ops) outs) = concat (y # ys) @ r' @ l' @ q'"
    using outs(2) y(1) by simp_all
  then show ?case by blast
qed simp

section \<open>A PCM track that plays\<close>

text \<open>
  The buffers as they are set up at the start, a PCM decoder with its buffers, a stream that is
  open, and playback running at full gain.
\<close>

definition pcm_audio :: "fifo \<Rightarrow> mqueue \<Rightarrow> bytes \<Rightarrow> bytes \<Rightarrow> bytes \<Rightarrow> sample list \<Rightarrow> decode_pcm audio" where
  "pcm_audio f mq cmds ring rbuf wbuf =
     \<lparr>player = (player_globals ((streambuf_init streambuf_globals)\<lparr>streambuf_streaming := True\<rparr>)
         ((decode_init_buffers f)\<lparr>da_state := DECODE_STATE_RUNNING, lgain := FIXED_ONE, rgain := FIXED_ONE\<rparr>) ring)
         \<lparr>current_decoder_state := DECODE_STATE_RUNNING, decode_first_buffer := True\<rparr>,
      play_cookie = 0, decode_mqueue = mqueue_init mq cmds 512, decoder = Some (pcm_module rbuf wbuf),
      decoder_data = Some (decode_pcm_start rbuf wbuf), sync_state = SYNC_IDLE, restore_state_on_resume = False,
      current_track_discarded_samples = 0, current_track_jiffies = 0, sync_discarded_samples = 0,
      send_offset = 0, recv_offset = 0, recv_data_len = 0\<rparr>"

lemma mq_empty_ok:
  assumes "rptr (mq_fifo mq) = 0" "wptr (mq_fifo mq) = 0" "0 < fsize (mq_fifo mq)" "unat (fsize (mq_fifo mq)) \<le> 2 ^ 31"
    "length (mq_buffer mq) = unat (fsize (mq_fifo mq))"
  shows "mq_ok mq" "mq_held mq = []"
proof -
  have "queue_rel (fifo2_init (mq_ring mq) (mq_buffer mq) (fsize (mq_fifo mq))) (unat (fsize (mq_fifo mq)), [], [])"
    using fifo2_init_rel [OF assms(3-5)] .
  moreover have "fifo2_init (mq_ring mq) (mq_buffer mq) (fsize (mq_fifo mq)) = mq_ring mq"
    using assms(1,2) by (simp add: fifo2_init_def fifo_init_def mq_ring_def)
  ultimately show "mq_ok mq" "mq_held mq = []" by (simp_all add: queue_rel_def mq_ok_def mq_held_def)
qed

lemma pcm_audio_ok:
  assumes "length cmds = 512" "length ring = unat DECODE_FIFO_SIZE" "length rbuf = 4096" "length wbuf = 8192"
  shows "thread_rel (pcm_audio f mq cmds ring rbuf wbuf) [] [] []"
proof -
  let ?a = "pcm_audio f mq cmds ring rbuf wbuf"
  let ?sb = "(streambuf_init streambuf_globals)\<lparr>streambuf_streaming := True\<rparr>"
  have sb: "sbuf (player ?a) = ?sb" by (simp add: pcm_audio_def player_globals_def)
  have "stream_rel ?sb (data_stream [])"
    using streambuf_init_rel by (simp add: stream_rel_def stream_rel_simps data_stream_def empty_stream_def)
  moreover have "mq_ok (out_ring (player ?a))" "mq_held (out_ring (player ?a)) = []"
    using assms(2) by (auto intro!: mq_empty_ok simp: out_ring_def pcm_audio_def player_globals_def decode_init_buffers_def fifo_init_def)
  moreover have "mq_ok (decode_mqueue ?a)" "mq_held (decode_mqueue ?a) = []"
    using assms(1) by (auto intro!: mq_empty_ok simp: pcm_audio_def mqueue_init_def fifo_init_def)
  moreover have "mq_size (out_ring (player ?a)) = unat DECODE_FIFO_SIZE" "rptr (mq_fifo (out_ring (player ?a))) = 0"
    by (simp_all add: mq_size_def out_ring_def pcm_audio_def player_globals_def decode_init_buffers_def fifo_init_def)
  moreover have "plain (player ?a)" "play_ok (decode_audio (player ?a))"
    by (simp_all add: plain_def play_ok_def pcm_audio_def player_globals_def decode_init_buffers_def)
  moreover have "pcm_ok (decode_pcm_start rbuf wbuf) []" using assms(3,4) by (simp add: pcm_ok_def decode_pcm_start_def)
  ultimately show ?thesis
    unfolding thread_rel_def path_rel_def ring_ok_def sb
    by (auto simp: pcm_audio_def player_globals_def)
qed

text \<open>A player that was started.\<close>

definition playing_pcm :: "decode_pcm audio \<Rightarrow> (decode_pcm, 's) player_local" where
  "playing_pcm a = \<lparr>pl_audio = a, stop_thread = False, pl_locked = False, started = True, syncing = False, pending_tracks = [], tracks_started = 1\<rparr>"

end
