(* ===== verification/Audio_Sync.thy ===== *)
theory Audio_Sync
  imports Audio_Control Audio_Refine
begin

text \<open>
  Handing the stream of one device to another: the packets of \<open>audio_sync_state_send\<close> and
  \<open>audio_sync_state_recv\<close>, interleaved with the decoder of the sender, and what they leave in the
  stream buffer of the receiver.
\<close>

section \<open>Packets\<close>

datatype sync_step = Packet | Sender_call stream_call

type_synonym ('d, 'e) sync_pair = "'d audio \<times> 'e audio"

definition send_packet :: "u32 \<Rightarrow> ('d, 'e) sync_pair \<Rightarrow> (int \<times> ('d, 'e) sync_pair) option" where
  "send_packet len = (\<lambda>(a, b). do {
     ((r, size, buf), a) \<leftarrow> audio_sync_state_send (replicate (unat len) 0) len a;
     (r, b) \<leftarrow> audio_sync_state_recv buf size b;
     Some (r, a, b) })"

fun sync_call :: "u32 \<Rightarrow> sync_step \<Rightarrow> ('d, 'e) sync_pair \<Rightarrow> ((int + u32 \<times> bytes) \<times> ('d, 'e) sync_pair) option" where
  "sync_call len Packet ab = do { (r, ab) \<leftarrow> send_packet len ab; Some (Inl r, ab) }"
| "sync_call len (Sender_call x) (a, b) = do {
     (r, sb) \<leftarrow> streambuf_call x (sbuf (player a)); Some (Inr r, set_sbuf sb a, b) }"

text \<open>
  How far the receiver is. The calls of the sender's decoder go on meanwhile; what is in its buffer,
  read or not, stays the same because the buffer is frozen.
\<close>

datatype sync_progress = Begun | Described | Copied nat | Complete

definition contents :: "stream \<Rightarrow> bytes" where
  "contents st = old st @ unread st"

fun sync_spec :: "u32 \<Rightarrow> sync_step \<Rightarrow> sync_progress \<times> stream \<Rightarrow> (int + u32 \<times> bytes) \<times> sync_progress \<times> stream" where
  "sync_spec len Packet (Begun, st) = (Inl 1, Described, st)"
| "sync_spec len Packet (Described, st) = (Inl 1, Copied 0, st)"
| "sync_spec len Packet (Copied k, st) =
     (if k + unat len < length (contents st) then (Inl 1, Copied (k + unat len), st) else (Inl 0, Complete, st))"
| "sync_spec len Packet (Complete, st) = (Inl (- 1), Complete, st)"
| "sync_spec len (Sender_call x) (p, st) = (Inr (fst (stream_spec x st)), p, snd (stream_spec x st))"

fun decoder_call :: "stream_call \<Rightarrow> bool" where
  "decoder_call (Data_deq mn mx) = True"
| "decoder_call Cmd_ready = True"
| "decoder_call (Cmd_deq n) = True"
| "decoder_call (Sb_discard n data) = True"
| "decoder_call Freebytes = True"
| "decoder_call Data_usedbytes = True"
| "decoder_call _ = False"

text \<open>A packet has to take the description of the stream.\<close>

fun sync_pre :: "u32 \<Rightarrow> sync_step \<Rightarrow> sync_progress \<times> stream \<Rightarrow> bool" where
  "sync_pre len Packet (p, st) = (52 \<le> unat len \<and> unat len \<le> 2 ^ 31)"
| "sync_pre len (Sender_call x) (p, st) = (decoder_call x \<and> stream_pre x st)"

section \<open>The frozen buffer\<close>

lemma contents_kept:
  assumes "decoder_call x" "frozen st"
  shows "contents (snd (stream_spec x st)) = contents st" "marks (snd (stream_spec x st)) = marks st"
    "frozen (snd (stream_spec x st))" "closed (snd (stream_spec x st)) = closed st"
  using assms by (cases x; auto simp: contents_def unread_def Let_def split: list.splits)+

definition snapshot :: "streambuf \<Rightarrow> u32 list \<times> u32 \<times> u32 \<times> u32 \<times> u32 list" where
  "snapshot sb = (streambuf_slot_cnt_stale sb, streambuf_cmd_cnt_stale sb, eslot sb, sslot sb, streambuf_state_sync sb)"

lemma snapshot_simps [simp]:
  "snapshot (sb_lock sb) = snapshot sb" "snapshot (sb\<lparr>streambuf_fifo := f\<rparr>) = snapshot sb"
  "snapshot (sb\<lparr>streambuf_slot_cnt := c\<rparr>) = snapshot sb" "snapshot (sb\<lparr>dslot := s\<rparr>) = snapshot sb"
  "snapshot (sb\<lparr>streambuf_cmd_cnt := n\<rparr>) = snapshot sb" "snapshot (sb\<lparr>discard_data_on_thaw := n\<rparr>) = snapshot sb"
  "snapshot (sb\<lparr>discard_cmd_on_thaw := n\<rparr>) = snapshot sb"
  by (simp_all add: snapshot_def sb_lock_def)

lemma snapshot_unlock: "sb_unlock sb = Some sb' \<Longrightarrow> snapshot sb' = snapshot sb"
  by (auto simp: sb_unlock_def split: Option.bind_splits)

lemma snapshot_kept:
  assumes "streambuf_call x sb = Some (r, sb')" "decoder_call x" "\<not> streambuf_allow_discard sb"
  shows "snapshot sb' = snapshot sb"
  using assms
  by (cases x)
    (auto simp: streambuf_read_def streambuf_data_deq_def streambuf_cmd_ready_def streambuf_cmd_deq_def streambuf_discard_def
      streambuf_get_freebytes_def streambuf_get_data_usedbytes_def Let_def sb_lock_def dest!: snapshot_unlock
      split: Option.bind_splits if_splits)

text \<open>Players see a frozen buffer as full.\<close>

lemma frozen_status:
  assumes "stream_rel (sbuf (player a)) st" "closed st" "audio_status now a = Some (s, a')"
  shows "status_streambuf_used s = STREAMBUF_SIZE" "snapshot (sbuf (player a')) = snapshot (sbuf (player a))"
  using assms
  by (auto simp: audio_status_def streambuf_get_status_def stream_rel_def flag_rel_def Let_def sb_lock_def fifo2_lock_def decode_audio_lock_def
      decode_audio_unlock_def split: Option.bind_splits prod.splits)

section \<open>Numbers in packets\<close>

lemma u32_words_bytes [simp]: "u32_words (u32_bytes ws) = ws"
proof (induction ws)
  case (Cons w ws)
  have "of_be32 (be32 w) = w" by simp
  then show ?case using Cons by (simp add: u32_bytes_def be32_def)
qed (simp add: u32_bytes_def)

lemma length_u32_bytes [simp]: "length (u32_bytes ws) = 4 * length ws"
  by (induction ws) (simp_all add: u32_bytes_def)

lemma of_be64_be64 [simp]: "of_be64 (be64 w) = w"
proof -
  have "push_bit 32 (ucast (ucast (drop_bit 32 w) :: u32)) OR ucast (ucast w :: u32) = w"
    by (rule bit_word_eqI) (auto simp: bit_or_iff bit_push_bit_iff bit_ucast_iff bit_drop_bit_eq)
  then show ?thesis by (simp add: be64_def of_be64_def)
qed

lemma length_be64 [simp]: "length (be64 w) = 8"
  by (simp add: be64_def)

text \<open>Two arrays one behind the other in a packet.\<close>

lemma two_fields:
  assumes "length xs = m" "length ys = n" "m + n \<le> length buf"
  shows "get_at 0 m (put_at m ys (put_at 0 xs buf)) = xs" "get_at m n (put_at m ys (put_at 0 xs buf)) = ys"
  using assms by (simp_all add: get_at_def put_at_def)

section \<open>The relation\<close>

definition sender_ok :: "'d audio \<Rightarrow> stream \<Rightarrow> bool" where
  "sender_ok a st \<longleftrightarrow> (let sb = sbuf (player a) in stream_rel sb st \<and> frozen st \<and> contents st \<noteq> []
     \<and> streambuf_state_sync sb = [streambuf_cmd_cnt_stale sb, eslot sb, sslot sb, of_nat (length (contents st))])"

text \<open>The receiver has the description of the stream and its first bytes \<open>bs\<close>.\<close>

definition copy_ok :: "streambuf \<Rightarrow> streambuf \<Rightarrow> bytes \<Rightarrow> bool" where
  "copy_ok sa sb bs \<longleftrightarrow> fifo2_ok (streambuf_fifo sb) \<and> fsize (streambuf_fifo sb) = STREAMBUF_SIZE
     \<and> fifo2_stale (streambuf_fifo sb) = [] \<and> fifo2_fresh (streambuf_fifo sb) = bs
     \<and> streambuf_slot_cnt_stale sb = streambuf_slot_cnt_stale sa \<and> streambuf_state_sync sb = streambuf_state_sync sa
     \<and> \<not> streambuf_allow_auto_discard sb \<and> streambuf_allow_discard sb \<and> \<not> streambuf_allow_writes sb
     \<and> discard_data_on_thaw sb = 0 \<and> discard_cmd_on_thaw sb = 0"

definition waiting_ok :: "streambuf \<Rightarrow> bool" where
  "waiting_ok sb \<longleftrightarrow> (\<exists>st. stream_rel sb st \<and> closed st) \<and> length (streambuf_state_sync sb) = 4"

definition same_track :: "'d audio \<Rightarrow> 'e audio \<Rightarrow> bool" where
  "same_track a b \<longleftrightarrow> current_track_jiffies b = current_track_jiffies a \<and> sync_discarded_samples b = sync_discarded_samples a"

fun progress_ok :: "('d, 'e) sync_pair \<Rightarrow> sync_progress \<times> stream \<Rightarrow> bool" where
  "progress_ok (a, b) (Begun, st) = (sync_state a = SYNC_READY_SYNC_TO \<and> sync_state b = SYNC_READY_SYNC_WAIT \<and> waiting_ok (sbuf (player b)))"
| "progress_ok (a, b) (Described, st) = (sync_state a = SYNC_SEND_SB_STATE \<and> send_offset a = 0 \<and> sync_state b = SYNC_RECV_SB_STATE
     \<and> recv_offset b = 0 \<and> waiting_ok (sbuf (player b)) \<and> same_track a b)"
| "progress_ok (a, b) (Copied k, st) = (k < length (contents st) \<and> sync_state a = SYNC_SEND_SB_DATA \<and> send_offset a = of_nat k
     \<and> sync_state b = SYNC_RECV_SB_DATA \<and> recv_offset b = of_nat k \<and> recv_data_len b = of_nat (length (contents st))
     \<and> copy_ok (sbuf (player a)) (sbuf (player b)) (take k (contents st)) \<and> same_track a b \<and> restore_state_on_resume b)"
| "progress_ok (a, b) (Complete, st) = ((sync_state a = SYNC_SEND_DONE \<or> sync_state a = SYNC_SEND_SB_DATA \<and> send_offset a = of_nat (length (contents st)))
     \<and> sync_state b = SYNC_RECV_DONE \<and> copy_ok (sbuf (player a)) (sbuf (player b)) (contents st) \<and> same_track a b \<and> restore_state_on_resume b)"

text \<open>The sender keeps its position \<open>pos\<close> in the track.\<close>

definition sync_rel :: "u64 \<times> u64 \<Rightarrow> ('d, 'e) sync_pair \<Rightarrow> sync_progress \<times> stream \<Rightarrow> bool" where
  "sync_rel pos ab ps \<longleftrightarrow> sender_ok (fst ab) (snd ps) \<and> progress_ok ab ps
     \<and> current_track_jiffies (fst ab) = fst pos \<and> sync_discarded_samples (fst ab) = snd pos"

section \<open>Calls of the decoder\<close>

lemma decoder_call_sync:
  assumes "sync_rel pos (a, b) (p, st)" "decoder_call x" "stream_pre x st"
  shows "\<exists>ab. sync_call len (Sender_call x) (a, b) = Some (fst (sync_spec len (Sender_call x) (p, st)), ab)
    \<and> sync_rel pos ab (snd (sync_spec len (Sender_call x) (p, st)))"
proof -
  let ?st = "snd (stream_spec x st)"
  have s: "stream_rel (sbuf (player a)) st" "frozen st" using assms(1) by (simp_all add: sync_rel_def sender_ok_def Let_def)
  obtain sb where sb: "streambuf_call x (sbuf (player a)) = Some (fst (stream_spec x st), sb)" "stream_rel sb ?st"
    using streambuf_call_refines [OF s(1) assms(3)] by blast
  have "\<not> streambuf_allow_discard (sbuf (player a))" using s by (simp add: stream_rel_def flag_rel_def)
  then have same: "streambuf_slot_cnt_stale sb = streambuf_slot_cnt_stale (sbuf (player a))"
      "streambuf_state_sync sb = streambuf_state_sync (sbuf (player a))" "streambuf_cmd_cnt_stale sb = streambuf_cmd_cnt_stale (sbuf (player a))"
      "eslot sb = eslot (sbuf (player a))" "sslot sb = sslot (sbuf (player a))"
    using snapshot_kept [OF sb(1) assms(2)] by (simp_all add: snapshot_def)
  note kept = contents_kept [OF assms(2) s(2)]
  have "sender_ok (set_sbuf sb a) ?st" using assms(1) sb(2) same kept by (simp add: sync_rel_def sender_ok_def set_sbuf_def Let_def)
  moreover have "progress_ok (set_sbuf sb a, b) (p, ?st)"
    using assms(1) same kept(1) by (cases p) (simp_all add: sync_rel_def set_sbuf_def copy_ok_def same_track_def)
  ultimately show ?thesis using sb(1) assms(1) by (simp add: sync_rel_def set_sbuf_def)
qed

section \<open>The packets of the sender\<close>

lemma audio_locking [simp]:
  "player (lock_audio a) = decode_audio_lock (player a)" "sync_state (lock_audio a) = sync_state a"
  "unlock_audio a = (if lock (da_fifo (decode_audio (player a)))
     then Some (a\<lparr>player := decode_audio_update (da_fifo_update (\<lambda>f. f\<lparr>lock := False\<rparr>)) (player a)\<rparr>) else None)"
  by (simp_all add: lock_audio_def unlock_audio_def with_player_def decode_audio_unlock_def fifo_unlock_def ASSERT_FIFO_LOCKED_def)

lemma sync_read_data_ok:
  assumes "stream_rel sb st" "length buf = unat len" "unat len \<le> 2 ^ 31" "k \<le> length (contents st)" "n = min (unat len) (length (contents st) - k)"
  shows "streambuf_sync_read_data buf (of_nat k) len sb
      = Some ((of_nat n, put_at 0 (take n (drop k (contents st))) buf), sb\<lparr>streambuf_fifo := (streambuf_fifo sb)\<lparr>lock := False\<rparr>\<rparr>)"
proof -
  note d = stream_relD [OF assms(1)]
  let ?f = "(streambuf_fifo sb)\<lparr>lock := True\<rparr>"
  define t where "t = length (contents st)"
  have t: "t < stream_cap" "k \<le> t" using d(8) assms(4) by (simp_all add: t_def contents_def)
  have used: "fifo2_bytes_used ?f True = Some (of_nat t)" using d by (simp add: t_def contents_def)
  have k: "unat (of_nat k :: u32) = k" "unat (of_nat t :: u32) = t" using t by (simp_all add: unat_of_nat_cap)
  have sum: "unat (len + of_nat k) = unat len + k" using unat_add_lem [of len "of_nat k"] k assms(3) t by (simp add: stream_cap_def)
  have size: "(if (of_nat t :: u32) < len + of_nat k then of_nat t - of_nat k else len) = of_nat n"
  proof (cases "t < unat len + k")
    case True
    then have "n = t - k" using assms(5) by (auto simp: t_def)
    then show ?thesis using True t(2) by (simp add: word_less_nat_alt sum k of_nat_diff)
  next
    case False
    then have "n = unat len" using assms(5) by (auto simp: t_def)
    then show ?thesis using False by (simp add: word_less_nat_alt sum k)
  qed
  have n: "unat (of_nat n :: u32) = n" "k + n \<le> t" "n \<le> unat len" using t assms(5) by (auto simp: t_def intro!: unat_of_nat_cap)
  have zero: "(of_nat n :: u32) = 0 \<longleftrightarrow> n = 0" using n(1) unat_eq_zero [of "of_nat n :: u32"] by simp
  have "fifo2_read ?f (Some buf) (of_nat k) (of_nat n) True = Some (of_nat n, Some (put_at 0 (take n (drop k (contents st))) buf))"
    using fifo2_read_ok [of ?f "contents st" True "of_nat k" "of_nat n" buf] d n k(1) assms(2) by (simp add: t_def contents_def)
  then show ?thesis unfolding streambuf_sync_read_data_def Let_def fifo_of_lock used bind.simps(2) size
    by (cases "n = 0") (simp_all add: zero sb_lock_def fifo2_lock_def put_at_def)
qed

lemma send_track:
  assumes "sync_state a = SYNC_READY_SYNC_TO" "52 \<le> unat len" "length buf = unat len"
  shows "\<exists>a'. audio_sync_state_send buf len a
      = Some ((1, 16, put_at 8 (be64 (sync_discarded_samples a)) (put_at 0 (be64 (current_track_jiffies a)) buf)), a')
    \<and> sync_state a' = SYNC_SEND_SB_STATE \<and> send_offset a' = 0 \<and> sbuf (player a') = sbuf (player a) \<and> same_track a a'"
proof -
  have len: "len \<noteq> 0" "16 \<le> len" using assms(2) by (auto simp: word_le_nat_alt)
  then show ?thesis using assms
    by (simp add: audio_sync_state_send_def audio_sync_state_read_def ASSERT_AUDIO_LOCKED_def ASSERT_FIFO_LOCKED_def
        decode_audio_lock_def fifo_lock_def Let_def same_track_def lock_audio_def get_at_def)
qed

lemma send_description:
  assumes "sync_state a = SYNC_SEND_SB_STATE" "52 \<le> unat len" "length buf = unat len"
    "length (streambuf_slot_cnt_stale (sbuf (player a))) = 9" "length (streambuf_state_sync (sbuf (player a))) = 4"
  shows "\<exists>a'. audio_sync_state_send buf len a
      = Some ((1, 52, put_at 36 (u32_bytes (streambuf_state_sync (sbuf (player a)))) (put_at 0 (u32_bytes (streambuf_slot_cnt_stale (sbuf (player a)))) buf)), a')
    \<and> sync_state a' = SYNC_SEND_SB_DATA \<and> send_offset a' = send_offset a
    \<and> sbuf (player a') = (sbuf (player a))\<lparr>streambuf_fifo := (streambuf_fifo (sbuf (player a)))\<lparr>lock := False\<rparr>\<rparr> \<and> same_track a a'"
proof -
  have len: "len \<noteq> 0" "52 \<le> len" using assms(2) by (auto simp: word_le_nat_alt)
  then show ?thesis using assms
    by (simp add: audio_sync_state_send_def streambuf_sync_read_state_def set_sbuf_def sb_lock_def fifo2_lock_def
        decode_audio_lock_def fifo_lock_def Let_def same_track_def lock_audio_def get_at_def)
qed

lemma send_data:
  assumes "sync_state a = SYNC_SEND_SB_DATA" "52 \<le> unat len" "unat len \<le> 2 ^ 31" "length buf = unat len" "stream_rel (sbuf (player a)) st"
    "send_offset a = of_nat k" "k \<le> length (contents st)" "n = min (unat len) (length (contents st) - k)"
  shows "\<exists>a' r. audio_sync_state_send buf len a = Some ((r, of_nat n, put_at 0 (take n (drop k (contents st))) buf), a')
    \<and> sync_state a' = (if n = unat len then SYNC_SEND_SB_DATA else SYNC_SEND_DONE) \<and> send_offset a' = of_nat (k + n)
    \<and> sbuf (player a') = (sbuf (player a))\<lparr>streambuf_fifo := (streambuf_fifo (sbuf (player a)))\<lparr>lock := False\<rparr>\<rparr> \<and> same_track a a'"
proof -
  have len: "len \<noteq> 0" using assms(2) by auto
  have "n < stream_cap" using assms(8) stream_relD(8) [OF assms(5)] by (simp add: contents_def)
  from unat_of_nat_cap [OF this] have "(of_nat n :: u32) = len \<longleftrightarrow> n = unat len" by auto
  moreover have "streambuf_sync_read_data buf (of_nat k) len (sbuf (player a))
      = Some ((of_nat n, put_at 0 (take n (drop k (contents st))) buf), (sbuf (player a))\<lparr>streambuf_fifo := (streambuf_fifo (sbuf (player a)))\<lparr>lock := False\<rparr>\<rparr>)"
    by (rule sync_read_data_ok [OF assms(5,4,3,7,8)])
  ultimately show ?thesis using assms(1,6) len
    by (simp add: audio_sync_state_send_def set_sbuf_def decode_audio_lock_def fifo_lock_def Let_def same_track_def lock_audio_def)
qed

section \<open>The packets of the receiver\<close>

lemma recv_track:
  assumes "sync_state b = SYNC_READY_SYNC_WAIT" "16 \<le> length buf"
  shows "\<exists>b'. audio_sync_state_recv buf 16 b = Some (1, b') \<and> sync_state b' = SYNC_RECV_SB_STATE \<and> recv_offset b' = 0
    \<and> sbuf (player b') = sbuf (player b) \<and> current_track_jiffies b' = of_be64 (get_at 0 8 buf) \<and> sync_discarded_samples b' = of_be64 (get_at 8 8 buf)"
  using assms
  by (simp add: audio_sync_state_recv_def audio_sync_state_write_def ASSERT_AUDIO_LOCKED_def ASSERT_FIFO_LOCKED_def
      decode_audio_lock_def fifo_lock_def Let_def lock_audio_def get_at_def)

lemma recv_description:
  assumes "sync_state b = SYNC_RECV_SB_STATE" "52 \<le> length buf" "waiting_ok (sbuf (player b))"
    "get_at 0 36 buf = u32_bytes slots" "get_at 36 16 buf = u32_bytes ws" "length slots = 9" "length ws = 4" "ws ! 3 \<noteq> 0"
  shows "\<exists>b'. audio_sync_state_recv buf 52 b = Some (1, b') \<and> sync_state b' = SYNC_RECV_SB_DATA \<and> recv_offset b' = recv_offset b
    \<and> recv_data_len b' = ws ! 3 \<and> restore_state_on_resume b' \<and> same_track b b'
    \<and> copy_ok ((sbuf (player b))\<lparr>streambuf_slot_cnt_stale := slots, streambuf_state_sync := ws\<rparr>) (sbuf (player b')) []"
proof -
  obtain st where st: "stream_rel (sbuf (player b)) st" "closed st" using assms(3) by (auto simp: waiting_ok_def)
  obtain sb where sb: "streambuf_flush (sbuf (player b)) = Some sb" "stream_rel sb (snd (stream_spec Sb_flush st))"
    using flush_refines [OF st(1)] by (auto split: Option.bind_splits)
  have keep: "streambuf_state_sync sb = streambuf_state_sync (sbuf (player b))" "length (streambuf_slot_cnt_stale sb) = 9"
    using sb(1) by (auto simp: streambuf_flush_def Let_def sb_unlock_def sb_lock_def split: Option.bind_splits)
  have len: "length (streambuf_state_sync sb) = 4" using assms(3) keep(1) by (simp add: waiting_ok_def)
  let ?sb = "sb\<lparr>streambuf_fifo := (streambuf_fifo sb)\<lparr>lock := False\<rparr>, streambuf_slot_cnt_stale := slots, streambuf_state_sync := ws\<rparr>"
  have wr: "streambuf_sync_write_state buf 52 (sbuf (player b)) = Some (ws ! 3, ?sb)"
    using sb(1) keep(2) len assms(2,4,5,6,7) by (simp add: streambuf_sync_write_state_def Let_def sb_lock_def fifo2_lock_def)
  have copy: "copy_ok ((sbuf (player b))\<lparr>streambuf_slot_cnt_stale := slots, streambuf_state_sync := ws\<rparr>) ?sb []"
    using sb(2) st(2) by (simp add: copy_ok_def stream_rel_def stream_rel_simps unread_def unat_eq_zero)
  show ?thesis using assms(1,8) wr copy
    by (simp add: audio_sync_state_recv_def set_sbuf_def decode_audio_lock_def fifo_lock_def Let_def same_track_def lock_audio_def)
qed

lemma recv_data:
  assumes "sync_state b = SYNC_RECV_SB_DATA" "copy_ok sa (sbuf (player b)) bs" "length bs + n < stream_cap" "0 < n" "n \<le> length buf"
    "recv_offset b = of_nat (length bs)" "recv_data_len b = of_nat t" "length bs + n \<le> t" "t < stream_cap"
  shows "\<exists>b'. audio_sync_state_recv buf (of_nat n) b = Some (if length bs + n = t then 0 else 1, b')
    \<and> sync_state b' = (if length bs + n = t then SYNC_RECV_DONE else SYNC_RECV_SB_DATA) \<and> recv_offset b' = of_nat (length bs + n)
    \<and> recv_data_len b' = recv_data_len b \<and> restore_state_on_resume b' = restore_state_on_resume b \<and> same_track b b'
    \<and> copy_ok sa (sbuf (player b')) (bs @ take n buf)"
proof -
  let ?f = "(streambuf_fifo (sbuf (player b)))\<lparr>lock := True\<rparr>" and ?n = "of_nat n :: u32"
  have n: "unat ?n = n" using assms(3) by (intro unat_of_nat_cap) simp
  have zero: "?n \<noteq> 0" using n assms(4) by auto
  obtain f where f: "fifo2_enq ?f buf ?n = Some (?n, f)" "fifo2_ok f" "lock f" "fsize f = STREAMBUF_SIZE"
      "fifo2_stale f = []" "fifo2_fresh f = bs @ take n buf"
    using fifo2_enq_ok [of ?f ?n buf] assms(2,3,5) n by (auto simp: copy_ok_def stream_cap_def)
  let ?sb = "(sbuf (player b))\<lparr>streambuf_fifo := f\<lparr>lock := False\<rparr>\<rparr>"
  have wr: "streambuf_sync_write_data buf ?n (sbuf (player b)) = Some (?n, ?sb)"
    using f(1,3) by (simp add: streambuf_sync_write_data_def Let_def sb_lock_def fifo2_lock_def)
  have copy: "copy_ok sa ?sb (bs @ take n buf)" using assms(2) f by (simp add: copy_ok_def)
  have "(of_nat t :: u32) - (of_nat (length bs) + ?n) = of_nat (t - (length bs + n))" using assms(8) by (simp add: of_nat_diff)
  moreover have "unat (of_nat (t - (length bs + n)) :: u32) = t - (length bs + n)" using assms(9) by (intro unat_of_nat_cap) simp
  then have "(of_nat (t - (length bs + n)) :: u32) = 0 \<longleftrightarrow> length bs + n = t" using assms(8) unat_eq_zero [of "of_nat (t - (length bs + n)) :: u32"] by auto
  ultimately have fin: "recv_data_len b - (recv_offset b + ?n) = 0 \<longleftrightarrow> length bs + n = t" using assms(6,7) by simp
  show ?thesis using assms(1,6) wr copy zero fin
    by (simp add: audio_sync_state_recv_def set_sbuf_def decode_audio_lock_def fifo_lock_def Let_def same_track_def lock_audio_def)
qed

section \<open>A packet from one device to the other\<close>

lemma sender_okD:
  assumes "sender_ok a st"
  shows "stream_rel (sbuf (player a)) st" "length (streambuf_slot_cnt_stale (sbuf (player a))) = 9"
    "length (streambuf_state_sync (sbuf (player a))) = 4" "streambuf_state_sync (sbuf (player a)) ! 3 = of_nat (length (contents st))"
    "0 < length (contents st)" "length (contents st) < stream_cap"
proof -
  show st: "stream_rel (sbuf (player a)) st" and "length (streambuf_state_sync (sbuf (player a))) = 4"
    "streambuf_state_sync (sbuf (player a)) ! 3 = of_nat (length (contents st))" "0 < length (contents st)"
    using assms by (simp_all add: sender_ok_def Let_def)
  show "length (streambuf_slot_cnt_stale (sbuf (player a))) = 9" using st by (simp add: stream_rel_def stale_rel_def slot_rel_def)
  show "length (contents st) < stream_cap" using stream_relD(8) [OF st] by (simp add: contents_def)
qed

lemma sender_ok_unlock:
  "sender_ok a st \<Longrightarrow> sbuf (player a') = (sbuf (player a))\<lparr>streambuf_fifo := (streambuf_fifo (sbuf (player a)))\<lparr>lock := False\<rparr>\<rparr> \<Longrightarrow> sender_ok a' st"
  by (simp add: sender_ok_def Let_def)

lemma copy_ok_cong:
  "copy_ok sa sb bs \<Longrightarrow> streambuf_slot_cnt_stale sc = streambuf_slot_cnt_stale sa \<Longrightarrow> streambuf_state_sync sc = streambuf_state_sync sa \<Longrightarrow> copy_ok sc sb bs"
  by (simp add: copy_ok_def)

lemma packet_track:
  assumes "sync_rel pos (a, b) (Begun, st)" "52 \<le> unat len"
  shows "\<exists>ab. send_packet len (a, b) = Some (1, ab) \<and> sync_rel pos ab (Described, st)"
proof -
  let ?buf = "put_at 8 (be64 (sync_discarded_samples a)) (put_at 0 (be64 (current_track_jiffies a)) (replicate (unat len) 0))"
  have p: "sync_state a = SYNC_READY_SYNC_TO" "sync_state b = SYNC_READY_SYNC_WAIT" "waiting_ok (sbuf (player b))" "sender_ok a st"
    using assms(1) by (simp_all add: sync_rel_def)
  obtain a' where a': "audio_sync_state_send (replicate (unat len) 0) len a = Some ((1, 16, ?buf), a')" "sync_state a' = SYNC_SEND_SB_STATE"
      "send_offset a' = 0" "sbuf (player a') = sbuf (player a)" "same_track a a'"
    using send_track [OF p(1) assms(2), of "replicate (unat len) 0"] by auto
  have buf: "16 \<le> length ?buf" "get_at 0 8 ?buf = be64 (current_track_jiffies a)" "get_at 8 8 ?buf = be64 (sync_discarded_samples a)"
    using assms(2) by (auto simp: two_fields)
  obtain b' where b': "audio_sync_state_recv ?buf 16 b = Some (1, b')" "sync_state b' = SYNC_RECV_SB_STATE" "recv_offset b' = 0"
      "sbuf (player b') = sbuf (player b)" "current_track_jiffies b' = current_track_jiffies a" "sync_discarded_samples b' = sync_discarded_samples a"
    using recv_track [OF p(2) buf(1)] by (auto simp: buf(2,3))
  have "send_packet len (a, b) = Some (1, a', b')" using a'(1) b'(1) by (simp add: send_packet_def)
  moreover have "sync_rel pos (a', b') (Described, st)" using a' b' p(3,4) assms(1) by (simp add: sync_rel_def sender_ok_def same_track_def)
  ultimately show ?thesis by blast
qed

lemma packet_description:
  assumes "sync_rel pos (a, b) (Described, st)" "52 \<le> unat len"
  shows "\<exists>ab. send_packet len (a, b) = Some (1, ab) \<and> sync_rel pos ab (Copied 0, st)"
proof -
  let ?sa = "sbuf (player a)"
  let ?buf = "put_at 36 (u32_bytes (streambuf_state_sync ?sa)) (put_at 0 (u32_bytes (streambuf_slot_cnt_stale ?sa)) (replicate (unat len) 0))"
  have p: "sync_state a = SYNC_SEND_SB_STATE" "send_offset a = 0" "sync_state b = SYNC_RECV_SB_STATE" "recv_offset b = 0"
      "waiting_ok (sbuf (player b))" "same_track a b" "sender_ok a st"
    using assms(1) by (simp_all add: sync_rel_def)
  note s = sender_okD [OF p(7)]
  obtain a' where a': "audio_sync_state_send (replicate (unat len) 0) len a = Some ((1, 52, ?buf), a')" "sync_state a' = SYNC_SEND_SB_DATA"
      "send_offset a' = 0" "sbuf (player a') = ?sa\<lparr>streambuf_fifo := (streambuf_fifo ?sa)\<lparr>lock := False\<rparr>\<rparr>" "same_track a a'"
    using send_description [OF p(1) assms(2) _ s(2,3), of "replicate (unat len) 0"] p(2) by auto
  have buf: "52 \<le> length ?buf" "get_at 0 36 ?buf = u32_bytes (streambuf_slot_cnt_stale ?sa)" "get_at 36 16 ?buf = u32_bytes (streambuf_state_sync ?sa)"
    using assms(2) s(2,3) by (auto simp: two_fields)
  have "streambuf_state_sync ?sa ! 3 \<noteq> 0" using s(4,5,6) unat_of_nat_cap [of "length (contents st)"] by auto
  then obtain b' where b': "audio_sync_state_recv ?buf 52 b = Some (1, b')" "sync_state b' = SYNC_RECV_SB_DATA" "recv_offset b' = 0"
      "recv_data_len b' = of_nat (length (contents st))" "restore_state_on_resume b'" "same_track b b'"
      "copy_ok ((sbuf (player b))\<lparr>streambuf_slot_cnt_stale := streambuf_slot_cnt_stale ?sa, streambuf_state_sync := streambuf_state_sync ?sa\<rparr>) (sbuf (player b')) []"
    using recv_description [OF p(3) buf(1) p(5) buf(2,3) s(2,3)] p(4) s(4) by auto
  have "send_packet len (a, b) = Some (1, a', b')" using a'(1) b'(1) by (simp add: send_packet_def)
  moreover have "sync_rel pos (a', b') (Copied 0, st)"
    using a' b' p(6) s(5) sender_ok_unlock [OF p(7) a'(4)] assms(1) by (simp add: sync_rel_def same_track_def copy_ok_def)
  ultimately show ?thesis by blast
qed

lemma packet_data:
  assumes "sync_rel pos (a, b) (Copied k, st)" "52 \<le> unat len" "unat len \<le> 2 ^ 31"
  shows "\<exists>ab. send_packet len (a, b) = Some (if k + unat len < length (contents st) then 1 else 0, ab)
    \<and> sync_rel pos ab (if k + unat len < length (contents st) then Copied (k + unat len) else Complete, st)"
proof -
  define t where "t = length (contents st)"
  define n where "n = min (unat len) (t - k)"
  let ?sa = "sbuf (player a)" and ?buf = "put_at 0 (take n (drop k (contents st))) (replicate (unat len) 0) :: bytes"
  have p: "k < t" "sync_state a = SYNC_SEND_SB_DATA" "send_offset a = of_nat k" "sync_state b = SYNC_RECV_SB_DATA" "recv_offset b = of_nat k"
      "recv_data_len b = of_nat t" "copy_ok ?sa (sbuf (player b)) (take k (contents st))" "same_track a b" "restore_state_on_resume b" "sender_ok a st"
    using assms(1) by (simp_all add: sync_rel_def t_def)
  note s = sender_okD [OF p(10), folded t_def]
  have n: "0 < n" "k + n \<le> t" "n \<le> unat len" "k + n = t \<longleftrightarrow> \<not> k + unat len < t" "n \<noteq> unat len \<Longrightarrow> k + n = t"
      "k + unat len < t \<Longrightarrow> n = unat len"
    using p(1) assms(2) by (auto simp: n_def)
  have k: "length (take k (contents st)) = k" using p(1) by (simp add: t_def)
  obtain a' r where a': "audio_sync_state_send (replicate (unat len) 0) len a = Some ((r, of_nat n, ?buf), a')"
      "sync_state a' = (if n = unat len then SYNC_SEND_SB_DATA else SYNC_SEND_DONE)" "send_offset a' = of_nat (k + n)"
      "sbuf (player a') = ?sa\<lparr>streambuf_fifo := (streambuf_fifo ?sa)\<lparr>lock := False\<rparr>\<rparr>" "same_track a a'"
    using send_data [OF p(2) assms(2,3) _ s(1) p(3), of "replicate (unat len) 0" n] p(1) by (auto simp: n_def t_def)
  have bytes: "length (take n (drop k (contents st))) = n" using n(2) by (simp add: t_def)
  have buf: "length ?buf = unat len" "take n ?buf = take n (drop k (contents st))" using bytes n(3) by simp_all
  obtain b' where b': "audio_sync_state_recv ?buf (of_nat n) b = Some (if k + n = t then 0 else 1, b')"
      "sync_state b' = (if k + n = t then SYNC_RECV_DONE else SYNC_RECV_SB_DATA)" "recv_offset b' = of_nat (k + n)"
      "recv_data_len b' = of_nat t" "restore_state_on_resume b'" "same_track b b'" "copy_ok ?sa (sbuf (player b')) (take (k + n) (contents st))"
    using recv_data [OF p(4) p(7), of n ?buf t, unfolded k] n p(5,6,9) s(6) buf by (auto simp: take_add)
  have offset: "of_nat k + len = of_nat t" if "k + unat len = t" using arg_cong [OF that, of "of_nat :: nat \<Rightarrow> u32"] by simp
  have "send_packet len (a, b) = Some (if k + n = t then 0 else 1, a', b')" using a'(1) b'(1) by (simp add: send_packet_def)
  moreover have "current_track_jiffies a' = fst pos" "sync_discarded_samples a' = snd pos" using a'(5) assms(1) by (simp_all add: sync_rel_def same_track_def)
  then have "sync_rel pos (a', b') (if k + n = t then Complete else Copied (k + n), st)"
    using a'(2-5) b'(2-7) p(8) n sender_ok_unlock [OF p(10) a'(4)] offset
    by (auto simp: sync_rel_def same_track_def copy_ok_def t_def)
  ultimately show ?thesis using n(4,6) unfolding t_def by (cases "k + unat len < length (contents st)") auto
qed

lemma packet_late:
  assumes "sync_rel pos (a, b) (Complete, st)" "52 \<le> unat len" "unat len \<le> 2 ^ 31"
  shows "\<exists>ab. send_packet len (a, b) = Some (- 1, ab) \<and> sync_rel pos ab (Complete, st)"
proof -
  let ?buf = "replicate (unat len) 0 :: bytes" and ?sa = "sbuf (player a)"
  have p: "sync_state b = SYNC_RECV_DONE" "sender_ok a st" "copy_ok ?sa (sbuf (player b)) (contents st)" "same_track a b" "restore_state_on_resume b"
    using assms(1) by (simp_all add: sync_rel_def)
  have "\<exists>a' r. audio_sync_state_send ?buf len a = Some ((r, 0, ?buf), a') \<and> sync_state a' = SYNC_SEND_DONE \<and> same_track a a'
      \<and> (sbuf (player a') = ?sa \<or> sbuf (player a') = ?sa\<lparr>streambuf_fifo := (streambuf_fifo ?sa)\<lparr>lock := False\<rparr>\<rparr>)"
  proof (cases "sync_state a = SYNC_SEND_DONE")
    case True
    have "len \<noteq> 0" using assms(2) by auto
    then show ?thesis using True
      by (simp add: audio_sync_state_send_def decode_audio_lock_def fifo_lock_def Let_def same_track_def lock_audio_def)
  next
    case False
    then have "sync_state a = SYNC_SEND_SB_DATA" "send_offset a = of_nat (length (contents st))" using assms(1) by (simp_all add: sync_rel_def)
    from send_data [OF this(1) assms(2,3) _ sender_okD(1) [OF p(2)] this(2), of ?buf 0] show ?thesis
      using assms(2) by (auto simp: put_at_def)
  qed
  then obtain a' r where a': "audio_sync_state_send ?buf len a = Some ((r, 0, ?buf), a')" "sync_state a' = SYNC_SEND_DONE" "same_track a a'"
      "sbuf (player a') = ?sa \<or> sbuf (player a') = ?sa\<lparr>streambuf_fifo := (streambuf_fifo ?sa)\<lparr>lock := False\<rparr>\<rparr>" by blast
  have "sender_ok a' st" using p(2) a'(4) by (auto simp: sender_ok_def Let_def)
  moreover have "send_packet len (a, b) = Some (- 1, a', b)" using a'(1) by (simp add: send_packet_def audio_sync_state_recv_def)
  ultimately show ?thesis using a' p assms(1) by (auto simp: sync_rel_def copy_ok_def same_track_def)
qed

lemma packet_refines:
  assumes "sync_rel pos (a, b) (p, st)" "52 \<le> unat len" "unat len \<le> 2 ^ 31"
  shows "\<exists>ab. sync_call len Packet (a, b) = Some (fst (sync_spec len Packet (p, st)), ab) \<and> sync_rel pos ab (snd (sync_spec len Packet (p, st)))"
proof (cases p)
  case Begun
  then show ?thesis using packet_track [of pos a b st len] assms by auto
next
  case Described
  then show ?thesis using packet_description [of pos a b st len] assms by auto
next
  case (Copied k)
  then obtain ab where "send_packet len (a, b) = Some (if k + unat len < length (contents st) then 1 else 0, ab)"
    "sync_rel pos ab (if k + unat len < length (contents st) then Copied (k + unat len) else Complete, st)"
    using packet_data [of pos a b k st len] assms by auto
  then show ?thesis using Copied by (cases "k + unat len < length (contents st)") simp_all
next
  case Complete
  then show ?thesis using packet_late [of pos a b st len] assms by auto
qed

lemma sync_call_refines:
  assumes "sync_rel pos ab ps" "sync_pre len x ps"
  shows "\<exists>ab'. sync_call len x ab = Some (fst (sync_spec len x ps), ab') \<and> sync_rel pos ab' (snd (sync_spec len x ps))"
proof -
  obtain a b p st where e: "ab = (a, b)" "ps = (p, st)" by (metis surj_pair)
  show ?thesis
  proof (cases x)
    case (Sender_call y)
    then show ?thesis using decoder_call_sync [of pos a b p st y len] assms unfolding e by simp
  next
    case Packet
    then show ?thesis using packet_refines [of pos a b p st len] assms unfolding e by simp
  qed
qed

interpretation sy: call_refinement "sync_rel pos" "sync_call len" "sync_spec len" "sync_pre len" for pos len
  by unfold_locales (rule sync_call_refines)

section \<open>How many packets it takes\<close>

text \<open>The packets that are still missing.\<close>

fun packets_left :: "u32 \<Rightarrow> sync_progress \<times> stream \<Rightarrow> nat" where
  "packets_left len (Begun, st) = 2 + (length (contents st) + unat len - 1) div unat len"
| "packets_left len (Described, st) = 1 + (length (contents st) + unat len - 1) div unat len"
| "packets_left len (Copied k, st) = (length (contents st) - k + unat len - 1) div unat len"
| "packets_left len (Complete, st) = 0"

definition packets :: "sync_step list \<Rightarrow> nat" where
  "packets xs = length (filter (\<lambda>x. x = Packet) xs)"

lemma packets_simps [simp]: "packets [] = 0" "packets (Packet # xs) = Suc (packets xs)" "packets (Sender_call x # xs) = packets xs"
  by (simp_all add: packets_def)

definition frozen_in :: "stream \<Rightarrow> sync_progress \<times> stream \<Rightarrow> bool" where
  "frozen_in st ps \<longleftrightarrow> frozen (snd ps) \<and> contents (snd ps) = contents st \<and> marks (snd ps) = marks st
     \<and> (\<forall>k. fst ps = Copied k \<longrightarrow> k < length (contents st))"

lemma sync_spec_progress:
  assumes "frozen_in st ps" "contents st \<noteq> []" "sync_pre len x ps"
  shows "frozen_in st (snd (sync_spec len x ps))"
    "packets_left len (snd (sync_spec len x ps)) = packets_left len ps - (if x = Packet then 1 else 0)"
proof -
  obtain p t where ps: "ps = (p, t)" by (cases ps)
  have t: "frozen t" "contents t = contents st" "marks t = marks st" "\<And>k. p = Copied k \<Longrightarrow> k < length (contents st)"
    using assms(1) ps by (auto simp: frozen_in_def)
  have "frozen_in st (snd (sync_spec len x ps)) \<and> packets_left len (snd (sync_spec len x ps)) = packets_left len ps - (if x = Packet then 1 else 0)"
  proof (cases x)
    case (Sender_call y)
    then have "decoder_call y" using assms(3) ps by simp
    then show ?thesis using Sender_call t ps contents_kept [of y t] by (cases p) (auto simp: frozen_in_def)
  next
    case Packet
    then have len: "52 \<le> unat len" using assms(3) ps by simp
    show ?thesis
    proof (cases p)
      case (Copied k)
      let ?m = "length (contents st) - k"
      have m: "0 < ?m" using t(4) Copied by simp
      show ?thesis
      proof (cases "k + unat len < length (contents st)")
        case True
        then have e: "?m + unat len - 1 = (length (contents st) - (k + unat len) + unat len - 1) + unat len" using len by linarith
        have "(?m + unat len - 1) div unat len = Suc ((length (contents st) - (k + unat len) + unat len - 1) div unat len)"
          unfolding e by (subst div_add_self2) (use len in auto)
        then show ?thesis using True Packet Copied ps t by (simp add: frozen_in_def)
      next
        case False
        then have "(?m + unat len - 1) div unat len = 1" using m len by (intro div_nat_eqI) auto
        then show ?thesis using False Packet Copied ps t by (simp add: frozen_in_def)
      qed
    qed (use Packet ps t assms(2) in \<open>auto simp: frozen_in_def\<close>)
  qed
  then show "frozen_in st (snd (sync_spec len x ps))"
    "packets_left len (snd (sync_spec len x ps)) = packets_left len ps - (if x = Packet then 1 else 0)" by simp_all
qed

lemma sync_run_progress:
  "frozen_in st ps \<Longrightarrow> contents st \<noteq> [] \<Longrightarrow> spec_allows (sync_pre len) (sync_spec len) xs ps \<Longrightarrow>
   frozen_in st (snd (spec_run (sync_spec len) xs ps)) \<and> packets_left len (snd (spec_run (sync_spec len) xs ps)) = packets_left len ps - packets xs"
proof (induction xs arbitrary: ps)
  case (Cons x xs)
  then show ?case using sync_spec_progress [of st ps len x]
    by (cases x) (auto simp: case_prod_unfold Let_def)
qed simp

lemma sync_run_complete:
  assumes "frozen st" "contents st \<noteq> []" "spec_allows (sync_pre len) (sync_spec len) xs (Begun, st)"
    "2 + (length (contents st) + unat len - 1) div unat len \<le> packets xs" "52 \<le> unat len"
  shows "\<exists>st'. snd (spec_run (sync_spec len) xs (Begun, st)) = (Complete, st') \<and> contents st' = contents st \<and> marks st' = marks st"
proof -
  obtain p st' where e: "snd (spec_run (sync_spec len) xs (Begun, st)) = (p, st')" by (metis surj_pair)
  have "frozen_in st (Begun, st)" using assms(1) by (simp add: frozen_in_def)
  from sync_run_progress [OF this assms(2,3)] e assms(4) have f: "frozen_in st (p, st')" and l: "packets_left len (p, st') = 0" by simp_all
  have "p = Complete"
  proof (cases p)
    case (Copied k)
    then have "k < length (contents st)" "contents st' = contents st" using f by (auto simp: frozen_in_def)
    then have "0 < (length (contents st') - k + unat len - 1) div unat len" using assms(5) by (simp add: div_greater_zero_iff)
    then show ?thesis using l Copied by simp
  qed (use l in auto)
  then show ?thesis using e f by (simp add: frozen_in_def)
qed

section \<open>Starting and restoring\<close>

lemma freeze_ok:
  assumes "stream_rel sb st"
  shows "\<exists>sb'. streambuf_lock_state True sb = Some sb' \<and> stream_rel sb' (st\<lparr>frozen := True, closed := True\<rparr>)
    \<and> streambuf_state_sync sb' = [streambuf_cmd_cnt_stale sb', eslot sb', sslot sb', of_nat (length (contents st))]"
proof -
  note d = stream_relD [OF assms]
  obtain sb' where sb': "streambuf_lock_state True sb = Some sb'" "stream_rel sb' (st\<lparr>frozen := True, closed := True\<rparr>)"
    using freeze_refines [OF assms] by (auto split: Option.bind_splits)
  have "fifo2_bytes_used ((streambuf_fifo sb)\<lparr>lock := True\<rparr>) True = Some (of_nat (length (contents st)))" using d by (simp add: contents_def)
  then have "streambuf_state_sync sb' = [streambuf_cmd_cnt_stale sb', eslot sb', sslot sb', of_nat (length (contents st))]"
    using sb'(1) by (auto simp: streambuf_lock_state_def Let_def sb_lock_def fifo2_lock_def)
  then show ?thesis using sb' by blast
qed

definition frozen_stream :: "stream \<Rightarrow> stream" where
  "frozen_stream st = st\<lparr>frozen := True, closed := True\<rparr>"

lemma frozen_stream_simps [simp]:
  "frozen (frozen_stream st)" "contents (frozen_stream st) = contents st" "marks (frozen_stream st) = marks st"
  by (simp_all add: frozen_stream_def contents_def)

lemma prepare_ok:
  assumes "stream_rel (sbuf (player a)) st" "contents st \<noteq> []" "decoder a = Some m" "decoder_data a = Some d" "discarded_samples m d = Some n"
    "stream_rel (sbuf (player b)) st'"
  shows "\<exists>a' b'. audio_prepare_sync_to True a = Some a' \<and> audio_prepare_sync_wait True b = Some b' \<and> sync_rel (current_track_jiffies a, current_track_discarded_samples a + (n + 1152)) (a', b') (Begun, frozen_stream st)"
proof -
  obtain sa where sa: "streambuf_lock_state True (sbuf (player a)) = Some sa" "stream_rel sa (frozen_stream st)"
      "streambuf_state_sync sa = [streambuf_cmd_cnt_stale sa, eslot sa, sslot sa, of_nat (length (contents st))]"
    using freeze_ok [OF assms(1)] by (auto simp: frozen_stream_def)
  obtain sb where sb: "streambuf_lock_state True (sbuf (player b)) = Some sb" "stream_rel sb (st'\<lparr>frozen := True, closed := True\<rparr>)"
      "length (streambuf_state_sync sb) = 4"
    using freeze_ok [OF assms(6)] by auto
  have "waiting_ok sb" unfolding waiting_ok_def using sb(2,3) by (intro conjI exI [of _ "st'\<lparr>frozen := True, closed := True\<rparr>"]) simp_all
  then show ?thesis using sa sb(1) assms(2-5)
    by (simp add: audio_prepare_sync_to_def audio_prepare_sync_wait_def set_sbuf_def lock_audio_def decode_audio_lock_def fifo_lock_def Let_def
        sync_rel_def sender_ok_def)
qed

text \<open>
  The stream of the sender as data and commands: what it holds, read or not, begins with data \<open>r\<close>
  and goes on with the commands of \<open>lt\<close>, each with the data behind it.
\<close>

definition holds :: "stream \<Rightarrow> bytes \<Rightarrow> (bytes \<times> bytes) list \<Rightarrow> bool" where
  "holds st r lt \<longleftrightarrow> contents st = r @ concat (map (\<lambda>(c, d). c @ d) lt) \<and> marks st = length r # map (\<lambda>(c, d). length d) lt
     \<and> (\<forall>x \<in> set lt. 4 \<le> length (fst x))"

definition restored :: "bytes \<Rightarrow> (bytes \<times> bytes) list \<Rightarrow> stream" where
  "restored r lt = \<lparr>old = [], ready = r, later = lt, marks = length r # map (\<lambda>(c, d). length d) lt, frozen = False, closed = True,
     thaw_data = 0, thaw_cmd = 0\<rparr>"

lemma restore_ok:
  assumes "sync_rel pos (a, b) (Complete, st)" "holds st r lt"
  shows "\<exists>sb. streambuf_restore_state (sbuf (player b)) = Some sb \<and> stream_rel sb (restored r lt)"
proof -
  let ?sa = "sbuf (player a)" and ?sb = "sbuf (player b)"
  let ?sb' = "?sb\<lparr>streambuf_fifo := (streambuf_fifo ?sb)\<lparr>lock := False\<rparr>, streambuf_slot_cnt := streambuf_slot_cnt_stale ?sa,
      streambuf_cmd_cnt := streambuf_cmd_cnt_stale ?sa, streambuf_cmd_cnt_stale := streambuf_cmd_cnt_stale ?sa,
      eslot := eslot ?sa, dslot := sslot ?sa, sslot := sslot ?sa\<rparr>"
  have c: "copy_ok ?sa ?sb (contents st)" and a: "sender_ok a st" using assms(1) by (simp_all add: sync_rel_def)
  have "streambuf_restore_state ?sb = Some ?sb'"
    using c a by (simp add: streambuf_restore_state_def Let_def copy_ok_def sender_ok_def sb_lock_def fifo2_lock_def)
  moreover have "stale_rel ?sa (marks st)" using a by (simp add: sender_ok_def Let_def stream_rel_def)
  then have "stale_rel ?sb' (marks st)" "read_rel ?sb' (marks st)" using c by (simp_all add: stale_rel_def read_rel_def copy_ok_def)
  moreover have "ring_rel (streambuf_fifo ?sb') (restored r lt)" using c assms(2) by (simp add: ring_rel_def copy_ok_def restored_def unread_def holds_def)
  moreover have "flag_rel ?sb' (restored r lt)" using c by (simp add: flag_rel_def copy_ok_def restored_def)
  moreover have "counts (restored r lt) = marks st" "marks (restored r lt) = marks st" using assms(2) by (simp_all add: counts_def restored_def holds_def)
  moreover have "stream_ok (restored r lt)"
    using assms(2) by (simp add: stream_ok_def restored_def marks_ok_def counts_def kept_def cmds_ok_def holds_def)
  ultimately show ?thesis by (simp add: stream_rel_def)
qed

lemma holds_cong: "contents st' = contents st \<Longrightarrow> marks st' = marks st \<Longrightarrow> holds st' r lt = holds st r lt"
  by (simp add: holds_def)

end
