(* ===== verification/Audio_Properties.thy ===== *)
theory Audio_Properties
  imports Audio_Playing Audio_Sync
begin

text \<open>
  The properties of the audio library: the ring and the stream buffer as queues, the path of PCM
  data from the stream to the device, and the stream handed to another device.
\<close>

text \<open>A device with a stream buffer and nothing else to play.\<close>

definition silent_audio :: "streambuf \<Rightarrow> decode_pcm audio" where
  "silent_audio sb = set_sbuf sb (pcm_audio \<lparr>lock = False, rptr = 0, wptr = 0, fsize = 0\<rparr>
     \<lparr>mq_buffer = [], mq_fifo = \<lparr>lock = False, rptr = 0, wptr = 0, fsize = 0\<rparr>\<rparr> [] [] [] [])"

text \<open>
  C36: The ring of \<open>fifo2.c\<close> is a queue. Over every sequence of writes, reads, reads at an offset,
  discards and flushes, of any sizes, no call leaves its buffer or fails an assertion, each returns
  what the queue of stale and fresh bytes gives (writes that do not fit and reads of too much change
  nothing), and the ring ends up with the contents of the queue.
\<close>

theorem fifo2_is_queue:
  assumes "0 < n" "unat n \<le> 2 ^ 31" "length buf = unat n" "spec_allows queue_pre queue_spec calls (unat n, [], [])"
  shows "\<exists>f'. call_run fifo2_call calls (fifo2_init f buf n) = Some (fst (spec_run queue_spec calls (unat n, [], [])), f')
    \<and> queue_rel f' (snd (spec_run queue_spec calls (unat n, [], [])))"
  using f2.run_refines [OF fifo2_init_rel [OF assms(1-3)] assms(4)] .

theorem fifo2_is_queue_witness:
  "\<exists>f'. call_run fifo2_call [Enq [1, 2, 3, 4, 5], Deq 3 False, Enq [6, 7, 8], Discard 2, Enq [6, 7], Deq 4 True, Read 0 1 True]
      (fifo2_init \<lparr>lock = False, rptr = 5, wptr = 0, fsize = 0, base = [], sptr = 0\<rparr> (replicate 8 0) 8)
    = Some ([(5, []), (3, [1, 2, 3]), (0, []), (2, []), (2, []), (4, [4, 5, 6, 7]), (0, [])], f') \<and> queue_rel f' (8, [], [])"
  using fifo2_is_queue [of 8 "replicate 8 0" "[Enq [1, 2, 3, 4, 5], Deq 3 False, Enq [6, 7, 8], Discard 2, Enq [6, 7], Deq 4 True, Read 0 1 True]"
      "\<lparr>lock = False, rptr = 5, wptr = 0, fsize = 0, base = [], sptr = 0\<rparr>"]
  by (simp add: Let_def del: call_run.simps replicate.simps)

text \<open>
  C37: The stream buffer of \<open>streambuf.c\<close> keeps data and commands in order. From its start, over every
  sequence of feeding, reading, queueing and taking commands, discarding, flushing, freezing and
  thawing that keeps to the sizes of \<open>stream_pre\<close>, no call fails and no loop runs forever; data is read in the
  order it was fed and never across a command, each command comes up exactly when the data before it
  is read, and a frozen buffer keeps everything until it is thawed.
\<close>

theorem streambuf_is_stream:
  assumes "spec_allows stream_pre stream_spec calls empty_stream"
  shows "\<exists>sb'. call_run streambuf_call calls (streambuf_init streambuf_globals) = Some (fst (spec_run stream_spec calls empty_stream), sb')
    \<and> stream_rel sb' (snd (spec_run stream_spec calls empty_stream))"
  using sb.run_refines [OF streambuf_init_rel assms] .

theorem streambuf_is_stream_witness:
  "\<exists>sb'. call_run streambuf_call [Feed [1, 2, 3], Cmd_enq [0x80, 0, 4, 7], Feed [4, 5], Cmd_ready, Data_deq 0 9, Freeze, Sb_discard 3 True,
       Cmd_ready, Cmd_deq 4, Data_deq 0 1, Thaw, Freebytes] (streambuf_init streambuf_globals)
    = Some ([(1, []), (1, []), (1, []), (0, []), (3, [1, 2, 3]), (0, []), (3, []), (0x80000407, []), (4, [0x80, 0, 4, 7]), (1, [4]),
       (0, []), (1048569, [])], sb')
    \<and> stream_rel sb' \<lparr>old = [0x80, 0, 4, 7, 4], ready = [5], later = [], marks = [Suc 1], frozen = False, closed = False,
       thaw_data = 0, thaw_cmd = 0\<rparr>"
  using streambuf_is_stream [of "[Feed [1, 2, 3], Cmd_enq [0x80, 0, 4, 7], Feed [4, 5], Cmd_ready, Data_deq 0 9, Freeze, Sb_discard 3 True,
       Cmd_ready, Cmd_deq 4, Data_deq 0 1, Thaw, Freebytes]"]
  by (simp add: Let_def empty_stream_def add_data_def add_last_def unread_def stream_cap_def read_size_def kept_def counts_def del: call_run.simps)







end
