(* ===== verification/Spec2Isabelle.thy ===== *)
theory Spec2Isabelle
  imports Ioutil_Properties Audio_Properties Audio_Control Audio_I2s
begin

text \<open>
  A verification library for the firmware and the tools of the Beep music player
  (\<open>device/src\<close>).

  The input controller of the device is an STM8L microcontroller on the I2C bus of the main
  board. Its flash holds a bootloader (\<open>iomcu/bootloader\<close>) and an application
  (\<open>iomcu/controller\<close>: LED array, knob and buttons); the main board talks to both with
  the register protocol of \<open>iomcu/common\<close>, and \<open>iomcu/ioutil\<close> installs applications
  through the bootloader.

  Theories:

  \<^item> \<open>Beep_Prelude\<close>: types, big endian fields, buffer updates, runs of a step function
    and the interface \<open>machine_invariant\<close>.
  \<^item> \<open>Iomcu_Checksum\<close>: the checksums of \<open>common/iomcu_checksum.c\<close>; the locale
    \<open>lfsr\<close> carries error detection for both.
  \<^item> \<open>Btldr_State\<close>: protocol constants, the globals of the bootloader as the record
    \<open>btldr\<close>, the flash routines.
  \<^item> \<open>Btldr_AppInfo\<close>: the header block and the image check of \<open>bootloader/main.c\<close>.
  \<^item> \<open>Btldr_Commands\<close>: the registers (\<open>bootloader/commands.c\<close>).
  \<^item> \<open>Btldr_Main\<close>: the I2C slave (\<open>bootloader/i2c.c\<close>), the LED chaser and the main loop
    as a step function driven by what the bus hardware shows.
  \<^item> \<open>Btldr_Safety\<close>: the invariant of the bootloader and its consequences for every run.
  \<^item> \<open>Btldr_Bus\<close>, \<open>Btldr_Blocks\<close>: whole bus transactions, flash blocks and application
    information over the bus, message integrity.
  \<^item> \<open>Ctrl_Led\<close>, \<open>Ctrl_Schedule\<close>, \<open>Ctrl_Playback\<close>, \<open>Ctrl_Display\<close>: the LED array of the
    controller (\<open>controller/led.c\<close> and the TIM4 interrupt): table builder, schedules, the
    interrupt playing them, and that what is shown is the PWM table.
  \<^item> \<open>Ctrl_Knob\<close>, \<open>Ctrl_Encoder\<close>: push button and rotary encoder (\<open>controller/knob.c\<close>).
  \<^item> \<open>Ctrl_App\<close>, \<open>Ctrl_Service\<close>, \<open>Ctrl_Protocol\<close>, \<open>Ctrl_Properties\<close>: the application around
    them (registers, interrupts, animations, main loop), its invariant, its register transactions
    and its properties.
  \<^item> \<open>Ioutil_Text\<close>, \<open>Ioutil_Tool\<close>: the host tool (\<open>ioutil/ioutil.c\<close>, \<open>ioutil/i2c.c\<close>): command
    line, texts, register access, flash transfer and commands. The operating system the tool runs
    on (files, memory, time, the I2C device) is a record of functions, a parameter of the model.
  \<^item> \<open>Ioutil_Link\<close>, \<open>Ioutil_Commands\<close>: the contract of a serving bootloader as the locale
    \<open>btldr_link\<close>, and what each command does under it.
  \<^item> \<open>Ioutil_Device\<close>: the contract holds for the bootloader of \<open>Btldr_Main\<close>, every I2C message
    being the bus events the bootloader sees.
  \<^item> \<open>Ioutil_Properties\<close>: tool and device together: installation, read back, erasing, autoboot,
    restart, and the properties of the command line.

  How the parts run. The bootloader polls: \<open>main_step\<close> is one round of its loop on the values the
  I2C peripheral shows. The controller application is interrupt driven: \<open>ctrl_step\<close> handles one
  event, which is a statement of \<open>main\<close>, an interrupt, or an access of the DMA controller or the
  bus; interrupts happen between the statements of \<open>main\<close> and do not nest. The theorems on runs
  hold for every list of events.

  What the lemmas show. Bootloader: no sequence of bus activity starts an application whose check
  fails, writes outside the application area or leaves the message buffer (C1 to C11). Controller:
  the LED tables light every LED for its value, the encoder counter is the winding number of the
  filtered signals, knob events are delivered exactly once, and the interrupt handlers keep the
  invariant under all interleavings (C12 to C25). Tool: with the bootloader model behind the bus
  the commands do what they say, and the loops return on any device (C26 to C36).

  Bounds. The TIM4 handler loops over the operations of a row: fuel \<open>LED_COL_SIZE + 2\<close> is enough
  by C13. The transfer loop of the tool moves at least one byte per round, so the size in bytes is
  enough by C30; the loop waiting for a restarted device is bounded in the code by 49 rounds.
  Integers of the firmware and of the tool are words of the width the code declares.

  Not modelled: the initialisation of clocks, pins and peripherals, which only writes hardware
  registers; the builds \<open>OPTICAL_ENCODER_DEBUG\<close> (except the compression of samples),
  \<open>LED_DISABLE\<close> and \<open>KNOB_DISABLE\<close>; the usage text and the debug output of the tool.
\<close>

end
